(* ===== verification/Prelude.thy ===== *)
theory Prelude
  imports Main "HOL-Library.Word" "HOL-Library.AList"
begin

text \<open>
  Shared vocabulary of the development: machine integers, the Rust standard-library
  operations the sources use (saturating subtraction, absolute difference, big-endian
  conversion, UTF-8 validation), the error type of \<open>sidevers-core/src/error.rs\<close>, the
  \<open>?\<close> operator, and the lemmas on byte lists and association lists that the component
  theories rely on. A \<open>HashMap\<close> is an association list with distinct keys: its order
  stands for the map's unspecified iteration order.
\<close>

section \<open>Automation\<close>

named_theorems wire_iff
  \<open>characterisations of successful reads: \<open>read (rdr pre s) = Inr (x, r') \<longleftrightarrow> ...\<close>\<close>

named_theorems wire_write
  \<open>what a read returns on the bytes the matching writer produced\<close>

named_theorems wf_defs
  \<open>well-formedness predicates of wire values\<close>

section \<open>Machine integers\<close>

type_synonym byte = "8 word"
type_synonym u32 = "32 word"
type_synonym u64 = "64 word"

definition saturating_sub :: "u64 \<Rightarrow> u64 \<Rightarrow> u64" where
  "saturating_sub a b = (if a < b then 0 else a - b)"

definition abs_diff :: "u64 \<Rightarrow> u64 \<Rightarrow> u64" where
  "abs_diff a b = (if a < b then b - a else a - b)"

definition saturating_incr :: "u32 \<Rightarrow> u32" where
  "saturating_incr a = (if unat a + 1 < 2 ^ 32 then a + 1 else a)"

lemma unat_saturating_sub [simp]: "unat (saturating_sub a b) = unat a - unat b"
proof (cases "a < b")
  case True
  then show ?thesis by (simp add: saturating_sub_def word_less_nat_alt)
next
  case False
  then have "b \<le> a" by simp
  then show ?thesis by (simp add: saturating_sub_def unat_sub)
qed

lemma unat_abs_diff:
  "unat (abs_diff a b) = (if unat a < unat b then unat b - unat a else unat a - unat b)"
  by (auto simp: abs_diff_def word_less_nat_alt unat_sub word_le_nat_alt)

lemma abs_diff_sym: "abs_diff a b = abs_diff b a"
  by (auto simp: abs_diff_def not_less)

lemma unat_saturating_incr:
  "unat (saturating_incr a) = min (unat a + 1) (2 ^ 32 - 1)"
  using unsigned_less [of a, where 'a = nat]
  by (auto simp: saturating_incr_def unat_word_ariths min_def)

lemma saturating_incr_ge: "a \<le> saturating_incr a"
  using unsigned_less [of a, where 'a = nat] by (simp add: word_le_nat_alt unat_saturating_incr)

lemma u64_bound [simp]: "unat (x :: u64) < 18446744073709551616"
  using unsigned_less [of x, where 'a = nat] by simp

lemma byte_bound [simp]: "unat (b :: byte) < 256"
  using unsigned_less [of b, where 'a = nat] by simp

section \<open>Big-endian byte strings\<close>

fun be_bytes :: "nat \<Rightarrow> nat \<Rightarrow> byte list" where
  "be_bytes 0 v = []"
| "be_bytes (Suc k) v = word_of_nat (v div 256 ^ k) # be_bytes k v"

fun be_val :: "byte list \<Rightarrow> nat" where
  "be_val [] = 0"
| "be_val (b # bs) = unat b * 256 ^ length bs + be_val bs"

lemma length_be_bytes [simp]: "length (be_bytes k v) = k"
  by (induction k) auto

lemma be_val_bound: "be_val bs < 256 ^ length bs"
proof (induction bs)
  case Nil
  then show ?case by simp
next
  case (Cons b bs)
  have "unat b + 1 \<le> 256" using byte_bound [of b] by linarith
  then have "(unat b + 1) * 256 ^ length bs \<le> 256 * 256 ^ length bs"
    by (rule mult_right_mono) simp
  moreover have "be_val (b # bs) < (unat b + 1) * 256 ^ length bs"
    using Cons by (simp add: algebra_simps)
  ultimately show ?case by (simp only: length_Cons power_Suc)
qed

lemma be_val_be_bytes: "be_val (be_bytes k v) = v mod 256 ^ k"
proof (induction k)
  case 0
  then show ?case by simp
next
  case (Suc k)
  have "unat (word_of_nat (v div 256 ^ k) :: byte) = (v div 256 ^ k) mod 256"
    by (simp add: unat_of_nat)
  moreover have "v mod (256 ^ k * 256) = 256 ^ k * (v div 256 ^ k mod 256) + v mod 256 ^ k"
    by (rule mod_mult2_eq)
  ultimately show ?case using Suc
    by (simp add: mult.commute)
qed

lemma be_bytes_skip: "be_bytes k (a * 256 ^ k + v) = be_bytes k v"
proof (induction k arbitrary: a)
  case 0
  then show ?case by simp
next
  case (Suc k)
  have eq: "a * 256 ^ Suc k + v = (a * 256) * 256 ^ k + v"
    by (simp add: algebra_simps)
  have "(a * 256 ^ Suc k + v) div 256 ^ k = a * 256 + v div 256 ^ k"
    unfolding eq by (subst div_mult_self3) simp_all
  moreover have "(word_of_nat (a * 256 + v div 256 ^ k) :: byte) = word_of_nat (v div 256 ^ k)"
    by (simp add: word_of_nat_eq_iff take_bit_eq_mod del: of_nat_add of_nat_mult)
  ultimately show ?case
    using Suc [of "a * 256"] by (simp add: mult.assoc)
qed

lemma be_bytes_be_val: "be_bytes (length bs) (be_val bs) = bs"
proof (induction bs)
  case Nil
  then show ?case by simp
next
  case (Cons b bs)
  have "(unat b * 256 ^ length bs + be_val bs) div 256 ^ length bs = unat b"
    using be_val_bound [of bs] by simp
  then show ?case using Cons by (simp add: be_bytes_skip)
qed

lemma be_bytes_inj:
  assumes "be_bytes k v = be_bytes k w" "v < 256 ^ k" "w < 256 ^ k"
  shows "v = w"
proof -
  have "be_val (be_bytes k v) = be_val (be_bytes k w)" using assms(1) by simp
  then show ?thesis using assms(2,3) by (simp add: be_val_be_bytes)
qed

section \<open>Errors and the \<open>?\<close> operator\<close>

text \<open>
  The variants of \<open>Error\<close> in \<open>sidevers-core/src/error.rs\<close>. A message is kept as its
  constant text; numbers interpolated into it are left out.
\<close>

datatype error =
    CborEncode string
  | CborDecode string
  | CborNotCanonical string
  | AddressError string
  | SignatureInvalid
  | DecryptionFailed
  | TimestampSkewed u64
  | ReplayDetected
  | UnsupportedVersion u64
  | UnknownType byte
  | CsprngUnavailable string
  | BadFieldLength string nat nat
  | Invariant string

type_synonym 'a result = "error + 'a"

definition and_then :: "'e + 'a \<Rightarrow> ('a \<Rightarrow> 'e + 'b) \<Rightarrow> 'e + 'b" where
  "and_then m f = (case m of Inl e \<Rightarrow> Inl e | Inr x \<Rightarrow> f x)"

lemma and_then_Inl [simp]: "and_then (Inl e) f = Inl e"
  by (simp add: and_then_def)

lemma and_then_Inr [simp]: "and_then (Inr x) f = f x"
  by (simp add: and_then_def)

lemma and_then_eq_Inr: "and_then m f = Inr y \<longleftrightarrow> (\<exists>x. m = Inr x \<and> f x = Inr y)"
  by (cases m) auto

definition map_err :: "('e \<Rightarrow> 'f) \<Rightarrow> 'e + 'a \<Rightarrow> 'f + 'a" where
  "map_err g m = (case m of Inl e \<Rightarrow> Inl (g e) | Inr x \<Rightarrow> Inr x)"

lemma map_err_simps [simp]: "map_err g (Inl e) = Inl (g e)" "map_err g (Inr x) = Inr x"
  by (simp_all add: map_err_def)

lemma map_err_eq_Inr [simp]: "map_err g m = Inr x \<longleftrightarrow> m = Inr x"
  by (cases m) auto

lemma sum_Inr_all_eq: "(\<And>y. a = Inr y \<longleftrightarrow> b = Inr y) \<Longrightarrow> (\<exists>y. a = Inr y) \<longleftrightarrow> (\<exists>y. b = Inr y)"
  by simp

section \<open>Strings\<close>

text \<open>
  A Rust \<open>String\<close> is its UTF-8 bytes; the model keeps them as a \<open>string\<close> (a list of
  8-bit characters), so that literals read as in the source.
\<close>

definition byte_of_char :: "char \<Rightarrow> byte" where
  "byte_of_char c = word_of_nat (of_char c)"

definition char_of_byte :: "byte \<Rightarrow> char" where
  "char_of_byte b = char_of (unat b)"

lemma char_of_byte_of_char [simp]: "char_of_byte (byte_of_char c) = c"
  by (simp add: char_of_byte_def byte_of_char_def unat_of_nat)

lemma byte_of_char_of_byte [simp]: "byte_of_char (char_of_byte b) = b"
  using byte_bound [of b] by (simp add: char_of_byte_def byte_of_char_def del: byte_bound)

abbreviation text_bytes :: "string \<Rightarrow> byte list" where
  "text_bytes s \<equiv> map byte_of_char s"

abbreviation bytes_text :: "byte list \<Rightarrow> string" where
  "bytes_text bs \<equiv> map char_of_byte bs"

lemma text_bytes_inj [simp]: "text_bytes s = text_bytes t \<longleftrightarrow> s = t"
  by (rule inj_map_eq_map) (metis injI char_of_byte_of_char)

lemma bytes_text_bytes [simp]: "bytes_text (text_bytes s) = s"
  by (simp add: comp_def)

lemma text_bytes_text [simp]: "text_bytes (bytes_text bs) = bs"
  by (simp add: comp_def)

text \<open>
  \<open>core::str::from_utf8\<close>: the well-formed byte sequences of RFC 3629 (no overlong forms,
  no surrogates, nothing above U+10FFFF).
\<close>

definition cont_byte :: "byte \<Rightarrow> bool" where
  "cont_byte b \<longleftrightarrow> 0x80 \<le> b \<and> b \<le> 0xBF"

fun utf8_valid :: "byte list \<Rightarrow> bool" where
  "utf8_valid [] = True"
| "utf8_valid (b # bs) =
     (if b < 0x80 then utf8_valid bs
      else if 0xC2 \<le> b \<and> b \<le> 0xDF then
        (case bs of c # r \<Rightarrow> cont_byte c \<and> utf8_valid r | _ \<Rightarrow> False)
      else if 0xE0 \<le> b \<and> b \<le> 0xEF then
        (case bs of c # d # r \<Rightarrow>
           cont_byte c \<and> (b = 0xE0 \<longrightarrow> 0xA0 \<le> c) \<and> (b = 0xED \<longrightarrow> c \<le> 0x9F) \<and>
           cont_byte d \<and> utf8_valid r
         | _ \<Rightarrow> False)
      else if 0xF0 \<le> b \<and> b \<le> 0xF4 then
        (case bs of c # d # e # r \<Rightarrow>
           cont_byte c \<and> (b = 0xF0 \<longrightarrow> 0x90 \<le> c) \<and> (b = 0xF4 \<longrightarrow> c \<le> 0x8F) \<and>
           cont_byte d \<and> cont_byte e \<and> utf8_valid r
         | _ \<Rightarrow> False)
      else False)"

lemma utf8_valid_ascii: "\<forall>b \<in> set bs. b < 0x80 \<Longrightarrow> utf8_valid bs"
  by (induction bs) auto

definition ascii :: "string \<Rightarrow> bool" where
  "ascii s \<longleftrightarrow> list_all (\<lambda>c. byte_of_char c < 0x80) s"

lemma ascii_utf8_valid: "ascii s \<Longrightarrow> utf8_valid (text_bytes s)"
  by (rule utf8_valid_ascii) (auto simp: ascii_def list_all_iff)

section \<open>Association lists as hash maps\<close>

definition wf_map :: "('k \<times> 'v) list \<Rightarrow> bool" where
  "wf_map m \<longleftrightarrow> distinct (map fst m)"

lemma wf_map_Nil [simp]: "wf_map []"
  by (simp add: wf_map_def)

lemma wf_map_update [simp]: "wf_map m \<Longrightarrow> wf_map (AList.update k v m)"
  by (simp add: wf_map_def distinct_update)

lemma wf_map_delete [simp]: "wf_map m \<Longrightarrow> wf_map (AList.delete k m)"
  by (simp add: wf_map_def distinct_delete)

lemma wf_map_filter [simp]: "wf_map m \<Longrightarrow> wf_map (filter P m)"
  by (auto simp: wf_map_def distinct_map intro: inj_on_subset)

lemma map_of_filter_Some:
  "wf_map m \<Longrightarrow> map_of (filter P m) k = Some v \<longleftrightarrow> map_of m k = Some v \<and> P (k, v)"
  by (metis (mono_tags, lifting) map_of_eq_Some_iff mem_Collect_eq set_filter wf_map_def wf_map_filter)

lemma map_of_filter_None:
  "wf_map m \<Longrightarrow> map_of (filter P m) k = None \<longleftrightarrow> (\<forall>v. map_of m k = Some v \<longrightarrow> \<not> P (k, v))"
  by (metis map_of_filter_Some not_None_eq)

lemma wf_map_in_set: "wf_map m \<Longrightarrow> (k, v) \<in> set m \<longleftrightarrow> map_of m k = Some v"
  by (simp add: wf_map_def)

lemma length_update_new: "map_of m k = None \<Longrightarrow> length (AList.update k v m) = Suc (length m)"
  by (induction m) (auto split: if_splits)

lemma length_update_old: "map_of m k = Some w \<Longrightarrow> length (AList.update k v m) = length m"
  by (induction m) (auto split: if_splits)

lemma length_update_le: "length (AList.update k v m) \<le> Suc (length m)"
  by (induction m) auto

lemma length_delete_present:
  "wf_map m \<Longrightarrow> map_of m k = Some v \<Longrightarrow> length (AList.delete k m) = length m - 1"
proof (induction m)
  case Nil
  then show ?case by simp
next
  case (Cons p m)
  obtain k' v' where p: "p = (k', v')" by (cases p)
  show ?case
  proof (cases "k' = k")
    case True
    have "map_of m k = None"
      using Cons.prems(1) p True by (auto simp: wf_map_def map_of_eq_None_iff)
    then have "AList.delete k m = m"
      by (simp add: delete_id map_of_eq_None_iff)
    then show ?thesis using p True by simp
  next
    case False
    then have m: "map_of m k = Some v" "wf_map m"
      using Cons.prems p by (auto simp: wf_map_def)
    then have "m \<noteq> []" by auto
    then show ?thesis using Cons.IH m False p by (cases m) (auto simp: Suc_diff_Suc)
  qed
qed

end
