(* ===== verification/Cbor.thy ===== *)
theory Cbor
  imports Prelude
begin

text \<open>
  Deterministic CBOR, \<open>sidevers-core/src/cbor.rs\<close>: the writer that emits the shortest head
  for every item, the map encoder with its canonical-order assertion, and the reader that
  refuses every longer form. The codec locales state what the message theories rely on:
  reading what was written returns it (round trip) and whatever is read was written
  exactly so (canonicity), both packed into one equivalence.
\<close>

unbundle bit_operations_syntax

section \<open>Constants\<close>

definition MAX_CBOR_ENTRIES :: nat where
  "MAX_CBOR_ENTRIES = 2 ^ 20"

definition MT_UINT :: byte where "MT_UINT = push_bit 5 0"
definition MT_NEGINT :: byte where "MT_NEGINT = push_bit 5 1"
definition MT_BYTES :: byte where "MT_BYTES = push_bit 5 2"
definition MT_TEXT :: byte where "MT_TEXT = push_bit 5 3"
definition MT_ARRAY :: byte where "MT_ARRAY = push_bit 5 4"
definition MT_MAP :: byte where "MT_MAP = push_bit 5 5"

definition SIMPLE_FALSE :: byte where "SIMPLE_FALSE = 0xF4"
definition SIMPLE_TRUE :: byte where "SIMPLE_TRUE = 0xF5"
definition SIMPLE_NULL :: byte where "SIMPLE_NULL = 0xF6"

lemmas mt_defs = MT_UINT_def MT_NEGINT_def MT_BYTES_def MT_TEXT_def MT_ARRAY_def MT_MAP_def
lemmas simple_defs = SIMPLE_FALSE_def SIMPLE_TRUE_def SIMPLE_NULL_def

section \<open>The writer\<close>

text \<open>A \<open>CborWriter\<close> is its buffer; each write appends to it.\<close>

definition write_head :: "byte list \<Rightarrow> byte \<Rightarrow> u64 \<Rightarrow> byte list" where
  "write_head w major v =
     (if v \<le> 23 then w @ [major OR ucast v]
      else if v \<le> 0xFF then w @ [major OR 24] @ [ucast v]
      else if v \<le> 0xFFFF then w @ [major OR 25] @ be_bytes 2 (unat v)
      else if v \<le> 0xFFFFFFFF then w @ [major OR 26] @ be_bytes 4 (unat v)
      else w @ [major OR 27] @ be_bytes 8 (unat v))"

definition write_u64 :: "byte list \<Rightarrow> u64 \<Rightarrow> byte list" where
  "write_u64 w n = write_head w MT_UINT n"

text \<open>
  \<open>write_i64\<close>: the stored value of a negative number is \<open>-(n + 1)\<close>, which does not
  overflow at \<open>i64::MIN\<close>.
\<close>

definition write_i64 :: "byte list \<Rightarrow> 64 word \<Rightarrow> byte list" where
  "write_i64 w n =
     (if 0 \<le> sint n then write_head w MT_UINT n else write_head w MT_NEGINT (- (n + 1)))"

definition write_bool :: "byte list \<Rightarrow> bool \<Rightarrow> byte list" where
  "write_bool w b = w @ [if b then SIMPLE_TRUE else SIMPLE_FALSE]"

definition write_null :: "byte list \<Rightarrow> byte list" where
  "write_null w = w @ [SIMPLE_NULL]"

definition write_bytes :: "byte list \<Rightarrow> byte list \<Rightarrow> byte list" where
  "write_bytes w bs = write_head w MT_BYTES (word_of_nat (length bs)) @ bs"

definition write_text :: "byte list \<Rightarrow> string \<Rightarrow> byte list" where
  "write_text w t = write_head w MT_TEXT (word_of_nat (length t)) @ text_bytes t"

definition write_array_header :: "byte list \<Rightarrow> nat \<Rightarrow> byte list" where
  "write_array_header w n = write_head w MT_ARRAY (word_of_nat n)"

definition write_map_header :: "byte list \<Rightarrow> nat \<Rightarrow> byte list" where
  "write_map_header w n = write_head w MT_MAP (word_of_nat n)"

text \<open>The one-item encoders \<open>key\<close>, \<open>uint\<close>, \<open>bytes\<close>, \<open>text\<close>, \<open>null\<close>, \<open>boolean\<close>.\<close>

definition cbor_key :: "string \<Rightarrow> byte list" where "cbor_key t = write_text [] t"
definition cbor_uint :: "u64 \<Rightarrow> byte list" where "cbor_uint n = write_u64 [] n"
definition cbor_bytes :: "byte list \<Rightarrow> byte list" where "cbor_bytes b = write_bytes [] b"
definition cbor_text :: "string \<Rightarrow> byte list" where "cbor_text t = write_text [] t"
definition cbor_null :: "byte list" where "cbor_null = [SIMPLE_NULL]"
definition cbor_boolean :: "bool \<Rightarrow> byte list" where
  "cbor_boolean b = [if b then SIMPLE_TRUE else SIMPLE_FALSE]"

section \<open>Map encoding and canonical key order\<close>

text \<open>A \<open>MapEntry\<close> is a pair of an encoded key and an encoded value.\<close>

type_synonym map_entry = "byte list \<times> byte list"

text \<open>\<open>Ord\<close> of \<open>Vec<u8>\<close>: lexicographic on bytes, a proper prefix is smaller.\<close>

fun bytes_less :: "byte list \<Rightarrow> byte list \<Rightarrow> bool" where
  "bytes_less [] ys = (ys \<noteq> [])"
| "bytes_less (x # xs) [] = False"
| "bytes_less (x # xs) (y # ys) = (x < y \<or> x = y \<and> bytes_less xs ys)"

fun is_sorted_by_key :: "map_entry list \<Rightarrow> bool" where
  "is_sorted_by_key (e1 # e2 # es) = (bytes_less (fst e1) (fst e2) \<and> is_sorted_by_key (e2 # es))"
| "is_sorted_by_key es = True"

text \<open>
  \<open>encode_map\<close>; the \<open>debug_assert!\<close> on \<open>is_sorted_by_key\<close> is a property proved of every
  caller, not a branch of the release build.
\<close>

definition encode_map :: "map_entry list \<Rightarrow> byte list" where
  "encode_map es = write_map_header [] (length es) @ concat (map (\<lambda>e. fst e @ snd e) es)"

section \<open>The reader\<close>

record cbor_reader =
  buf :: "byte list"
  pos :: nat

definition reader_new :: "byte list \<Rightarrow> cbor_reader" where
  "reader_new b = \<lparr>buf = b, pos = 0\<rparr>"

definition remaining :: "cbor_reader \<Rightarrow> byte list" where
  "remaining r = drop (pos r) (buf r)"

definition at_end :: "cbor_reader \<Rightarrow> bool" where
  "at_end r \<longleftrightarrow> length (buf r) \<le> pos r"

definition read_byte :: "cbor_reader \<Rightarrow> (byte \<times> cbor_reader) result" where
  "read_byte r =
     (if pos r < length (buf r) then Inr (buf r ! pos r, r\<lparr>pos := pos r + 1\<rparr>)
      else Inl (CborDecode ''unexpected EOF''))"

text \<open>
  \<open>read_n\<close>. The source tests \<open>pos.checked_add(n)\<close> first; a slice is shorter than
  \<open>2 ^ 63\<close> bytes, so an overflowing end is always past the buffer and the two error
  branches are told apart here inside the failing case.
\<close>

definition read_n :: "cbor_reader \<Rightarrow> nat \<Rightarrow> (byte list \<times> cbor_reader) result" where
  "read_n r n =
     (if length (buf r) < pos r + n then
        Inl (CborDecode (if 2 ^ 64 \<le> pos r + n then ''length overflow'' else ''unexpected EOF''))
      else Inr (take n (drop (pos r) (buf r)), r\<lparr>pos := pos r + n\<rparr>))"

definition read_head :: "cbor_reader \<Rightarrow> ((byte \<times> u64) \<times> cbor_reader) result" where
  "read_head r = and_then (read_byte r) (\<lambda>(ib, r).
     let major = drop_bit 5 ib; info = ib AND 0x1F in
     if info \<le> 23 then Inr ((major, ucast info), r)
     else if info = 24 then and_then (read_byte r) (\<lambda>(b, r).
       if b < 24 then Inl (CborNotCanonical ''u8 length-form used for small value'')
       else Inr ((major, ucast b), r))
     else if info = 25 then and_then (read_n r 2) (\<lambda>(bs, r).
       let v = word_of_nat (be_val bs) in
       if v \<le> (0xFF :: u64) then Inl (CborNotCanonical ''u16 length-form used for u8-fit value'')
       else Inr ((major, v), r))
     else if info = 26 then and_then (read_n r 4) (\<lambda>(bs, r).
       let v = word_of_nat (be_val bs) in
       if v \<le> (0xFFFF :: u64) then Inl (CborNotCanonical ''u32 length-form used for u16-fit value'')
       else Inr ((major, v), r))
     else if info = 27 then and_then (read_n r 8) (\<lambda>(bs, r).
       let v = word_of_nat (be_val bs) in
       if v \<le> (0xFFFFFFFF :: u64) then Inl (CborNotCanonical ''u64 length-form used for u32-fit value'')
       else Inr ((major, v), r))
     else if info \<le> 30 then Inl (CborDecode ''reserved additional info'')
     else Inl (CborNotCanonical ''indefinite-length item''))"

definition read_u64 :: "cbor_reader \<Rightarrow> (u64 \<times> cbor_reader) result" where
  "read_u64 r = and_then (read_head r) (\<lambda>((major, arg), r).
     if major \<noteq> 0 then Inl (CborDecode ''expected uint'') else Inr (arg, r))"

definition read_bytes :: "cbor_reader \<Rightarrow> (byte list \<times> cbor_reader) result" where
  "read_bytes r = and_then (read_head r) (\<lambda>((major, arg), r).
     if major \<noteq> 2 then Inl (CborDecode ''expected bytes'') else read_n r (unat arg))"

definition read_text :: "cbor_reader \<Rightarrow> (string \<times> cbor_reader) result" where
  "read_text r = and_then (read_head r) (\<lambda>((major, arg), r).
     if major \<noteq> 3 then Inl (CborDecode ''expected text'')
     else and_then (read_n r (unat arg)) (\<lambda>(slice, r).
       if utf8_valid slice then Inr (bytes_text slice, r)
       else Inl (CborDecode ''invalid utf-8 text'')))"

definition read_bytes_or_null :: "cbor_reader \<Rightarrow> (byte list option \<times> cbor_reader) result" where
  "read_bytes_or_null r =
     (if length (buf r) \<le> pos r then Inl (CborDecode ''unexpected EOF'')
      else if buf r ! pos r = SIMPLE_NULL then Inr (None, r\<lparr>pos := pos r + 1\<rparr>)
      else and_then (read_bytes r) (\<lambda>(b, r). Inr (Some b, r)))"

definition read_bool :: "cbor_reader \<Rightarrow> (bool \<times> cbor_reader) result" where
  "read_bool r = and_then (read_byte r) (\<lambda>(b, r).
     if b = SIMPLE_FALSE then Inr (False, r)
     else if b = SIMPLE_TRUE then Inr (True, r)
     else Inl (CborDecode ''expected bool''))"

definition read_map_header :: "cbor_reader \<Rightarrow> (nat \<times> cbor_reader) result" where
  "read_map_header r = and_then (read_head r) (\<lambda>((major, arg), r).
     if major \<noteq> 5 then Inl (CborDecode ''expected map'')
     else if MAX_CBOR_ENTRIES < unat arg then Inl (CborDecode ''map count exceeds MAX_CBOR_ENTRIES'')
     else Inr (unat arg, r))"

definition read_array_header :: "cbor_reader \<Rightarrow> (nat \<times> cbor_reader) result" where
  "read_array_header r = and_then (read_head r) (\<lambda>((major, arg), r).
     if major \<noteq> 4 then Inl (CborDecode ''expected array'')
     else if MAX_CBOR_ENTRIES < unat arg then Inl (CborDecode ''array count exceeds MAX_CBOR_ENTRIES'')
     else Inr (unat arg, r))"

text \<open>
  Two shapes that every decoder repeats: the key check of the loop over the expected keys,
  and the loop that reads \<open>n\<close> items.
\<close>

definition expect_key :: "string \<Rightarrow> string \<Rightarrow> cbor_reader \<Rightarrow> cbor_reader result" where
  "expect_key e msg r = and_then (read_text r) (\<lambda>(k, r).
     if k \<noteq> e then Inl (CborNotCanonical msg) else Inr r)"

fun read_items :: "(cbor_reader \<Rightarrow> ('a \<times> cbor_reader) result) \<Rightarrow> nat \<Rightarrow> cbor_reader \<Rightarrow>
    ('a list \<times> cbor_reader) result" where
  "read_items dec 0 r = Inr ([], r)"
| "read_items dec (Suc n) r = and_then (dec r) (\<lambda>(x, r).
     and_then (read_items dec n r) (\<lambda>(xs, r). Inr (x # xs, r)))"

definition read_array :: "(cbor_reader \<Rightarrow> ('a \<times> cbor_reader) result) \<Rightarrow> cbor_reader \<Rightarrow>
    ('a list \<times> cbor_reader) result" where
  "read_array dec r = and_then (read_array_header r) (\<lambda>(n, r). read_items dec n r)"

definition cbor_array :: "('a \<Rightarrow> byte list) \<Rightarrow> 'a list \<Rightarrow> byte list" where
  "cbor_array enc xs = write_array_header [] (length xs) @ concat (map enc xs)"

lemma cbor_array_cong [fundef_cong]:
  "xs = ys \<Longrightarrow> (\<And>y. y \<in> set ys \<Longrightarrow> f y = g y) \<Longrightarrow> cbor_array f xs = cbor_array g ys"
  by (simp add: cbor_array_def cong: map_cong)

text \<open>An unsigned integer that has to fit a \<open>u8\<close> or a \<open>u32\<close>, with the error of its field.\<close>

definition read_u8 :: "error \<Rightarrow> cbor_reader \<Rightarrow> (byte \<times> cbor_reader) result" where
  "read_u8 err r = and_then (read_u64 r) (\<lambda>(v, r). if 0xFF < v then Inl err else Inr (ucast v, r))"

definition read_u32 :: "error \<Rightarrow> cbor_reader \<Rightarrow> (u32 \<times> cbor_reader) result" where
  "read_u32 err r = and_then (read_u64 r) (\<lambda>(v, r). if 0xFFFFFFFF < v then Inl err else Inr (ucast v, r))"

text \<open>A byte string of a fixed length, with the error of the field it belongs to.\<close>

definition read_fixed :: "string \<Rightarrow> nat \<Rightarrow> cbor_reader \<Rightarrow> (byte list \<times> cbor_reader) result" where
  "read_fixed field n r = and_then (read_bytes r) (\<lambda>(b, r).
     if length b \<noteq> n then Inl (BadFieldLength field n (length b)) else Inr (b, r))"

section \<open>Bit-level facts about the head byte\<close>

lemma mask5: "(0x1F :: byte) = mask 5"
  by (simp add: mask_eq_exp_minus_1)

lemma head_recompose: "push_bit 5 (drop_bit 5 ib) OR (ib AND 0x1F) = (ib :: byte)"
  unfolding mask5 by (rule bit_word_eqI) (auto simp: bit_simps)

lemma drop_bit_byte: "drop_bit 5 (b :: byte) < 8"
  using byte_bound [of b]
  by (simp add: word_less_nat_alt drop_bit_eq_div unat_div div_less_iff_less_mult del: byte_bound)

lemma drop_push5: "m < 8 \<Longrightarrow> drop_bit 5 (push_bit 5 m) = (m :: byte)"
proof -
  assume "m < 8"
  then have "unat m * 32 < 256" by (simp add: word_less_nat_alt)
  then have "unat (push_bit 5 m) = unat m * 32"
    by (simp add: push_bit_eq_mult unat_word_ariths)
  then have "unat (drop_bit 5 (push_bit 5 m)) = unat m"
    by (simp add: drop_bit_eq_div unat_div)
  then show ?thesis by (rule unsigned_word_eqI)
qed

lemma drop_small: "i < 32 \<Longrightarrow> drop_bit 5 i = (0 :: byte)"
  by (simp add: drop_bit_eq_div div_word_less)

lemma head_major:
  "m < 8 \<Longrightarrow> i < 32 \<Longrightarrow> drop_bit 5 (push_bit 5 m OR i) = (m :: byte)"
  by (simp only: drop_bit_or drop_push5 drop_small or.right_neutral)

lemma head_info:
  assumes "i < 32"
  shows "(push_bit 5 m OR i) AND 0x1F = (i :: byte)"
proof -
  have "take_bit 5 i = i"
    using assms by (simp add: take_bit_eq_mod mod_word_less)
  moreover have "take_bit 5 (push_bit 5 m) = (0 :: byte)"
    by (simp add: take_bit_push_bit)
  ultimately show ?thesis
    unfolding mask5 by (simp flip: take_bit_eq_mask)
qed

section \<open>Reading at a position\<close>

text \<open>
  A reader whose position is inside its buffer is a split of the buffer into what has
  been read and what remains.
\<close>

definition rdr :: "byte list \<Rightarrow> byte list \<Rightarrow> cbor_reader" where
  "rdr pre s = \<lparr>buf = pre @ s, pos = length pre\<rparr>"

lemma reader_new_rdr: "reader_new b = rdr [] b"
  by (simp add: reader_new_def rdr_def)

lemma at_end_rdr [simp]: "at_end (rdr pre s) \<longleftrightarrow> s = []"
  by (auto simp: at_end_def rdr_def)

lemma remaining_rdr [simp]: "remaining (rdr pre s) = s"
  by (simp add: remaining_def rdr_def)

lemma pos_rdr [simp]: "pos (rdr pre s) = length pre"
  by (simp add: rdr_def)

lemma buf_rdr [simp]: "buf (rdr pre s) = pre @ s"
  by (simp add: rdr_def)

lemma rdr_split: "pos r \<le> length (buf r) \<Longrightarrow> rdr (take (pos r) (buf r)) (drop (pos r) (buf r)) = r"
  by (cases r) (simp add: rdr_def)

lemma rdr_inject [simp]: "rdr p s = rdr p t \<longleftrightarrow> s = t"
  by (simp add: rdr_def)

lemma read_byte_iff [wire_iff]:
  "read_byte (rdr pre s) = Inr (b, r') \<longleftrightarrow> (\<exists>suf. s = b # suf \<and> r' = rdr (pre @ [b]) suf)"
  by (cases s) (auto simp: read_byte_def rdr_def nth_append)

lemma read_n_iff [wire_iff]:
  "read_n (rdr pre s) n = Inr (x, r') \<longleftrightarrow>
     length x = n \<and> (\<exists>suf. s = x @ suf \<and> r' = rdr (pre @ x) suf)"
proof (cases "n \<le> length s")
  case True
  then have "read_n (rdr pre s) n = Inr (take n s, rdr (pre @ take n s) (drop n s))"
    by (simp add: read_n_def rdr_def)
  then show ?thesis using True by auto
next
  case False
  then show ?thesis by (auto simp: read_n_def rdr_def)
qed

lemma read_byte_write: "read_byte (rdr pre (b # suf)) = Inr (b, rdr (pre @ [b]) suf)"
  by (simp add: read_byte_iff)

lemma read_n_write: "read_n (rdr pre (x @ suf)) (length x) = Inr (x, rdr (pre @ x) suf)"
  by (simp add: read_n_iff)

section \<open>Heads\<close>

definition head_bytes :: "byte \<Rightarrow> u64 \<Rightarrow> byte list" where
  "head_bytes m v = write_head [] (push_bit 5 m) v"

lemma write_head_append: "write_head w m v = w @ write_head [] m v"
  by (simp add: write_head_def)

lemma byte_le: "unat (b :: byte) \<le> 255"
  using byte_bound [of b] by linarith

lemma unat_u64_of_byte [simp]: "unat (ucast (b :: byte) :: u64) = unat b"
  using byte_bound [of b] by (simp add: unsigned_ucast_eq take_bit_eq_mod del: byte_bound)

lemma byte_of_u64: "v \<le> 0xFF \<Longrightarrow> unat (ucast (v :: u64) :: byte) = unat v"
  by (simp add: unsigned_ucast_eq take_bit_eq_mod word_le_nat_alt)

lemma unat_of_be_val:
  "length bs \<le> 8 \<Longrightarrow> unat (word_of_nat (be_val bs) :: u64) = be_val bs"
proof -
  assume "length bs \<le> 8"
  then have "(256 :: nat) ^ length bs \<le> 256 ^ 8" by (rule power_increasing) simp
  then have "be_val bs < 2 ^ 64" using be_val_bound [of bs] by simp
  then show ?thesis by (simp add: unat_of_nat)
qed

text \<open>The five forms a head can take, one per width of its argument.\<close>

lemma head_bytes_cases:
  "head_bytes m v =
     (if unat v \<le> 23 then [push_bit 5 m OR ucast v]
      else if unat v \<le> 255 then [push_bit 5 m OR 24, ucast v]
      else if unat v \<le> 65535 then (push_bit 5 m OR 25) # be_bytes 2 (unat v)
      else if unat v \<le> 4294967295 then (push_bit 5 m OR 26) # be_bytes 4 (unat v)
      else (push_bit 5 m OR 27) # be_bytes 8 (unat v))"
  by (simp add: head_bytes_def write_head_def word_le_nat_alt)

lemma head_bytes_nonempty [simp]: "head_bytes m v \<noteq> []"
  by (simp add: head_bytes_cases)

lemma read_head_wide:
  assumes "m < 8" "length bs = k" "k = 2 \<and> i = 25 \<or> k = 4 \<and> i = 26 \<or> k = 8 \<and> i = 27"
    and "256 ^ (k div 2) \<le> be_val bs"
  shows "read_head (rdr pre ((push_bit 5 m OR i) # bs @ suf)) =
    Inr ((m, word_of_nat (be_val bs)), rdr (pre @ (push_bit 5 m OR i) # bs) suf)"
proof -
  have b: "read_byte (rdr pre ((push_bit 5 m OR i) # bs @ suf)) =
      Inr (push_bit 5 m OR i, rdr (pre @ [push_bit 5 m OR i]) (bs @ suf))"
    by (simp add: read_byte_iff)
  have n: "read_n (rdr (pre @ [push_bit 5 m OR i]) (bs @ suf)) k =
      Inr (bs, rdr (pre @ (push_bit 5 m OR i) # bs) suf)"
    using assms(2) by (simp add: read_n_iff)
  have i: "i < 32" "\<not> i \<le> 23" using assms(3) by auto
  have v: "unat (word_of_nat (be_val bs) :: u64) = be_val bs"
    using assms(2,3) by (intro unat_of_be_val) auto
  show ?thesis
    using assms(3,4) n i v
    by (auto simp: read_head_def b drop_push5 [OF assms(1)] head_info [OF i(1)] Let_def
        word_le_nat_alt)
qed

lemma ucast_u64_byte_u64: "v \<le> 0xFF \<Longrightarrow> ucast (ucast (v :: u64) :: byte) = v"
proof -
  assume "v \<le> 0xFF"
  then have "unat (ucast (ucast v :: byte) :: u64) = unat v" by (simp add: byte_of_u64)
  then show ?thesis by (rule unsigned_word_eqI)
qed

lemma ucast_byte_u64_byte [simp]: "ucast (ucast (b :: byte) :: u64) = b"
proof -
  have "unat (ucast (ucast b :: u64) :: byte) = unat b"
    by (simp add: byte_of_u64 word_le_nat_alt byte_le)
  then show ?thesis by (rule unsigned_word_eqI)
qed

lemma read_head_write:
  assumes m: "m < 8"
  shows "read_head (rdr pre (head_bytes m v @ suf)) = Inr ((m, v), rdr (pre @ head_bytes m v) suf)"
proof -
  consider (tiny) "unat v \<le> 23" | (b8) "23 < unat v" "unat v \<le> 255"
    | (b16) "255 < unat v" "unat v \<le> 65535"
    | (b32) "65535 < unat v" "unat v \<le> 4294967295" | (b64) "4294967295 < unat v"
    by linarith
  then show ?thesis
  proof cases
    case tiny
    then have v: "v \<le> 0xFF" "unat (ucast v :: byte) \<le> 23"
      by (simp_all add: word_le_nat_alt byte_of_u64)
    then have i: "(ucast v :: byte) < 32" by (simp add: word_less_nat_alt)
    show ?thesis using tiny v
      by (simp add: head_bytes_cases read_head_def read_byte_iff and_then_eq_Inr Let_def
          head_info [OF i] head_major [OF m i] ucast_u64_byte_u64 word_le_nat_alt del: drop_bit_or)
  next
    case b8
    then have v: "v \<le> 0xFF" "\<not> (ucast v :: byte) < 24"
      by (simp_all add: word_le_nat_alt word_less_nat_alt byte_of_u64)
    have i: "(24 :: byte) < 32" by simp
    show ?thesis using b8 v
      by (simp add: head_bytes_cases read_head_def read_byte_iff and_then_eq_Inr Let_def
          head_info [OF i] head_major [OF m i] ucast_u64_byte_u64 word_le_nat_alt del: drop_bit_or)
  next
    case b16
    then show ?thesis
      using read_head_wide [OF m, of "be_bytes 2 (unat v)" 2 25 pre suf]
      by (simp add: head_bytes_cases be_val_be_bytes)
  next
    case b32
    then show ?thesis
      using read_head_wide [OF m, of "be_bytes 4 (unat v)" 4 26 pre suf]
      by (simp add: head_bytes_cases be_val_be_bytes)
  next
    case b64
    then show ?thesis
      using read_head_wide [OF m, of "be_bytes 8 (unat v)" 8 27 pre suf]
      by (simp add: head_bytes_cases be_val_be_bytes)
  qed
qed

lemma head_bytes_of_wide:
  assumes "length bs = k" "k = 2 \<and> i = 25 \<or> k = 4 \<and> i = 26 \<or> k = 8 \<and> i = 27"
    and "256 ^ (k div 2) \<le> be_val bs"
  shows "head_bytes m (word_of_nat (be_val bs)) = (push_bit 5 m OR i) # bs"
proof -
  have v: "unat (word_of_nat (be_val bs) :: u64) = be_val bs"
    using assms(1,2) by (intro unat_of_be_val) auto
  have b: "be_val bs < 256 ^ k" using be_val_bound [of bs] assms(1) by simp
  have r: "be_bytes k (be_val bs) = bs" using be_bytes_be_val [of bs] assms(1) by simp
  show ?thesis using assms(2,3) b r by (auto simp: head_bytes_cases v)
qed

lemma read_head_sound:
  assumes "read_head (rdr pre s) = Inr ((m, v), r')"
  shows "m < 8 \<and> (\<exists>suf. s = head_bytes m v @ suf)"
proof -
  obtain ib t where s: "s = ib # t"
    using assms by (cases s) (auto simp: read_head_def and_then_eq_Inr read_byte_iff)
  define info where "info = ib AND 0x1F"
  have ib: "push_bit 5 (drop_bit 5 ib) OR info = ib"
    unfolding info_def by (rule head_recompose)
  have rb: "read_byte (rdr pre s) = Inr (ib, rdr (pre @ [ib]) t)" by (simp add: read_byte_iff s)
  note h = assms [unfolded read_head_def rb and_then_Inr prod.case Let_def, folded info_def]
  have m: "m = drop_bit 5 ib"
    using h by (auto simp: and_then_eq_Inr split: if_splits)
  have "\<exists>suf. s = head_bytes m v @ suf"
  proof (cases "info \<le> 23")
    case True
    then have v: "v = ucast info" using h by simp
    then have "head_bytes m v = [ib]"
      using True ib m by (simp add: head_bytes_cases word_le_nat_alt)
    then show ?thesis using s by simp
  next
    case False
    then consider "info = 24" | "info = 25" | "info = 26" | "info = 27"
      using h by (auto simp: and_then_eq_Inr split: if_splits)
    then show ?thesis
    proof cases
      case 1
      then obtain b t' where t: "t = b # t'" and b: "\<not> b < 24" and v: "v = ucast b"
        using h by (auto simp: and_then_eq_Inr read_byte_iff split: if_splits)
      have "head_bytes m v = [ib, b]"
        using b v ib m 1 by (simp add: head_bytes_cases word_less_nat_alt byte_le)
      then show ?thesis using s t by simp
    next
      case 2
      then obtain bs t' where t: "t = bs @ t'" "length bs = 2" and v: "v = word_of_nat (be_val bs)"
        and big: "\<not> word_of_nat (be_val bs) \<le> (0xFF :: u64)"
        using h by (auto simp: and_then_eq_Inr read_n_iff split: if_splits)
      have "256 \<le> be_val bs" using big t by (simp add: word_le_nat_alt unat_of_be_val)
      then show ?thesis using head_bytes_of_wide [of bs 2 25 m] t v s ib m 2 by simp
    next
      case 3
      then obtain bs t' where t: "t = bs @ t'" "length bs = 4" and v: "v = word_of_nat (be_val bs)"
        and big: "\<not> word_of_nat (be_val bs) \<le> (0xFFFF :: u64)"
        using h by (auto simp: and_then_eq_Inr read_n_iff split: if_splits)
      have "65536 \<le> be_val bs" using big t by (simp add: word_le_nat_alt unat_of_be_val)
      then show ?thesis using head_bytes_of_wide [of bs 4 26 m] t v s ib m 3 by simp
    next
      case 4
      then obtain bs t' where t: "t = bs @ t'" "length bs = 8" and v: "v = word_of_nat (be_val bs)"
        and big: "\<not> word_of_nat (be_val bs) \<le> (0xFFFFFFFF :: u64)"
        using h by (auto simp: and_then_eq_Inr read_n_iff split: if_splits)
      have "4294967296 \<le> be_val bs" using big t by (simp add: word_le_nat_alt unat_of_be_val)
      then show ?thesis using head_bytes_of_wide [of bs 8 27 m] t v s ib m 4 by simp
    qed
  qed
  then show ?thesis using m drop_bit_byte by blast
qed

lemma read_head_iff [wire_iff]:
  "read_head (rdr pre s) = Inr ((m, v), r') \<longleftrightarrow>
     m < 8 \<and> (\<exists>suf. s = head_bytes m v @ suf \<and> r' = rdr (pre @ head_bytes m v) suf)"
  using read_head_sound [of pre s m v r'] read_head_write by fastforce

section \<open>Items\<close>

definition wf_bytes :: "byte list \<Rightarrow> bool" where
  [wf_defs]: "wf_bytes b \<longleftrightarrow> length b < 2 ^ 64"

definition wf_text :: "string \<Rightarrow> bool" where
  [wf_defs]: "wf_text t \<longleftrightarrow> length t < 2 ^ 64 \<and> utf8_valid (text_bytes t)"

definition wf_fixed :: "nat \<Rightarrow> byte list \<Rightarrow> bool" where
  [wf_defs]: "wf_fixed n b \<longleftrightarrow> length b = n \<and> n < 2 ^ 64"

lemma wf_text_literal: "ascii t \<Longrightarrow> length t < 2 ^ 64 \<Longrightarrow> wf_text t"
  by (simp add: wf_text_def ascii_utf8_valid)

lemma cbor_key_text: "cbor_key = cbor_text"
  by (simp add: fun_eq_iff cbor_key_def cbor_text_def)

lemma cbor_uint_head: "cbor_uint n = head_bytes 0 n"
  by (simp add: cbor_uint_def write_u64_def head_bytes_def MT_UINT_def)

lemma cbor_bytes_head: "cbor_bytes b = head_bytes 2 (word_of_nat (length b)) @ b"
  by (simp add: cbor_bytes_def write_bytes_def head_bytes_def MT_BYTES_def)

lemma cbor_text_head: "cbor_text t = head_bytes 3 (word_of_nat (length t)) @ text_bytes t"
  by (simp add: cbor_text_def write_text_def head_bytes_def MT_TEXT_def)

lemma array_header_head: "write_array_header [] n = head_bytes 4 (word_of_nat n)"
  by (simp add: write_array_header_def head_bytes_def MT_ARRAY_def)

lemma map_header_head: "write_map_header [] n = head_bytes 5 (word_of_nat n)"
  by (simp add: write_map_header_def head_bytes_def MT_MAP_def)

lemma unat_of_nat_small: "n < 2 ^ 64 \<Longrightarrow> unat (word_of_nat n :: u64) = n"
  by (simp add: unat_of_nat)

lemma of_nat_unat_u64 [simp]: "word_of_nat (unat (v :: u64)) = v"
  by simp

lemma read_u64_iff [wire_iff]:
  "read_u64 (rdr pre s) = Inr (n, r') \<longleftrightarrow>
     (\<exists>suf. s = cbor_uint n @ suf \<and> r' = rdr (pre @ cbor_uint n) suf)"
  by (auto simp: read_u64_def cbor_uint_head and_then_eq_Inr read_head_iff split: if_splits)

lemma read_bytes_iff [wire_iff]:
  "read_bytes (rdr pre s) = Inr (x, r') \<longleftrightarrow>
     wf_bytes x \<and> (\<exists>suf. s = cbor_bytes x @ suf \<and> r' = rdr (pre @ cbor_bytes x) suf)"
proof
  assume "read_bytes (rdr pre s) = Inr (x, r')"
  then obtain v suf where "s = head_bytes 2 v @ x @ suf" "length x = unat v"
      "r' = rdr (pre @ head_bytes 2 v @ x) suf"
    by (auto simp: read_bytes_def and_then_eq_Inr read_head_iff read_n_iff split: if_splits)
  then show "wf_bytes x \<and> (\<exists>suf. s = cbor_bytes x @ suf \<and> r' = rdr (pre @ cbor_bytes x) suf)"
    by (auto simp: wf_bytes_def cbor_bytes_head)
next
  assume "wf_bytes x \<and> (\<exists>suf. s = cbor_bytes x @ suf \<and> r' = rdr (pre @ cbor_bytes x) suf)"
  then show "read_bytes (rdr pre s) = Inr (x, r')"
    by (auto simp: read_bytes_def read_head_write read_n_write cbor_bytes_head
        wf_bytes_def unat_of_nat_small)
qed

lemma read_text_iff [wire_iff]:
  "read_text (rdr pre s) = Inr (t, r') \<longleftrightarrow>
     wf_text t \<and> (\<exists>suf. s = cbor_text t @ suf \<and> r' = rdr (pre @ cbor_text t) suf)"
proof
  assume "read_text (rdr pre s) = Inr (t, r')"
  then obtain v x suf where "s = head_bytes 3 v @ x @ suf" "length x = unat v" "t = bytes_text x"
      "r' = rdr (pre @ head_bytes 3 v @ x) suf" "utf8_valid x"
    by (auto simp: read_text_def and_then_eq_Inr read_head_iff read_n_iff split: if_splits)
  then show "wf_text t \<and> (\<exists>suf. s = cbor_text t @ suf \<and> r' = rdr (pre @ cbor_text t) suf)"
    by (auto simp: wf_text_def cbor_text_head simp del: map_map)
next
  assume "wf_text t \<and> (\<exists>suf. s = cbor_text t @ suf \<and> r' = rdr (pre @ cbor_text t) suf)"
  then show "read_text (rdr pre s) = Inr (t, r')"
    using read_n_write [where x = "text_bytes t"]
    by (auto simp: read_text_def read_head_write cbor_text_head
        wf_text_def unat_of_nat_small simp del: map_map)
qed

lemma read_fixed_iff [wire_iff]:
  "n < 2 ^ 64 \<Longrightarrow> read_fixed f n (rdr pre s) = Inr (x, r') \<longleftrightarrow>
     wf_fixed n x \<and> (\<exists>suf. s = cbor_bytes x @ suf \<and> r' = rdr (pre @ cbor_bytes x) suf)"
  by (auto simp: read_fixed_def and_then_eq_Inr read_bytes_iff wf_fixed_def wf_bytes_def
      split: if_splits)

lemma read_u8_iff [wire_iff]:
  "read_u8 err (rdr pre s) = Inr (b, r') \<longleftrightarrow>
     (\<exists>suf. s = cbor_uint (ucast b) @ suf \<and> r' = rdr (pre @ cbor_uint (ucast b)) suf)"
proof -
  have "\<not> 0xFF < (ucast b :: u64)" by (simp add: word_less_nat_alt byte_le not_less)
  then show ?thesis
    by (force simp: read_u8_def and_then_eq_Inr read_u64_iff not_less ucast_u64_byte_u64 split: if_splits)
qed

lemma read_u32_iff [wire_iff]:
  "read_u32 err (rdr pre s) = Inr (b, r') \<longleftrightarrow>
     (\<exists>suf. s = cbor_uint (ucast b) @ suf \<and> r' = rdr (pre @ cbor_uint (ucast b)) suf)"
proof -
  have b: "\<not> 0xFFFFFFFF < (ucast b :: u64)" "unat (ucast b :: u64) = unat b"
    using unsigned_less [of b, where 'a = nat]
    by (simp_all add: word_less_nat_alt not_less unsigned_ucast_eq take_bit_eq_mod)
  have v: "ucast (ucast v :: u32) = v" if "v \<le> (0xFFFFFFFF :: u64)" for v
  proof -
    have "unat (ucast (ucast v :: u32) :: u64) = unat v"
      using that by (simp add: unsigned_ucast_eq take_bit_eq_mod word_le_nat_alt unat_mod)
    then show ?thesis by (rule unsigned_word_eqI)
  qed
  have u: "ucast (ucast b :: u64) = b"
    by (rule bit_word_eqI) (auto simp: bit_simps)
  show ?thesis
    using b(1) by (force simp: read_u32_def and_then_eq_Inr read_u64_iff not_less v u split: if_splits)
qed

lemma expect_key_iff [wire_iff]:
  "wf_text e \<Longrightarrow> expect_key e msg (rdr pre s) = Inr r' \<longleftrightarrow>
     (\<exists>suf. s = cbor_key e @ suf \<and> r' = rdr (pre @ cbor_key e) suf)"
  by (auto simp: expect_key_def and_then_eq_Inr read_text_iff cbor_key_text split: if_splits)

lemma read_map_header_iff [wire_iff]:
  "read_map_header (rdr pre s) = Inr (n, r') \<longleftrightarrow> n \<le> MAX_CBOR_ENTRIES \<and>
     (\<exists>suf. s = write_map_header [] n @ suf \<and> r' = rdr (pre @ write_map_header [] n) suf)"
  by (force simp: read_map_header_def and_then_eq_Inr read_head_iff map_header_head
      unat_of_nat_small MAX_CBOR_ENTRIES_def split: if_splits)

lemma read_array_header_iff [wire_iff]:
  "read_array_header (rdr pre s) = Inr (n, r') \<longleftrightarrow> n \<le> MAX_CBOR_ENTRIES \<and>
     (\<exists>suf. s = write_array_header [] n @ suf \<and> r' = rdr (pre @ write_array_header [] n) suf)"
  by (force simp: read_array_header_def and_then_eq_Inr read_head_iff array_header_head
      unat_of_nat_small MAX_CBOR_ENTRIES_def split: if_splits)

lemma read_bool_iff [wire_iff]:
  "read_bool (rdr pre s) = Inr (b, r') \<longleftrightarrow>
     (\<exists>suf. s = cbor_boolean b @ suf \<and> r' = rdr (pre @ cbor_boolean b) suf)"
proof
  assume "read_bool (rdr pre s) = Inr (b, r')"
  then show "\<exists>suf. s = cbor_boolean b @ suf \<and> r' = rdr (pre @ cbor_boolean b) suf"
    by (auto simp: read_bool_def and_then_eq_Inr read_byte_iff cbor_boolean_def split: if_splits)
next
  assume "\<exists>suf. s = cbor_boolean b @ suf \<and> r' = rdr (pre @ cbor_boolean b) suf"
  then show "read_bool (rdr pre s) = Inr (b, r')"
    by (auto simp: read_bool_def read_byte_write cbor_boolean_def simple_defs)
qed

definition cbor_bytes_or_null :: "byte list option \<Rightarrow> byte list" where
  "cbor_bytes_or_null x = (case x of Some b \<Rightarrow> cbor_bytes b | None \<Rightarrow> cbor_null)"

lemma hd_head_bytes: "m < 8 \<Longrightarrow> drop_bit 5 (hd (head_bytes m v)) = m"
proof -
  assume m: "m < 8"
  have "unat v \<le> 23 \<Longrightarrow> (ucast v :: byte) < 32"
    by (simp add: word_less_nat_alt byte_of_u64 word_le_nat_alt)
  then show ?thesis
    using head_major [OF m] by (auto simp: head_bytes_cases simp del: drop_bit_or)
qed

lemma cbor_bytes_not_Nil [simp]: "cbor_bytes x \<noteq> []"
  by (simp add: cbor_bytes_head)

lemma bytes_not_null: "cbor_bytes x @ suf \<noteq> SIMPLE_NULL # t"
proof
  assume "cbor_bytes x @ suf = SIMPLE_NULL # t"
  then have "hd (head_bytes 2 (word_of_nat (length x))) = SIMPLE_NULL"
    by (metis append_is_Nil_conv cbor_bytes_head cbor_bytes_not_Nil hd_append head_bytes_nonempty list.sel(1))
  then show False using hd_head_bytes [of 2 "word_of_nat (length x)"] by (simp add: SIMPLE_NULL_def)
qed

definition wf_bytes_opt :: "byte list option \<Rightarrow> bool" where
  [wf_defs]: "wf_bytes_opt x = pred_option wf_bytes x"

lemma read_bytes_or_null_iff [wire_iff]:
  "read_bytes_or_null (rdr pre s) = Inr (x, r') \<longleftrightarrow> wf_bytes_opt x \<and>
     (\<exists>suf. s = cbor_bytes_or_null x @ suf \<and> r' = rdr (pre @ cbor_bytes_or_null x) suf)"
proof (cases "s = [] \<or> hd s = SIMPLE_NULL")
  case True
  then show ?thesis
    by (cases s; cases x)
      (auto simp: read_bytes_or_null_def rdr_def cbor_bytes_or_null_def cbor_null_def wf_bytes_opt_def
        nth_append bytes_not_null [symmetric])
next
  case False
  then obtain b t where s: "s = b # t" "b \<noteq> SIMPLE_NULL" by (cases s) auto
  then have "read_bytes_or_null (rdr pre s) = and_then (read_bytes (rdr pre s)) (\<lambda>(b, r). Inr (Some b, r))"
    by (simp add: read_bytes_or_null_def rdr_def nth_append)
  then show ?thesis using s
    by (cases x) (auto simp: and_then_eq_Inr read_bytes_iff cbor_bytes_or_null_def cbor_null_def
        wf_bytes_opt_def)
qed

section \<open>Reading back what was written\<close>

lemma read_u64_write [wire_write]:
  "read_u64 (rdr pre (cbor_uint n @ suf)) = Inr (n, rdr (pre @ cbor_uint n) suf)"
  by (simp add: read_u64_iff)

lemma read_u8_write [wire_write]:
  "read_u8 err (rdr pre (cbor_uint (ucast b) @ suf)) = Inr (b, rdr (pre @ cbor_uint (ucast b)) suf)"
  by (simp add: read_u8_iff)

lemma read_u32_write [wire_write]:
  "read_u32 err (rdr pre (cbor_uint (ucast b) @ suf)) = Inr (b, rdr (pre @ cbor_uint (ucast b)) suf)"
  by (simp add: read_u32_iff)

lemma read_bytes_write [wire_write]:
  "wf_bytes x \<Longrightarrow> read_bytes (rdr pre (cbor_bytes x @ suf)) = Inr (x, rdr (pre @ cbor_bytes x) suf)"
  by (simp add: read_bytes_iff)

lemma read_text_write [wire_write]:
  "wf_text t \<Longrightarrow> read_text (rdr pre (cbor_text t @ suf)) = Inr (t, rdr (pre @ cbor_text t) suf)"
  by (simp add: read_text_iff)

lemma read_fixed_write [wire_write]:
  "wf_fixed n x \<Longrightarrow> read_fixed f n (rdr pre (cbor_bytes x @ suf)) = Inr (x, rdr (pre @ cbor_bytes x) suf)"
  by (simp add: read_fixed_iff wf_fixed_def)

lemma expect_key_write [wire_write]:
  "wf_text e \<Longrightarrow> expect_key e msg (rdr pre (cbor_key e @ suf)) = Inr (rdr (pre @ cbor_key e) suf)"
  by (simp add: expect_key_iff)

lemma read_map_header_write [wire_write]:
  "n \<le> MAX_CBOR_ENTRIES \<Longrightarrow> read_map_header (rdr pre (write_map_header [] n @ suf)) =
     Inr (n, rdr (pre @ write_map_header [] n) suf)"
  by (simp add: read_map_header_iff)

lemma read_array_header_write [wire_write]:
  "n \<le> MAX_CBOR_ENTRIES \<Longrightarrow> read_array_header (rdr pre (write_array_header [] n @ suf)) =
     Inr (n, rdr (pre @ write_array_header [] n) suf)"
  by (simp add: read_array_header_iff)

lemma read_bool_write [wire_write]:
  "read_bool (rdr pre (cbor_boolean b @ suf)) = Inr (b, rdr (pre @ cbor_boolean b) suf)"
  by (simp add: read_bool_iff)

lemma read_bytes_or_null_write [wire_write]:
  "wf_bytes_opt x \<Longrightarrow> read_bytes_or_null (rdr pre (cbor_bytes_or_null x @ suf)) =
     Inr (x, rdr (pre @ cbor_bytes_or_null x) suf)"
  by (simp add: read_bytes_or_null_iff)

section \<open>Sizes\<close>

lemma head_length: "length (head_bytes m v) \<le> 9"
  by (simp add: head_bytes_cases)

lemma item_lengths:
  "length (cbor_uint n) \<le> 9" "length (cbor_bytes b) \<le> 9 + length b" "length (cbor_text t) \<le> 9 + length t"
  "length (write_map_header [] k) \<le> 9"
  using head_length
  by (simp_all add: cbor_uint_head cbor_bytes_head cbor_text_head map_header_head)

lemma array_nil_length: "length (cbor_array enc []) \<le> 9"
  using head_length by (simp add: cbor_array_def array_header_head)

section \<open>Properties\<close>

text \<open>Reading a head is exact and minimal: it succeeds with major type \<open>m\<close> and argument \<open>v\<close> iff
  the bytes at the position are the shortest head for \<open>m\<close> and \<open>v\<close>, and it then moves past
  exactly these bytes.\<close>
lemma head_exact:
  assumes "pos r \<le> length (buf r)"
  shows "read_head r = Inr ((m, v), r') \<longleftrightarrow> m < 8 \<and> (\<exists>rest. remaining r = head_bytes m v @ rest \<and>
    r' = r\<lparr>pos := pos r + length (head_bytes m v)\<rparr>)"
proof -
  define pre s where "pre = take (pos r) (buf r)" and "s = drop (pos r) (buf r)"
  have r: "r = rdr pre s" using rdr_split [OF assms] by (simp add: pre_def s_def)
  have "rdr (pre @ h) t = (rdr pre s)\<lparr>pos := length pre + length h\<rparr>" if "s = h @ t" for h t
    using that by (simp add: rdr_def)
  then show ?thesis unfolding r by (auto simp: read_head_iff)
qed

lemma head_exact_witness:
  "read_head \<lparr>buf = [0x18, 0x64, 0x07], pos = 0\<rparr> = Inr ((0, 100), \<lparr>buf = [0x18, 0x64, 0x07], pos = 2\<rparr>)"
  using head_exact [of "\<lparr>buf = [0x18, 0x64, 0x07], pos = 0\<rparr>" 0 100 "\<lparr>buf = [0x18, 0x64, 0x07], pos = 2\<rparr>"]
  by (simp add: head_bytes_cases remaining_def)

text \<open>Reading a text item accepts exactly the encodings of valid UTF-8 texts, and what it
  returns is the text that was written.\<close>
lemma text_exact:
  assumes "pos r \<le> length (buf r)"
  shows "read_text r = Inr (t, r') \<longleftrightarrow> utf8_valid (text_bytes t) \<and> length t < 2 ^ 64 \<and>
    (\<exists>rest. remaining r = cbor_text t @ rest \<and> r' = r\<lparr>pos := pos r + length (cbor_text t)\<rparr>)"
proof -
  define pre s where "pre = take (pos r) (buf r)" and "s = drop (pos r) (buf r)"
  have r: "r = rdr pre s" using rdr_split [OF assms] by (simp add: pre_def s_def)
  have "rdr (pre @ h) u = (rdr pre s)\<lparr>pos := length pre + length h\<rparr>" if "s = h @ u" for h u
    using that by (simp add: rdr_def)
  then show ?thesis unfolding r by (auto simp: read_text_iff wf_text_def)
qed

lemma text_exact_witness:
  "read_text \<lparr>buf = [0x62, 0x68, 0x69, 0xF6], pos = 0\<rparr> =
    Inr (''hi'', \<lparr>buf = [0x62, 0x68, 0x69, 0xF6], pos = 3\<rparr>)"
  using text_exact [of "\<lparr>buf = [0x62, 0x68, 0x69, 0xF6], pos = 0\<rparr>" "''hi''"
      "\<lparr>buf = [0x62, 0x68, 0x69, 0xF6], pos = 3\<rparr>"]
  by (simp add: cbor_text_head head_bytes_cases remaining_def byte_of_char_def)

end
