(* ===== verification/Codec.thy ===== *)
theory Codec
  imports Cbor "HOL-Library.List_Lexorder" "HOL-Library.Char_ord"
begin

text \<open>
  The interfaces between the CBOR layer and the messages built on it. \<open>wire_codec\<close> is the
  contract of one item inside a stream, \<open>message\<close> that of a whole message, and its two
  refinements separate the decoders that insist on the end of the input from those that
  ignore what follows. The basic items of \<open>Cbor\<close> are interpretations of \<open>wire_codec\<close>.
\<close>

section \<open>Items in a stream\<close>

definition wf_array :: "('a \<Rightarrow> bool) \<Rightarrow> 'a list \<Rightarrow> bool" where
  [wf_defs]: "wf_array ok xs \<longleftrightarrow> length xs \<le> MAX_CBOR_ENTRIES \<and> list_all ok xs"

lemma wf_array_Nil [simp]: "wf_array ok []"
  by (simp add: wf_array_def)

locale wire_codec =
  fixes enc :: "'a \<Rightarrow> byte list"
    and dec :: "cbor_reader \<Rightarrow> ('a \<times> cbor_reader) result"
    and wf :: "'a \<Rightarrow> bool"
  assumes dec_iff: "dec (rdr pre s) = Inr (x, r') \<longleftrightarrow>
      wf x \<and> (\<exists>suf. s = enc x @ suf \<and> r' = rdr (pre @ enc x) suf)"
begin

lemma dec_enc: "wf x \<Longrightarrow> dec (rdr pre (enc x @ suf)) = Inr (x, rdr (pre @ enc x) suf)"
  by (simp add: dec_iff)

lemma enc_prefix_free:
  assumes "wf x" "wf y" "enc x @ s = enc y @ t"
  shows "x = y \<and> s = t"
proof -
  have "dec (rdr [] (enc x @ s)) = Inr (x, rdr (enc x) s)" using assms(1) by (simp add: dec_iff)
  moreover have "dec (rdr [] (enc y @ t)) = Inr (y, rdr (enc y) t)" using assms(2) by (simp add: dec_iff)
  ultimately show ?thesis using assms(3) by simp
qed

lemma enc_inj: "wf x \<Longrightarrow> wf y \<Longrightarrow> enc x = enc y \<Longrightarrow> x = y"
  using enc_prefix_free [of x y "[]" "[]"] by simp

lemma read_items_iff:
  "read_items dec n (rdr pre s) = Inr (xs, r') \<longleftrightarrow>
     length xs = n \<and> list_all wf xs \<and>
     (\<exists>suf. s = concat (map enc xs) @ suf \<and> r' = rdr (pre @ concat (map enc xs)) suf)"
proof (induction n arbitrary: pre s xs)
  case 0
  then show ?case by auto
next
  case (Suc n)
  show ?case
  proof (cases xs)
    case Nil
    then show ?thesis by (auto simp: and_then_eq_Inr)
  next
    case (Cons y ys)
    have "read_items dec (Suc n) (rdr pre s) = Inr (xs, r') \<longleftrightarrow>
        (\<exists>suf. wf y \<and> s = enc y @ suf \<and> read_items dec n (rdr (pre @ enc y) suf) = Inr (ys, r'))"
      unfolding Cons by (auto simp: and_then_eq_Inr dec_iff)
    then show ?thesis unfolding Suc.IH using Cons by auto
  qed
qed

lemma array_codec:
  "wire_codec (cbor_array enc) (read_array dec) (wf_array wf)"
  by unfold_locales
    (auto simp: wf_array_def read_array_def cbor_array_def and_then_eq_Inr read_array_header_iff read_items_iff)

end

lemma wire_codecI:
  assumes "\<And>pre s x r'. dec (rdr pre s) = Inr (x, r') \<Longrightarrow>
      ok x \<and> (\<exists>suf. s = enc x @ suf \<and> r' = rdr (pre @ enc x) suf)"
    and "\<And>pre suf x. ok x \<Longrightarrow> dec (rdr pre (enc x @ suf)) = Inr (x, rdr (pre @ enc x) suf)"
  shows "wire_codec enc dec ok"
  using assms by unfold_locales blast

lemmas wire_codec_write = wire_codec.dec_enc
lemmas wire_codec_iff = wire_codec.dec_iff

interpretation uint_item: wire_codec cbor_uint read_u64 "\<lambda>_. True"
  by unfold_locales (simp add: read_u64_iff)

interpretation bytes_item: wire_codec cbor_bytes read_bytes wf_bytes
  by unfold_locales (simp add: read_bytes_iff)

interpretation text_item: wire_codec cbor_text read_text wf_text
  by unfold_locales (simp add: read_text_iff)

interpretation bool_item: wire_codec cbor_boolean read_bool "\<lambda>_. True"
  by unfold_locales (simp add: read_bool_iff)

interpretation nullable_item: wire_codec cbor_bytes_or_null read_bytes_or_null wf_bytes_opt
  by unfold_locales (simp add: read_bytes_or_null_iff)

interpretation key32_item: wire_codec cbor_bytes "read_fixed field 32" "wf_fixed 32"
  by unfold_locales (simp add: read_fixed_iff)

section \<open>Whole messages\<close>

locale message =
  fixes encode :: "'a \<Rightarrow> byte list"
    and decode :: "byte list \<Rightarrow> 'e + 'a"
    and wf :: "'a \<Rightarrow> bool"
  assumes decode_encode: "wf x \<Longrightarrow> decode (encode x) = Inr x"
    and decode_sound: "decode bs = Inr x \<Longrightarrow> wf x \<and> (\<exists>suf. bs = encode x @ suf)"
begin

lemma encode_inj: "wf x \<Longrightarrow> wf y \<Longrightarrow> encode x = encode y \<Longrightarrow> x = y"
  by (metis Inr_inject decode_encode)

lemma accepted_prefix: "decode bs = Inr x \<Longrightarrow> take (length (encode x)) bs = encode x"
  by (auto dest!: decode_sound)

end

locale strict_message = message +
  assumes decode_exact: "decode bs = Inr x \<Longrightarrow> bs = encode x"
begin

lemma decode_iff: "decode bs = Inr x \<longleftrightarrow> wf x \<and> bs = encode x"
  using decode_encode decode_exact decode_sound by blast

lemma unique_bytes: "decode a = Inr x \<Longrightarrow> decode b = Inr x \<Longrightarrow> a = b"
  by (simp add: decode_iff)

lemma trailing_rejected: "wf x \<Longrightarrow> t \<noteq> [] \<Longrightarrow> decode (encode x @ t) \<noteq> Inr x"
  by (simp add: decode_iff)

end

locale lax_message = message +
  assumes ignores_trailing: "wf x \<Longrightarrow> decode (encode x @ t) = Inr x"
begin

lemma decode_iff_prefix: "decode bs = Inr x \<longleftrightarrow> wf x \<and> (\<exists>t. bs = encode x @ t)"
  using decode_sound ignores_trailing by blast

end

section \<open>Map bodies\<close>

text \<open>
  The encoder side of a map with a fixed key list is the header and the concatenation of
  its entries; these two equations turn \<open>encode_map [e1, ..., en]\<close> into the shape the
  readers consume.
\<close>

definition map_body :: "map_entry list \<Rightarrow> byte list" where
  "map_body es = concat (map (\<lambda>e. fst e @ snd e) es)"

lemma map_body_simps [simp]: "map_body [] = []" "map_body ((k, v) # es) = k @ v @ map_body es"
  by (simp_all add: map_body_def)

lemma encode_map_body: "encode_map es = write_map_header [] (length es) @ map_body es"
  by (simp add: encode_map_def map_body_def)

lemma max_entries_ge [simp]: "n \<le> 1048576 \<Longrightarrow> n \<le> MAX_CBOR_ENTRIES"
  by (simp add: MAX_CBOR_ENTRIES_def)

lemma map_header_inj:
  assumes "write_map_header [] m @ s = write_map_header [] n @ t" "m \<le> MAX_CBOR_ENTRIES" "n \<le> MAX_CBOR_ENTRIES"
  shows "m = n \<and> s = t"
proof -
  have "read_map_header (rdr [] (write_map_header [] m @ s)) = Inr (m, rdr (write_map_header [] m) s)"
    using assms(2) by (simp add: read_map_header_iff)
  moreover have "read_map_header (rdr [] (write_map_header [] n @ t)) = Inr (n, rdr (write_map_header [] n) t)"
    using assms(3) by (simp add: read_map_header_iff)
  ultimately show ?thesis using assms(1) by simp
qed

lemma bytes_less_irrefl [simp]: "\<not> bytes_less xs xs"
  by (induction xs) auto

lemma bytes_less_trans: "bytes_less xs ys \<Longrightarrow> bytes_less ys zs \<Longrightarrow> bytes_less xs zs"
proof (induction xs ys arbitrary: zs rule: bytes_less.induct)
  case (1 ys)
  then show ?case by (cases ys; cases zs) auto
next
  case (2 x xs)
  then show ?case by simp
next
  case (3 x xs y ys)
  then show ?case by (cases zs) (auto dest: less_trans)
qed

text \<open>Entries in canonical order have pairwise distinct keys.\<close>

lemma sorted_keys_less:
  "is_sorted_by_key (e # es) \<Longrightarrow> e' \<in> set es \<Longrightarrow> bytes_less (fst e) (fst e')"
  by (induction es arbitrary: e) (auto intro: bytes_less_trans)

lemma sorted_keys_distinct: "is_sorted_by_key es \<Longrightarrow> distinct (map fst es)"
proof (induction es)
  case Nil
  then show ?case by simp
next
  case (Cons e es)
  have "is_sorted_by_key es" using Cons.prems by (cases es) auto
  moreover have "fst e \<notin> fst ` set es"
    using sorted_keys_less [OF Cons.prems] by (metis bytes_less_irrefl imageE)
  ultimately show ?case using Cons.IH by simp
qed

section \<open>Fixed-key maps\<close>

text \<open>
  The shape of almost every decoder: check the number of keys, then for each expected key
  check it and read its value. A decoder then either insists on the end of the input
  (\<open>decode_all\<close>) or ignores what follows (\<open>decode_prefix\<close>).
\<close>

definition read_field :: "string \<Rightarrow> string \<Rightarrow> (cbor_reader \<Rightarrow> ('a \<times> cbor_reader) result) \<Rightarrow> cbor_reader \<Rightarrow>
    ('a \<times> cbor_reader) result" where
  "read_field k msg dec r = and_then (expect_key k msg r) dec"

definition read_map :: "nat \<Rightarrow> string \<Rightarrow> (cbor_reader \<Rightarrow> ('a \<times> cbor_reader) result) \<Rightarrow> cbor_reader \<Rightarrow>
    ('a \<times> cbor_reader) result" where
  "read_map n msg body r = and_then (read_map_header r) (\<lambda>(k, r).
     if k \<noteq> n then Inl (CborDecode msg) else body r)"

definition decode_all :: "string \<Rightarrow> (cbor_reader \<Rightarrow> ('a \<times> cbor_reader) result) \<Rightarrow> byte list \<Rightarrow> 'a result" where
  "decode_all msg dec bs = and_then (dec (reader_new bs)) (\<lambda>(x, r).
     if \<not> at_end r then Inl (CborDecode msg) else Inr x)"

definition decode_prefix :: "(cbor_reader \<Rightarrow> ('a \<times> cbor_reader) result) \<Rightarrow> byte list \<Rightarrow> 'a result" where
  "decode_prefix dec bs = and_then (dec (reader_new bs)) (\<lambda>(x, r). Inr x)"

lemma read_field_iff [wire_iff]:
  "wf_text k \<Longrightarrow> read_field k msg dec (rdr pre s) = Inr y \<longleftrightarrow>
     (\<exists>suf. s = cbor_text k @ suf \<and> dec (rdr (pre @ cbor_text k) suf) = Inr y)"
  by (auto simp: read_field_def and_then_eq_Inr expect_key_iff cbor_key_text)

lemma read_field_write [wire_write]:
  "wf_text k \<Longrightarrow> read_field k msg dec (rdr pre (cbor_text k @ suf)) = dec (rdr (pre @ cbor_text k) suf)"
  using expect_key_iff [of k msg pre "cbor_text k @ suf" "rdr (pre @ cbor_text k) suf"]
  by (simp add: read_field_def cbor_key_text)

lemmas literal_key = wf_text_literal ascii_def byte_of_char_def

lemma read_map_codec:
  assumes "wire_codec (\<lambda>x. map_body (es x)) body ok" "\<And>x. length (es x) = n" "n \<le> MAX_CBOR_ENTRIES"
  shows "wire_codec (\<lambda>x. encode_map (es x)) (read_map n msg body) ok"
proof (rule wire_codecI)
  fix pre s x r'
  assume "read_map n msg body (rdr pre s) = Inr (x, r')"
  then show "ok x \<and> (\<exists>suf. s = encode_map (es x) @ suf \<and> r' = rdr (pre @ encode_map (es x)) suf)"
    using assms(2)
    by (auto simp: read_map_def and_then_eq_Inr read_map_header_iff encode_map_body
        wire_codec_iff [OF assms(1)] split: if_splits)
next
  fix pre suf x
  assume "ok x"
  then show "read_map n msg body (rdr pre (encode_map (es x) @ suf)) =
      Inr (x, rdr (pre @ encode_map (es x)) suf)"
    using assms(2,3) wire_codec_write [OF assms(1), of x]
    by (simp add: read_map_def encode_map_body wire_write)
qed

text \<open>
  The rule every fixed-key map is proved with: what its field reader accepts, and what it
  returns on the entries the encoder writes.
\<close>

lemma map_codecI:
  assumes "\<And>pre s x r'. body (rdr pre s) = Inr (x, r') \<Longrightarrow>
      ok x \<and> (\<exists>suf. s = map_body (es x) @ suf \<and> r' = rdr (pre @ map_body (es x)) suf)"
    and "\<And>pre suf x. ok x \<Longrightarrow>
      body (rdr pre (map_body (es x) @ suf)) = Inr (x, rdr (pre @ map_body (es x)) suf)"
    and "\<And>x. length (es x) = n" "n \<le> MAX_CBOR_ENTRIES"
  shows "wire_codec (\<lambda>x. encode_map (es x)) (read_map n msg body) ok"
  using assms by (intro read_map_codec wire_codecI) simp_all

lemma decode_all_iff:
  assumes "wire_codec enc dec ok"
  shows "decode_all msg dec bs = Inr x \<longleftrightarrow> ok x \<and> bs = enc x"
proof
  assume "decode_all msg dec bs = Inr x"
  then show "ok x \<and> bs = enc x"
    by (auto simp: decode_all_def and_then_eq_Inr reader_new_rdr wire_codec_iff [OF assms] split: if_splits)
next
  assume "ok x \<and> bs = enc x"
  then show "decode_all msg dec bs = Inr x"
    using wire_codec_write [OF assms, of x "[]" "[]"] by (simp add: decode_all_def reader_new_rdr)
qed

lemma decode_prefix_iff:
  assumes "wire_codec enc dec ok"
  shows "decode_prefix dec bs = Inr x \<longleftrightarrow> ok x \<and> (\<exists>t. bs = enc x @ t)"
  by (auto simp: decode_prefix_def and_then_eq_Inr reader_new_rdr wire_codec_iff [OF assms])

lemma strict_messageI:
  assumes "\<And>bs x. decode bs = Inr x \<longleftrightarrow> ok x \<and> bs = encode x"
  shows "strict_message encode decode ok"
  using assms by unfold_locales auto

lemma lax_messageI:
  assumes "\<And>bs x. decode bs = Inr x \<longleftrightarrow> ok x \<and> (\<exists>t. bs = encode x @ t)"
  shows "lax_message encode decode ok"
  using assms by unfold_locales (auto intro: exI [of _ "[]"])

section \<open>Optional text\<close>

definition read_optional_text :: "string \<Rightarrow> cbor_reader \<Rightarrow> (string option \<times> cbor_reader) result" where
  "read_optional_text msg r = (case remaining r of
     [] \<Rightarrow> Inl (CborDecode msg)
   | peek # _ \<Rightarrow>
       if peek = 0xF6 then and_then (read_bytes_or_null r) (\<lambda>(_, r). Inr (None, r))
       else and_then (read_text r) (\<lambda>(t, r). Inr (Some t, r)))"

definition cbor_text_or_null :: "string option \<Rightarrow> byte list" where
  "cbor_text_or_null x = (case x of Some t \<Rightarrow> cbor_text t | None \<Rightarrow> cbor_null)"

definition read_optional_uint :: "string \<Rightarrow> cbor_reader \<Rightarrow> (u64 option \<times> cbor_reader) result" where
  "read_optional_uint msg r = (case remaining r of
     [] \<Rightarrow> Inl (CborDecode msg)
   | peek # _ \<Rightarrow>
       if peek = 0xF6 then and_then (read_bytes_or_null r) (\<lambda>(_, r). Inr (None, r))
       else and_then (read_u64 r) (\<lambda>(n, r). Inr (Some n, r)))"

definition cbor_uint_or_null :: "u64 option \<Rightarrow> byte list" where
  "cbor_uint_or_null x = (case x of Some n \<Rightarrow> cbor_uint n | None \<Rightarrow> cbor_null)"

text \<open>The first byte of an item of major type below 7 is not that of null.\<close>

lemma head_not_null:
  assumes "m < 7"
  shows "head_bytes m v @ suf \<noteq> 0xF6 # t"
proof
  assume e: "head_bytes m v @ suf = 0xF6 # t"
  have "read_head (rdr [] (head_bytes m v @ suf)) = Inr ((m, v), rdr (head_bytes m v) suf)"
    using read_head_write [of m "[]" v suf] assms by (simp add: word_less_nat_alt)
  then show False unfolding e
    using assms by (auto simp: read_head_def read_byte_write drop_bit_eq_div Let_def)
qed

lemma read_null: "read_bytes_or_null (rdr pre (0xF6 # t)) = Inr (None, rdr (pre @ [0xF6]) t)"
  by (simp add: read_bytes_or_null_def rdr_def SIMPLE_NULL_def nth_append)

lemma nullable_codec:
  assumes "wire_codec enc dec ok" "\<And>x. \<exists>m v t. m < 7 \<and> enc x = head_bytes m v @ t"
    and "\<And>r. opt r = (case remaining r of
     [] \<Rightarrow> Inl (CborDecode msg)
   | peek # _ \<Rightarrow>
       if peek = 0xF6 then and_then (read_bytes_or_null r) (\<lambda>(_, r). Inr (None, r))
       else and_then (dec r) (\<lambda>(t, r). Inr (Some t, r)))"
  shows "wire_codec (\<lambda>x. case x of Some t \<Rightarrow> enc t | None \<Rightarrow> cbor_null) opt (pred_option ok)"
proof (rule wire_codecI)
  fix pre s x r'
  assume a: "opt (rdr pre s) = Inr (x, r')"
  show "pred_option ok x \<and> (\<exists>suf. s = (case x of Some t \<Rightarrow> enc t | None \<Rightarrow> cbor_null) @ suf \<and>
      r' = rdr (pre @ (case x of Some t \<Rightarrow> enc t | None \<Rightarrow> cbor_null)) suf)"
  proof (cases "\<exists>t. s = 0xF6 # t")
    case True
    then show ?thesis using a
      by (auto simp: assms(3) read_null cbor_null_def SIMPLE_NULL_def)
  next
    case False
    then show ?thesis using a
      by (cases s) (auto simp: assms(3) and_then_eq_Inr wire_codec_iff [OF assms(1)])
  qed
next
  fix pre suf x
  assume "pred_option ok x"
  show "opt (rdr pre ((case x of Some t \<Rightarrow> enc t | None \<Rightarrow> cbor_null) @ suf)) =
      Inr (x, rdr (pre @ (case x of Some t \<Rightarrow> enc t | None \<Rightarrow> cbor_null)) suf)"
  proof (cases x)
    case None
    then show ?thesis
      by (simp add: assms(3) read_null cbor_null_def SIMPLE_NULL_def)
  next
    case (Some t)
    obtain m v u where h: "m < 7" "enc t = head_bytes m v @ u" using assms(2) by blast
    then obtain b w where "enc t @ suf = b # w" "b \<noteq> 0xF6"
      using head_not_null [OF h(1), of v "u @ suf"] by (cases "enc t @ suf") auto
    moreover have "ok t" using \<open>pred_option ok x\<close> Some by simp
    ultimately show ?thesis
      using Some wire_codec_write [OF assms(1), of t pre suf] by (simp add: assms(3))
  qed
qed

lemma text_head_form: "\<exists>m v t. m < 7 \<and> cbor_text x = head_bytes m v @ t"
  unfolding cbor_text_head by (rule exI [of _ 3]) auto

lemma uint_head_form: "\<exists>m v t. m < 7 \<and> cbor_uint x = head_bytes m v @ t"
  unfolding cbor_uint_head by (rule exI [of _ 0]) auto

interpretation optional_text: wire_codec cbor_text_or_null "read_optional_text msg" "pred_option wf_text"
  unfolding cbor_text_or_null_def [abs_def]
  by (rule nullable_codec [OF text_item.wire_codec_axioms text_head_form read_optional_text_def])

interpretation optional_uint: wire_codec cbor_uint_or_null "read_optional_uint msg" "\<lambda>_. True"
  using nullable_codec [OF uint_item.wire_codec_axioms uint_head_form read_optional_uint_def]
  unfolding cbor_uint_or_null_def [abs_def] option.pred_True .

lemmas optional_iff [wire_iff] = optional_text.dec_iff optional_uint.dec_iff
lemmas optional_write [wire_write] = optional_text.dec_enc optional_uint.dec_enc

end
