(* ===== verification/StringMap.thy ===== *)
theory StringMap
  imports Codec
begin

text \<open>
  \<open>BTreeMap<String, V>\<close> and its wire form: entries sorted by encoded key on the way out, order
  checked on the way in. A \<open>BTreeMap\<close> is the list of its entries in iteration order, i.e. with
  strictly ascending keys. The value codec is a parameter: the policy parameters of
  \<open>sidevers-core/src/verse.rs\<close> and the join fields of \<open>messages/verse.rs\<close> have text values,
  the capabilities of \<open>messages/handshake.rs\<close> integers, the fields of \<open>messages/profile.rs\<close>
  uninterpreted items.
\<close>

type_synonym 'v text_map = "(string \<times> 'v) list"
type_synonym string_map = "string text_map"

fun btree_insert :: "'k::linorder \<Rightarrow> 'v \<Rightarrow> ('k \<times> 'v) list \<Rightarrow> ('k \<times> 'v) list" where
  "btree_insert k v [] = [(k, v)]"
| "btree_insert k v ((k', v') # m) =
     (if k < k' then (k, v) # (k', v') # m
      else if k = k' then (k, v) # m
      else (k', v') # btree_insert k v m)"

definition wf_btree :: "('k::linorder \<times> 'v) list \<Rightarrow> bool" where
  "wf_btree m \<longleftrightarrow> sorted (map fst m) \<and> distinct (map fst m)"

definition text_map_entries :: "('v \<Rightarrow> byte list) \<Rightarrow> 'v text_map \<Rightarrow> map_entry list" where
  "text_map_entries encv m = sort_key fst (map (\<lambda>(k, v). (cbor_text k, encv v)) m)"

definition encode_text_map :: "('v \<Rightarrow> byte list) \<Rightarrow> 'v text_map \<Rightarrow> byte list" where
  "encode_text_map encv m = encode_map (text_map_entries encv m)"

text \<open>The loop over \<open>n\<close> remaining entries; \<open>prev\<close> (\<open>last\<close> in the source) is the previous encoded key.\<close>

fun read_entries :: "(cbor_reader \<Rightarrow> ('v \<times> cbor_reader) result) \<Rightarrow> string \<Rightarrow> nat \<Rightarrow> byte list option \<Rightarrow>
    'v text_map \<Rightarrow> cbor_reader \<Rightarrow> ('v text_map \<times> cbor_reader) result" where
  "read_entries decv msg 0 prev acc r = Inr (acc, r)"
| "read_entries decv msg (Suc n) prev acc r =
     (let kstart = pos r in
      and_then (read_text r) (\<lambda>(k, r).
      let kbytes = take (pos r - kstart) (drop kstart (buf r)) in
      if (case prev of Some p \<Rightarrow> \<not> bytes_less p kbytes | None \<Rightarrow> False) then Inl (CborNotCanonical msg)
      else and_then (decv r) (\<lambda>(v, r).
        read_entries decv msg n (Some kbytes) (btree_insert k v acc) r)))"

definition read_text_map :: "(cbor_reader \<Rightarrow> ('v \<times> cbor_reader) result) \<Rightarrow> string \<Rightarrow> cbor_reader \<Rightarrow>
    ('v text_map \<times> cbor_reader) result" where
  "read_text_map decv msg r = and_then (read_map_header r) (\<lambda>(n, r). read_entries decv msg n None [] r)"

definition wf_text_map :: "('v \<Rightarrow> bool) \<Rightarrow> 'v text_map \<Rightarrow> bool" where
  "wf_text_map okv m \<longleftrightarrow> wf_btree m \<and> length m \<le> MAX_CBOR_ENTRIES \<and> list_all (\<lambda>(k, v). wf_text k \<and> okv v) m"

text \<open>The two instances with text values.\<close>

definition string_map_entries :: "string_map \<Rightarrow> map_entry list" where
  "string_map_entries = text_map_entries cbor_text"

definition encode_string_map :: "string_map \<Rightarrow> byte list" where
  "encode_string_map = encode_text_map cbor_text"

definition read_string_map :: "string \<Rightarrow> cbor_reader \<Rightarrow> (string_map \<times> cbor_reader) result" where
  "read_string_map = read_text_map read_text"

definition wf_string_map :: "string_map \<Rightarrow> bool" where
  "wf_string_map = wf_text_map wf_text"

section \<open>Sorted maps\<close>

lemma bytes_less_iff: "bytes_less xs ys \<longleftrightarrow> xs < ys"
proof (induction xs ys rule: bytes_less.induct)
  case (1 ys)
  then show ?case by (cases ys) auto
qed auto

lemma set_btree_insert:
  "k \<notin> fst ` set m \<Longrightarrow> set (btree_insert k v m) = insert (k, v) (set m)"
  by (induction m) (auto split: if_splits)

lemma keys_btree_insert: "fst ` set (btree_insert k v m) = insert k (fst ` set m)"
  by (induction k v m rule: btree_insert.induct) auto

lemma wf_btree_Cons: "wf_btree ((k, v) # m) \<longleftrightarrow> (\<forall>k' \<in> fst ` set m. k < k') \<and> wf_btree m"
  by (auto simp: wf_btree_def order_less_le)

lemma wf_btree_insert: "wf_btree m \<Longrightarrow> wf_btree (btree_insert k v m)"
proof (induction k v m rule: btree_insert.induct)
  case (1 k v)
  then show ?case by (simp add: wf_btree_def)
next
  case (2 k v k' v' m)
  then show ?case
    by (auto simp: wf_btree_Cons keys_btree_insert simp del: btree_insert.simps)
      (auto simp: wf_btree_Cons keys_btree_insert)
qed

lemma wf_btree_unique:
  assumes "wf_btree a" "wf_btree b" "set a = set b"
  shows "a = b"
proof (rule map_sorted_distinct_set_unique)
  show "inj_on fst (set a \<union> set b)"
    using assms by (simp add: wf_btree_def distinct_map)
qed (use assms in \<open>simp_all add: wf_btree_def\<close>)

lemma fold_btree_insert:
  assumes "distinct (map fst kvs)" "fst ` set kvs \<inter> fst ` set acc = {}" "wf_btree acc"
  shows "wf_btree (fold (\<lambda>(k, v). btree_insert k v) kvs acc) \<and>
    set (fold (\<lambda>(k, v). btree_insert k v) kvs acc) = set kvs \<union> set acc"
  using assms
proof (induction kvs arbitrary: acc)
  case Nil
  then show ?case by simp
next
  case (Cons p kvs)
  obtain k v where p: "p = (k, v)" by (cases p)
  have k: "k \<notin> fst ` set acc" using Cons.prems(2) p by auto
  show ?case
    using Cons.IH [of "btree_insert k v acc"] Cons.prems k p
    by (auto simp: keys_btree_insert set_btree_insert wf_btree_insert)
qed

section \<open>The codec\<close>

fun ascending :: "byte list option \<Rightarrow> 'v text_map \<Rightarrow> bool" where
  "ascending prev [] = True"
| "ascending prev ((k, v) # kvs) =
     ((case prev of Some p \<Rightarrow> p < cbor_text k | None \<Rightarrow> True) \<and> ascending (Some (cbor_text k)) kvs)"

lemma ascending_Some: "ascending (Some p) kvs \<longleftrightarrow> sorted_wrt (<) (p # map (cbor_text \<circ> fst) kvs)"
proof (induction kvs arbitrary: p)
  case Nil
  then show ?case by simp
next
  case (Cons q kvs)
  then show ?case by (cases q) (auto dest: order.strict_trans)
qed

lemma ascending_None: "ascending None kvs \<longleftrightarrow> sorted_wrt (<) (map (cbor_text \<circ> fst) kvs)"
  by (cases kvs) (force simp: ascending_Some)+

definition after :: "byte list option \<Rightarrow> byte list \<Rightarrow> bool" where
  "after prev k \<longleftrightarrow> (case prev of Some p \<Rightarrow> p < k | None \<Rightarrow> True)"

lemma not_after: "(case prev of Some p \<Rightarrow> \<not> bytes_less p k | None \<Rightarrow> False) \<longleftrightarrow> \<not> after prev k"
  by (cases prev) (simp_all add: after_def bytes_less_iff)

text \<open>
  The entries read are the entries of the map sorted by encoded key, and the map is the
  one these entries make: each determines the other.
\<close>

definition canonical_order :: "'v text_map \<Rightarrow> 'v text_map" where
  "canonical_order m = sort_key (\<lambda>p. cbor_text (fst p)) m"

definition keys_ok :: "'v text_map \<Rightarrow> bool" where
  "keys_ok m \<longleftrightarrow> list_all (wf_text \<circ> fst) m"

lemma cbor_text_inj_on: "inj_on (\<lambda>p. cbor_text (fst p)) (set m)"
  if "keys_ok m" "distinct (map fst m)"
proof (rule inj_onI)
  fix p q
  assume pq: "p \<in> set m" "q \<in> set m" "cbor_text (fst p) = cbor_text (fst q)"
  then have "fst p = fst q"
    using that(1) text_item.enc_inj [of "fst p" "fst q"] by (auto simp: keys_ok_def list_all_iff)
  then show "p = q" using pq that(2) by (metis distinct_map inj_onD)
qed

lemma insort_key_map: "insort_key f (g x) (map g xs) = map g (insort_key (f \<circ> g) x xs)"
  by (induction xs) auto

lemma sort_key_map: "sort_key f (map g xs) = map g (sort_key (f \<circ> g) xs)"
  by (induction xs) (auto simp: insort_key_map comp_def)

lemma entries_canonical:
  "text_map_entries encv m = map (\<lambda>(k, v). (cbor_text k, encv v)) (canonical_order m)"
  by (simp add: text_map_entries_def canonical_order_def sort_key_map comp_def split_beta)

lemma canonical_order_fold:
  assumes "keys_ok kvs" "sorted_wrt (<) (map (cbor_text \<circ> fst) kvs)"
  shows "wf_btree (fold (\<lambda>(k, v). btree_insert k v) kvs [])"
    and "set (fold (\<lambda>(k, v). btree_insert k v) kvs []) = set kvs"
    and "canonical_order (fold (\<lambda>(k, v). btree_insert k v) kvs []) = kvs"
proof -
  let ?m = "fold (\<lambda>(k, v). btree_insert k v) kvs []"
  have s: "sorted (map (\<lambda>p. cbor_text (fst p)) kvs)" "distinct (map (\<lambda>p. cbor_text (fst p)) kvs)"
    using assms(2) by (simp_all add: comp_def strict_sorted_iff)
  then have d: "distinct (map fst kvs)" by (auto simp: distinct_map inj_on_def)
  show m: "wf_btree ?m" "set ?m = set kvs"
    using fold_btree_insert [OF d, of "[]"] by (simp_all add: wf_btree_def)
  have l: "keys_ok ?m" using assms(1) m(2) by (simp add: keys_ok_def list_all_iff)
  have i: "inj_on (\<lambda>p. cbor_text (fst p)) (set ?m)"
    using m(1) l by (intro cbor_text_inj_on) (simp_all add: wf_btree_def)
  have dm: "distinct ?m" using m(1) by (simp add: wf_btree_def distinct_map)
  show "canonical_order ?m = kvs"
  proof (rule map_sorted_distinct_set_unique)
    show "inj_on (\<lambda>p. cbor_text (fst p)) (set (canonical_order ?m) \<union> set kvs)"
      using i m(2) by (simp add: canonical_order_def)
  qed (use s m(2) i dm in \<open>simp_all add: canonical_order_def distinct_map\<close>)
qed

lemma fold_canonical_order:
  assumes "wf_btree m" "keys_ok m"
  shows "sorted_wrt (<) (map (cbor_text \<circ> fst) (canonical_order m))"
    and "fold (\<lambda>(k, v). btree_insert k v) (canonical_order m) [] = m"
proof -
  have d: "distinct (map fst m)" "distinct m" using assms(1) by (auto simp: wf_btree_def distinct_map)
  have "distinct (map (\<lambda>p. cbor_text (fst p)) (canonical_order m))"
    using d cbor_text_inj_on [OF assms(2) d(1)] by (simp add: canonical_order_def distinct_map)
  then show s: "sorted_wrt (<) (map (cbor_text \<circ> fst) (canonical_order m))"
    by (simp add: strict_sorted_iff canonical_order_def comp_def)
  have "keys_ok (canonical_order m)"
    using assms(2) by (simp add: keys_ok_def list_all_iff canonical_order_def)
  from canonical_order_fold(1,2) [OF this s]
  show "fold (\<lambda>(k, v). btree_insert k v) (canonical_order m) [] = m"
    using assms(1) by (intro wf_btree_unique) (simp_all add: canonical_order_def)
qed

context wire_codec
begin

definition kv_body :: "'a text_map \<Rightarrow> byte list" where
  "kv_body kvs = concat (map (\<lambda>(k, v). cbor_text k @ enc v) kvs)"

lemma read_entries_step:
  "read_entries dec msg (Suc n) prev acc (rdr pre s) = Inr (m, r') \<longleftrightarrow>
     (\<exists>k v t. wf_text k \<and> wf v \<and> s = cbor_text k @ enc v @ t \<and> after prev (cbor_text k) \<and>
        read_entries dec msg n (Some (cbor_text k)) (btree_insert k v acc)
          (rdr (pre @ cbor_text k @ enc v) t) = Inr (m, r'))" (is "?L \<longleftrightarrow> ?R")
proof
  assume ?L
  then obtain k v t where "wf_text k" "wf v" "s = cbor_text k @ enc v @ t"
    "after prev (cbor_text k)" "read_entries dec msg n (Some (cbor_text k)) (btree_insert k v acc)
        (rdr (pre @ cbor_text k @ enc v) t) = Inr (m, r')"
    by (auto simp: Let_def and_then_eq_Inr read_text_iff dec_iff not_after split: if_splits)
  then show ?R by blast
next
  assume ?R
  then show ?L by (auto simp: Let_def wire_write dec_enc not_after)
qed

lemma read_entries_iff:
  "read_entries dec msg n prev acc (rdr pre s) = Inr (m, r') \<longleftrightarrow>
     (\<exists>kvs suf. length kvs = n \<and> list_all (\<lambda>(k, v). wf_text k \<and> wf v) kvs \<and> ascending prev kvs \<and>
        m = fold (\<lambda>(k, v). btree_insert k v) kvs acc \<and>
        s = kv_body kvs @ suf \<and> r' = rdr (pre @ kv_body kvs) suf)"
proof (induction n arbitrary: prev acc pre s)
  case 0
  then show ?case by (auto simp: kv_body_def)
next
  case (Suc n)
  show ?case (is "_ \<longleftrightarrow> ?R")
  proof
    assume "read_entries dec msg (Suc n) prev acc (rdr pre s) = Inr (m, r')"
    then obtain k v kvs suf where h: "wf_text k" "wf v" "after prev (cbor_text k)"
      "length kvs = n" "list_all (\<lambda>(k, v). wf_text k \<and> wf v) kvs" "ascending (Some (cbor_text k)) kvs"
      "m = fold (\<lambda>(k, v). btree_insert k v) kvs (btree_insert k v acc)"
      "s = cbor_text k @ enc v @ kv_body kvs @ suf"
      "r' = rdr (pre @ cbor_text k @ enc v @ kv_body kvs) suf"
      unfolding read_entries_step Suc.IH by auto
    show ?R
      by (rule exI [of _ "(k, v) # kvs"]) (use h in \<open>simp add: kv_body_def after_def\<close>)
  next
    assume ?R
    then obtain k v kvs suf where h: "wf_text k" "wf v" "after prev (cbor_text k)"
      "length kvs = n" "list_all (\<lambda>(k, v). wf_text k \<and> wf v) kvs" "ascending (Some (cbor_text k)) kvs"
      "m = fold (\<lambda>(k, v). btree_insert k v) kvs (btree_insert k v acc)"
      "s = cbor_text k @ enc v @ kv_body kvs @ suf"
      "r' = rdr (pre @ cbor_text k @ enc v @ kv_body kvs) suf"
      by (auto simp: length_Suc_conv kv_body_def after_def)
    show "read_entries dec msg (Suc n) prev acc (rdr pre s) = Inr (m, r')"
      unfolding read_entries_step Suc.IH
      by (intro exI [of _ k] exI [of _ v] exI [of _ "kv_body kvs @ suf"] conjI exI [of _ kvs] exI [of _ suf])
        (use h in simp_all)
  qed
qed

lemma encode_text_map_body:
  "encode_text_map enc m = write_map_header [] (length m) @ kv_body (canonical_order m)"
proof -
  have "map_body (map (\<lambda>(k, v). (cbor_text k, enc v)) kvs) = kv_body kvs" for kvs
    by (induction kvs) (auto simp: kv_body_def)
  then show ?thesis
    by (simp add: encode_text_map_def encode_map_body entries_canonical)
      (simp add: canonical_order_def)
qed

lemma text_map_codec: "wire_codec (encode_text_map enc) (read_text_map dec msg) (wf_text_map wf)"
proof (unfold_locales, rule iffI)
  fix pre s m r'
  assume "read_text_map dec msg (rdr pre s) = Inr (m, r')"
  then obtain kvs suf where k: "length kvs \<le> MAX_CBOR_ENTRIES"
      "list_all (\<lambda>(k, v). wf_text k \<and> wf v) kvs" "ascending None kvs"
      "m = fold (\<lambda>(k, v). btree_insert k v) kvs []"
      "s = write_map_header [] (length kvs) @ kv_body kvs @ suf"
      "r' = rdr (pre @ write_map_header [] (length kvs) @ kv_body kvs) suf"
    by (auto simp: read_text_map_def and_then_eq_Inr read_map_header_iff read_entries_iff)
  have "keys_ok kvs" using k(2) by (auto simp: keys_ok_def list_all_iff)
  note c = canonical_order_fold [OF this k(3) [unfolded ascending_None], folded k(4)]
  have "length m = length kvs" using arg_cong [OF c(3), of length] by (simp add: canonical_order_def)
  then show "wf_text_map wf m \<and> (\<exists>suf. s = encode_text_map enc m @ suf \<and> r' = rdr (pre @ encode_text_map enc m) suf)"
    using k c by (simp add: wf_text_map_def encode_text_map_body list_all_iff)
next
  fix pre s m r'
  assume a: "wf_text_map wf m \<and> (\<exists>suf. s = encode_text_map enc m @ suf \<and> r' = rdr (pre @ encode_text_map enc m) suf)"
  then have m: "wf_btree m" "list_all (\<lambda>(k, v). wf_text k \<and> wf v) m" "length m \<le> MAX_CBOR_ENTRIES"
    by (simp_all add: wf_text_map_def)
  have "keys_ok m" using m(2) by (auto simp: keys_ok_def list_all_iff)
  note f = fold_canonical_order [OF m(1) this]
  have "read_entries dec msg (length m) None [] (rdr p (kv_body (canonical_order m) @ suf)) =
      Inr (m, rdr (p @ kv_body (canonical_order m)) suf)" for p suf
    unfolding read_entries_iff
    by (intro exI [of _ "canonical_order m"] exI [of _ suf])
      (use m(2) f in \<open>simp add: ascending_None canonical_order_def list_all_iff\<close>)
  then show "read_text_map dec msg (rdr pre s) = Inr (m, r')"
    using a m(3) by (auto simp: read_text_map_def encode_text_map_body wire_write)
qed

end

interpretation string_map_item: wire_codec encode_string_map "read_string_map msg" wf_string_map
  unfolding encode_string_map_def read_string_map_def wf_string_map_def
  by (rule text_item.text_map_codec)

lemmas string_map_iff [wire_iff] = string_map_item.dec_iff
lemmas string_map_write [wire_write] = string_map_item.dec_enc

section \<open>Properties\<close>

text \<open>A string map on the wire has one form: the decoder accepts a byte string iff it is the
  encoding of a map (entries sorted by encoded key, no key twice) followed by the bytes it
  leaves unread.\<close>
lemma string_map_exact:
  "read_string_map msg (reader_new bs) = Inr (m, r) \<longleftrightarrow> wf_string_map m \<and>
     (\<exists>rest. bs = encode_string_map m @ rest \<and> r = \<lparr>buf = bs, pos = length (encode_string_map m)\<rparr>)"
  unfolding reader_new_rdr string_map_iff by (auto simp: rdr_def)

end
