(* ===== verification/Keys.thy ===== *)
theory Keys
  imports Prelude
begin

text \<open>
  Identity keys (\<open>sidevers-core/src/keys.rs\<close>) and payload encryption
  (\<open>sidevers-core/src/payload.rs\<close>). The primitives come from third-party crates
  (ed25519-dalek, x25519-dalek, blake3, hkdf, sha2, chacha20poly1305, argon2): they are the
  fields of the parameter record \<open>crypto\<close>, and what the code relies on is stated as the
  predicates \<open>signature_laws\<close>, \<open>aead_laws\<close> and \<open>dh_laws\<close>.
\<close>

section \<open>The cryptographic primitives as a parameter\<close>

record crypto =
  blake3 :: "byte list \<Rightarrow> byte list"
  blake3_keyed :: "byte list \<Rightarrow> byte list \<Rightarrow> byte list"
  ed_public :: "byte list \<Rightarrow> byte list"
  ed_sign :: "byte list \<Rightarrow> byte list \<Rightarrow> byte list"
  ed_point_ok :: "byte list \<Rightarrow> bool"
  ed_verify :: "byte list \<Rightarrow> byte list \<Rightarrow> byte list \<Rightarrow> bool"
  ed_montgomery :: "byte list \<Rightarrow> byte list"
  sha512 :: "byte list \<Rightarrow> byte list"
  x25519 :: "byte list \<Rightarrow> byte list \<Rightarrow> byte list"
  x25519_base :: "byte list \<Rightarrow> byte list"
  hkdf_sha512 :: "byte list \<Rightarrow> byte list \<Rightarrow> byte list \<Rightarrow> byte list"
  aead_encrypt :: "byte list \<Rightarrow> byte list \<Rightarrow> byte list \<Rightarrow> byte list \<Rightarrow> byte list option"
  aead_decrypt :: "byte list \<Rightarrow> byte list \<Rightarrow> byte list \<Rightarrow> byte list \<Rightarrow> byte list option"
  argon2_params_ok :: "u32 \<Rightarrow> u32 \<Rightarrow> u32 \<Rightarrow> bool"
  argon2id :: "u32 \<Rightarrow> u32 \<Rightarrow> u32 \<Rightarrow> byte list \<Rightarrow> byte list \<Rightarrow> byte list option"

definition SECRET_KEY_LEN :: nat where "SECRET_KEY_LEN = 32"
definition PUBLIC_KEY_LEN :: nat where "PUBLIC_KEY_LEN = 32"
definition SIGNATURE_LEN :: nat where "SIGNATURE_LEN = 64"
definition NONCE_LEN :: nat where "NONCE_LEN = 16"

lemmas len_defs [simp] = SECRET_KEY_LEN_def PUBLIC_KEY_LEN_def SIGNATURE_LEN_def NONCE_LEN_def

text \<open>
  \<open>getrandom\<close> fills a buffer or fails; the operations that draw randomness take the
  outcome of the call.
\<close>

definition fill_random :: "byte list option \<Rightarrow> byte list result" where
  "fill_random outcome = (case outcome of
     Some bs \<Rightarrow> Inr bs | None \<Rightarrow> Inl (CsprngUnavailable ''getrandom''))"

section \<open>Sides\<close>

text \<open>A \<open>SideKey\<close> is its 32-byte seed and its local label; a \<open>MasterKey\<close> is its seed.\<close>

record side_key =
  seed :: "byte list"
  label :: string

definition SIDE_HKDF_SALT :: "byte list" where
  "SIDE_HKDF_SALT = text_bytes ''sidevers/v1/sides''"

definition derive_side :: "crypto \<Rightarrow> byte list \<Rightarrow> string \<Rightarrow> side_key" where
  "derive_side C master_seed lbl =
     \<lparr>seed = hkdf_sha512 C SIDE_HKDF_SALT master_seed (text_bytes lbl), label = lbl\<rparr>"

definition public_bytes :: "crypto \<Rightarrow> side_key \<Rightarrow> byte list" where
  "public_bytes C k = ed_public C (seed k)"

definition side_sign :: "crypto \<Rightarrow> side_key \<Rightarrow> byte list \<Rightarrow> byte list" where
  "side_sign C k m = ed_sign C (seed k) m"

definition public_key_from_bytes :: "crypto \<Rightarrow> byte list \<Rightarrow> byte list result" where
  "public_key_from_bytes C b =
     (if ed_point_ok C b then Inr b else Inl (Invariant ''invalid Ed25519 public key encoding''))"

definition verify_sig :: "crypto \<Rightarrow> byte list \<Rightarrow> byte list \<Rightarrow> byte list \<Rightarrow> unit result" where
  "verify_sig C pk m sig = (if ed_verify C pk m sig then Inr () else Inl SignatureInvalid)"

text \<open>The shape every signed record uses: parse the key, verify over the BLAKE3 digest.\<close>

definition check_signature :: "crypto \<Rightarrow> byte list \<Rightarrow> byte list \<Rightarrow> byte list \<Rightarrow> unit result" where
  "check_signature C pk tbs sig =
     and_then (public_key_from_bytes C pk) (\<lambda>k. verify_sig C k (blake3 C tbs) sig)"

section \<open>Payload encryption\<close>

definition PAYLOAD_HKDF_INFO :: "byte list" where
  "PAYLOAD_HKDF_INFO = text_bytes ''sidevers/v1/payload''"

definition AEAD_NONCE_LEN :: nat where "AEAD_NONCE_LEN = 12"

definition x25519_secret_from_side :: "crypto \<Rightarrow> side_key \<Rightarrow> byte list" where
  "x25519_secret_from_side C k = take 32 (sha512 C (seed k))"

definition derive_aead_key :: "crypto \<Rightarrow> side_key \<Rightarrow> byte list \<Rightarrow> byte list \<Rightarrow> byte list" where
  "derive_aead_key C sender recipient_pk envelope_nonce =
     hkdf_sha512 C envelope_nonce
       (x25519 C (x25519_secret_from_side C sender) (ed_montgomery C recipient_pk))
       PAYLOAD_HKDF_INFO"

definition aead_nonce_from_envelope_nonce :: "byte list \<Rightarrow> byte list" where
  "aead_nonce_from_envelope_nonce n = take AEAD_NONCE_LEN n"

definition seal :: "crypto \<Rightarrow> byte list \<Rightarrow> side_key \<Rightarrow> byte list \<Rightarrow> byte list \<Rightarrow> byte list \<Rightarrow>
    byte list result" where
  "seal C plaintext sender recipient_pk envelope_nonce aad =
     and_then (public_key_from_bytes C recipient_pk) (\<lambda>pk.
       case aead_encrypt C (derive_aead_key C sender pk envelope_nonce)
           (aead_nonce_from_envelope_nonce envelope_nonce) aad plaintext of
         None \<Rightarrow> Inl (Invariant ''AEAD encrypt failed'')
       | Some ct \<Rightarrow> Inr ct)"

definition open_payload :: "crypto \<Rightarrow> byte list \<Rightarrow> side_key \<Rightarrow> byte list \<Rightarrow> byte list \<Rightarrow> byte list \<Rightarrow>
    byte list result" where
  "open_payload C ciphertext recipient sender_pk envelope_nonce aad =
     and_then (public_key_from_bytes C sender_pk) (\<lambda>pk.
       case aead_decrypt C (derive_aead_key C recipient pk envelope_nonce)
           (aead_nonce_from_envelope_nonce envelope_nonce) aad ciphertext of
         None \<Rightarrow> Inl DecryptionFailed
       | Some pt \<Rightarrow> Inr pt)"

section \<open>What the code relies on\<close>

text \<open>
  Ed25519: a 32-byte seed has a valid 32-byte public key, signatures are 64 bytes and
  verify under the signer's key. ChaCha20-Poly1305: encryption under a 32-byte key and a
  12-byte nonce succeeds (here below 4 GiB) and adds a 16-byte tag, decryption inverts it,
  and a ciphertext decrypts only if it is what encryption of the plaintext gives. X25519 on keys of the two parties is symmetric.
\<close>

definition signature_laws :: "crypto \<Rightarrow> bool" where
  "signature_laws C \<longleftrightarrow>
     (\<forall>sd. length sd = 32 \<longrightarrow> length (ed_public C sd) = 32 \<and> ed_point_ok C (ed_public C sd)) \<and>
     (\<forall>sd m. length sd = 32 \<longrightarrow> length (ed_sign C sd m) = 64 \<and>
        ed_verify C (ed_public C sd) m (ed_sign C sd m))"

definition aead_laws :: "crypto \<Rightarrow> bool" where
  "aead_laws C \<longleftrightarrow>
     (\<forall>k n aad m. length k = 32 \<longrightarrow> length n = 12 \<longrightarrow> length m < 2 ^ 32 \<longrightarrow> aead_encrypt C k n aad m \<noteq> None) \<and>
     (\<forall>k n aad m ct. aead_encrypt C k n aad m = Some ct \<longrightarrow> length ct = length m + 16) \<and>
     (\<forall>k n aad m ct. aead_decrypt C k n aad ct = Some m \<longleftrightarrow> aead_encrypt C k n aad m = Some ct)"

definition dh_laws :: "crypto \<Rightarrow> bool" where
  "dh_laws C \<longleftrightarrow>
     (\<forall>a b. length a = 32 \<longrightarrow> length b = 32 \<longrightarrow>
        x25519 C (take 32 (sha512 C a)) (ed_montgomery C (ed_public C b)) =
        x25519 C (take 32 (sha512 C b)) (ed_montgomery C (ed_public C a))) \<and>
     (\<forall>a b. x25519 C a (x25519_base C b) = x25519 C b (x25519_base C a)) \<and>
     (\<forall>a. length a = 32 \<longrightarrow> length (x25519_base C a) = 32)"

definition hash_laws :: "crypto \<Rightarrow> bool" where
  "hash_laws C \<longleftrightarrow> (\<forall>m. length (blake3 C m) = 32) \<and> (\<forall>k m. length (blake3_keyed C k m) = 32) \<and>
     (\<forall>s i f. length (hkdf_sha512 C s i f) = 32)"

definition wf_side :: "side_key \<Rightarrow> bool" where
  [wf_defs]: "wf_side k \<longleftrightarrow> length (seed k) = 32"

section \<open>Consequences\<close>

lemma check_signature_iff [simp]:
  "check_signature C pk u sig = Inr () \<longleftrightarrow> ed_point_ok C pk \<and> ed_verify C pk (blake3 C u) sig"
  by (auto simp: check_signature_def public_key_from_bytes_def verify_sig_def)

lemma check_signature_Inr:
  "check_signature C pk u sig = Inr w \<longleftrightarrow> ed_point_ok C pk \<and> ed_verify C pk (blake3 C u) sig"
  by simp

lemma signed_by_side:
  assumes "signature_laws C" "wf_side k"
  shows "length (public_bytes C k) = 32" "ed_point_ok C (public_bytes C k)"
    "length (side_sign C k m) = 64" "ed_verify C (public_bytes C k) m (side_sign C k m)"
  using assms by (auto simp: signature_laws_def wf_side_def public_bytes_def side_sign_def)

lemma aead_length:
  "aead_laws C \<Longrightarrow> aead_encrypt C k n aad m = Some ct \<Longrightarrow> length ct = length m + 16"
  by (simp add: aead_laws_def)

text \<open>Both parties of an exchange derive the same payload key.\<close>

lemma derive_aead_key_sym:
  assumes "dh_laws C" "wf_side a" "wf_side b"
  shows "derive_aead_key C a (public_bytes C b) n = derive_aead_key C b (public_bytes C a) n"
  using assms
  by (simp add: dh_laws_def wf_side_def derive_aead_key_def public_bytes_def x25519_secret_from_side_def)

text \<open>All documented laws of the primitives together.\<close>

definition laws :: "crypto \<Rightarrow> bool" where
  "laws C \<longleftrightarrow> signature_laws C \<and> aead_laws C \<and> dh_laws C \<and> hash_laws C"

text \<open>
  The recipient opens exactly what the sender sealed to it, under the same nonce and
  associated data.
\<close>

lemma seal_open:
  assumes "signature_laws C" "aead_laws C" "dh_laws C" "hash_laws C" "wf_side a" "wf_side b"
    and "12 \<le> length n" "length m < 2 ^ 32"
  shows "\<exists>ct. seal C m a (public_bytes C b) n aad = Inr ct \<and> length ct = length m + 16 \<and>
    open_payload C ct b (public_bytes C a) n aad = Inr m"
proof -
  let ?k = "derive_aead_key C a (public_bytes C b) n"
  let ?n = "aead_nonce_from_envelope_nonce n"
  have "length ?k = 32" "length ?n = 12"
    using assms(4,7) by (simp_all add: hash_laws_def derive_aead_key_def aead_nonce_from_envelope_nonce_def AEAD_NONCE_LEN_def)
  then obtain ct where ct: "aead_encrypt C ?k ?n aad m = Some ct"
    using assms(2,8) unfolding aead_laws_def by blast
  then have "aead_decrypt C ?k ?n aad ct = Some m" "length ct = length m + 16"
    using assms(2) by (simp_all add: aead_laws_def)
  then show ?thesis
    using ct signed_by_side(2) [OF assms(1)] assms(5,6) derive_aead_key_sym [OF assms(3,5,6), of n]
    by (auto simp: seal_def open_payload_def public_key_from_bytes_def)
qed

lemma open_payload_sound:
  assumes "aead_laws C" "open_payload C ct b pk n aad = Inr m"
  shows "ed_point_ok C pk \<and> aead_encrypt C (derive_aead_key C b pk n)
    (aead_nonce_from_envelope_nonce n) aad m = Some ct"
  using assms
  by (auto simp: open_payload_def public_key_from_bytes_def aead_laws_def split: if_splits option.splits)

section \<open>A concrete instance of the primitives\<close>

text \<open>
  A toy instance that satisfies the laws, for evaluating concrete inputs: the public key
  is the seed, a signature is the key followed by a fold of the message, the cipher
  appends a tag computed from key, nonce and associated data.
\<close>

definition pad32 :: "byte list \<Rightarrow> byte list" where
  "pad32 bs = take 32 (bs @ replicate 32 0)"

definition sample_tag :: "byte list \<Rightarrow> byte list \<Rightarrow> byte list \<Rightarrow> byte list" where
  "sample_tag k n aad = replicate 15 0 @ [sum_list k + sum_list n + sum_list aad]"

definition sample_crypto :: crypto where
  "sample_crypto = \<lparr>
     blake3 = (\<lambda>m. pad32 (sum_list m # rev m)),
     blake3_keyed = (\<lambda>k m. pad32 ((sum_list k + sum_list m) # k)),
     ed_public = (\<lambda>sd. sd),
     ed_sign = (\<lambda>sd m. pad32 sd @ pad32 m),
     ed_point_ok = (\<lambda>_. True),
     ed_verify = (\<lambda>pk m sig. sig = pad32 pk @ pad32 m),
     ed_montgomery = (\<lambda>pk. pk),
     sha512 = (\<lambda>sd. sd),
     x25519 = (\<lambda>a b. [sum_list a + sum_list b]),
     x25519_base = (\<lambda>a. a),
     hkdf_sha512 = (\<lambda>salt ikm info. pad32 (ikm @ info)),
     aead_encrypt = (\<lambda>k n aad m. Some (m @ sample_tag k n aad)),
     aead_decrypt = (\<lambda>k n aad ct.
        if 16 \<le> length ct \<and> drop (length ct - 16) ct = sample_tag k n aad
        then Some (take (length ct - 16) ct) else None),
     argon2_params_ok = (\<lambda>m t p. 8 \<le> m \<and> 1 \<le> t \<and> 1 \<le> p),
     argon2id = (\<lambda>m t p pw salt. Some (pad32 (pw @ salt)))\<rparr>"

lemma length_pad32 [simp]: "length (pad32 bs) = 32"
  by (simp add: pad32_def)

lemma length_sample_tag [simp]: "length (sample_tag k n aad) = 16"
  by (simp add: sample_tag_def)

lemma sample_signature_laws: "signature_laws sample_crypto"
  by (simp add: signature_laws_def sample_crypto_def)

lemma sample_hash_laws: "hash_laws sample_crypto"
  by (simp add: hash_laws_def sample_crypto_def)

lemma sample_dh_laws: "dh_laws sample_crypto"
  by (simp add: dh_laws_def sample_crypto_def add.commute)

lemma sample_aead_laws: "aead_laws sample_crypto"
  by (auto simp: aead_laws_def sample_crypto_def) (metis append_take_drop_id)

lemma sample_public: "public_bytes sample_crypto k = seed k"
  by (simp add: public_bytes_def sample_crypto_def)

lemma sample_laws_all: "laws sample_crypto"
  by (simp add: laws_def sample_signature_laws sample_hash_laws sample_dh_laws sample_aead_laws)

lemmas sample_laws = sample_signature_laws sample_hash_laws sample_dh_laws sample_aead_laws

end
