(* ===== verification/VerseContract.thy ===== *)
theory VerseContract
  imports StringMap Keys
begin

text \<open>
  Verse contracts, membership tokens and content keys, \<open>sidevers-core/src/verse.rs\<close>: the
  records with their canonical encodings and signatures, policy classification, the
  classification of amendments, and the symmetric content key.
\<close>

section \<open>Fields and policies\<close>

type_synonym field_kind = string

record field_spec =
  fs_kind :: field_kind
  fs_label :: string
  fs_description :: "string option"
  fs_validator :: "string option"

definition field_spec_entries :: "field_spec \<Rightarrow> map_entry list" where
  "field_spec_entries f =
     [(cbor_text ''kind'', cbor_text (fs_kind f)),
      (cbor_text ''label'', cbor_text (fs_label f)),
      (cbor_text ''validator'', cbor_text_or_null (fs_validator f)),
      (cbor_text ''description'', cbor_text_or_null (fs_description f))]"

definition encode_field_spec :: "field_spec \<Rightarrow> byte list" where
  "encode_field_spec f = encode_map (field_spec_entries f)"

definition field_spec_fields :: "cbor_reader \<Rightarrow> (field_spec \<times> cbor_reader) result" where
  "field_spec_fields r = (let msg = ''FieldSpec keys not in canonical order'' in
     and_then (read_field ''kind'' msg read_text r) (\<lambda>(kind, r).
     and_then (read_field ''label'' msg read_text r) (\<lambda>(lbl, r).
     and_then (read_field ''validator'' msg (read_optional_text ''unexpected EOF'') r) (\<lambda>(validator, r).
     and_then (read_field ''description'' msg (read_optional_text ''unexpected EOF'') r) (\<lambda>(description, r).
     Inr (\<lparr>fs_kind = kind, fs_label = lbl, fs_description = description, fs_validator = validator\<rparr>, r))))))"

definition read_field_spec :: "cbor_reader \<Rightarrow> (field_spec \<times> cbor_reader) result" where
  "read_field_spec = read_map 4 ''FieldSpec expected 4 keys'' field_spec_fields"

record policy_clause =
  pc_kind :: string
  pc_params :: string_map

definition policy_entries :: "policy_clause \<Rightarrow> map_entry list" where
  "policy_entries p =
     [(cbor_text ''kind'', cbor_text (pc_kind p)),
      (cbor_text ''params'', encode_string_map (pc_params p))]"

definition encode_policy :: "policy_clause \<Rightarrow> byte list" where
  "encode_policy p = encode_map (policy_entries p)"

definition policy_fields :: "cbor_reader \<Rightarrow> (policy_clause \<times> cbor_reader) result" where
  "policy_fields r =
     and_then (read_field ''kind'' ''PolicyClause expects kind first'' read_text r) (\<lambda>(kind, r).
     and_then (read_field ''params'' ''PolicyClause expects params second''
       (read_string_map ''policy params keys not in canonical order'') r) (\<lambda>(params, r).
     Inr (\<lparr>pc_kind = kind, pc_params = params\<rparr>, r)))"

definition read_policy :: "cbor_reader \<Rightarrow> (policy_clause \<times> cbor_reader) result" where
  "read_policy = read_map 2 ''PolicyClause expected 2 keys'' policy_fields"

datatype known_policy_kind =
    NoArchive
  | RetentionMaxDays "u64 option"
  | RequireRealName
  | Ephemeral "u64 option"
  | ModerationRequired

text \<open>
  \<open>str::parse::<u64>\<close>: an optional plus sign, at least one decimal digit, nothing else, and
  no overflow.
\<close>

definition is_digit :: "char \<Rightarrow> bool" where
  "is_digit c \<longleftrightarrow> of_char (CHR ''0'') \<le> (of_char c :: nat) \<and> (of_char c :: nat) \<le> of_char (CHR ''9'')"

definition digits_val :: "string \<Rightarrow> nat" where
  "digits_val ds = fold (\<lambda>c n. n * 10 + (of_char c - of_char (CHR ''0''))) ds 0"

definition parse_u64 :: "string \<Rightarrow> u64 option" where
  "parse_u64 s =
     (let ds = (case s of c # cs \<Rightarrow> if c = CHR ''+'' then cs else s | [] \<Rightarrow> []) in
      if ds = [] \<or> \<not> list_all is_digit ds \<or> 2 ^ 64 \<le> digits_val ds then None
      else Some (word_of_nat (digits_val ds)))"

definition classify :: "policy_clause \<Rightarrow> known_policy_kind option" where
  "classify p =
     (if pc_kind p = ''no-archive'' then Some NoArchive
      else if pc_kind p = ''retention-max-days'' then
        Some (RetentionMaxDays (Option.bind (map_of (pc_params p) ''days'') parse_u64))
      else if pc_kind p = ''require-real-name'' then Some RequireRealName
      else if pc_kind p = ''ephemeral'' then
        Some (Ephemeral (Option.bind (map_of (pc_params p) ''ttl_secs'') parse_u64))
      else if pc_kind p = ''moderation-required'' then Some ModerationRequired
      else None)"

definition is_known :: "policy_clause \<Rightarrow> bool" where
  "is_known p \<longleftrightarrow> classify p \<noteq> None"

fun policy_is_restrictive :: "known_policy_kind \<Rightarrow> bool" where
  "policy_is_restrictive NoArchive = True"
| "policy_is_restrictive RequireRealName = True"
| "policy_is_restrictive ModerationRequired = True"
| "policy_is_restrictive (Ephemeral _) = True"
| "policy_is_restrictive (RetentionMaxDays _) = True"

text \<open>\<open>classify_all\<close>: one pass that collects the recognised and the opaque clauses.\<close>

record policy_classification =
  known :: "known_policy_kind list"
  unknown :: "string list"

definition classify_all :: "policy_clause list \<Rightarrow> policy_classification" where
  "classify_all ps = fold (\<lambda>c acc. case classify c of
       Some k \<Rightarrow> acc\<lparr>known := known acc @ [k]\<rparr>
     | None \<Rightarrow> acc\<lparr>unknown := unknown acc @ [pc_kind c]\<rparr>) ps \<lparr>known = [], unknown = []\<rparr>"

section \<open>Contracts\<close>

record contract_object =
  co_verse :: "byte list"
  co_version :: u64
  co_title :: string
  co_description :: string
  co_required :: "field_spec list"
  co_optional :: "field_spec list"
  co_forbidden :: "field_kind list"
  co_scoped :: "field_kind list"
  co_policies :: "policy_clause list"
  co_moderators :: "byte list list"
  co_issued_at :: u64
  co_signature :: "byte list"

definition encode_field_kinds :: "field_kind list \<Rightarrow> byte list" where
  "encode_field_kinds = cbor_array cbor_text"

definition decode_field_kinds :: "cbor_reader \<Rightarrow> (field_kind list \<times> cbor_reader) result" where
  "decode_field_kinds = read_array read_text"

definition encode_field_specs :: "field_spec list \<Rightarrow> byte list" where
  "encode_field_specs = cbor_array encode_field_spec"

definition decode_field_specs :: "cbor_reader \<Rightarrow> (field_spec list \<times> cbor_reader) result" where
  "decode_field_specs = read_array read_field_spec"

definition encode_policies :: "policy_clause list \<Rightarrow> byte list" where
  "encode_policies = cbor_array encode_policy"

definition decode_policies :: "cbor_reader \<Rightarrow> (policy_clause list \<times> cbor_reader) result" where
  "decode_policies = read_array read_policy"

definition encode_moderators :: "byte list list \<Rightarrow> byte list" where
  "encode_moderators = cbor_array cbor_bytes"

definition decode_moderators :: "cbor_reader \<Rightarrow> (byte list list \<times> cbor_reader) result" where
  "decode_moderators = read_array (read_fixed ''moderator'' PUBLIC_KEY_LEN)"

text \<open>The eleven entries the signature covers, taken from the fields of a contract.\<close>

definition contract_unsigned :: "contract_object \<Rightarrow> byte list" where
  "contract_unsigned c = encode_map
     [(cbor_text ''title'', cbor_text (co_title c)),
      (cbor_text ''verse'', cbor_bytes (co_verse c)),
      (cbor_text ''scoped'', encode_field_kinds (co_scoped c)),
      (cbor_text ''version'', cbor_uint (co_version c)),
      (cbor_text ''optional'', encode_field_specs (co_optional c)),
      (cbor_text ''policies'', encode_policies (co_policies c)),
      (cbor_text ''required'', encode_field_specs (co_required c)),
      (cbor_text ''forbidden'', encode_field_kinds (co_forbidden c)),
      (cbor_text ''issued_at'', cbor_uint (co_issued_at c)),
      (cbor_text ''moderators'', encode_moderators (co_moderators c)),
      (cbor_text ''description'', cbor_text (co_description c))]"

text \<open>
  \<open>sign\<close> takes the fields as arguments; here they come as a contract whose \<open>verse\<close> and
  \<open>signature\<close> are overwritten.
\<close>

definition contract_sign :: "crypto \<Rightarrow> side_key \<Rightarrow> contract_object \<Rightarrow> contract_object" where
  "contract_sign C verse_key c =
     (let c = c\<lparr>co_verse := public_bytes C verse_key\<rparr>;
          digest = blake3 C (contract_unsigned c)
      in c\<lparr>co_signature := side_sign C verse_key digest\<rparr>)"

definition contract_entries :: "contract_object \<Rightarrow> map_entry list" where
  "contract_entries c =
     [(cbor_text ''title'', cbor_text (co_title c)),
      (cbor_text ''verse'', cbor_bytes (co_verse c)),
      (cbor_text ''scoped'', encode_field_kinds (co_scoped c)),
      (cbor_text ''version'', cbor_uint (co_version c)),
      (cbor_text ''optional'', encode_field_specs (co_optional c)),
      (cbor_text ''policies'', encode_policies (co_policies c)),
      (cbor_text ''required'', encode_field_specs (co_required c)),
      (cbor_text ''forbidden'', encode_field_kinds (co_forbidden c)),
      (cbor_text ''issued_at'', cbor_uint (co_issued_at c)),
      (cbor_text ''signature'', cbor_bytes (co_signature c)),
      (cbor_text ''moderators'', encode_moderators (co_moderators c)),
      (cbor_text ''description'', cbor_text (co_description c))]"

definition contract_to_wire :: "contract_object \<Rightarrow> byte list" where
  "contract_to_wire c = encode_map (contract_entries c)"

definition contract_fields :: "cbor_reader \<Rightarrow> (contract_object \<times> cbor_reader) result" where
  "contract_fields r = (let msg = ''ContractObject keys not in canonical order'' in
     and_then (read_field ''title'' msg read_text r) (\<lambda>(title, r).
     and_then (read_field ''verse'' msg (read_fixed ''verse'' PUBLIC_KEY_LEN) r) (\<lambda>(verse, r).
     and_then (read_field ''scoped'' msg decode_field_kinds r) (\<lambda>(scoped, r).
     and_then (read_field ''version'' msg read_u64 r) (\<lambda>(version, r).
     and_then (read_field ''optional'' msg decode_field_specs r) (\<lambda>(optional, r).
     and_then (read_field ''policies'' msg decode_policies r) (\<lambda>(policies, r).
     and_then (read_field ''required'' msg decode_field_specs r) (\<lambda>(required, r).
     and_then (read_field ''forbidden'' msg decode_field_kinds r) (\<lambda>(forbidden, r).
     and_then (read_field ''issued_at'' msg read_u64 r) (\<lambda>(issued_at, r).
     and_then (read_field ''signature'' msg (read_fixed ''signature'' SIGNATURE_LEN) r) (\<lambda>(signature, r).
     and_then (read_field ''moderators'' msg decode_moderators r) (\<lambda>(moderators, r).
     and_then (read_field ''description'' msg read_text r) (\<lambda>(description, r).
     Inr (\<lparr>co_verse = verse, co_version = version, co_title = title, co_description = description,
          co_required = required, co_optional = optional, co_forbidden = forbidden, co_scoped = scoped,
          co_policies = policies, co_moderators = moderators, co_issued_at = issued_at,
          co_signature = signature\<rparr>, r))))))))))))))"

definition contract_from_wire :: "crypto \<Rightarrow> byte list \<Rightarrow> contract_object result" where
  "contract_from_wire C bs =
     and_then (decode_prefix (read_map 12 ''ContractObject expected 12 keys'' contract_fields) bs) (\<lambda>c.
     and_then (check_signature C (co_verse c) (contract_unsigned c) (co_signature c)) (\<lambda>_.
     if contract_to_wire c \<noteq> bs
     then Inl (CborNotCanonical ''ContractObject bytes are not canonical re-encode'') else Inr c))"

definition is_moderator :: "contract_object \<Rightarrow> byte list \<Rightarrow> bool" where
  "is_moderator c side \<longleftrightarrow> side = co_verse c \<or> list_ex (\<lambda>m. m = side) (co_moderators c)"

definition contract_hash :: "crypto \<Rightarrow> contract_object \<Rightarrow> byte list" where
  "contract_hash C c = blake3 C (contract_to_wire c)"

definition is_forbidden :: "contract_object \<Rightarrow> field_kind \<Rightarrow> bool" where
  "is_forbidden c kind \<longleftrightarrow> list_ex (\<lambda>k. k = kind) (co_forbidden c)"

datatype amendment_kind = Reductive | Expansive | Mixed

definition requires_reconsent :: "amendment_kind \<Rightarrow> bool" where
  "requires_reconsent k \<longleftrightarrow> k = Reductive \<or> k = Mixed"

text \<open>\<open>a.difference(&b).next().is_some()\<close> on the sets of two lists.\<close>

definition adds :: "'a list \<Rightarrow> 'a list \<Rightarrow> bool" where
  "adds new old \<longleftrightarrow> list_ex (\<lambda>k. k \<notin> set old) new"

definition known_policies :: "contract_object \<Rightarrow> known_policy_kind list" where
  "known_policies c = List.map_filter classify (co_policies c)"

definition classify_amendment :: "contract_object \<Rightarrow> contract_object \<Rightarrow> amendment_kind" where
  "classify_amendment old new =
     (let self_req = map fs_kind (co_required old); new_req = map fs_kind (co_required new);
          self_opt = map fs_kind (co_optional old); new_opt = map fs_kind (co_optional new);
          self_known = known_policies old; new_known = known_policies new;
          reductive = (adds new_req self_req \<or> adds (co_forbidden new) (co_forbidden old) \<or>
            list_ex (\<lambda>k. k \<notin> set self_known \<and> policy_is_restrictive k) new_known);
          expansive = (adds self_req new_req \<or> adds (co_forbidden old) (co_forbidden new) \<or>
            adds new_opt self_opt \<or>
            list_ex (\<lambda>k. k \<notin> set new_known \<and> policy_is_restrictive k) self_known)
      in if reductive \<and> expansive then Mixed else if reductive then Reductive else Expansive)"

section \<open>Membership tokens\<close>

record membership_token =
  mt_verse :: "byte list"
  mt_contract_hash :: "byte list"
  mt_member_side :: "byte list"
  mt_issued_at :: u64
  mt_signature :: "byte list"

definition token_unsigned :: "byte list \<Rightarrow> byte list \<Rightarrow> byte list \<Rightarrow> u64 \<Rightarrow> byte list" where
  "token_unsigned verse chash member issued_at = encode_map
     [(cbor_text ''verse'', cbor_bytes verse),
      (cbor_text ''member'', cbor_bytes member),
      (cbor_text ''issued_at'', cbor_uint issued_at),
      (cbor_text ''contract_hash'', cbor_bytes chash)]"

definition token_sign :: "crypto \<Rightarrow> side_key \<Rightarrow> byte list \<Rightarrow> byte list \<Rightarrow> u64 \<Rightarrow> membership_token" where
  "token_sign C verse_key chash member issued_at =
     (let verse = public_bytes C verse_key;
          digest = blake3 C (token_unsigned verse chash member issued_at)
      in \<lparr>mt_verse = verse, mt_contract_hash = chash, mt_member_side = member,
          mt_issued_at = issued_at, mt_signature = side_sign C verse_key digest\<rparr>)"

definition token_entries :: "membership_token \<Rightarrow> map_entry list" where
  "token_entries t =
     [(cbor_text ''verse'', cbor_bytes (mt_verse t)),
      (cbor_text ''member'', cbor_bytes (mt_member_side t)),
      (cbor_text ''issued_at'', cbor_uint (mt_issued_at t)),
      (cbor_text ''signature'', cbor_bytes (mt_signature t)),
      (cbor_text ''contract_hash'', cbor_bytes (mt_contract_hash t))]"

definition token_to_wire :: "membership_token \<Rightarrow> byte list" where
  "token_to_wire t = encode_map (token_entries t)"

definition token_fields :: "cbor_reader \<Rightarrow> (membership_token \<times> cbor_reader) result" where
  "token_fields r = (let msg = ''MembershipToken keys not in canonical order'' in
     and_then (read_field ''verse'' msg (read_fixed ''verse'' PUBLIC_KEY_LEN) r) (\<lambda>(verse, r).
     and_then (read_field ''member'' msg (read_fixed ''member'' PUBLIC_KEY_LEN) r) (\<lambda>(member, r).
     and_then (read_field ''issued_at'' msg read_u64 r) (\<lambda>(issued_at, r).
     and_then (read_field ''signature'' msg (read_fixed ''signature'' SIGNATURE_LEN) r) (\<lambda>(signature, r).
     and_then (read_field ''contract_hash'' msg (read_fixed ''contract_hash'' 32) r) (\<lambda>(chash, r).
     Inr (\<lparr>mt_verse = verse, mt_contract_hash = chash, mt_member_side = member,
          mt_issued_at = issued_at, mt_signature = signature\<rparr>, r)))))))"

definition token_tbs :: "membership_token \<Rightarrow> byte list" where
  "token_tbs t = token_unsigned (mt_verse t) (mt_contract_hash t) (mt_member_side t) (mt_issued_at t)"

definition token_from_wire :: "crypto \<Rightarrow> byte list \<Rightarrow> membership_token result" where
  "token_from_wire C bs =
     and_then (decode_prefix (read_map 5 ''MembershipToken expected 5 keys'' token_fields) bs) (\<lambda>t.
     and_then (check_signature C (mt_verse t) (token_tbs t) (mt_signature t)) (\<lambda>_. Inr t))"

section \<open>Content keys\<close>

definition VERSE_KEY_LEN :: nat where "VERSE_KEY_LEN = 32"
definition VERSE_NONCE_LEN :: nat where "VERSE_NONCE_LEN = 12"

definition content_key_generate :: "byte list option \<Rightarrow> byte list result" where
  "content_key_generate rnd = fill_random rnd"

definition content_key_seal :: "crypto \<Rightarrow> byte list option \<Rightarrow> byte list \<Rightarrow> byte list \<Rightarrow> byte list \<Rightarrow>
    (byte list \<times> byte list) result" where
  "content_key_seal C rnd key plaintext aad =
     and_then (fill_random rnd) (\<lambda>nonce.
       case aead_encrypt C key nonce aad plaintext of
         None \<Rightarrow> Inl (Invariant ''AEAD encrypt failed'')
       | Some ct \<Rightarrow> Inr (nonce, ct))"

definition content_key_open :: "crypto \<Rightarrow> byte list \<Rightarrow> byte list \<Rightarrow> byte list \<Rightarrow> byte list \<Rightarrow>
    byte list result" where
  "content_key_open C key nonce ciphertext aad =
     (case aead_decrypt C key nonce aad ciphertext of None \<Rightarrow> Inl DecryptionFailed | Some pt \<Rightarrow> Inr pt)"

section \<open>Codecs\<close>

definition wf_field_spec :: "field_spec \<Rightarrow> bool" where
  [wf_defs]: "wf_field_spec f \<longleftrightarrow> wf_text (fs_kind f) \<and> wf_text (fs_label f) \<and>
     pred_option wf_text (fs_validator f) \<and> pred_option wf_text (fs_description f)"

definition wf_policy :: "policy_clause \<Rightarrow> bool" where
  [wf_defs]: "wf_policy p \<longleftrightarrow> wf_text (pc_kind p) \<and> wf_string_map (pc_params p)"

lemma field_spec_codec: "wire_codec encode_field_spec read_field_spec wf_field_spec"
  unfolding encode_field_spec_def [abs_def] read_field_spec_def
  by (rule map_codecI,
      (auto simp: and_then_eq_Inr literal_key wire_iff field_spec_fields_def Let_def field_spec_entries_def wf_field_spec_def)[1],
      simp_all add: literal_key wire_write field_spec_fields_def Let_def field_spec_entries_def wf_field_spec_def)

lemma policy_codec: "wire_codec encode_policy read_policy wf_policy"
  unfolding encode_policy_def [abs_def] read_policy_def
  by (rule map_codecI,
      (auto simp: and_then_eq_Inr literal_key wire_iff policy_fields_def policy_entries_def wf_policy_def)[1],
      simp_all add: literal_key wire_write policy_fields_def policy_entries_def wf_policy_def)

interpretation field_spec_item: wire_codec encode_field_spec read_field_spec wf_field_spec
  by (rule field_spec_codec)

interpretation policy_item: wire_codec encode_policy read_policy wf_policy
  by (rule policy_codec)

lemma kinds_codec: "wire_codec encode_field_kinds decode_field_kinds (wf_array wf_text)"
  unfolding encode_field_kinds_def decode_field_kinds_def
  by (rule text_item.array_codec)

lemma specs_codec: "wire_codec encode_field_specs decode_field_specs (wf_array wf_field_spec)"
  unfolding encode_field_specs_def decode_field_specs_def
  by (rule field_spec_item.array_codec)

lemma policies_codec: "wire_codec encode_policies decode_policies (wf_array wf_policy)"
  unfolding encode_policies_def decode_policies_def
  by (rule policy_item.array_codec)

lemma moderators_codec: "wire_codec encode_moderators decode_moderators (wf_array (wf_fixed 32))"
  unfolding encode_moderators_def decode_moderators_def PUBLIC_KEY_LEN_def
  by (rule key32_item.array_codec)

lemmas verse_arrays = kinds_codec specs_codec policies_codec moderators_codec
lemmas verse_arrays_iff [wire_iff] = verse_arrays [THEN wire_codec_iff]
lemmas verse_arrays_write [wire_write] = verse_arrays [THEN wire_codec_write]

section \<open>The contract and token decoders\<close>

definition wf_contract_fields :: "contract_object \<Rightarrow> bool" where
  [wf_defs]: "wf_contract_fields c \<longleftrightarrow> wf_text (co_title c) \<and> wf_fixed 32 (co_verse c) \<and>
     wf_array wf_text (co_scoped c) \<and> wf_array wf_field_spec (co_optional c) \<and>
     wf_array wf_policy (co_policies c) \<and> wf_array wf_field_spec (co_required c) \<and>
     wf_array wf_text (co_forbidden c) \<and> wf_fixed 64 (co_signature c) \<and>
     wf_array (wf_fixed 32) (co_moderators c) \<and> wf_text (co_description c)"

definition wf_contract :: "crypto \<Rightarrow> contract_object \<Rightarrow> bool" where
  "wf_contract C c \<longleftrightarrow> wf_contract_fields c \<and> ed_point_ok C (co_verse c) \<and>
     ed_verify C (co_verse c) (blake3 C (contract_unsigned c)) (co_signature c)"

lemma contract_map_codec: "wire_codec contract_to_wire (read_map 12 msg contract_fields) wf_contract_fields"
  unfolding contract_to_wire_def [abs_def]
  by (rule map_codecI,
      (auto simp: and_then_eq_Inr literal_key wire_iff contract_fields_def Let_def contract_entries_def wf_contract_fields_def)[1],
      simp_all add: literal_key wire_write contract_fields_def Let_def contract_entries_def wf_contract_fields_def)

lemma contract_from_wire_iff:
  "contract_from_wire C bs = Inr c \<longleftrightarrow> wf_contract C c \<and> bs = contract_to_wire c"
  by (auto simp: contract_from_wire_def and_then_eq_Inr decode_prefix_iff [OF contract_map_codec]
      wf_contract_def split: if_splits)

interpretation contract_msg: strict_message contract_to_wire "contract_from_wire C" "wf_contract C"
  by (rule strict_messageI) (rule contract_from_wire_iff)

definition wf_token_fields :: "membership_token \<Rightarrow> bool" where
  [wf_defs]: "wf_token_fields t \<longleftrightarrow> wf_fixed 32 (mt_verse t) \<and> wf_fixed 32 (mt_member_side t) \<and>
     wf_fixed 64 (mt_signature t) \<and> wf_fixed 32 (mt_contract_hash t)"

definition wf_token :: "crypto \<Rightarrow> membership_token \<Rightarrow> bool" where
  "wf_token C t \<longleftrightarrow> wf_token_fields t \<and> ed_point_ok C (mt_verse t) \<and>
     ed_verify C (mt_verse t) (blake3 C (token_tbs t)) (mt_signature t)"

lemma token_map_codec: "wire_codec token_to_wire (read_map 5 msg token_fields) wf_token_fields"
  unfolding token_to_wire_def [abs_def]
  by (rule map_codecI,
      (auto simp: and_then_eq_Inr literal_key wire_iff token_fields_def Let_def token_entries_def wf_token_fields_def)[1],
      simp_all add: literal_key wire_write token_fields_def Let_def token_entries_def wf_token_fields_def)

lemma token_from_wire_iff:
  "token_from_wire C bs = Inr t \<longleftrightarrow> wf_token C t \<and> (\<exists>x. bs = token_to_wire t @ x)"
  by (auto simp: token_from_wire_def and_then_eq_Inr decode_prefix_iff [OF token_map_codec] wf_token_def)

interpretation token_msg: lax_message token_to_wire "token_from_wire C" "wf_token C"
  by (rule lax_messageI) (rule token_from_wire_iff)

lemma contract_sign_wf:
  assumes "signature_laws C" "wf_side k" "wf_text (co_title c)" "wf_array wf_text (co_scoped c)"
    "wf_array wf_field_spec (co_optional c)" "wf_array wf_policy (co_policies c)"
    "wf_array wf_field_spec (co_required c)" "wf_array wf_text (co_forbidden c)"
    "wf_array (wf_fixed 32) (co_moderators c)" "wf_text (co_description c)"
  shows "wf_contract C (contract_sign C k c)"
proof -
  have "contract_unsigned (c\<lparr>co_verse := v, co_signature := sg\<rparr>) = contract_unsigned (c\<lparr>co_verse := v\<rparr>)"
    for v sg by (simp add: contract_unsigned_def)
  then show ?thesis
    using assms signed_by_side [OF assms(1,2)]
    by (simp add: wf_contract_def contract_sign_def Let_def wf_contract_fields_def wf_fixed_def)
qed

lemma token_sign_wf:
  assumes "signature_laws C" "wf_side k" "length chash = 32" "length member = 32"
  shows "wf_token C (token_sign C k chash member ts)"
  using assms signed_by_side [OF assms(1,2)]
  by (simp add: wf_token_def token_sign_def Let_def wf_token_fields_def token_tbs_def wf_fixed_def)

lemma token_to_wire_size:
  assumes "wf_token_fields t"
  shows "wf_bytes (token_to_wire t)"
proof -
  note u = item_lengths(1) and b = item_lengths(2) and x = item_lengths(3) and m = item_lengths(4)
  have "length (token_to_wire t) \<le> 9 + (14 + 41) + (15 + 41) + (18 + 9) + (18 + 73) + (22 + 41)"
    using assms u [of "mt_issued_at t"] m [of "Suc (Suc (Suc (Suc (Suc 0))))"] x [of "''verse''"] x [of "''member''"] x [of "''issued_at''"]
      x [of "''signature''"] x [of "''contract_hash''"] b [of "mt_verse t"] b [of "mt_member_side t"]
      b [of "mt_signature t"] b [of "mt_contract_hash t"]
    by (simp add: token_to_wire_def encode_map_body token_entries_def wf_token_fields_def wf_fixed_def)
  then show ?thesis by (simp add: wf_bytes_def)
qed

section \<open>Amendments\<close>

text \<open>
  What a contract asks of its members: a field it requires, a field it forbids, a
  restrictive policy it states.
\<close>

datatype rule_item = Requires field_kind | Forbids field_kind | Restricts known_policy_kind

definition rules :: "contract_object \<Rightarrow> rule_item set" where
  "rules c = Requires ` set (map fs_kind (co_required c)) \<union> Forbids ` set (co_forbidden c) \<union>
     Restricts ` set (known_policies c)"

lemma restrictive_all [simp]: "policy_is_restrictive k"
  by (cases k) simp_all

lemma adds_iff: "adds new old \<longleftrightarrow> \<not> set new \<subseteq> set old"
  by (auto simp: adds_def list_ex_iff)

lemma rules_subset:
  "rules new \<subseteq> rules old \<longleftrightarrow> \<not> adds (map fs_kind (co_required new)) (map fs_kind (co_required old)) \<and>
     \<not> adds (co_forbidden new) (co_forbidden old) \<and> set (known_policies new) \<subseteq> set (known_policies old)"
  unfolding adds_iff rules_def by auto

lemma known_policies_set: "set (known_policies c) = {k. \<exists>p \<in> set (co_policies c). classify p = Some k}"
  by (force simp: known_policies_def map_filter_def)

lemma amendment_requires_reconsent:
  "requires_reconsent (classify_amendment old new) \<longleftrightarrow> \<not> rules new \<subseteq> rules old"
  unfolding rules_subset
  by (auto simp: requires_reconsent_def classify_amendment_def Let_def list_ex_iff)

section \<open>Properties\<close>

text \<open>The contract decoder accepts a byte string iff it is the canonical encoding of a
  well-formed contract signed by the verse's own key; nothing may follow it.\<close>
lemma contract_exact:
  "contract_from_wire C bs = Inr c \<longleftrightarrow> bs = contract_to_wire c \<and> wf_contract_fields c \<and>
     ed_point_ok C (co_verse c) \<and> ed_verify C (co_verse c) (blake3 C (contract_unsigned c)) (co_signature c)"
  by (auto simp: contract_from_wire_iff wf_contract_def)

text \<open>An amendment requires members to consent again iff it adds a rule: a required field, a
  forbidden field or a recognised policy that the old contract did not have.\<close>
lemma reconsent_iff_new_rule:
  "requires_reconsent (classify_amendment old new) \<longleftrightarrow> \<not> rules new \<subseteq> rules old"
  by (rule amendment_requires_reconsent)

text \<open>A membership token is not exact: its decoder accepts every extension of a valid
  encoding, so one token has many byte forms (and hashes).\<close>
lemma token_ignores_trailing:
  assumes "signature_laws C" "length (seed k) = 32" "length chash = 32" "length member = 32"
  shows "token_from_wire C (token_to_wire (token_sign C k chash member ts) @ junk) =
    Inr (token_sign C k chash member ts)"
  using token_sign_wf [OF assms(1), of k chash member ts] assms(2-4)
  by (auto simp: token_from_wire_iff wf_side_def)

lemma token_ignores_trailing_witness:
  "token_from_wire sample_crypto (token_to_wire (token_sign sample_crypto \<lparr>seed = replicate 32 1, label = ''v''\<rparr>
       (replicate 32 2) (replicate 32 3) 7) @ [0xFF]) =
     Inr (token_sign sample_crypto \<lparr>seed = replicate 32 1, label = ''v''\<rparr> (replicate 32 2) (replicate 32 3) 7)"
  by (rule token_ignores_trailing [OF sample_signature_laws]) simp_all

end
