(* ===== verification/VerseMessages.thy ===== *)
theory VerseMessages
  imports VerseContract
begin

text \<open>
  The verse payloads, \<open>sidevers-core/src/messages/verse.rs\<close> (types 0x50 to 0x59). Their
  decoders, unlike the envelope's, do not look for the end of the input: each is a
  \<open>lax_message\<close>. Two of them wrap a contract and inherit its exactness.
\<close>

section \<open>Contract fetch and delivery\<close>

record contract_fetch = cf_version :: "u64 option"

definition contract_fetch_entries :: "contract_fetch \<Rightarrow> map_entry list" where
  "contract_fetch_entries x = [(cbor_text ''version'', cbor_uint_or_null (cf_version x))]"

definition encode_contract_fetch :: "contract_fetch \<Rightarrow> byte list" where
  "encode_contract_fetch x = encode_map (contract_fetch_entries x)"

definition contract_fetch_fields :: "cbor_reader \<Rightarrow> (contract_fetch \<times> cbor_reader) result" where
  "contract_fetch_fields r =
     and_then (read_field ''version'' ''ContractFetch expects version'' (read_optional_uint ''missing version'') r)
       (\<lambda>(v, r). Inr (\<lparr>cf_version = v\<rparr>, r))"

definition decode_contract_fetch :: "byte list \<Rightarrow> contract_fetch result" where
  "decode_contract_fetch =
     decode_prefix (read_map 1 ''ContractFetch expected 1 key'' contract_fetch_fields)"

definition encode_contract_deliver :: "contract_object \<Rightarrow> byte list" where
  "encode_contract_deliver c = encode_map [(cbor_text ''contract'', contract_to_wire c)]"

definition decode_contract_deliver :: "crypto \<Rightarrow> byte list \<Rightarrow> contract_object result" where
  "decode_contract_deliver C bs =
     and_then (read_map_header (reader_new bs)) (\<lambda>(n, r).
     if n \<noteq> 1 then Inl (CborDecode ''ContractDeliver expected 1 key'')
     else and_then (expect_key ''contract'' ''ContractDeliver expects contract'' r) (\<lambda>r.
     contract_from_wire C (drop (pos r) bs)))"

section \<open>Joining\<close>

type_synonym field_values = string_map

record join_request =
  jr_contract_hash :: "byte list"
  jr_side :: "byte list"
  jr_fields :: field_values
  jr_signature :: "byte list"

definition encode_field_values :: "field_values \<Rightarrow> byte list" where
  "encode_field_values = encode_string_map"

definition decode_field_values :: "cbor_reader \<Rightarrow> (field_values \<times> cbor_reader) result" where
  "decode_field_values = read_string_map ''field values keys not in canonical order''"

definition read_fixed_pubkey :: "string \<Rightarrow> cbor_reader \<Rightarrow> (byte list \<times> cbor_reader) result" where
  "read_fixed_pubkey field = read_fixed field PUBLIC_KEY_LEN"

definition join_unsigned :: "byte list \<Rightarrow> byte list \<Rightarrow> field_values \<Rightarrow> byte list" where
  "join_unsigned chash side values = encode_map
     [(cbor_text ''side'', cbor_bytes side),
      (cbor_text ''fields'', encode_field_values values),
      (cbor_text ''contract_hash'', cbor_bytes chash)]"

definition join_sign :: "crypto \<Rightarrow> side_key \<Rightarrow> byte list \<Rightarrow> field_values \<Rightarrow> join_request" where
  "join_sign C k chash values =
     (let side = public_bytes C k; digest = blake3 C (join_unsigned chash side values)
      in \<lparr>jr_contract_hash = chash, jr_side = side, jr_fields = values,
          jr_signature = side_sign C k digest\<rparr>)"

definition join_request_entries :: "join_request \<Rightarrow> map_entry list" where
  "join_request_entries x =
     [(cbor_text ''side'', cbor_bytes (jr_side x)),
      (cbor_text ''fields'', encode_field_values (jr_fields x)),
      (cbor_text ''signature'', cbor_bytes (jr_signature x)),
      (cbor_text ''contract_hash'', cbor_bytes (jr_contract_hash x))]"

definition encode_join_request :: "join_request \<Rightarrow> byte list" where
  "encode_join_request x = encode_map (join_request_entries x)"

definition join_request_fields :: "cbor_reader \<Rightarrow> (join_request \<times> cbor_reader) result" where
  "join_request_fields r = (let msg = ''JoinRequest keys not in canonical order'' in
     and_then (read_field ''side'' msg (read_fixed_pubkey ''side'') r) (\<lambda>(side, r).
     and_then (read_field ''fields'' msg decode_field_values r) (\<lambda>(values, r).
     and_then (read_field ''signature'' msg (read_fixed ''signature'' SIGNATURE_LEN) r) (\<lambda>(sig, r).
     and_then (read_field ''contract_hash'' msg (read_fixed ''contract_hash'' 32) r) (\<lambda>(chash, r).
     Inr (\<lparr>jr_contract_hash = chash, jr_side = side, jr_fields = values, jr_signature = sig\<rparr>, r))))))"

definition join_tbs :: "join_request \<Rightarrow> byte list" where
  "join_tbs x = join_unsigned (jr_contract_hash x) (jr_side x) (jr_fields x)"

definition decode_join_request :: "crypto \<Rightarrow> byte list \<Rightarrow> join_request result" where
  "decode_join_request C bs =
     and_then (decode_prefix (read_map 4 ''JoinRequest expected 4 keys'' join_request_fields) bs) (\<lambda>x.
     and_then (check_signature C (jr_side x) (join_tbs x) (jr_signature x)) (\<lambda>_. Inr x))"

record join_accept =
  ja_membership_token :: "byte list"
  ja_key_nonce :: "byte list"
  ja_sealed_content_key :: "byte list"

definition join_accept_entries :: "join_accept \<Rightarrow> map_entry list" where
  "join_accept_entries x =
     [(cbor_text ''key_nonce'', cbor_bytes (ja_key_nonce x)),
      (cbor_text ''membership_token'', cbor_bytes (ja_membership_token x)),
      (cbor_text ''sealed_content_key'', cbor_bytes (ja_sealed_content_key x))]"

definition encode_join_accept :: "join_accept \<Rightarrow> byte list" where
  "encode_join_accept x = encode_map (join_accept_entries x)"

definition join_accept_fields :: "cbor_reader \<Rightarrow> (join_accept \<times> cbor_reader) result" where
  "join_accept_fields r =
     and_then (read_field ''key_nonce'' ''expected key_nonce first'' (read_fixed ''key_nonce'' 16) r) (\<lambda>(kn, r).
     and_then (read_field ''membership_token'' ''expected membership_token second'' read_bytes r) (\<lambda>(mt, r).
     and_then (read_field ''sealed_content_key'' ''expected sealed_content_key third'' read_bytes r) (\<lambda>(ck, r).
     Inr (\<lparr>ja_membership_token = mt, ja_key_nonce = kn, ja_sealed_content_key = ck\<rparr>, r))))"

definition decode_join_accept :: "byte list \<Rightarrow> join_accept result" where
  "decode_join_accept = decode_prefix (read_map 3 ''JoinAccept expected 3 keys'' join_accept_fields)"

record join_decline =
  jd_contract_hash :: "byte list"
  jd_reason :: string

definition join_decline_entries :: "join_decline \<Rightarrow> map_entry list" where
  "join_decline_entries x =
     [(cbor_text ''reason'', cbor_text (jd_reason x)),
      (cbor_text ''contract_hash'', cbor_bytes (jd_contract_hash x))]"

definition encode_join_decline :: "join_decline \<Rightarrow> byte list" where
  "encode_join_decline x = encode_map (join_decline_entries x)"

definition join_decline_fields :: "cbor_reader \<Rightarrow> (join_decline \<times> cbor_reader) result" where
  "join_decline_fields r =
     and_then (read_field ''reason'' ''expected reason first'' read_text r) (\<lambda>(reason, r).
     and_then (read_field ''contract_hash'' ''expected contract_hash second'' (read_fixed ''contract_hash'' 32) r)
       (\<lambda>(chash, r). Inr (\<lparr>jd_contract_hash = chash, jd_reason = reason\<rparr>, r)))"

definition decode_join_decline :: "byte list \<Rightarrow> join_decline result" where
  "decode_join_decline = decode_prefix (read_map 2 ''JoinDecline expected 2 keys'' join_decline_fields)"

section \<open>Posting\<close>

record verse_post =
  vp_nonce :: "byte list"
  vp_ciphertext :: "byte list"

definition verse_post_entries :: "verse_post \<Rightarrow> map_entry list" where
  "verse_post_entries x =
     [(cbor_text ''nonce'', cbor_bytes (vp_nonce x)),
      (cbor_text ''ciphertext'', cbor_bytes (vp_ciphertext x))]"

definition encode_verse_post :: "verse_post \<Rightarrow> byte list" where
  "encode_verse_post x = encode_map (verse_post_entries x)"

definition verse_post_fields :: "cbor_reader \<Rightarrow> (verse_post \<times> cbor_reader) result" where
  "verse_post_fields r =
     and_then (read_field ''nonce'' ''expected nonce first'' (read_fixed ''nonce'' 12) r) (\<lambda>(nonce, r).
     and_then (read_field ''ciphertext'' ''expected ciphertext second'' read_bytes r) (\<lambda>(ct, r).
     Inr (\<lparr>vp_nonce = nonce, vp_ciphertext = ct\<rparr>, r)))"

definition decode_verse_post :: "byte list \<Rightarrow> verse_post result" where
  "decode_verse_post = decode_prefix (read_map 2 ''VersePost expected 2 keys'' verse_post_fields)"

section \<open>Leaving and removal\<close>

datatype data_disposition = Retain | Retract | Transfer

fun disposition_str :: "data_disposition \<Rightarrow> string" where
  "disposition_str Retain = ''retain''"
| "disposition_str Retract = ''retract''"
| "disposition_str Transfer = ''transfer''"

definition parse_disposition :: "string \<Rightarrow> data_disposition result" where
  "parse_disposition s =
     (if s = ''retain'' then Inr Retain
      else if s = ''retract'' then Inr Retract
      else if s = ''transfer'' then Inr Transfer
      else Inl (CborDecode ''unknown DataDisposition''))"

definition read_disposition :: "cbor_reader \<Rightarrow> (data_disposition \<times> cbor_reader) result" where
  "read_disposition r = and_then (read_text r) (\<lambda>(t, r). and_then (parse_disposition t) (\<lambda>d. Inr (d, r)))"

record verse_leave =
  vl_verse :: "byte list"
  vl_side :: "byte list"
  vl_membership_hash :: "byte list"
  vl_reason :: "string option"
  vl_disposition :: data_disposition
  vl_signature :: "byte list"

definition leave_unsigned :: "byte list \<Rightarrow> byte list \<Rightarrow> byte list \<Rightarrow> string option \<Rightarrow> data_disposition \<Rightarrow>
    byte list" where
  "leave_unsigned verse side mhash reason disposition = encode_map
     [(cbor_text ''side'', cbor_bytes side),
      (cbor_text ''verse'', cbor_bytes verse),
      (cbor_text ''reason'', cbor_text_or_null reason),
      (cbor_text ''disposition'', cbor_text (disposition_str disposition)),
      (cbor_text ''membership_hash'', cbor_bytes mhash)]"

definition leave_sign :: "crypto \<Rightarrow> side_key \<Rightarrow> byte list \<Rightarrow> byte list \<Rightarrow> string option \<Rightarrow>
    data_disposition \<Rightarrow> verse_leave" where
  "leave_sign C k verse mhash reason disposition =
     (let side = public_bytes C k;
          digest = blake3 C (leave_unsigned verse side mhash reason disposition)
      in \<lparr>vl_verse = verse, vl_side = side, vl_membership_hash = mhash, vl_reason = reason,
          vl_disposition = disposition, vl_signature = side_sign C k digest\<rparr>)"

definition verse_leave_entries :: "verse_leave \<Rightarrow> map_entry list" where
  "verse_leave_entries x =
     [(cbor_text ''side'', cbor_bytes (vl_side x)),
      (cbor_text ''verse'', cbor_bytes (vl_verse x)),
      (cbor_text ''reason'', cbor_text_or_null (vl_reason x)),
      (cbor_text ''signature'', cbor_bytes (vl_signature x)),
      (cbor_text ''disposition'', cbor_text (disposition_str (vl_disposition x))),
      (cbor_text ''membership_hash'', cbor_bytes (vl_membership_hash x))]"

definition encode_verse_leave :: "verse_leave \<Rightarrow> byte list" where
  "encode_verse_leave x = encode_map (verse_leave_entries x)"

definition verse_leave_fields :: "cbor_reader \<Rightarrow> (verse_leave \<times> cbor_reader) result" where
  "verse_leave_fields r = (let msg = ''VerseLeave keys not in canonical order'' in
     and_then (read_field ''side'' msg (read_fixed_pubkey ''side'') r) (\<lambda>(side, r).
     and_then (read_field ''verse'' msg (read_fixed_pubkey ''verse'') r) (\<lambda>(verse, r).
     and_then (read_field ''reason'' msg (read_optional_text ''missing reason'') r) (\<lambda>(reason, r).
     and_then (read_field ''signature'' msg (read_fixed ''signature'' SIGNATURE_LEN) r) (\<lambda>(sig, r).
     and_then (read_field ''disposition'' msg read_disposition r) (\<lambda>(disposition, r).
     and_then (read_field ''membership_hash'' msg (read_fixed ''membership_hash'' 32) r) (\<lambda>(mhash, r).
     Inr (\<lparr>vl_verse = verse, vl_side = side, vl_membership_hash = mhash, vl_reason = reason,
          vl_disposition = disposition, vl_signature = sig\<rparr>, r))))))))"

definition leave_tbs :: "verse_leave \<Rightarrow> byte list" where
  "leave_tbs x = leave_unsigned (vl_verse x) (vl_side x) (vl_membership_hash x) (vl_reason x) (vl_disposition x)"

definition decode_verse_leave :: "crypto \<Rightarrow> byte list \<Rightarrow> verse_leave result" where
  "decode_verse_leave C bs =
     and_then (decode_prefix (read_map 6 ''VerseLeave expected 6 keys'' verse_leave_fields) bs) (\<lambda>x.
     and_then (check_signature C (vl_side x) (leave_tbs x) (vl_signature x)) (\<lambda>_. Inr x))"

record verse_remove =
  vr_verse :: "byte list"
  vr_side :: "byte list"
  vr_reason :: string
  vr_issued_by :: "byte list"
  vr_issued_at :: u64
  vr_signature :: "byte list"

definition remove_unsigned :: "byte list \<Rightarrow> byte list \<Rightarrow> string \<Rightarrow> byte list \<Rightarrow> u64 \<Rightarrow> byte list" where
  "remove_unsigned verse side reason issued_by issued_at = encode_map
     [(cbor_text ''side'', cbor_bytes side),
      (cbor_text ''verse'', cbor_bytes verse),
      (cbor_text ''reason'', cbor_text reason),
      (cbor_text ''issued_at'', cbor_uint issued_at),
      (cbor_text ''issued_by'', cbor_bytes issued_by)]"

definition remove_sign :: "crypto \<Rightarrow> side_key \<Rightarrow> byte list \<Rightarrow> byte list \<Rightarrow> string \<Rightarrow> u64 \<Rightarrow> verse_remove" where
  "remove_sign C k verse side reason issued_at =
     (let issued_by = public_bytes C k;
          digest = blake3 C (remove_unsigned verse side reason issued_by issued_at)
      in \<lparr>vr_verse = verse, vr_side = side, vr_reason = reason, vr_issued_by = issued_by,
          vr_issued_at = issued_at, vr_signature = side_sign C k digest\<rparr>)"

definition verse_remove_entries :: "verse_remove \<Rightarrow> map_entry list" where
  "verse_remove_entries x =
     [(cbor_text ''side'', cbor_bytes (vr_side x)),
      (cbor_text ''verse'', cbor_bytes (vr_verse x)),
      (cbor_text ''reason'', cbor_text (vr_reason x)),
      (cbor_text ''issued_at'', cbor_uint (vr_issued_at x)),
      (cbor_text ''issued_by'', cbor_bytes (vr_issued_by x)),
      (cbor_text ''signature'', cbor_bytes (vr_signature x))]"

definition encode_verse_remove :: "verse_remove \<Rightarrow> byte list" where
  "encode_verse_remove x = encode_map (verse_remove_entries x)"

definition verse_remove_fields :: "cbor_reader \<Rightarrow> (verse_remove \<times> cbor_reader) result" where
  "verse_remove_fields r = (let msg = ''VerseRemove keys not in canonical order'' in
     and_then (read_field ''side'' msg (read_fixed_pubkey ''side'') r) (\<lambda>(side, r).
     and_then (read_field ''verse'' msg (read_fixed_pubkey ''verse'') r) (\<lambda>(verse, r).
     and_then (read_field ''reason'' msg read_text r) (\<lambda>(reason, r).
     and_then (read_field ''issued_at'' msg read_u64 r) (\<lambda>(issued_at, r).
     and_then (read_field ''issued_by'' msg (read_fixed_pubkey ''issued_by'') r) (\<lambda>(issued_by, r).
     and_then (read_field ''signature'' msg (read_fixed ''signature'' SIGNATURE_LEN) r) (\<lambda>(sig, r).
     Inr (\<lparr>vr_verse = verse, vr_side = side, vr_reason = reason, vr_issued_by = issued_by,
          vr_issued_at = issued_at, vr_signature = sig\<rparr>, r))))))))"

definition remove_tbs :: "verse_remove \<Rightarrow> byte list" where
  "remove_tbs x = remove_unsigned (vr_verse x) (vr_side x) (vr_reason x) (vr_issued_by x) (vr_issued_at x)"

definition decode_verse_remove :: "crypto \<Rightarrow> byte list \<Rightarrow> verse_remove result" where
  "decode_verse_remove C bs =
     and_then (decode_prefix (read_map 6 ''VerseRemove expected 6 keys'' verse_remove_fields) bs) (\<lambda>x.
     and_then (check_signature C (vr_issued_by x) (remove_tbs x) (vr_signature x)) (\<lambda>_. Inr x))"

section \<open>Amending and re-consenting\<close>

definition encode_verse_amend :: "contract_object \<Rightarrow> byte list" where
  "encode_verse_amend c = encode_map [(cbor_text ''contract'', contract_to_wire c)]"

definition decode_verse_amend :: "crypto \<Rightarrow> byte list \<Rightarrow> contract_object result" where
  "decode_verse_amend C bs =
     and_then (read_map_header (reader_new bs)) (\<lambda>(n, r).
     if n \<noteq> 1 then Inl (CborDecode ''VerseAmend expected 1 key'')
     else and_then (expect_key ''contract'' ''VerseAmend expects contract'' r) (\<lambda>r.
     contract_from_wire C (drop (pos r) bs)))"

record verse_reconsent =
  rc_contract_hash :: "byte list"
  rc_signature :: "byte list"

definition reconsent_unsigned :: "byte list \<Rightarrow> byte list" where
  "reconsent_unsigned chash = encode_map [(cbor_text ''contract_hash'', cbor_bytes chash)]"

definition reconsent_sign :: "crypto \<Rightarrow> side_key \<Rightarrow> byte list \<Rightarrow> verse_reconsent" where
  "reconsent_sign C k chash =
     \<lparr>rc_contract_hash = chash, rc_signature = side_sign C k (blake3 C (reconsent_unsigned chash))\<rparr>"

definition verse_reconsent_entries :: "verse_reconsent \<Rightarrow> map_entry list" where
  "verse_reconsent_entries x =
     [(cbor_text ''signature'', cbor_bytes (rc_signature x)),
      (cbor_text ''contract_hash'', cbor_bytes (rc_contract_hash x))]"

definition encode_verse_reconsent :: "verse_reconsent \<Rightarrow> byte list" where
  "encode_verse_reconsent x = encode_map (verse_reconsent_entries x)"

definition verse_reconsent_fields :: "cbor_reader \<Rightarrow> (verse_reconsent \<times> cbor_reader) result" where
  "verse_reconsent_fields r =
     and_then (read_field ''signature'' ''expected signature first'' (read_fixed ''signature'' SIGNATURE_LEN) r)
       (\<lambda>(sig, r).
     and_then (read_field ''contract_hash'' ''expected contract_hash second'' (read_fixed ''contract_hash'' 32) r)
       (\<lambda>(chash, r). Inr (\<lparr>rc_contract_hash = chash, rc_signature = sig\<rparr>, r)))"

definition decode_verse_reconsent :: "crypto \<Rightarrow> byte list \<Rightarrow> byte list \<Rightarrow> verse_reconsent result" where
  "decode_verse_reconsent C side_pubkey bs =
     and_then (decode_prefix (read_map 2 ''VerseReconsent expected 2 keys'' verse_reconsent_fields) bs) (\<lambda>x.
     and_then (check_signature C side_pubkey (reconsent_unsigned (rc_contract_hash x)) (rc_signature x))
       (\<lambda>_. Inr x))"

section \<open>Codecs\<close>

lemma disposition_codec: "wire_codec (\<lambda>d. cbor_text (disposition_str d)) read_disposition (\<lambda>_. True)"
proof (rule wire_codecI)
  fix pre s d r'
  assume "read_disposition (rdr pre s) = Inr (d, r')"
  then show "True \<and> (\<exists>suf. s = cbor_text (disposition_str d) @ suf \<and>
      r' = rdr (pre @ cbor_text (disposition_str d)) suf)"
    by (auto simp: read_disposition_def and_then_eq_Inr read_text_iff parse_disposition_def split: if_splits)
next
  fix pre suf d
  have "wf_text (disposition_str d)" by (cases d) (simp_all add: literal_key)
  then show "read_disposition (rdr pre (cbor_text (disposition_str d) @ suf)) =
      Inr (d, rdr (pre @ cbor_text (disposition_str d)) suf)"
    by (cases d) (simp_all add: read_disposition_def wire_write parse_disposition_def)
qed

lemmas disposition_iff [wire_iff] = wire_codec_iff [OF disposition_codec]
lemmas disposition_write [wire_write] = wire_codec_write [OF disposition_codec]

lemmas verse_helpers = decode_field_values_def encode_field_values_def read_fixed_pubkey_def

definition wf_join_request_fields :: "join_request \<Rightarrow> bool" where
  [wf_defs]: "wf_join_request_fields x \<longleftrightarrow> wf_fixed 32 (jr_side x) \<and> wf_string_map (jr_fields x) \<and>
     wf_fixed 64 (jr_signature x) \<and> wf_fixed 32 (jr_contract_hash x)"

definition wf_join_request :: "crypto \<Rightarrow> join_request \<Rightarrow> bool" where
  "wf_join_request C x \<longleftrightarrow> wf_join_request_fields x \<and> ed_point_ok C (jr_side x) \<and>
     ed_verify C (jr_side x) (blake3 C (join_tbs x)) (jr_signature x)"

definition wf_join_accept :: "join_accept \<Rightarrow> bool" where
  [wf_defs]: "wf_join_accept x \<longleftrightarrow> wf_fixed 16 (ja_key_nonce x) \<and> wf_bytes (ja_membership_token x) \<and>
     wf_bytes (ja_sealed_content_key x)"

definition wf_join_decline :: "join_decline \<Rightarrow> bool" where
  [wf_defs]: "wf_join_decline x \<longleftrightarrow> wf_text (jd_reason x) \<and> wf_fixed 32 (jd_contract_hash x)"

definition wf_verse_post :: "verse_post \<Rightarrow> bool" where
  [wf_defs]: "wf_verse_post x \<longleftrightarrow> wf_fixed 12 (vp_nonce x) \<and> wf_bytes (vp_ciphertext x)"

definition wf_verse_leave_fields :: "verse_leave \<Rightarrow> bool" where
  [wf_defs]: "wf_verse_leave_fields x \<longleftrightarrow> wf_fixed 32 (vl_side x) \<and> wf_fixed 32 (vl_verse x) \<and>
     pred_option wf_text (vl_reason x) \<and> wf_fixed 64 (vl_signature x) \<and> wf_fixed 32 (vl_membership_hash x)"

definition wf_verse_leave :: "crypto \<Rightarrow> verse_leave \<Rightarrow> bool" where
  "wf_verse_leave C x \<longleftrightarrow> wf_verse_leave_fields x \<and> ed_point_ok C (vl_side x) \<and>
     ed_verify C (vl_side x) (blake3 C (leave_tbs x)) (vl_signature x)"

definition wf_verse_remove_fields :: "verse_remove \<Rightarrow> bool" where
  [wf_defs]: "wf_verse_remove_fields x \<longleftrightarrow> wf_fixed 32 (vr_side x) \<and> wf_fixed 32 (vr_verse x) \<and>
     wf_text (vr_reason x) \<and> wf_fixed 32 (vr_issued_by x) \<and> wf_fixed 64 (vr_signature x)"

definition wf_verse_remove :: "crypto \<Rightarrow> verse_remove \<Rightarrow> bool" where
  "wf_verse_remove C x \<longleftrightarrow> wf_verse_remove_fields x \<and> ed_point_ok C (vr_issued_by x) \<and>
     ed_verify C (vr_issued_by x) (blake3 C (remove_tbs x)) (vr_signature x)"

definition wf_verse_reconsent_fields :: "verse_reconsent \<Rightarrow> bool" where
  [wf_defs]: "wf_verse_reconsent_fields x \<longleftrightarrow> wf_fixed 64 (rc_signature x) \<and> wf_fixed 32 (rc_contract_hash x)"

definition wf_verse_reconsent :: "crypto \<Rightarrow> byte list \<Rightarrow> verse_reconsent \<Rightarrow> bool" where
  "wf_verse_reconsent C pk x \<longleftrightarrow> wf_verse_reconsent_fields x \<and> ed_point_ok C pk \<and>
     ed_verify C pk (blake3 C (reconsent_unsigned (rc_contract_hash x))) (rc_signature x)"

lemma contract_fetch_codec: "wire_codec encode_contract_fetch (read_map 1 msg contract_fetch_fields) (\<lambda>_. True)"
  unfolding encode_contract_fetch_def [abs_def]
  by (rule map_codecI,
      (auto simp: and_then_eq_Inr literal_key wire_iff contract_fetch_fields_def contract_fetch_entries_def)[1],
      simp_all add: literal_key wire_write contract_fetch_fields_def contract_fetch_entries_def)

lemma join_request_codec: "wire_codec encode_join_request (read_map 4 msg join_request_fields) wf_join_request_fields"
  unfolding encode_join_request_def [abs_def]
  by (rule map_codecI,
      (auto simp: and_then_eq_Inr literal_key wire_iff join_request_fields_def join_request_entries_def wf_join_request_fields_def Let_def verse_helpers)[1],
      simp_all add: literal_key wire_write join_request_fields_def join_request_entries_def wf_join_request_fields_def Let_def verse_helpers)

lemma join_accept_codec: "wire_codec encode_join_accept (read_map 3 msg join_accept_fields) wf_join_accept"
  unfolding encode_join_accept_def [abs_def]
  by (rule map_codecI,
      (auto simp: and_then_eq_Inr literal_key wire_iff join_accept_fields_def join_accept_entries_def wf_join_accept_def)[1],
      simp_all add: literal_key wire_write join_accept_fields_def join_accept_entries_def wf_join_accept_def)

lemma join_decline_codec: "wire_codec encode_join_decline (read_map 2 msg join_decline_fields) wf_join_decline"
  unfolding encode_join_decline_def [abs_def]
  by (rule map_codecI,
      (auto simp: and_then_eq_Inr literal_key wire_iff join_decline_fields_def join_decline_entries_def wf_join_decline_def)[1],
      simp_all add: literal_key wire_write join_decline_fields_def join_decline_entries_def wf_join_decline_def)

lemma verse_post_codec: "wire_codec encode_verse_post (read_map 2 msg verse_post_fields) wf_verse_post"
  unfolding encode_verse_post_def [abs_def]
  by (rule map_codecI,
      (auto simp: and_then_eq_Inr literal_key wire_iff verse_post_fields_def verse_post_entries_def wf_verse_post_def)[1],
      simp_all add: literal_key wire_write verse_post_fields_def verse_post_entries_def wf_verse_post_def)

lemma verse_leave_codec: "wire_codec encode_verse_leave (read_map 6 msg verse_leave_fields) wf_verse_leave_fields"
  unfolding encode_verse_leave_def [abs_def]
  by (rule map_codecI,
      (auto simp: and_then_eq_Inr literal_key wire_iff verse_leave_fields_def verse_leave_entries_def wf_verse_leave_fields_def Let_def verse_helpers)[1],
      simp_all add: literal_key wire_write verse_leave_fields_def verse_leave_entries_def wf_verse_leave_fields_def Let_def verse_helpers)

lemma verse_remove_codec: "wire_codec encode_verse_remove (read_map 6 msg verse_remove_fields) wf_verse_remove_fields"
  unfolding encode_verse_remove_def [abs_def]
  by (rule map_codecI,
      (auto simp: and_then_eq_Inr literal_key wire_iff verse_remove_fields_def verse_remove_entries_def wf_verse_remove_fields_def Let_def verse_helpers)[1],
      simp_all add: literal_key wire_write verse_remove_fields_def verse_remove_entries_def wf_verse_remove_fields_def Let_def verse_helpers)

lemma verse_reconsent_codec: "wire_codec encode_verse_reconsent (read_map 2 msg verse_reconsent_fields) wf_verse_reconsent_fields"
  unfolding encode_verse_reconsent_def [abs_def]
  by (rule map_codecI,
      (auto simp: and_then_eq_Inr literal_key wire_iff verse_reconsent_fields_def verse_reconsent_entries_def wf_verse_reconsent_fields_def)[1],
      simp_all add: literal_key wire_write verse_reconsent_fields_def verse_reconsent_entries_def wf_verse_reconsent_fields_def)

interpretation contract_fetch_msg: lax_message encode_contract_fetch decode_contract_fetch "\<lambda>_. True"
  unfolding decode_contract_fetch_def
  by (rule lax_messageI) (rule decode_prefix_iff [OF contract_fetch_codec])

lemma decode_join_request_iff:
  "decode_join_request C bs = Inr x \<longleftrightarrow> wf_join_request C x \<and> (\<exists>t. bs = encode_join_request x @ t)"
  by (auto simp: decode_join_request_def and_then_eq_Inr decode_prefix_iff [OF join_request_codec] wf_join_request_def)

interpretation join_request_msg: lax_message encode_join_request "decode_join_request C" "wf_join_request C"
  by (rule lax_messageI) (rule decode_join_request_iff)

interpretation join_accept_msg: lax_message encode_join_accept decode_join_accept wf_join_accept
  unfolding decode_join_accept_def
  by (rule lax_messageI) (rule decode_prefix_iff [OF join_accept_codec])

interpretation join_decline_msg: lax_message encode_join_decline decode_join_decline wf_join_decline
  unfolding decode_join_decline_def
  by (rule lax_messageI) (rule decode_prefix_iff [OF join_decline_codec])

interpretation verse_post_msg: lax_message encode_verse_post decode_verse_post wf_verse_post
  unfolding decode_verse_post_def
  by (rule lax_messageI) (rule decode_prefix_iff [OF verse_post_codec])

lemma decode_verse_leave_iff:
  "decode_verse_leave C bs = Inr x \<longleftrightarrow> wf_verse_leave C x \<and> (\<exists>t. bs = encode_verse_leave x @ t)"
  by (auto simp: decode_verse_leave_def and_then_eq_Inr decode_prefix_iff [OF verse_leave_codec] wf_verse_leave_def)

interpretation verse_leave_msg: lax_message encode_verse_leave "decode_verse_leave C" "wf_verse_leave C"
  by (rule lax_messageI) (rule decode_verse_leave_iff)

lemma decode_verse_remove_iff:
  "decode_verse_remove C bs = Inr x \<longleftrightarrow> wf_verse_remove C x \<and> (\<exists>t. bs = encode_verse_remove x @ t)"
  by (auto simp: decode_verse_remove_def and_then_eq_Inr decode_prefix_iff [OF verse_remove_codec] wf_verse_remove_def)

interpretation verse_remove_msg: lax_message encode_verse_remove "decode_verse_remove C" "wf_verse_remove C"
  by (rule lax_messageI) (rule decode_verse_remove_iff)

lemma decode_verse_reconsent_iff:
  "decode_verse_reconsent C pk bs = Inr x \<longleftrightarrow> wf_verse_reconsent C pk x \<and> (\<exists>t. bs = encode_verse_reconsent x @ t)"
  by (auto simp: decode_verse_reconsent_def and_then_eq_Inr decode_prefix_iff [OF verse_reconsent_codec] wf_verse_reconsent_def)

interpretation verse_reconsent_msg: lax_message encode_verse_reconsent "decode_verse_reconsent C pk" "wf_verse_reconsent C pk"
  by (rule lax_messageI) (rule decode_verse_reconsent_iff)

text \<open>The two payloads that are a contract under one key.\<close>

lemma wrapped_contract_iff:
  assumes "\<And>C bs. dec C bs =
     and_then (read_map_header (reader_new bs)) (\<lambda>(n, r).
     if n \<noteq> 1 then Inl e1
     else and_then (expect_key ''contract'' e2 r) (\<lambda>r. contract_from_wire C (drop (pos r) bs)))"
    and "\<And>c. enc c = encode_map [(cbor_text ''contract'', contract_to_wire c)]"
  shows "dec C bs = Inr c \<longleftrightarrow> wf_contract C c \<and> bs = enc c"
proof -
  have k: "wf_text ''contract''" by (simp add: literal_key)
  show ?thesis
  proof
    assume "dec C bs = Inr c"
    then show "wf_contract C c \<and> bs = enc c"
      by (auto simp: assms and_then_eq_Inr reader_new_rdr read_map_header_iff expect_key_iff k cbor_key_text
          contract_from_wire_iff encode_map_body split: if_splits)
  next
    assume "wf_contract C c \<and> bs = enc c"
    then show "dec C bs = Inr c"
      by (simp add: assms reader_new_rdr encode_map_body wire_write
          expect_key_write [unfolded cbor_key_text] k contract_from_wire_iff)
  qed
qed

lemma decode_contract_deliver_iff:
  "decode_contract_deliver C bs = Inr c \<longleftrightarrow> wf_contract C c \<and> bs = encode_contract_deliver c"
  by (rule wrapped_contract_iff [OF decode_contract_deliver_def encode_contract_deliver_def])

interpretation contract_deliver_msg: strict_message encode_contract_deliver "decode_contract_deliver C" "wf_contract C"
  by (rule strict_messageI) (rule decode_contract_deliver_iff)

lemma decode_verse_amend_iff:
  "decode_verse_amend C bs = Inr c \<longleftrightarrow> wf_contract C c \<and> bs = encode_verse_amend c"
  by (rule wrapped_contract_iff [OF decode_verse_amend_def encode_verse_amend_def])

interpretation verse_amend_msg: strict_message encode_verse_amend "decode_verse_amend C" "wf_contract C"
  by (rule strict_messageI) (rule decode_verse_amend_iff)

section \<open>What the signers produce is accepted\<close>

lemma join_sign_wf:
  assumes "signature_laws C" "wf_side k" "length chash = 32" "wf_string_map values"
  shows "wf_join_request C (join_sign C k chash values)"
  using assms signed_by_side [OF assms(1,2)]
  by (simp add: wf_join_request_def join_sign_def Let_def wf_join_request_fields_def join_tbs_def wf_fixed_def)

lemma leave_sign_wf:
  assumes "signature_laws C" "wf_side k" "length verse = 32" "length mhash = 32" "pred_option wf_text reason"
  shows "wf_verse_leave C (leave_sign C k verse mhash reason d)"
  using assms signed_by_side [OF assms(1,2)]
  by (simp add: wf_verse_leave_def leave_sign_def Let_def wf_verse_leave_fields_def leave_tbs_def wf_fixed_def)

lemma remove_sign_wf:
  assumes "signature_laws C" "wf_side k" "length verse = 32" "length side = 32" "wf_text reason"
  shows "wf_verse_remove C (remove_sign C k verse side reason ts)"
  using assms signed_by_side [OF assms(1,2)]
  by (simp add: wf_verse_remove_def remove_sign_def Let_def wf_verse_remove_fields_def remove_tbs_def wf_fixed_def)

lemma reconsent_sign_wf:
  assumes "signature_laws C" "wf_side k" "length chash = 32"
  shows "wf_verse_reconsent C (public_bytes C k) (reconsent_sign C k chash)"
  using assms signed_by_side [OF assms(1,2)]
  by (simp add: wf_verse_reconsent_def reconsent_sign_def wf_verse_reconsent_fields_def wf_fixed_def)

section \<open>Properties\<close>

text \<open>A join request is accepted iff the joining side signed its contract hash, side and fields;
  what follows the encoding is ignored.\<close>
lemma join_request_exact:
  "decode_join_request C bs = Inr x \<longleftrightarrow> (\<exists>t. bs = encode_join_request x @ t) \<and> wf_join_request_fields x \<and>
     ed_point_ok C (jr_side x) \<and> ed_verify C (jr_side x) (blake3 C (join_tbs x)) (jr_signature x)"
  by (auto simp: decode_join_request_iff wf_join_request_def)

text \<open>Leave, remove and re-consent payloads made by the signers of the source are accepted, each
  under the key that signed it.\<close>
lemma departure_payloads_accepted:
  assumes "signature_laws C" "length (seed k) = 32" "length verse = 32" "length mhash = 32" "length side = 32"
    "utf8_valid (text_bytes reason)" "length reason < 2 ^ 64"
  shows "decode_verse_leave C (encode_verse_leave (leave_sign C k verse mhash (Some reason) d)) =
      Inr (leave_sign C k verse mhash (Some reason) d) \<and>
    decode_verse_remove C (encode_verse_remove (remove_sign C k verse side reason ts)) =
      Inr (remove_sign C k verse side reason ts) \<and>
    decode_verse_reconsent C (public_bytes C k) (encode_verse_reconsent (reconsent_sign C k mhash)) =
      Inr (reconsent_sign C k mhash)"
  using leave_sign_wf [OF assms(1), of k verse mhash "Some reason" d]
    remove_sign_wf [OF assms(1), of k verse side reason ts] reconsent_sign_wf [OF assms(1), of k mhash] assms
  by (auto simp: decode_verse_leave_iff decode_verse_remove_iff decode_verse_reconsent_iff wf_side_def wf_text_def)

lemma departure_payloads_accepted_witness:
  "decode_verse_leave sample_crypto (encode_verse_leave (leave_sign sample_crypto
       \<lparr>seed = replicate 32 1, label = ''m''\<rparr> (replicate 32 2) (replicate 32 3) (Some ''bye'') Retract)) =
     Inr (leave_sign sample_crypto \<lparr>seed = replicate 32 1, label = ''m''\<rparr> (replicate 32 2) (replicate 32 3)
       (Some ''bye'') Retract)"
  using departure_payloads_accepted [OF sample_signature_laws, of "\<lparr>seed = replicate 32 1, label = ''m''\<rparr>"
      "replicate 32 2" "replicate 32 3" "replicate 32 4" "''bye''" Retract 0]
  by (simp add: byte_of_char_def)

end
