(* ===== verification/Envelope.thy ===== *)
theory Envelope
  imports Codec Keys
begin

text \<open>
  The signed envelope, \<open>sidevers-core/src/envelope.rs\<close>: message types and their
  categories, the canonical encoding with and without the signature, signing, parsing with
  verification, and the freshness check.
\<close>

section \<open>Types\<close>

definition PROTOCOL_VERSION :: u64 where "PROTOCOL_VERSION = 1"
definition DEFAULT_MAX_SKEW_SECS :: u64 where "DEFAULT_MAX_SKEW_SECS = 300"
definition SOFT_MAX_SKEW_SECS :: u64 where "SOFT_MAX_SKEW_SECS = 900"

type_synonym message_type = byte

datatype message_category =
  CatReserved | CatHandshake | CatDirect | CatStorage | CatDiscovery | CatVerse | CatPublic
  | CatFuture | CatExtension

definition category :: "message_type \<Rightarrow> message_category" where
  "category t =
     (if t \<le> 0x0F then CatReserved
      else if t \<le> 0x1F then CatHandshake
      else if t \<le> 0x2F then CatDirect
      else if t \<le> 0x3F then CatStorage
      else if t \<le> 0x4F then CatDiscovery
      else if t \<le> 0x5F then CatVerse
      else if t \<le> 0x6F then CatPublic
      else if t \<le> 0xEF then CatFuture
      else CatExtension)"

record envelope =
  env_version :: u64
  env_type :: message_type
  env_from :: "byte list"
  env_to :: "byte list option"
  env_timestamp :: u64
  env_nonce :: "byte list"
  env_payload :: "byte list"
  env_sig :: "byte list"

section \<open>Encoding\<close>

definition to_entry :: "byte list option \<Rightarrow> byte list" where
  "to_entry to = (case to of Some addr \<Rightarrow> cbor_bytes addr | None \<Rightarrow> cbor_null)"

definition unsigned_entries :: "u64 \<Rightarrow> message_type \<Rightarrow> byte list \<Rightarrow> byte list option \<Rightarrow> u64 \<Rightarrow>
    byte list \<Rightarrow> byte list \<Rightarrow> map_entry list" where
  "unsigned_entries v t from to ts nonce payload =
     [(cbor_key ''t'', cbor_uint (ucast t)),
      (cbor_key ''v'', cbor_uint v),
      (cbor_key ''to'', to_entry to),
      (cbor_key ''ts'', cbor_uint ts),
      (cbor_key ''from'', cbor_bytes from),
      (cbor_key ''nonce'', cbor_bytes nonce),
      (cbor_key ''payload'', cbor_bytes payload)]"

definition encode_unsigned :: "u64 \<Rightarrow> message_type \<Rightarrow> byte list \<Rightarrow> byte list option \<Rightarrow> u64 \<Rightarrow>
    byte list \<Rightarrow> byte list \<Rightarrow> byte list" where
  "encode_unsigned v t from to ts nonce payload =
     encode_map (unsigned_entries v t from to ts nonce payload)"

definition wire_entries :: "envelope \<Rightarrow> map_entry list" where
  "wire_entries e =
     [(cbor_key ''t'', cbor_uint (ucast (env_type e))),
      (cbor_key ''v'', cbor_uint (env_version e)),
      (cbor_key ''to'', to_entry (env_to e)),
      (cbor_key ''ts'', cbor_uint (env_timestamp e)),
      (cbor_key ''sig'', cbor_bytes (env_sig e)),
      (cbor_key ''from'', cbor_bytes (env_from e)),
      (cbor_key ''nonce'', cbor_bytes (env_nonce e)),
      (cbor_key ''payload'', cbor_bytes (env_payload e))]"

definition to_wire_bytes :: "envelope \<Rightarrow> byte list" where
  "to_wire_bytes e = encode_map (wire_entries e)"

section \<open>Signing\<close>

definition sign_with :: "crypto \<Rightarrow> message_type \<Rightarrow> side_key \<Rightarrow> byte list option \<Rightarrow> byte list \<Rightarrow> u64 \<Rightarrow>
    byte list \<Rightarrow> envelope" where
  "sign_with C t side to payload ts nonce =
     (let from = public_bytes C side;
          tbs = encode_unsigned PROTOCOL_VERSION t from to ts nonce payload;
          sig = side_sign C side (blake3 C tbs)
      in \<lparr>env_version = PROTOCOL_VERSION, env_type = t, env_from = from, env_to = to,
          env_timestamp = ts, env_nonce = nonce, env_payload = payload, env_sig = sig\<rparr>)"

section \<open>Parsing and verification\<close>

definition read_to :: "cbor_reader \<Rightarrow> (byte list option \<times> cbor_reader) result" where
  "read_to r = and_then (read_bytes_or_null r) (\<lambda>(x, r). case x of
     None \<Rightarrow> Inr (None, r)
   | Some b \<Rightarrow> if length b \<noteq> PUBLIC_KEY_LEN then Inl (BadFieldLength ''to'' PUBLIC_KEY_LEN (length b))
              else Inr (Some b, r))"

definition env_key_msg :: string where
  "env_key_msg = ''envelope map keys not in canonical order''"

definition parse_fields :: "cbor_reader \<Rightarrow> (envelope \<times> cbor_reader) result" where
  "parse_fields r =
     and_then (expect_key ''t'' env_key_msg r) (\<lambda>r.
     and_then (read_u8 (CborDecode ''message type out of u8 range'') r) (\<lambda>(t, r).
     and_then (expect_key ''v'' env_key_msg r) (\<lambda>r.
     and_then (read_u64 r) (\<lambda>(v, r).
     and_then (expect_key ''to'' env_key_msg r) (\<lambda>r.
     and_then (read_to r) (\<lambda>(to, r).
     and_then (expect_key ''ts'' env_key_msg r) (\<lambda>r.
     and_then (read_u64 r) (\<lambda>(ts, r).
     and_then (expect_key ''sig'' env_key_msg r) (\<lambda>r.
     and_then (read_fixed ''sig'' SIGNATURE_LEN r) (\<lambda>(sig, r).
     and_then (expect_key ''from'' env_key_msg r) (\<lambda>r.
     and_then (read_fixed ''from'' PUBLIC_KEY_LEN r) (\<lambda>(from, r).
     and_then (expect_key ''nonce'' env_key_msg r) (\<lambda>r.
     and_then (read_fixed ''nonce'' NONCE_LEN r) (\<lambda>(nonce, r).
     and_then (expect_key ''payload'' env_key_msg r) (\<lambda>r.
     and_then (read_bytes r) (\<lambda>(payload, r).
     Inr (\<lparr>env_version = v, env_type = t, env_from = from, env_to = to, env_timestamp = ts,
          env_nonce = nonce, env_payload = payload, env_sig = sig\<rparr>, r)))))))))))))))))"

definition env_unsigned :: "envelope \<Rightarrow> byte list" where
  "env_unsigned e = encode_unsigned (env_version e) (env_type e) (env_from e) (env_to e)
     (env_timestamp e) (env_nonce e) (env_payload e)"

definition from_wire_bytes :: "crypto \<Rightarrow> byte list \<Rightarrow> envelope result" where
  "from_wire_bytes C bs =
     and_then (read_map_header (reader_new bs)) (\<lambda>(map_len, r).
     if map_len \<noteq> 8 then Inl (CborDecode ''envelope expected 8-key map'') else
     and_then (parse_fields r) (\<lambda>(e, r).
     if \<not> at_end r then Inl (CborDecode ''trailing bytes after envelope'')
     else if env_version e \<noteq> PROTOCOL_VERSION then Inl (UnsupportedVersion (env_version e))
     else and_then (check_signature C (env_from e) (env_unsigned e) (env_sig e)) (\<lambda>_.
     if to_wire_bytes e \<noteq> bs then Inl (CborNotCanonical ''envelope bytes are not canonical re-encode'')
     else Inr e)))"

definition check_freshness :: "envelope \<Rightarrow> u64 \<Rightarrow> u64 \<Rightarrow> unit result" where
  "check_freshness e now max_skew =
     (if max_skew < abs_diff now (env_timestamp e) then Inl (TimestampSkewed max_skew) else Inr ())"

section \<open>Well-formed envelopes\<close>

definition wf_env_fields :: "envelope \<Rightarrow> bool" where
  [wf_defs]: "wf_env_fields e \<longleftrightarrow>
     wf_fixed 32 (env_from e) \<and> pred_option (wf_fixed 32) (env_to e) \<and>
     wf_fixed 16 (env_nonce e) \<and> wf_bytes (env_payload e) \<and> wf_fixed 64 (env_sig e)"

definition wf_envelope :: "crypto \<Rightarrow> envelope \<Rightarrow> bool" where
  "wf_envelope C e \<longleftrightarrow> wf_env_fields e \<and> env_version e = PROTOCOL_VERSION \<and>
     ed_point_ok C (env_from e) \<and> ed_verify C (env_from e) (blake3 C (env_unsigned e)) (env_sig e)"

lemma env_keys_wf:
  "wf_text ''t''" "wf_text ''v''" "wf_text ''to''" "wf_text ''ts''" "wf_text ''sig''"
  "wf_text ''from''" "wf_text ''nonce''" "wf_text ''payload''"
  by (rule wf_text_literal; simp add: ascii_def byte_of_char_def)+

lemma read_to_iff:
  "read_to (rdr pre s) = Inr (x, r') \<longleftrightarrow> pred_option (wf_fixed 32) x \<and>
     (\<exists>suf. s = to_entry x @ suf \<and> r' = rdr (pre @ to_entry x) suf)"
  by (cases x)
    (auto simp: read_to_def and_then_eq_Inr read_bytes_or_null_iff to_entry_def cbor_bytes_or_null_def
      wf_defs split: option.splits if_splits)

lemma small_lens: "(64 :: nat) < 2 ^ 64" "(32 :: nat) < 2 ^ 64" "(16 :: nat) < 2 ^ 64" by simp_all

lemma read_to_write:
  "pred_option (wf_fixed 32) x \<Longrightarrow> read_to (rdr pre (to_entry x @ suf)) = Inr (x, rdr (pre @ to_entry x) suf)"
  by (simp add: read_to_iff)

lemma parse_fields_codec: "wire_codec (\<lambda>e. map_body (wire_entries e)) parse_fields wf_env_fields"
proof (rule wire_codecI)
  fix pre s e r'
  assume "parse_fields (rdr pre s) = Inr (e, r')"
  then show "wf_env_fields e \<and> (\<exists>suf. s = map_body (wire_entries e) @ suf \<and>
      r' = rdr (pre @ map_body (wire_entries e)) suf)"
    by (auto simp: parse_fields_def and_then_eq_Inr env_keys_wf wire_iff read_to_iff
        wire_entries_def wf_env_fields_def)
next
  fix pre suf e
  assume "wf_env_fields e"
  then show "parse_fields (rdr pre (map_body (wire_entries e) @ suf)) =
      Inr (e, rdr (pre @ map_body (wire_entries e)) suf)"
    by (simp add: parse_fields_def env_keys_wf wire_write read_to_write wire_entries_def wf_env_fields_def)
qed

interpretation env_fields: wire_codec "\<lambda>e. map_body (wire_entries e)" parse_fields wf_env_fields
  by (rule parse_fields_codec)

text \<open>The decoder accepts a byte string iff it is the encoding of a well-formed envelope.\<close>

lemma wire_entries_count: "length (wire_entries e) = 8"
  by (simp add: wire_entries_def)

lemma from_wire_bytes_iff:
  "from_wire_bytes C bs = Inr e \<longleftrightarrow> wf_envelope C e \<and> bs = to_wire_bytes e"
proof
  assume "from_wire_bytes C bs = Inr e"
  then show "wf_envelope C e \<and> bs = to_wire_bytes e"
    by (auto simp: from_wire_bytes_def and_then_eq_Inr reader_new_rdr wire_iff
        env_fields.dec_iff wf_envelope_def split: if_splits)
next
  assume "wf_envelope C e \<and> bs = to_wire_bytes e"
  then show "from_wire_bytes C bs = Inr e"
    using env_fields.dec_enc [of e _ "[]"]
    by (auto simp: from_wire_bytes_def reader_new_rdr wire_write wf_envelope_def to_wire_bytes_def
        encode_map_body wire_entries_count and_then_eq_Inr)
qed

interpretation envelope_msg: strict_message to_wire_bytes "from_wire_bytes C" "wf_envelope C"
  by unfold_locales (simp_all add: from_wire_bytes_iff)

lemma sign_with_fields [simp]:
  "env_type (sign_with C t k to p ts n) = t" "env_from (sign_with C t k to p ts n) = public_bytes C k"
  "env_to (sign_with C t k to p ts n) = to" "env_payload (sign_with C t k to p ts n) = p"
  "env_timestamp (sign_with C t k to p ts n) = ts" "env_nonce (sign_with C t k to p ts n) = n"
  by (simp_all add: sign_with_def Let_def)

lemma sign_with_wf:
  assumes "signature_laws C" "wf_side k" "pred_option (wf_fixed 32) to" "wf_bytes payload"
    "wf_fixed 16 nonce"
  shows "wf_envelope C (sign_with C t k to payload ts nonce)"
  using assms signed_by_side [OF assms(1,2)]
  by (simp add: wf_envelope_def sign_with_def Let_def wf_env_fields_def env_unsigned_def wf_fixed_def)

lemma category_exhaustive:
  "category t = CatHandshake \<longleftrightarrow> 0x10 \<le> unat t \<and> unat t \<le> 0x1F"
  "category t = CatDirect \<longleftrightarrow> 0x20 \<le> unat t \<and> unat t \<le> 0x2F"
  "category t = CatStorage \<longleftrightarrow> 0x30 \<le> unat t \<and> unat t \<le> 0x3F"
  "category t = CatDiscovery \<longleftrightarrow> 0x40 \<le> unat t \<and> unat t \<le> 0x4F"
  "category t = CatVerse \<longleftrightarrow> 0x50 \<le> unat t \<and> unat t \<le> 0x5F"
  "category t = CatPublic \<longleftrightarrow> 0x60 \<le> unat t \<and> unat t \<le> 0x6F"
  "category t = CatFuture \<longleftrightarrow> 0x70 \<le> unat t \<and> unat t \<le> 0xEF"
  by (auto simp: category_def word_le_nat_alt)

text \<open>
  A reader for the signed bytes, which the source does not have: it shows that they
  determine the fields.
\<close>

definition unsigned_fields :: "cbor_reader \<Rightarrow> (envelope \<times> cbor_reader) result" where
  "unsigned_fields = read_map 7 [] (\<lambda>r.
     and_then (read_field ''t'' [] (read_u8 SignatureInvalid) r) (\<lambda>(t, r).
     and_then (read_field ''v'' [] read_u64 r) (\<lambda>(v, r).
     and_then (read_field ''to'' [] read_to r) (\<lambda>(to, r).
     and_then (read_field ''ts'' [] read_u64 r) (\<lambda>(ts, r).
     and_then (read_field ''from'' [] (read_fixed ''from'' 32) r) (\<lambda>(from, r).
     and_then (read_field ''nonce'' [] (read_fixed ''nonce'' 16) r) (\<lambda>(nonce, r).
     and_then (read_field ''payload'' [] read_bytes r) (\<lambda>(payload, r).
     Inr (\<lparr>env_version = v, env_type = t, env_from = from, env_to = to, env_timestamp = ts,
          env_nonce = nonce, env_payload = payload, env_sig = []\<rparr>, r)))))))))"

lemma unsigned_fields_read:
  "wf_env_fields x \<Longrightarrow> unsigned_fields (rdr [] (env_unsigned x)) = Inr (x\<lparr>env_sig := []\<rparr>, rdr (env_unsigned x) [])"
  by (simp add: unsigned_fields_def read_map_def env_unsigned_def encode_unsigned_def encode_map_body
      unsigned_entries_def wf_env_fields_def wire_write env_keys_wf cbor_key_text read_to_write
      read_bytes_write [where suf = "[]", simplified])

section \<open>Properties\<close>

text \<open>C4: the envelope decoder accepts a byte string iff it is the canonical encoding of an
  envelope of the supported version with fields of the right lengths, a valid sender key
  and a signature by that key over all other fields.\<close>
theorem envelope_exact:
  "from_wire_bytes C bs = Inr e \<longleftrightarrow> bs = to_wire_bytes e \<and> env_version e = PROTOCOL_VERSION \<and>
     length (env_from e) = 32 \<and> (\<forall>addr. env_to e = Some addr \<longrightarrow> length addr = 32) \<and>
     length (env_nonce e) = 16 \<and> length (env_sig e) = 64 \<and> length (env_payload e) < 2 ^ 64 \<and>
     ed_point_ok C (env_from e) \<and> ed_verify C (env_from e) (blake3 C (env_unsigned e)) (env_sig e)"
  by (cases "env_to e") (auto simp: from_wire_bytes_iff wf_envelope_def wf_env_fields_def wf_fixed_def wf_bytes_def)

theorem envelope_exact_witness:
  "from_wire_bytes sample_crypto (to_wire_bytes (sign_with sample_crypto 0x20
       \<lparr>seed = replicate 32 1, label = ''a''\<rparr> None [1, 2] 5 (replicate 16 7))) =
     Inr (sign_with sample_crypto 0x20 \<lparr>seed = replicate 32 1, label = ''a''\<rparr> None [1, 2] 5 (replicate 16 7))"
proof -
  let ?e = "sign_with sample_crypto 0x20 \<lparr>seed = replicate 32 1, label = ''a''\<rparr> None [1, 2] 5 (replicate 16 7)"
  have "wf_envelope sample_crypto ?e"
    by (rule sign_with_wf [OF sample_signature_laws]) (simp_all add: wf_side_def wf_bytes_def wf_fixed_def)
  then show ?thesis
    by (subst envelope_exact) (simp add: wf_envelope_def wf_env_fields_def wf_fixed_def wf_bytes_def sign_with_def Let_def)
qed

text \<open>What a side signs, every node accepts: the encoding of a freshly signed envelope
  decodes to that envelope.\<close>
lemma signed_envelope_accepted:
  assumes "signature_laws C" "length (seed k) = 32" "\<forall>addr. to = Some addr \<longrightarrow> length addr = 32"
    "length payload < 2 ^ 64" "length nonce = 16"
  shows "from_wire_bytes C (to_wire_bytes (sign_with C t k to payload ts nonce)) =
    Inr (sign_with C t k to payload ts nonce)"
  using sign_with_wf [OF assms(1), of k to payload nonce t ts] assms
  by (cases to) (simp_all add: from_wire_bytes_iff wf_side_def wf_bytes_def wf_fixed_def)

lemma signed_envelope_accepted_witness:
  "from_wire_bytes sample_crypto (to_wire_bytes (sign_with sample_crypto 0x57
       \<lparr>seed = replicate 32 3, label = ''b''\<rparr> (Some (replicate 32 9)) [7] 100 (replicate 16 1))) =
     Inr (sign_with sample_crypto 0x57 \<lparr>seed = replicate 32 3, label = ''b''\<rparr> (Some (replicate 32 9)) [7] 100
       (replicate 16 1))"
  by (rule signed_envelope_accepted [OF sample_signature_laws]) simp_all

text \<open>The signed bytes determine every signed field, so a signature over one envelope is
  not a signature over an envelope that differs in version, type, sender, recipient, time,
  nonce or payload.\<close>
lemma signed_bytes_determine_fields:
  assumes "wf_env_fields a" "wf_env_fields b" "env_unsigned a = env_unsigned b"
  shows "a\<lparr>env_sig := s\<rparr> = b\<lparr>env_sig := s\<rparr>"
proof -
  have u: "unsigned_fields (rdr [] (env_unsigned x)) = Inr (x\<lparr>env_sig := []\<rparr>, rdr (env_unsigned x) [])"
    if "wf_env_fields x" for x using that by (rule unsigned_fields_read)
  from u [OF assms(1)] u [OF assms(2)] assms(3) have "a\<lparr>env_sig := []\<rparr> = b\<lparr>env_sig := []\<rparr>" by simp
  then show ?thesis by (cases a; cases b) simp
qed

lemma signed_bytes_determine_fields_witness:
  "\<lparr>env_version = 1, env_type = 2, env_from = replicate 32 0, env_to = None, env_timestamp = 3,
     env_nonce = replicate 16 0, env_payload = [], env_sig = replicate 64 0\<rparr>\<lparr>env_sig := []\<rparr> =
   \<lparr>env_version = 1, env_type = 2, env_from = replicate 32 0, env_to = None, env_timestamp = 3,
     env_nonce = replicate 16 0, env_payload = [], env_sig = replicate 64 1\<rparr>\<lparr>env_sig := []\<rparr>"
  by (rule signed_bytes_determine_fields)
    (simp_all add: wf_env_fields_def wf_fixed_def wf_bytes_def env_unsigned_def)

text \<open>The entries of both encodings of an envelope are in canonical order, so the assertion of
  the map encoder never fires.\<close>
lemma envelope_keys_canonical:
  "is_sorted_by_key (wire_entries e) \<and> is_sorted_by_key (unsigned_entries v t from to ts nonce payload)"
  by (simp add: wire_entries_def unsigned_entries_def cbor_key_text cbor_text_head head_bytes_cases byte_of_char_def)

end
