(* ===== verification/VerseHost.thy ===== *)
theory VerseHost
  imports VerseMessages Envelope
begin

text \<open>
  The state of one hosted verse, \<open>sidevers-net/src/verse.rs\<close>, with its post log,
  \<open>sidevers-net/src/verse_post_store.rs\<close>. A \<open>HashSet\<close> that is only tested and updated is a
  \<open>set\<close>, a \<open>HashMap\<close> that is only looked up is a map, and one that the code iterates over is
  an association list. Connections are numbers.
\<close>

section \<open>The post log\<close>

record stored_post =
  sp_envelope :: envelope
  sp_sealed_payload :: "byte list"
  sp_stored_at :: u64

type_synonym post_store = "(byte list \<times> (byte list \<times> stored_post list) list) list"

definition map_get :: "('k \<times> 'v list) list \<Rightarrow> 'k \<Rightarrow> 'v list" where
  "map_get m k = (case map_of m k of Some v \<Rightarrow> v | None \<Rightarrow> [])"

definition post_insert :: "byte list \<Rightarrow> byte list \<Rightarrow> envelope \<Rightarrow> byte list \<Rightarrow> u64 \<Rightarrow> post_store \<Rightarrow> post_store" where
  "post_insert verse author env sealed stored_at s =
     (let by_author = map_get s verse; bucket = map_get by_author author;
          bucket' = (if list_ex (\<lambda>p. env_nonce (sp_envelope p) = env_nonce env) bucket then bucket
                     else bucket @ [\<lparr>sp_envelope = env, sp_sealed_payload = sealed, sp_stored_at = stored_at\<rparr>])
      in AList.update verse (AList.update author bucket' by_author) s)"

definition retract_by_author :: "byte list \<Rightarrow> byte list \<Rightarrow> post_store \<Rightarrow> nat \<times> post_store" where
  "retract_by_author verse author s = (case map_of s verse of
     None \<Rightarrow> (0, s)
   | Some by_author \<Rightarrow>
       (length (map_get by_author author), AList.update verse (AList.delete author by_author) s))"

definition list_verse :: "byte list \<Rightarrow> post_store \<Rightarrow> stored_post list" where
  "list_verse verse s = (case map_of s verse of
     None \<Rightarrow> []
   | Some by_author \<Rightarrow> sort_key (\<lambda>p. - int (unat (sp_stored_at p))) (concat (map snd by_author)))"

definition posts_len :: "byte list \<Rightarrow> post_store \<Rightarrow> nat" where
  "posts_len verse s = (case map_of s verse of
     None \<Rightarrow> 0 | Some by_author \<Rightarrow> sum_list (map (\<lambda>(a, v). length v) by_author))"

section \<open>The host\<close>

type_synonym connection = nat

record verse_host =
  vh_verse_key :: side_key
  vh_contract :: contract_object
  vh_content_key :: "byte list"
  vh_members :: "byte list set"
  vh_consented_versions :: "byte list \<rightharpoonup> u64"
  vh_active_sessions :: "(byte list \<times> connection) list"
  vh_pending_key_pushes :: "byte list \<rightharpoonup> envelope"
  vh_posts :: post_store

definition verse_host_new :: "side_key \<Rightarrow> contract_object \<Rightarrow> byte list \<Rightarrow> verse_host" where
  "verse_host_new key contract content_key = \<lparr>vh_verse_key = key, vh_contract = contract,
     vh_content_key = content_key, vh_members = {}, vh_consented_versions = Map.empty,
     vh_active_sessions = [], vh_pending_key_pushes = Map.empty, vh_posts = []\<rparr>"

definition stash_pending_key_push :: "byte list \<Rightarrow> envelope \<Rightarrow> verse_host \<Rightarrow> verse_host" where
  "stash_pending_key_push member env h =
     h\<lparr>vh_pending_key_pushes := (vh_pending_key_pushes h)(member \<mapsto> env)\<rparr>"

definition take_pending_key_push :: "byte list \<Rightarrow> verse_host \<Rightarrow> envelope option \<times> verse_host" where
  "take_pending_key_push member h =
     (vh_pending_key_pushes h member,
      h\<lparr>vh_pending_key_pushes := (vh_pending_key_pushes h)(member := None)\<rparr>)"

definition add_member :: "byte list \<Rightarrow> u64 \<Rightarrow> verse_host \<Rightarrow> verse_host" where
  "add_member side version h =
     h\<lparr>vh_members := insert side (vh_members h),
       vh_consented_versions := (vh_consented_versions h)(side \<mapsto> version)\<rparr>"

definition add_local_member :: "crypto \<Rightarrow> byte list \<Rightarrow> u64 \<Rightarrow> verse_host \<Rightarrow> (byte list \<times> byte list) \<times> verse_host" where
  "add_local_member C member_side issued_at h =
     (let h = add_member member_side (co_version (vh_contract h)) h;
          token = token_sign C (vh_verse_key h) (contract_hash C (vh_contract h)) member_side issued_at
      in ((token_to_wire token, vh_content_key h), h))"

definition is_member :: "byte list \<Rightarrow> verse_host \<Rightarrow> bool" where
  "is_member side h \<longleftrightarrow> side \<in> vh_members h"

definition rotate_content_key :: "byte list option \<Rightarrow> verse_host \<Rightarrow> byte list result \<times> verse_host" where
  "rotate_content_key rnd h = (case content_key_generate rnd of
     Inl e \<Rightarrow> (Inl e, h) | Inr key \<Rightarrow> (Inr key, h\<lparr>vh_content_key := key\<rparr>))"

definition amend_contract :: "contract_object \<Rightarrow> verse_host \<Rightarrow> verse_host" where
  "amend_contract new h = h\<lparr>vh_contract := new\<rparr>"

definition register_session :: "byte list \<Rightarrow> connection \<Rightarrow> verse_host \<Rightarrow> verse_host" where
  "register_session peer conn h = h\<lparr>vh_active_sessions := AList.update peer conn (vh_active_sessions h)\<rparr>"

definition unregister_session :: "byte list \<Rightarrow> verse_host \<Rightarrow> verse_host" where
  "unregister_session peer h = h\<lparr>vh_active_sessions := AList.delete peer (vh_active_sessions h)\<rparr>"

text \<open>The three removals of the leave and remove handlers, with the \<open>was_member\<close> flag.\<close>

definition drop_member :: "byte list \<Rightarrow> verse_host \<Rightarrow> bool \<times> verse_host" where
  "drop_member side h =
     (side \<in> vh_members h,
      h\<lparr>vh_members := vh_members h - {side},
        vh_consented_versions := (vh_consented_versions h)(side := None),
        vh_active_sessions := AList.delete side (vh_active_sessions h)\<rparr>)"

section \<open>The post log keeps one post per author and nonce\<close>

definition posts_of :: "post_store \<Rightarrow> byte list \<Rightarrow> byte list \<Rightarrow> stored_post list" where
  "posts_of s verse author = map_get (map_get s verse) author"

definition posts_inv :: "post_store \<Rightarrow> bool" where
  "posts_inv s \<longleftrightarrow> (\<forall>verse author. distinct (map (env_nonce \<circ> sp_envelope) (posts_of s verse author)))"

lemma map_get_update: "map_get (AList.update k v m) k' = (if k' = k then v else map_get m k')"
  by (simp add: map_get_def update_conv')

lemma map_get_delete: "map_get (AList.delete k m) k' = (if k' = k then [] else map_get m k')"
  by (simp add: map_get_def delete_conv')

lemma posts_of_insert:
  "posts_of (post_insert verse author env sealed now s) v a =
     (if v = verse \<and> a = author \<and> \<not> list_ex (\<lambda>p. env_nonce (sp_envelope p) = env_nonce env) (posts_of s v a)
      then posts_of s v a @ [\<lparr>sp_envelope = env, sp_sealed_payload = sealed, sp_stored_at = now\<rparr>]
      else posts_of s v a)"
  by (simp add: posts_of_def post_insert_def Let_def map_get_update)

lemma posts_of_retract:
  "posts_of (snd (retract_by_author verse author s)) v a = (if v = verse \<and> a = author then [] else posts_of s v a)"
proof (cases "map_of s verse")
  case None
  then show ?thesis by (simp add: retract_by_author_def posts_of_def map_get_def)
next
  case (Some b)
  then have "map_get s verse = b" by (simp add: map_get_def)
  then show ?thesis using Some by (simp add: retract_by_author_def posts_of_def map_get_update map_get_delete)
qed

lemma retract_count: "fst (retract_by_author verse author s) = length (posts_of s verse author)"
  by (simp add: retract_by_author_def posts_of_def map_get_def split: option.splits)

lemma posts_inv_insert: "posts_inv s \<Longrightarrow> posts_inv (post_insert verse author env sealed now s)"
  by (auto simp: posts_inv_def posts_of_insert list_ex_iff)

lemma posts_inv_retract: "posts_inv s \<Longrightarrow> posts_inv (snd (retract_by_author verse author s))"
  by (simp add: posts_inv_def posts_of_retract)

section \<open>Consent is recorded for members and only for them\<close>

definition host_inv :: "verse_host \<Rightarrow> bool" where
  "host_inv h \<longleftrightarrow> dom (vh_consented_versions h) = vh_members h \<and> posts_inv (vh_posts h)"

lemma host_inv_new: "host_inv (verse_host_new key contract content_key)"
  by (simp add: host_inv_def verse_host_new_def posts_inv_def posts_of_def map_get_def)

lemma host_inv_stash [simp]: "host_inv (stash_pending_key_push m e h) = host_inv h"
  by (simp add: host_inv_def stash_pending_key_push_def)

lemma host_inv_take [simp]: "host_inv (snd (take_pending_key_push m h)) = host_inv h"
  by (simp add: host_inv_def take_pending_key_push_def)

lemma host_inv_add: "host_inv h \<Longrightarrow> host_inv (add_member side v h)"
  by (auto simp: host_inv_def add_member_def)

lemma host_inv_drop: "host_inv h \<Longrightarrow> host_inv (snd (drop_member side h))"
  by (auto simp: host_inv_def drop_member_def)

lemma host_inv_rotate [simp]: "host_inv (snd (rotate_content_key rnd h)) = host_inv h"
  by (simp add: host_inv_def rotate_content_key_def split: sum.splits)

lemma host_inv_amend [simp]: "host_inv (amend_contract c h) = host_inv h"
  by (simp add: host_inv_def amend_contract_def)

lemma host_inv_sessions [simp]:
  "host_inv (register_session p c h) = host_inv h" "host_inv (unregister_session p h) = host_inv h"
  by (simp_all add: host_inv_def register_session_def unregister_session_def)

lemma host_inv_local: "host_inv h \<Longrightarrow> host_inv (snd (add_local_member C m t h))"
  by (simp add: add_local_member_def Let_def host_inv_add)

lemma host_inv_reconsent:
  "host_inv h \<Longrightarrow> side \<in> vh_members h \<Longrightarrow>
     host_inv (h\<lparr>vh_consented_versions := (vh_consented_versions h)(side \<mapsto> v)\<rparr>)"
  by (auto simp: host_inv_def)

end
