(* ===== verification/Replay.thy ===== *)
theory Replay
  imports Prelude "HOL-Library.While_Combinator"
begin

text \<open>
  The replay cache, \<open>sidevers-core/src/replay.rs\<close>: \<open>(from, nonce)\<close> pairs with the second
  they were first seen, a time to live that a hit does not refresh, a hard bound on the
  number of entries with eviction of the oldest, and an optional write-through journal,
  whose calls are recorded as a list of events.
\<close>

section \<open>State\<close>

type_synonym replay_key = "byte list \<times> byte list"
type_synonym replay_entries = "(replay_key \<times> u64) list"

datatype journal_event = Record replay_key u64 | Evict replay_key

record replay_cache =
  ttl :: u64
  max_entries :: nat
  entries :: replay_entries
  journal :: "journal_event list option"

definition DEFAULT_TTL_SECS :: u64 where "DEFAULT_TTL_SECS = 600"
definition DEFAULT_MAX_ENTRIES :: nat where "DEFAULT_MAX_ENTRIES = 16384"

definition cache_with_capacity :: "u64 \<Rightarrow> nat \<Rightarrow> replay_cache" where
  "cache_with_capacity t n = \<lparr>ttl = t, max_entries = max n 1, entries = [], journal = None\<rparr>"

definition cache_new :: replay_cache where
  "cache_new = cache_with_capacity DEFAULT_TTL_SECS DEFAULT_MAX_ENTRIES"

definition set_journal :: "journal_event list \<Rightarrow> replay_cache \<Rightarrow> replay_cache" where
  "set_journal log c = c\<lparr>journal := Some log\<rparr>"

definition journal_call :: "journal_event list \<Rightarrow> replay_cache \<Rightarrow> replay_cache" where
  "journal_call evs c = c\<lparr>journal := map_option (\<lambda>log. log @ evs) (journal c)\<rparr>"

section \<open>Operations\<close>

text \<open>\<open>min_by_key\<close> over the map's iteration order: the first entry with the least time.\<close>

fun oldest_entry :: "('k \<times> u64) list \<Rightarrow> ('k \<times> u64) option" where
  "oldest_entry [] = None"
| "oldest_entry (e # es) = (case oldest_entry es of
     None \<Rightarrow> Some e
   | Some e' \<Rightarrow> if snd e' < snd e then Some e' else Some e)"

definition find_oldest_in :: "('k \<times> u64) list \<Rightarrow> 'k option" where
  "find_oldest_in es = map_option fst (oldest_entry es)"

definition alive :: "u64 \<Rightarrow> u64 \<Rightarrow> u64 \<Rightarrow> bool" where
  "alive t now first_seen \<longleftrightarrow> saturating_sub now first_seen < t"

definition sweep :: "u64 \<Rightarrow> replay_cache \<Rightarrow> replay_cache" where
  "sweep now c =
     (let dead = filter (\<lambda>(k, t). \<not> alive (ttl c) now t) (entries c)
      in journal_call (map (\<lambda>(k, t). Evict k) dead)
           (c\<lparr>entries := filter (\<lambda>(k, t). alive (ttl c) now t) (entries c)\<rparr>))"

definition observe :: "u64 \<Rightarrow> byte list \<Rightarrow> byte list \<Rightarrow> replay_cache \<Rightarrow> bool \<times> replay_cache" where
  "observe now from nonce c =
     (let c = sweep now c; key = (from, nonce) in
      case map_of (entries c) key of
        Some _ \<Rightarrow> (True, c)
      | None \<Rightarrow>
          let c = (if max_entries c \<le> length (entries c) then
                     (case find_oldest_in (entries c) of
                        Some oldest \<Rightarrow>
                          journal_call [Evict oldest] (c\<lparr>entries := AList.delete oldest (entries c)\<rparr>)
                      | None \<Rightarrow> c)
                   else c)
          in (False, journal_call [Record key now] (c\<lparr>entries := AList.update key now (entries c)\<rparr>)))"

lemma oldest_entry_in: "oldest_entry es = Some e \<Longrightarrow> e \<in> set es"
  by (induction es arbitrary: e) (auto split: option.splits if_splits)

lemma find_oldest_in_keys: "find_oldest_in es = Some k \<Longrightarrow> k \<in> fst ` set es"
  by (force simp: find_oldest_in_def dest: oldest_entry_in)

lemma delete_shorter: "k \<in> fst ` set es \<Longrightarrow> length (AList.delete k es) < length es"
proof (induction es)
  case Nil
  then show ?case by simp
next
  case (Cons e es)
  have "length (AList.delete k es) \<le> length es" by (rule length_delete_le)
  then show ?case using Cons by (cases e) auto
qed

function trim :: "nat \<Rightarrow> replay_entries \<Rightarrow> replay_entries" where
  "trim m es =
     (if m < length es then
        (case find_oldest_in es of Some oldest \<Rightarrow> trim m (AList.delete oldest es) | None \<Rightarrow> es)
      else es)"
  by auto
termination
  by (relation "measure (\<lambda>(m, es). length es)") (auto intro: delete_shorter dest: find_oldest_in_keys)

declare trim.simps [simp del]

definition preload :: "u64 \<Rightarrow> (byte list \<times> byte list \<times> u64) list \<Rightarrow> replay_cache \<Rightarrow> replay_cache" where
  "preload now items c =
     (let es = fold (\<lambda>(from, nonce, first_seen) es.
                 if ttl c \<le> saturating_sub now first_seen then es
                 else AList.update (from, nonce) first_seen es) items (entries c)
      in c\<lparr>entries := trim (max_entries c) es\<rparr>)"

section \<open>The invariant\<close>

definition cache_inv :: "replay_cache \<Rightarrow> bool" where
  "cache_inv c \<longleftrightarrow> wf_map (entries c) \<and> length (entries c) \<le> max_entries c \<and> 1 \<le> max_entries c"

lemma journal_call_simps [simp]:
  "ttl (journal_call evs c) = ttl c" "max_entries (journal_call evs c) = max_entries c"
  "entries (journal_call evs c) = entries c"
  by (simp_all add: journal_call_def)

lemma sweep_simps [simp]:
  "ttl (sweep now c) = ttl c" "max_entries (sweep now c) = max_entries c"
  "entries (sweep now c) = filter (\<lambda>(k, t). alive (ttl c) now t) (entries c)"
  by (simp_all add: sweep_def Let_def)

lemma cache_inv_new: "cache_inv (cache_with_capacity t n)"
  by (simp add: cache_inv_def cache_with_capacity_def)

lemma cache_inv_sweep: "cache_inv c \<Longrightarrow> cache_inv (sweep now c)"
  by (auto simp: cache_inv_def intro: order_trans [OF length_filter_le])

lemma oldest_entry_None [simp]: "oldest_entry es = None \<longleftrightarrow> es = []"
  by (cases es) (auto split: option.splits)

lemma oldest_entry_le: "oldest_entry es = Some e \<Longrightarrow> x \<in> set es \<Longrightarrow> snd e \<le> snd x"
proof (induction es arbitrary: e x)
  case Nil
  then show ?case by simp
next
  case (Cons a es)
  show ?case
  proof (cases "oldest_entry es")
    case None
    then show ?thesis using Cons.prems by simp
  next
    case (Some m)
    have m: "snd m \<le> snd y" if "y \<in> set es" for y using Cons.IH [OF Some that] .
    show ?thesis
    proof (cases "snd m < snd a")
      case True
      then show ?thesis using Cons.prems Some m [of x] by auto
    next
      case False
      then show ?thesis using Cons.prems Some m [of x] by (auto intro: order_trans simp: not_less split: if_splits)
    qed
  qed
qed

lemma find_oldest_in_None [simp]: "find_oldest_in es = None \<longleftrightarrow> es = []"
  by (simp add: find_oldest_in_def)

definition make_room :: "nat \<Rightarrow> replay_entries \<Rightarrow> replay_entries" where
  "make_room m es = (if m \<le> length es then
     (case find_oldest_in es of Some oldest \<Rightarrow> AList.delete oldest es | None \<Rightarrow> es) else es)"

lemma observe_entries:
  "observe now from nonce c = (seen, c') \<Longrightarrow>
     seen = (map_of (entries (sweep now c)) (from, nonce) \<noteq> None) \<and> ttl c' = ttl c \<and>
     max_entries c' = max_entries c \<and>
     entries c' = (if seen then entries (sweep now c)
       else AList.update (from, nonce) now (make_room (max_entries c) (entries (sweep now c))))"
  by (auto simp: observe_def Let_def make_room_def split: option.splits if_splits)

lemma make_room_wf: "wf_map es \<Longrightarrow> wf_map (make_room m es)"
  by (auto simp: make_room_def split: option.splits)

lemma make_room_length: "1 \<le> m \<Longrightarrow> length es \<le> m \<Longrightarrow> length (make_room m es) < m"
  by (auto simp: make_room_def split: option.splits dest!: find_oldest_in_keys delete_shorter)

lemma cache_inv_observe:
  assumes "cache_inv c" "observe now from nonce c = (seen, c')"
  shows "cache_inv c'"
proof -
  note e = observe_entries [OF assms(2)]
  have s: "cache_inv (sweep now c)" using assms(1) by (rule cache_inv_sweep)
  then have "length (AList.update (from, nonce) now (make_room (max_entries c) (entries (sweep now c)))) \<le> max_entries c"
    using make_room_length [of "max_entries c" "entries (sweep now c)"]
      length_update_le [of "(from, nonce)" now "make_room (max_entries c) (entries (sweep now c))"]
    unfolding cache_inv_def by simp
  then show ?thesis using e s by (auto simp: cache_inv_def intro: make_room_wf wf_map_update simp del: sweep_simps(3))
qed

lemma trim_inv: "wf_map es \<Longrightarrow> wf_map (trim m es) \<and> (length (trim m es) \<le> m)"
proof (induction m es rule: trim.induct)
  case (1 m es)
  show ?case
  proof (cases "m < length es")
    case True
    then obtain k where k: "find_oldest_in es = Some k"
      by (cases "find_oldest_in es") auto
    then show ?thesis using 1 True by (subst (1 2) trim.simps) simp
  next
    case False
    then show ?thesis using 1(2) by (subst (1 2) trim.simps) simp
  qed
qed

lemma cache_inv_preload: "cache_inv c \<Longrightarrow> cache_inv (preload now items c)"
proof -
  assume c: "cache_inv c"
  have "wf_map es \<Longrightarrow> wf_map (fold (\<lambda>(from, nonce, first_seen) es.
      if ttl c \<le> saturating_sub now first_seen then es
      else AList.update (from, nonce) first_seen es) items es)" for es
    by (induction items arbitrary: es) (auto split: prod.splits)
  then show ?thesis using c trim_inv by (simp add: cache_inv_def preload_def Let_def)
qed

section \<open>Detection\<close>

text \<open>A sequence of observations, each with its time; the results are the replay flags.\<close>

fun observe_all :: "(u64 \<times> byte list \<times> byte list) list \<Rightarrow> replay_cache \<Rightarrow> bool list \<times> replay_cache" where
  "observe_all [] c = ([], c)"
| "observe_all ((now, from, nonce) # ops) c =
     (let (seen, c) = observe now from nonce c; (flags, c) = observe_all ops c in (seen # flags, c))"

lemma cache_inv_observe_all: "cache_inv c \<Longrightarrow> observe_all ops c = (flags, c') \<Longrightarrow> cache_inv c'"
proof (induction ops arbitrary: c flags)
  case Nil
  then show ?case by simp
next
  case (Cons op ops)
  obtain now fr nonce where op: "op = (now, fr, nonce)" by (cases op)
  obtain seen c1 where o: "observe now fr nonce c = (seen, c1)" by fastforce
  obtain fl where "observe_all ops c1 = (fl, c')" using Cons.prems(2) op o by (cases "observe_all ops c1") auto
  then show ?case using Cons.IH cache_inv_observe [OF Cons.prems(1) o] by blast
qed

text \<open>How many entries are at least as recent as a given second.\<close>

definition recent :: "u64 \<Rightarrow> replay_cache \<Rightarrow> nat" where
  "recent t0 c = length (filter (\<lambda>e. t0 \<le> snd e) (entries c))"

lemma filter_update_length:
  "length (filter P (AList.update k v es)) \<le> Suc (length (filter P es))"
  by (induction es) auto

lemma filter_delete_length: "length (filter P (AList.delete k es)) \<le> length (filter P es)"
  by (induction es) auto

lemma filter_conj_length: "length (filter (\<lambda>x. P x \<and> Q x) xs) \<le> length (filter Q xs)"
  by (induction xs) auto

lemma filter_make_room_length: "length (filter P (make_room m es)) \<le> length (filter P es)"
  by (auto simp: make_room_def filter_delete_length split: option.splits)

lemma recent_sweep: "length (filter (\<lambda>e. t0 \<le> snd e) (entries (sweep now c))) \<le> recent t0 c"
  unfolding recent_def sweep_simps filter_filter by (rule filter_conj_length)

lemma recent_observe:
  assumes "observe now from nonce c = (seen, c')"
  shows "recent t0 c' \<le> Suc (recent t0 c)"
proof (cases seen)
  case True
  then show ?thesis
    using observe_entries [OF assms] recent_sweep [of t0 now c] by (simp add: recent_def [of t0 c'])
next
  case False
  let ?r = "make_room (max_entries c) (entries (sweep now c))"
  have "entries c' = AList.update (from, nonce) now ?r" using observe_entries [OF assms] False by simp
  then have "recent t0 c' \<le> Suc (length (filter (\<lambda>e. t0 \<le> snd e) ?r))"
    unfolding recent_def [of t0 c'] by (simp only: filter_update_length)
  then show ?thesis
    using filter_make_room_length [of "\<lambda>e. t0 \<le> snd e" "max_entries c" "entries (sweep now c)"]
      recent_sweep [of t0 now c] by linarith
qed

lemma make_room_keeps:
  assumes "wf_map es" "map_of es k = Some t0" "length (filter (\<lambda>e. t0 \<le> snd e) es) < m"
  shows "map_of (make_room m es) k = Some t0"
proof (cases "m \<le> length es")
  case False
  then show ?thesis using assms by (simp add: make_room_def)
next
  case True
  obtain e where e: "oldest_entry es = Some e"
    using assms(2) by (cases "oldest_entry es") auto
  have "fst e \<noteq> k"
  proof
    assume "fst e = k"
    then have "snd e = t0"
      using oldest_entry_in [OF e] assms(1,2) by (cases e) (simp add: wf_map_in_set)
    then have "filter (\<lambda>e. t0 \<le> snd e) es = es"
      using oldest_entry_le [OF e] by (auto simp: filter_id_conv)
    then show False using assms(3) True by simp
  qed
  then show ?thesis using assms(2) True e by (simp add: make_room_def find_oldest_in_def delete_conv)
qed

lemma observe_keeps:
  assumes "cache_inv c" "map_of (entries c) k = Some t0" "alive (ttl c) now t0" "recent t0 c < max_entries c"
    and "observe now from nonce c = (seen, c')"
  shows "map_of (entries c') k = Some t0" and "(from, nonce) = k \<Longrightarrow> seen"
proof -
  let ?es = "entries (sweep now c)"
  have wf: "wf_map ?es" "wf_map (entries c)" using assms(1) by (simp_all add: cache_inv_def)
  then have k: "map_of ?es k = Some t0" using assms(2,3) by (simp add: map_of_filter_Some)
  have m: "map_of (make_room (max_entries c) ?es) k = Some t0"
    using assms(4) recent_sweep [of t0 now c] by (intro make_room_keeps [OF wf(1) k]) simp
  show "(from, nonce) = k \<Longrightarrow> seen" using observe_entries [OF assms(5)] k by auto
  then show "map_of (entries c') k = Some t0"
    using observe_entries [OF assms(5)] k m by (auto simp: update_conv simp del: sweep_simps(3))
qed

lemma observe_all_keeps:
  assumes "cache_inv c" "map_of (entries c) k = Some t0" "\<forall>op \<in> set ops. alive (ttl c) (fst op) t0"
    and "recent t0 c + length ops \<le> max_entries c" "observe_all ops c = (flags, c')"
  shows "map_of (entries c') k = Some t0 \<and> ttl c' = ttl c"
  using assms
proof (induction ops arbitrary: c flags)
  case Nil
  then show ?case by simp
next
  case (Cons op ops)
  obtain now fr nonce where op: "op = (now, fr, nonce)" by (cases op)
  obtain seen c1 where o: "observe now fr nonce c = (seen, c1)" by fastforce
  obtain fl where f: "observe_all ops c1 = (fl, c')" using Cons.prems(5) op o by (cases "observe_all ops c1") auto
  have 1: "alive (ttl c) now t0" "recent t0 c < max_entries c" using Cons.prems(3,4) op by auto
  note e = observe_entries [OF o]
  show ?case
    using Cons.IH [OF cache_inv_observe [OF Cons.prems(1) o]
        observe_keeps(1) [OF Cons.prems(1,2) 1 o] _ _ f] Cons.prems(3,4) recent_observe [OF o, of t0] e
    by auto
qed

lemma observe_all_policy: "observe_all ops c = (flags, c') \<Longrightarrow> max_entries c' = max_entries c \<and> ttl c' = ttl c"
proof (induction ops arbitrary: c flags)
  case Nil
  then show ?case by simp
next
  case (Cons op ops)
  obtain now fr nonce where op: "op = (now, fr, nonce)" by (cases op)
  obtain seen c1 where o: "observe now fr nonce c = (seen, c1)" by fastforce
  obtain fl where "observe_all ops c1 = (fl, c')" using Cons.prems op o by (cases "observe_all ops c1") auto
  then show ?case using Cons.IH observe_entries [OF o] by simp
qed

lemma recent_observe_all: "observe_all ops c = (flags, c') \<Longrightarrow> recent t0 c' \<le> recent t0 c + length ops"
proof (induction ops arbitrary: c flags)
  case Nil
  then show ?case by simp
next
  case (Cons op ops)
  obtain now fr nonce where op: "op = (now, fr, nonce)" by (cases op)
  obtain seen c1 where o: "observe now fr nonce c = (seen, c1)" by fastforce
  obtain fl where "observe_all ops c1 = (fl, c')" using Cons.prems op o by (cases "observe_all ops c1") auto
  then show ?case using Cons.IH [of c1 fl] recent_observe [OF o, of t0] by simp
qed

section \<open>The journal mirrors the cache\<close>

text \<open>The state a journal stands for: replay its events into an empty store.\<close>

fun apply_event :: "journal_event \<Rightarrow> (replay_key \<rightharpoonup> u64) \<Rightarrow> (replay_key \<rightharpoonup> u64)" where
  "apply_event (Record k t) m = m(k \<mapsto> t)"
| "apply_event (Evict k) m = m(k := None)"

definition stored :: "journal_event list \<Rightarrow> (replay_key \<rightharpoonup> u64)" where
  "stored log = fold apply_event log Map.empty"

definition mirror :: "replay_cache \<Rightarrow> bool" where
  "mirror c \<longleftrightarrow> (case journal c of None \<Rightarrow> True | Some log \<Rightarrow> stored log = map_of (entries c))"

lemma fold_Evict:
  "fold apply_event (map (\<lambda>(k, t). Evict k) es) m = (\<lambda>k. if k \<in> fst ` set es then None else m k)"
  by (induction es arbitrary: m) (auto simp: fun_eq_iff)

lemma stored_append: "stored (log @ evs) = fold apply_event evs (stored log)"
  by (simp add: stored_def)

lemma sweep_map_of:
  assumes "wf_map es"
  shows "(\<lambda>k. if k \<in> fst ` set (filter (\<lambda>(k, t). \<not> P t) es) then None else map_of es k) =
    map_of (filter (\<lambda>(k, t). P t) es)" (is "?l = ?r")
proof
  fix k
  show "?l k = ?r k"
  proof (cases "map_of es k")
    case None
    then have "map_of (filter (\<lambda>(k, t). P t) es) k = None" using assms by (simp add: map_of_filter_None)
    then show ?thesis using None by auto
  next
    case (Some t)
    have d: "k \<in> fst ` set (filter (\<lambda>(k, t). \<not> P t) es) \<longleftrightarrow> \<not> P t"
      using Some assms by (force simp: wf_map_in_set)
    show ?thesis
    proof (cases "P t")
      case True
      then have "map_of (filter (\<lambda>(k, t). P t) es) k = Some t" using Some assms by (simp add: map_of_filter_Some)
      then show ?thesis using True d Some by simp
    next
      case False
      then have "map_of (filter (\<lambda>(k, t). P t) es) k = None" using Some assms by (simp add: map_of_filter_None)
      then show ?thesis using False d by simp
    qed
  qed
qed

lemma mirror_journal_call:
  assumes "\<And>log. journal c = Some log \<Longrightarrow> fold apply_event evs (stored log) = map_of (entries c)"
  shows "mirror (journal_call evs c)"
  using assms by (cases "journal c") (simp_all add: mirror_def journal_call_def stored_append)

lemma mirror_stored: "mirror c \<Longrightarrow> journal c = Some log \<Longrightarrow> stored log = map_of (entries c)"
  by (simp add: mirror_def)

lemma mirror_sweep:
  assumes "cache_inv c" "mirror c"
  shows "mirror (sweep now c)"
  unfolding sweep_def Let_def
proof (rule mirror_journal_call)
  fix log
  assume "journal (c\<lparr>entries := filter (\<lambda>(k, t). alive (ttl c) now t) (entries c)\<rparr>) = Some log"
  then have "stored log = map_of (entries c)" using assms(2) by (simp add: mirror_stored)
  then show "fold apply_event (map (\<lambda>(k, t). Evict k) (filter (\<lambda>(k, t). \<not> alive (ttl c) now t) (entries c)))
      (stored log) = map_of (entries (c\<lparr>entries := filter (\<lambda>(k, t). alive (ttl c) now t) (entries c)\<rparr>))"
    using sweep_map_of [of "entries c" "alive (ttl c) now"] assms(1) by (simp add: fold_Evict cache_inv_def)
qed

lemma mirror_evict:
  "mirror c \<Longrightarrow> mirror (journal_call [Evict k] (c\<lparr>entries := AList.delete k (entries c)\<rparr>))"
  by (rule mirror_journal_call) (simp add: mirror_stored delete_conv')

lemma mirror_record:
  "mirror c \<Longrightarrow> mirror (journal_call [Record k t] (c\<lparr>entries := AList.update k t (entries c)\<rparr>))"
  by (rule mirror_journal_call) (simp add: mirror_stored update_conv')

lemma mirror_observe:
  assumes "cache_inv c" "mirror c" "observe now from nonce c = (seen, c')"
  shows "mirror c'"
  using assms(3) mirror_sweep [OF assms(1,2), of now]
  by (auto simp: observe_def Let_def intro!: mirror_evict mirror_record
      simp del: sweep_simps journal_call_simps find_oldest_in_None split: option.splits if_splits)

lemma mirror_observe_all:
  "cache_inv c \<Longrightarrow> mirror c \<Longrightarrow> observe_all ops c = (flags, c') \<Longrightarrow> mirror c'"
proof (induction ops arbitrary: c flags)
  case Nil
  then show ?case by simp
next
  case (Cons op ops)
  obtain now fr nonce where op: "op = (now, fr, nonce)" by (cases op)
  obtain seen c1 where o: "observe now fr nonce c = (seen, c1)" by fastforce
  obtain fl where "observe_all ops c1 = (fl, c')" using Cons.prems(3) op o by (cases "observe_all ops c1") auto
  then show ?case
    using Cons.IH cache_inv_observe [OF Cons.prems(1) o] mirror_observe [OF Cons.prems(1,2) o] by blast
qed

section \<open>Properties\<close>

text \<open>The cache never holds more than its bound, whatever is preloaded and observed.\<close>
lemma cache_bounded:
  "length (entries (snd (observe_all ops (preload now items (cache_with_capacity t n))))) \<le> max n 1"
proof -
  let ?c = "preload now items (cache_with_capacity t n)"
  have inv: "cache_inv ?c" by (rule cache_inv_preload [OF cache_inv_new])
  obtain flags c where r: "observe_all ops ?c = (flags, c)" by fastforce
  have "max_entries c = max n 1"
    using observe_all_policy [OF r] by (simp add: preload_def Let_def cache_with_capacity_def)
  then show ?thesis using cache_inv_observe_all [OF inv r] r by (simp add: cache_inv_def)
qed

text \<open>A hit does not refresh the time to live: an entry that is in the cache before and after
  an observation keeps the second it was first seen, unless it had expired.\<close>
lemma hit_keeps_first_seen:
  assumes "cache_inv c" "map_of (entries c) k = Some t" "observe now from nonce c = (seen, c')"
    "map_of (entries c') k = Some t'" "unat now - unat t < unat (ttl c)"
    "recent t c < max_entries c"
  shows "t' = t"
  using observe_keeps(1) [OF assms(1,2) _ assms(6,3)] assms(4,5)
  by (simp add: alive_def word_less_nat_alt)

lemma hit_keeps_first_seen_witness:
  "map_of (entries (snd (observe 50 [1] [2] \<lparr>ttl = 600, max_entries = 4, entries = [(([1], [2]), 7)], journal = None\<rparr>)))
     ([1], [2]) = Some 7"
proof -
  let ?c = "\<lparr>ttl = 600, max_entries = 4, entries = [(([1], [2]), 7)], journal = None\<rparr>"
  have o: "observe 50 [1] [2] ?c = (True, ?c)"
    by (simp add: observe_def sweep_def Let_def journal_call_def alive_def saturating_sub_def)
  have "(7 :: u64) = t'" if "map_of (entries ?c) ([1], [2]) = Some t'" for t'
    using hit_keeps_first_seen [OF _ _ o that, of 7] that by (simp add: cache_inv_def wf_map_def recent_def)
  then show ?thesis using o by simp
qed

text \<open>A pair observed at \<open>t0\<close> is reported as a replay at \<open>t1\<close> as long as the time to live has not
  passed at any observation in between and fewer observations came than the cache has room
  for; which entries an eviction picks among equally old ones does not matter.\<close>
lemma replay_detected:
  assumes "cache_inv c" "observe t0 from nonce c = (False, c1)" "observe_all ops c1 = (flags, c2)"
    "\<forall>op \<in> set ops. unat (fst op) - unat t0 < unat (ttl c)" "unat t1 - unat t0 < unat (ttl c)"
    "recent t0 c1 + length ops < max_entries c"
  shows "fst (observe t1 from nonce c2)"
proof -
  have k: "map_of (entries c1) (from, nonce) = Some t0" "ttl c1 = ttl c" "max_entries c1 = max_entries c"
    using observe_entries [OF assms(2)] by (simp_all add: update_conv')
  have inv: "cache_inv c1" by (rule cache_inv_observe [OF assms(1,2)])
  have a: "\<forall>op \<in> set ops. alive (ttl c1) (fst op) t0" "alive (ttl c1) t1 t0"
    using assms(4,5) k(2) by (simp_all add: alive_def word_less_nat_alt)
  have le: "recent t0 c1 + length ops \<le> max_entries c1" using assms(6) k(3) by simp
  note keep = observe_all_keeps [OF inv k(1) a(1) le assms(3)]
  have "recent t0 c2 < max_entries c2"
    using recent_observe_all [OF assms(3), of t0] observe_all_policy [OF assms(3)] assms(6) k(3) by simp
  then show ?thesis
    using observe_keeps(2) [OF cache_inv_observe_all [OF inv assms(3)] conjunct1 [OF keep], of t1 "from" nonce] a(2) keep
    by (metis prod.collapse)
qed

lemma replay_detected_witness:
  "fst (observe 105 [1] [2] (snd (observe 100 [1] [2] cache_new)))"
proof -
  define c1 where "c1 = snd (observe 100 [1] [2] cache_new)"
  have o: "observe 100 [1] [2] cache_new = (False, c1)"
    by (simp add: c1_def observe_def sweep_def Let_def cache_new_def cache_with_capacity_def prod_eq_iff)
  have "recent 100 c1 = 1"
    using o by (auto simp: observe_def sweep_def Let_def cache_new_def cache_with_capacity_def recent_def
        DEFAULT_MAX_ENTRIES_def)
  then show ?thesis
    using replay_detected [of cache_new 100 "[1]" "[2]" c1 "[]" "[]" c1 105] o c1_def
    by (simp add: cache_new_def cache_inv_new) (simp add: cache_with_capacity_def DEFAULT_TTL_SECS_def DEFAULT_MAX_ENTRIES_def)
qed

text \<open>The journal mirrors the cache: replaying the recorded events into an empty store gives
  exactly the entries the cache holds, after any sequence of observations.\<close>
lemma journal_mirrors_cache:
  assumes "observe_all ops (set_journal [] (cache_with_capacity t n)) = (flags, c)" "journal c = Some log"
  shows "stored log = map_of (entries c)"
proof -
  have "mirror c"
    by (rule mirror_observe_all [OF _ _ assms(1)])
      (simp_all add: cache_inv_def set_journal_def cache_with_capacity_def mirror_def stored_def)
  then show ?thesis using assms(2) by (rule mirror_stored)
qed

lemma journal_mirrors_cache_witness:
  "stored [Record ([1], [2]) 5] = map_of (entries (snd (observe_all [(5, [1], [2])] (set_journal [] (cache_with_capacity 600 4)))))"
  by (rule journal_mirrors_cache [of "[(5, [1], [2])]" 600 4 "[False]"])
    (simp_all add: observe_def sweep_def Let_def set_journal_def cache_with_capacity_def journal_call_def)

section \<open>The loop of preload\<close>

text \<open>The loop as the code has it, with its test and its body.\<close>

definition trim_body :: "replay_entries \<Rightarrow> replay_entries" where
  "trim_body es = (case find_oldest_in es of Some oldest \<Rightarrow> AList.delete oldest es | None \<Rightarrow> es)"

lemma trim_is_while: "while_option (\<lambda>es. m < length es) trim_body es = Some (trim m es)"
proof (induction m es rule: trim.induct)
  case (1 m es)
  show ?case
  proof (cases "m < length es")
    case True
    then obtain k where k: "find_oldest_in es = Some k" by (cases "find_oldest_in es") auto
    then have "trim_body es = AList.delete k es" by (simp add: trim_body_def)
    then show ?thesis using 1 [OF True k] True k
      by (subst while_option_unfold, subst trim.simps) simp
  next
    case False
    then show ?thesis by (subst while_option_unfold, subst trim.simps) simp
  qed
qed

lemma set_delete: "set (AList.delete k es) = {e \<in> set es. fst e \<noteq> k}"
  by (auto simp: AList.delete_eq)

lemma delete_wf_length: "wf_map es \<Longrightarrow> k \<in> fst ` set es \<Longrightarrow> Suc (length (AList.delete k es)) = length es"
proof (induction es)
  case (Cons e es)
  show ?case
  proof (cases "fst e = k")
    case True
    then have "AList.delete k (e # es) = AList.delete k es" by (cases e) simp
    then show ?thesis using Cons.prems(1) True by (simp add: wf_map_def AList.delete_id dom_map_of_conv_image_fst)
  next
    case False
    then have "AList.delete k (e # es) = e # AList.delete k es" by (cases e) simp
    then show ?thesis using Cons False by (simp add: wf_map_def)
  qed
qed simp

lemma trim_keeps_newest:
  "wf_map es \<Longrightarrow> length (trim m es) = min m (length es) \<and> set (trim m es) \<subseteq> set es \<and>
     (\<forall>e \<in> set es - set (trim m es). \<forall>e' \<in> set (trim m es). snd e \<le> snd e')"
proof (induction m es rule: trim.induct)
  case (1 m es)
  show ?case
  proof (cases "m < length es")
    case True
    then obtain k t where k: "oldest_entry es = Some (k, t)"
      by (cases "oldest_entry es") auto
    let ?es = "AList.delete k es"
    have f: "find_oldest_in es = Some k" by (simp add: find_oldest_in_def k)
    have len: "Suc (length ?es) = length es"
      using delete_wf_length [OF 1(2) find_oldest_in_keys [OF f]] .
    have sub: "set ?es \<subseteq> set es" by (auto simp: set_delete)
    have out: "e = (k, t)" if "e \<in> set es" "e \<notin> set ?es" for e
    proof -
      have "fst e = k" using that unfolding set_delete by simp
      then show ?thesis
        using that(1) oldest_entry_in [OF k] eq_key_imp_eq_value [OF 1(2) [unfolded wf_map_def], of k "snd e" t] by (metis prod.collapse)
    qed
    have ih: "length (trim m ?es) = min m (length ?es) \<and> set (trim m ?es) \<subseteq> set ?es \<and>
        (\<forall>e \<in> set ?es - set (trim m ?es). \<forall>e' \<in> set (trim m ?es). snd e \<le> snd e')"
      using 1(1) [OF True f] 1(2) by simp
    have t: "trim m es = trim m ?es" using True f by (subst trim.simps) simp
    have "snd e \<le> snd e'" if "e \<in> set es - set (trim m ?es)" "e' \<in> set (trim m ?es)" for e e'
    proof (cases "e \<in> set ?es")
      case True
      then show ?thesis using ih that by auto
    next
      case False
      then have "e = (k, t)" using out that(1) by blast
      moreover have "e' \<in> set es" using that(2) ih sub by blast
      ultimately show ?thesis using oldest_entry_le [OF k, of e'] by simp
    qed
    then show ?thesis using ih sub len True unfolding t by auto
  next
    case False
    then have "trim m es = es" by (subst trim.simps) simp
    then show ?thesis using False by auto
  qed
qed

text \<open>C37: The trimming loop at the end of preload ends, whatever was loaded: run as a while loop it
  returns, with exactly the bound of entries left when there were more, all of them loaded ones,
  and none that it dropped was first seen later than one that it kept.\<close>

theorem preload_trims_to_newest:
  assumes "wf_map es"
  shows "\<exists>kept. while_option (\<lambda>es. m < length es) trim_body es = Some kept \<and> kept = trim m es \<and>
    length kept = min m (length es) \<and> set kept \<subseteq> set es \<and>
    (\<forall>e \<in> set es - set kept. \<forall>e' \<in> set kept. snd e \<le> snd e')"
  using trim_keeps_newest [OF assms] trim_is_while by blast

theorem preload_trims_to_newest_witness:
  "\<exists>kept. while_option (\<lambda>es. 2 < length es) trim_body [(([1], [1]), 30), (([2], [1]), 10), (([1], [2]), 20)] = Some kept \<and> length kept = 2"
  using preload_trims_to_newest [of "[(([1], [1]), 30), (([2], [1]), 10), (([1], [2]), 20)]" 2] by (auto simp: wf_map_def)

end
