(* ===== verification/Reputation.thy ===== *)
theory Reputation
  imports Prelude
begin

text \<open>
  Per-peer reputation and the per-address sybil tracker, \<open>sidevers-net/src/reputation.rs\<close>.
  The token count is an \<open>f64\<close> in the source; it starts at a \<open>u32\<close>, decreases by one only
  when at least one, and grows by a product of two integers capped by the capacity, so it
  is always an integer below \<open>2 ^ 32\<close> and a \<open>nat\<close> here: where the product is too large to be
  exact it exceeds the capacity, which the minimum then takes.
\<close>

section \<open>Reputation\<close>

record peer_reputation =
  envelopes_seen :: u32
  sig_failures :: u32
  malformed_payloads :: u32
  rate_limit_hits :: u32
  last_seen_at :: u64
  last_misbehavior_at :: "u64 option"
  tokens :: nat
  last_refill_at :: u64
  refused :: bool

record reputation_policy =
  bucket_capacity :: u32
  refill_per_sec :: u32
  max_sig_failures :: u32
  max_malformed :: u32

definition default_policy :: reputation_policy where
  "default_policy = \<lparr>bucket_capacity = 100, refill_per_sec = 10, max_sig_failures = 10, max_malformed = 25\<rparr>"

record reputation_table =
  peers :: "(byte list \<times> peer_reputation) list"
  policy :: reputation_policy

definition fresh_rep :: "u64 \<Rightarrow> u32 \<Rightarrow> peer_reputation" where
  "fresh_rep now capacity = \<lparr>envelopes_seen = 0, sig_failures = 0, malformed_payloads = 0,
     rate_limit_hits = 0, last_seen_at = now, last_misbehavior_at = None, tokens = unat capacity,
     last_refill_at = now, refused = False\<rparr>"

definition reputation_new :: "reputation_policy \<Rightarrow> reputation_table" where
  "reputation_new p = \<lparr>peers = [], policy = p\<rparr>"

text \<open>\<open>entry(peer).or_insert_with(fresh)\<close> and the store of the updated entry.\<close>

definition entry_or_fresh :: "byte list \<Rightarrow> u64 \<Rightarrow> reputation_table \<Rightarrow> peer_reputation" where
  "entry_or_fresh peer now t = (case map_of (peers t) peer of
     Some rep \<Rightarrow> rep | None \<Rightarrow> fresh_rep now (bucket_capacity (policy t)))"

definition put_rep :: "byte list \<Rightarrow> peer_reputation \<Rightarrow> reputation_table \<Rightarrow> reputation_table" where
  "put_rep peer rep t = t\<lparr>peers := AList.update peer rep (peers t)\<rparr>"

definition refill :: "reputation_policy \<Rightarrow> u64 \<Rightarrow> peer_reputation \<Rightarrow> peer_reputation" where
  "refill p now rep =
     (if last_refill_at rep < now then
        rep\<lparr>tokens := min (tokens rep + unat (now - last_refill_at rep) * unat (refill_per_sec p))
                        (unat (bucket_capacity p)),
            last_refill_at := now\<rparr>
      else rep)"

definition observe_envelope :: "byte list \<Rightarrow> u64 \<Rightarrow> reputation_table \<Rightarrow> bool \<times> reputation_table" where
  "observe_envelope peer now t =
     (let rep = entry_or_fresh peer now t;
          rep = rep\<lparr>envelopes_seen := saturating_incr (envelopes_seen rep), last_seen_at := now\<rparr>
      in if refused rep then (False, put_rep peer rep t)
         else let rep = refill (policy t) now rep in
           if 1 \<le> tokens rep then (True, put_rep peer (rep\<lparr>tokens := tokens rep - 1\<rparr>) t)
           else (False, put_rep peer (rep\<lparr>rate_limit_hits := saturating_incr (rate_limit_hits rep)\<rparr>) t))"

definition record_sig_failure :: "byte list \<Rightarrow> u64 \<Rightarrow> reputation_table \<Rightarrow> bool \<times> reputation_table" where
  "record_sig_failure peer now t =
     (let rep = entry_or_fresh peer now t;
          rep = rep\<lparr>sig_failures := saturating_incr (sig_failures rep), last_misbehavior_at := Some now\<rparr>;
          rep = (if max_sig_failures (policy t) \<le> sig_failures rep then rep\<lparr>refused := True\<rparr> else rep)
      in (refused rep, put_rep peer rep t))"

definition record_malformed :: "byte list \<Rightarrow> u64 \<Rightarrow> reputation_table \<Rightarrow> bool \<times> reputation_table" where
  "record_malformed peer now t =
     (let rep = entry_or_fresh peer now t;
          rep = rep\<lparr>malformed_payloads := saturating_incr (malformed_payloads rep), last_misbehavior_at := Some now\<rparr>;
          rep = (if max_malformed (policy t) \<le> malformed_payloads rep then rep\<lparr>refused := True\<rparr> else rep)
      in (refused rep, put_rep peer rep t))"

definition refuse :: "byte list \<Rightarrow> u64 \<Rightarrow> reputation_table \<Rightarrow> reputation_table" where
  "refuse peer now t = put_rep peer ((entry_or_fresh peer now t)\<lparr>refused := True\<rparr>) t"

definition reinstate :: "byte list \<Rightarrow> reputation_table \<Rightarrow> reputation_table" where
  "reinstate peer t = (case map_of (peers t) peer of
     None \<Rightarrow> t
   | Some rep \<Rightarrow> put_rep peer (rep\<lparr>refused := False, sig_failures := 0, malformed_payloads := 0,
       last_misbehavior_at := None\<rparr>) t)"

definition is_refused :: "byte list \<Rightarrow> reputation_table \<Rightarrow> bool" where
  "is_refused peer t = (case map_of (peers t) peer of Some rep \<Rightarrow> refused rep | None \<Rightarrow> False)"

section \<open>The sybil tracker\<close>

type_synonym ip_addr = "byte list"

text \<open>\<open>HashSet<[u8; 32]>\<close> as a list without duplicates.\<close>

record ip_sybil_state =
  pubkeys :: "byte list list"
  window_start_at :: u64
  over_quota_count :: u32

record ip_sybil_policy =
  window_secs :: u64
  max_new_pubkeys_per_ip :: nat

record ip_sybil_tracker =
  ips :: "(ip_addr \<times> ip_sybil_state) list"
  sybil_policy :: ip_sybil_policy

datatype sybil_decision = Allow | OverQuota

definition fresh_sybil :: "u64 \<Rightarrow> ip_sybil_state" where
  "fresh_sybil now = \<lparr>pubkeys = [], window_start_at = now, over_quota_count = 0\<rparr>"

definition roll_window :: "ip_sybil_policy \<Rightarrow> u64 \<Rightarrow> ip_sybil_state \<Rightarrow> ip_sybil_state" where
  "roll_window p now s =
     (if window_secs p \<le> saturating_sub now (window_start_at s)
      then s\<lparr>pubkeys := [], window_start_at := now\<rparr> else s)"

definition sybil_observe :: "byte list \<Rightarrow> ip_addr \<Rightarrow> u64 \<Rightarrow> ip_sybil_tracker \<Rightarrow>
    sybil_decision \<times> ip_sybil_tracker" where
  "sybil_observe peer ip now t =
     (let s = (case map_of (ips t) ip of Some s \<Rightarrow> s | None \<Rightarrow> fresh_sybil now);
          s = roll_window (sybil_policy t) now s;
          put = (\<lambda>s. t\<lparr>ips := AList.update ip s (ips t)\<rparr>)
      in if peer \<in> set (pubkeys s) then (Allow, put s)
         else if max_new_pubkeys_per_ip (sybil_policy t) \<le> length (pubkeys s)
           then (OverQuota, put (s\<lparr>over_quota_count := saturating_incr (over_quota_count s)\<rparr>))
         else (Allow, put (s\<lparr>pubkeys := peer # pubkeys s\<rparr>)))"

section \<open>The invariant of the reputation table\<close>

definition rep_ok :: "reputation_policy \<Rightarrow> peer_reputation \<Rightarrow> bool" where
  "rep_ok p rep \<longleftrightarrow> tokens rep \<le> unat (bucket_capacity p) \<and>
     (max_sig_failures p \<le> sig_failures rep \<longrightarrow> refused rep) \<and>
     (max_malformed p \<le> malformed_payloads rep \<longrightarrow> refused rep)"

definition table_inv :: "reputation_table \<Rightarrow> bool" where
  "table_inv t \<longleftrightarrow> wf_map (peers t) \<and> 0 < max_sig_failures (policy t) \<and> 0 < max_malformed (policy t) \<and>
     (\<forall>peer rep. map_of (peers t) peer = Some rep \<longrightarrow> rep_ok (policy t) rep)"

lemma put_rep_simps [simp]:
  "policy (put_rep peer rep t) = policy t"
  "map_of (peers (put_rep peer rep t)) = (map_of (peers t))(peer \<mapsto> rep)"
  by (simp_all add: put_rep_def update_conv')

lemma table_inv_put: "table_inv t \<Longrightarrow> rep_ok (policy t) rep \<Longrightarrow> table_inv (put_rep peer rep t)"
  by (auto simp: table_inv_def) (simp add: put_rep_def)

lemma fresh_rep_ok: "table_inv t \<Longrightarrow> rep_ok (policy t) (fresh_rep now (bucket_capacity (policy t)))"
  by (auto simp: rep_ok_def fresh_rep_def table_inv_def)

lemma entry_ok: "table_inv t \<Longrightarrow> rep_ok (policy t) (entry_or_fresh peer now t)"
  by (auto simp: entry_or_fresh_def fresh_rep_ok table_inv_def split: option.splits
      intro: fresh_rep_ok [unfolded table_inv_def])

lemma refill_simps [simp]:
  "envelopes_seen (refill p now rep) = envelopes_seen rep" "sig_failures (refill p now rep) = sig_failures rep"
  "malformed_payloads (refill p now rep) = malformed_payloads rep" "refused (refill p now rep) = refused rep"
  by (simp_all add: refill_def)

lemma refill_bound: "tokens rep \<le> unat (bucket_capacity p) \<Longrightarrow> tokens (refill p now rep) \<le> unat (bucket_capacity p)"
  by (simp add: refill_def)

lemma table_inv_observe:
  assumes "table_inv t" "observe_envelope peer now t = (ok, t')"
  shows "table_inv t'"
proof -
  let ?rep = "(entry_or_fresh peer now t)\<lparr>envelopes_seen := saturating_incr (envelopes_seen (entry_or_fresh peer now t)),
      last_seen_at := now\<rparr>"
  have r: "rep_ok (policy t) ?rep" using entry_ok [OF assms(1), of peer now] by (simp add: rep_ok_def)
  then have "tokens (refill (policy t) now ?rep) \<le> unat (bucket_capacity (policy t))"
    by (intro refill_bound) (simp add: rep_ok_def)
  then show ?thesis using assms r
    by (auto simp: observe_envelope_def Let_def rep_ok_def split: if_splits intro!: table_inv_put)
qed

lemma table_inv_sig_failure: "table_inv t \<Longrightarrow> table_inv (snd (record_sig_failure peer now t))"
  using entry_ok [of t peer now]
  by (auto simp: record_sig_failure_def Let_def rep_ok_def intro!: table_inv_put)

lemma table_inv_malformed: "table_inv t \<Longrightarrow> table_inv (snd (record_malformed peer now t))"
  using entry_ok [of t peer now]
  by (auto simp: record_malformed_def Let_def rep_ok_def intro!: table_inv_put)

lemma table_inv_refuse: "table_inv t \<Longrightarrow> table_inv (refuse peer now t)"
  using entry_ok [of t peer now] by (auto simp: refuse_def rep_ok_def intro!: table_inv_put)

lemma table_inv_reinstate: "table_inv t \<Longrightarrow> table_inv (reinstate peer t)"
proof (cases "map_of (peers t) peer")
  case None
  then show "table_inv t \<Longrightarrow> ?thesis" by (simp add: reinstate_def)
next
  case (Some rep)
  assume t: "table_inv t"
  then have "tokens rep \<le> unat (bucket_capacity (policy t))" "0 < max_sig_failures (policy t)"
    "0 < max_malformed (policy t)" using Some by (auto simp: table_inv_def rep_ok_def)
  then show ?thesis using t Some by (auto simp: reinstate_def rep_ok_def intro!: table_inv_put)
qed

section \<open>Sequences of operations\<close>

datatype rep_op =
    Observe "byte list" u64
  | SigFailure "byte list" u64
  | Malformed "byte list" u64
  | Refuse "byte list" u64
  | Reinstate "byte list"

fun rep_step :: "rep_op \<Rightarrow> reputation_table \<Rightarrow> bool \<times> reputation_table" where
  "rep_step (Observe peer now) t = observe_envelope peer now t"
| "rep_step (SigFailure peer now) t = record_sig_failure peer now t"
| "rep_step (Malformed peer now) t = record_malformed peer now t"
| "rep_step (Refuse peer now) t = (True, refuse peer now t)"
| "rep_step (Reinstate peer) t = (True, reinstate peer t)"

fun rep_run :: "rep_op list \<Rightarrow> reputation_table \<Rightarrow> (rep_op \<times> bool) list \<times> reputation_table" where
  "rep_run [] t = ([], t)"
| "rep_run (op # ops) t =
     (let (b, t) = rep_step op t; (log, t) = rep_run ops t in ((op, b) # log, t))"

text \<open>The envelopes of one peer that a run let through.\<close>

definition accepted :: "byte list \<Rightarrow> (rep_op \<times> bool) list \<Rightarrow> nat" where
  "accepted peer log = length (filter (\<lambda>(op, b). b \<and> (case op of Observe q _ \<Rightarrow> q = peer | _ \<Rightarrow> False)) log)"

fun op_time :: "rep_op \<Rightarrow> u64 option" where
  "op_time (Observe _ now) = Some now"
| "op_time (SigFailure _ now) = Some now"
| "op_time (Malformed _ now) = Some now"
| "op_time (Refuse _ now) = Some now"
| "op_time (Reinstate _) = None"

definition within :: "u64 \<Rightarrow> u64 \<Rightarrow> rep_op \<Rightarrow> bool" where
  "within lo hi op \<longleftrightarrow> (case op_time op of Some now \<Rightarrow> lo \<le> now \<and> now \<le> hi | None \<Rightarrow> True)"

lemma table_inv_step: "table_inv t \<Longrightarrow> table_inv (snd (rep_step op t))"
  by (cases op)
    (auto simp: table_inv_sig_failure table_inv_malformed table_inv_refuse table_inv_reinstate
      intro: table_inv_observe [OF _ surjective_pairing])

lemma table_inv_run: "table_inv t \<Longrightarrow> table_inv (snd (rep_run ops t))"
proof (induction ops arbitrary: t)
  case Nil
  then show ?case by simp
next
  case (Cons op ops)
  then show ?case using table_inv_step [of t op] by (simp add: split_beta)
qed

lemma step_policy: "policy (snd (rep_step op t)) = policy t"
  by (cases op)
    (auto simp: observe_envelope_def record_sig_failure_def record_malformed_def refuse_def reinstate_def Let_def
      split: option.split)

lemma run_policy: "policy (snd (rep_run ops t)) = policy t"
proof (induction ops arbitrary: t)
  case Nil
  then show ?case by simp
next
  case (Cons op ops)
  then show ?case using step_policy [of op t] by (simp add: split_beta)
qed

text \<open>
  What a peer can still send by the time \<open>hi\<close>: its tokens and what is refilled until then,
  a full bucket and the refill since \<open>lo\<close> if it has not been seen yet.
\<close>

definition rep_budget :: "reputation_policy \<Rightarrow> u64 \<Rightarrow> peer_reputation \<Rightarrow> nat" where
  "rep_budget p hi rep = tokens rep + unat (refill_per_sec p) * (unat hi - unat (last_refill_at rep))"

definition budget :: "u64 \<Rightarrow> u64 \<Rightarrow> byte list \<Rightarrow> reputation_table \<Rightarrow> nat" where
  "budget lo hi peer t = (case map_of (peers t) peer of
     Some rep \<Rightarrow> rep_budget (policy t) hi rep
   | None \<Rightarrow> unat (bucket_capacity (policy t)) + unat (refill_per_sec (policy t)) * (unat hi - unat lo))"

lemma refill_budget:
  assumes "now \<le> hi"
  shows "rep_budget p hi (refill p now rep) \<le> rep_budget p hi rep"
proof (cases "last_refill_at rep < now")
  case False
  then show ?thesis by (simp add: refill_def)
next
  case True
  let ?r = "unat (refill_per_sec p)" and ?l = "unat (last_refill_at rep)"
  have n: "unat (now - last_refill_at rep) = unat now - ?l" "?l \<le> unat now" "unat now \<le> unat hi"
    using True assms by (simp_all add: unat_sub word_le_nat_alt word_less_nat_alt)
  have "rep_budget p hi (refill p now rep) \<le> tokens rep + (unat now - ?l) * ?r + ?r * (unat hi - unat now)"
    using True n by (simp add: rep_budget_def refill_def)
  also have "\<dots> = tokens rep + ?r * ((unat now - ?l) + (unat hi - unat now))"
    by (simp add: distrib_left mult.commute)
  also have "(unat now - ?l) + (unat hi - unat now) = unat hi - ?l" using n by linarith
  finally show ?thesis by (simp add: rep_budget_def)
qed

lemma entry_budget:
  assumes "lo \<le> now"
  shows "rep_budget (policy t) hi (entry_or_fresh peer now t) \<le> budget lo hi peer t"
proof -
  have "unat hi - unat now \<le> unat hi - unat lo" using assms by (simp add: word_le_nat_alt)
  then show ?thesis
    by (simp add: budget_def entry_or_fresh_def rep_budget_def fresh_rep_def split: option.splits)
qed

lemma budget_put: "budget lo hi peer (put_rep peer rep t) = rep_budget (policy t) hi rep"
  by (simp add: budget_def)

lemma budget_put_other: "q \<noteq> peer \<Longrightarrow> budget lo hi peer (put_rep q rep t) = budget lo hi peer t"
  by (simp add: budget_def split: option.split)

lemma observe_budget:
  assumes "lo \<le> now" "now \<le> hi" "observe_envelope peer now t = (b, t')"
  shows "(if b then 1 else 0) + budget lo hi peer t' \<le> budget lo hi peer t"
proof -
  define rep where "rep = (entry_or_fresh peer now t)
    \<lparr>envelopes_seen := saturating_incr (envelopes_seen (entry_or_fresh peer now t)), last_seen_at := now\<rparr>"
  have "rep_budget (policy t) hi rep \<le> budget lo hi peer t"
    using entry_budget [OF assms(1), of t hi peer] by (simp add: rep_budget_def rep_def)
  moreover have "rep_budget (policy t) hi (refill (policy t) now rep) \<le> rep_budget (policy t) hi rep"
    by (rule refill_budget [OF assms(2)])
  ultimately show ?thesis
    using assms(3)
    by (auto simp: observe_envelope_def Let_def budget_put rep_budget_def
        simp flip: rep_def split: if_splits)
qed

lemma step_budget:
  assumes "within lo hi op" "rep_step op t = (b, t')"
  shows "accepted peer [(op, b)] + budget lo hi peer t' \<le> budget lo hi peer t"
proof (cases op)
  case (Observe q now)
  then show ?thesis
    using assms observe_budget [of lo now hi peer t b t']
    by (cases "q = peer")
      (auto simp: accepted_def within_def observe_envelope_def Let_def budget_put_other split: if_splits)
next
  case (SigFailure q now)
  then show ?thesis
    using assms entry_budget [of lo now t hi peer]
    by (cases "q = peer")
      (auto simp: accepted_def within_def record_sig_failure_def Let_def budget_put_other budget_put rep_budget_def)
next
  case (Malformed q now)
  then show ?thesis
    using assms entry_budget [of lo now t hi peer]
    by (cases "q = peer")
      (auto simp: accepted_def within_def record_malformed_def Let_def budget_put_other budget_put rep_budget_def)
next
  case (Refuse q now)
  then show ?thesis
    using assms entry_budget [of lo now t hi peer]
    by (cases "q = peer")
      (auto simp: accepted_def within_def refuse_def budget_put_other budget_put rep_budget_def)
next
  case (Reinstate q)
  then show ?thesis
    using assms
    by (cases "q = peer")
      (auto simp: accepted_def reinstate_def budget_def rep_budget_def split: option.splits)
qed

lemma accepted_Cons: "accepted peer (x # y) = accepted peer [x] + accepted peer y"
  by (simp add: accepted_def)

lemma rep_run_Cons:
  "rep_step op t = (b, t1) \<Longrightarrow>
     fst (rep_run (op # ops) t) = (op, b) # fst (rep_run ops t1) \<and> snd (rep_run (op # ops) t) = snd (rep_run ops t1)"
  by (simp add: split_beta)

lemma run_budget:
  assumes "list_all (within lo hi) ops"
  shows "accepted peer (fst (rep_run ops t)) + budget lo hi peer (snd (rep_run ops t)) \<le> budget lo hi peer t"
  using assms
proof (induction ops arbitrary: t)
  case Nil
  then show ?case by (simp add: accepted_def)
next
  case (Cons op ops)
  obtain b t1 where o: "rep_step op t = (b, t1)" by fastforce
  have "accepted peer (fst (rep_run ops t1)) + budget lo hi peer (snd (rep_run ops t1)) \<le> budget lo hi peer t1"
    using Cons.IH Cons.prems by simp
  moreover have "accepted peer [(op, b)] + budget lo hi peer t1 \<le> budget lo hi peer t"
    using step_budget [OF _ o] Cons.prems by simp
  ultimately show ?case using rep_run_Cons [OF o, of ops] accepted_Cons [of peer "(op, b)" "fst (rep_run ops t1)"] by (simp del: rep_run.simps)
qed

section \<open>Refusal\<close>

lemma is_refused_put:
  "is_refused peer (put_rep q rep t) \<longleftrightarrow> (if q = peer then refused rep else is_refused peer t)"
  by (simp add: is_refused_def)

lemma entry_refused: "is_refused peer t \<Longrightarrow> refused (entry_or_fresh peer now t)"
  by (simp add: is_refused_def entry_or_fresh_def split: option.splits)

lemma refused_observe:
  assumes "is_refused peer t"
  shows "\<not> fst (observe_envelope q now t) \<or> q \<noteq> peer"
    and "is_refused peer (snd (observe_envelope q now t))"
  using assms entry_refused [OF assms, of now]
  by (auto simp: observe_envelope_def Let_def is_refused_put)

lemma refused_step:
  assumes "is_refused peer t" "op \<noteq> Reinstate peer" "rep_step op t = (b, t')"
  shows "is_refused peer t' \<and> accepted peer [(op, b)] = 0"
proof (cases op)
  case (Observe q now)
  then show ?thesis using refused_observe [OF assms(1), of q now] assms(3) by (auto simp: accepted_def)
next
  case (SigFailure q now)
  then show ?thesis using assms entry_refused [OF assms(1), of now]
    by (auto simp: accepted_def record_sig_failure_def Let_def is_refused_put)
next
  case (Malformed q now)
  then show ?thesis using assms entry_refused [OF assms(1), of now]
    by (auto simp: accepted_def record_malformed_def Let_def is_refused_put)
next
  case (Refuse q now)
  then show ?thesis using assms by (auto simp: accepted_def refuse_def is_refused_put)
next
  case (Reinstate q)
  then show ?thesis using assms by (auto simp: accepted_def reinstate_def is_refused_put split: option.splits)
qed

lemma refused_run:
  assumes "is_refused peer t" "Reinstate peer \<notin> set ops"
  shows "is_refused peer (snd (rep_run ops t)) \<and> accepted peer (fst (rep_run ops t)) = 0"
  using assms
proof (induction ops arbitrary: t)
  case Nil
  then show ?case by (simp add: accepted_def)
next
  case (Cons op ops)
  obtain b t1 where o: "rep_step op t = (b, t1)" by fastforce
  then have "is_refused peer t1 \<and> accepted peer [(op, b)] = 0"
    using refused_step [OF Cons.prems(1)] Cons.prems(2) by (metis list.set_intros(1))
  then show ?case using Cons.IH [of t1] Cons.prems(2)
    using rep_run_Cons [OF o, of ops] accepted_Cons [of peer "(op, b)" "fst (rep_run ops t1)"] by (simp del: rep_run.simps)
qed

text \<open>Enough signature failures refuse a peer.\<close>

lemma sig_failure_count:
  assumes "record_sig_failure peer now t = (b, t')"
  shows "unat (sig_failures (the (map_of (peers t') peer))) =
      min (unat (sig_failures (entry_or_fresh peer now t)) + 1) (2 ^ 32 - 1)"
    and "b \<longleftrightarrow> is_refused peer t'"
  using assms by (auto simp: record_sig_failure_def Let_def is_refused_def unat_saturating_incr)

section \<open>The sybil quota\<close>

definition sybil_inv :: "ip_sybil_tracker \<Rightarrow> bool" where
  "sybil_inv t \<longleftrightarrow> (\<forall>ip s. map_of (ips t) ip = Some s \<longrightarrow>
     distinct (pubkeys s) \<and> length (pubkeys s) \<le> max_new_pubkeys_per_ip (sybil_policy t))"

lemma roll_window_pubkeys: "set (pubkeys (roll_window p now s)) \<subseteq> set (pubkeys s)"
  "distinct (pubkeys s) \<Longrightarrow> distinct (pubkeys (roll_window p now s))"
  "length (pubkeys (roll_window p now s)) \<le> length (pubkeys s)"
  by (simp_all add: roll_window_def)

lemma sybil_inv_observe:
  assumes "sybil_inv t" "sybil_observe peer ip now t = (d, t')"
  shows "sybil_inv t' \<and> sybil_policy t' = sybil_policy t"
proof -
  define s where "s = roll_window (sybil_policy t) now
    (case map_of (ips t) ip of Some s \<Rightarrow> s | None \<Rightarrow> fresh_sybil now)"
  have "distinct (pubkeys s) \<and> length (pubkeys s) \<le> max_new_pubkeys_per_ip (sybil_policy t)"
    unfolding s_def using assms(1) roll_window_pubkeys
    by (cases "map_of (ips t) ip") (auto simp: fresh_sybil_def sybil_inv_def roll_window_def)
  then show ?thesis using assms
    unfolding sybil_observe_def s_def [symmetric] Let_def
    by (auto simp: sybil_inv_def update_conv' split: if_splits)
qed

section \<open>Properties\<close>

text \<open>C40: however the envelopes of all peers, the failures and the operator's actions interleave, the
  gate lets through at most one full bucket plus the refill of the elapsed time of one
  peer's envelopes in a run on a fresh table.\<close>
theorem rate_bound:
  assumes "list_all (within lo hi) ops"
  shows "accepted peer (fst (rep_run ops (reputation_new p))) \<le>
    unat (bucket_capacity p) + unat (refill_per_sec p) * (unat hi - unat lo)"
proof -
  have "budget lo hi peer (reputation_new p) =
      unat (bucket_capacity p) + unat (refill_per_sec p) * (unat hi - unat lo)"
    by (simp add: budget_def reputation_new_def)
  then show ?thesis using run_budget [OF assms, of peer "reputation_new p"] by linarith
qed

theorem rate_bound_witness:
  "accepted [1] (fst (rep_run [Observe [1] 5, Observe [2] 5, Observe [1] 6]
     (reputation_new \<lparr>bucket_capacity = 1, refill_per_sec = 1, max_sig_failures = 2, max_malformed = 2\<rparr>))) \<le> 2"
  using rate_bound [of 5 6 "[Observe [1] 5, Observe [2] 5, Observe [1] 6]" "[1]"
      "\<lparr>bucket_capacity = 1, refill_per_sec = 1, max_sig_failures = 2, max_malformed = 2\<rparr>"]
  by (simp add: within_def)

text \<open>A refused peer gets nothing through, and stays refused, until it is reinstated.\<close>
lemma refused_until_reinstated:
  assumes "is_refused peer t" "Reinstate peer \<notin> set ops"
  shows "accepted peer (fst (rep_run ops t)) = 0 \<and> is_refused peer (snd (rep_run ops t))"
  using refused_run [OF assms] by simp

lemma refused_until_reinstated_witness:
  "accepted [1] (fst (rep_run [Observe [1] 9, Malformed [2] 9, Observe [1] 10]
     (refuse [1] 5 (reputation_new default_policy)))) = 0"
  using refused_until_reinstated [of "[1]" "refuse [1] 5 (reputation_new default_policy)"
      "[Observe [1] 9, Malformed [2] 9, Observe [1] 10]"]
  by (simp add: refuse_def is_refused_put)

text \<open>In every state the table can reach, no bucket exceeds its capacity and a peer whose failures
  reached a threshold is refused.\<close>
lemma reputation_invariant:
  assumes "0 < max_sig_failures p" "0 < max_malformed p"
    "map_of (peers (snd (rep_run ops (reputation_new p)))) peer = Some rep"
  shows "tokens rep \<le> unat (bucket_capacity p) \<and>
    (max_sig_failures p \<le> sig_failures rep \<longrightarrow> refused rep) \<and>
    (max_malformed p \<le> malformed_payloads rep \<longrightarrow> refused rep)"
proof -
  have "table_inv (reputation_new p)" using assms(1,2) by (simp add: table_inv_def reputation_new_def)
  then have "table_inv (snd (rep_run ops (reputation_new p)))" by (rule table_inv_run)
  then show ?thesis using assms(3) run_policy [of ops "reputation_new p"]
    by (auto simp: table_inv_def rep_ok_def reputation_new_def)
qed

lemma reputation_invariant_witness:
  "refused (the (map_of (peers (snd (rep_run [SigFailure [1] 3] (reputation_new
     \<lparr>bucket_capacity = 3, refill_per_sec = 1, max_sig_failures = 1, max_malformed = 2\<rparr>)))) [1]))"
  using reputation_invariant [of "\<lparr>bucket_capacity = 3, refill_per_sec = 1, max_sig_failures = 1, max_malformed = 2\<rparr>"
      "[SigFailure [1] 3]" "[1]"]
  by (simp add: record_sig_failure_def entry_or_fresh_def reputation_new_def Let_def put_rep_def fresh_rep_def
      saturating_incr_def)

text \<open>The sybil tracker keeps at most the quota of distinct keys per address and window.\<close>
lemma sybil_quota:
  assumes "sybil_inv t" "sybil_observe peer ip now t = (d, t')" "map_of (ips t') a = Some s"
  shows "distinct (pubkeys s) \<and> length (pubkeys s) \<le> max_new_pubkeys_per_ip (sybil_policy t)"
  using sybil_inv_observe [OF assms(1,2)] assms(3) by (auto simp: sybil_inv_def)

lemma sybil_quota_witness:
  "sybil_observe [2] [127] 5 \<lparr>ips = [([127], \<lparr>pubkeys = [[1]], window_start_at = 0, over_quota_count = 0\<rparr>)],
     sybil_policy = \<lparr>window_secs = 10, max_new_pubkeys_per_ip = 1\<rparr>\<rparr> =
   (OverQuota, \<lparr>ips = [([127], \<lparr>pubkeys = [[1]], window_start_at = 0, over_quota_count = 1\<rparr>)],
     sybil_policy = \<lparr>window_secs = 10, max_new_pubkeys_per_ip = 1\<rparr>\<rparr>) \<and> distinct [[1 :: byte]]"
proof -
  let ?t = "\<lparr>ips = [([127], \<lparr>pubkeys = [[1]], window_start_at = 0, over_quota_count = 0\<rparr>)],
     sybil_policy = \<lparr>window_secs = 10, max_new_pubkeys_per_ip = 1\<rparr>\<rparr>"
  have o: "sybil_observe [2] [127] 5 ?t = (OverQuota, \<lparr>ips = [([127], \<lparr>pubkeys = [[1]], window_start_at = 0,
      over_quota_count = 1\<rparr>)], sybil_policy = \<lparr>window_secs = 10, max_new_pubkeys_per_ip = 1\<rparr>\<rparr>)"
    by (simp add: sybil_observe_def roll_window_def saturating_sub_def saturating_incr_def Let_def)
  then show ?thesis using sybil_quota [OF _ o, of "[127]"] by (simp add: sybil_inv_def)
qed

end
