(* ===== verification/Gate.thy ===== *)
theory Gate
  imports Envelope Replay Reputation
begin

text \<open>
  The gate every handler of \<open>sidevers-net/src/node.rs\<close> runs before it looks at an envelope:
  \<open>check_reputation_gate\<close> and \<open>check_freshness_and_replay_metered\<close>, on the reputation table,
  the replay cache and the counters of \<open>metrics.rs\<close>. The clock is an argument: \<open>None\<close> is a
  clock before the epoch.
\<close>

section \<open>State\<close>

text \<open>The counters are \<open>AtomicU64\<close>s bumped by \<open>fetch_add(1)\<close>, which wraps.\<close>

record metrics =
  envelopes_total :: u64
  dropped_reputation :: u64
  dropped_freshness :: u64
  dropped_replay :: u64
  dropped_skew_hard :: u64
  warned_skew_soft :: u64

record gate =
  g_metrics :: metrics
  g_reputation :: reputation_table
  g_replay :: replay_cache

definition check_freshness_and_replay :: "u64 option \<Rightarrow> envelope \<Rightarrow> gate \<Rightarrow> bool \<times> gate" where
  "check_freshness_and_replay clock e g =
     (case clock of None \<Rightarrow> (False, g)
      | Some now \<Rightarrow>
          let skew = abs_diff (env_timestamp e) now; m = g_metrics g in
          if SOFT_MAX_SKEW_SECS < skew then
            (False, g\<lparr>g_metrics := m\<lparr>dropped_skew_hard := dropped_skew_hard m + 1,
                                   dropped_freshness := dropped_freshness m + 1\<rparr>\<rparr>)
          else
            let m = (if DEFAULT_MAX_SKEW_SECS < skew then m\<lparr>warned_skew_soft := warned_skew_soft m + 1\<rparr> else m);
                (is_replay, cache) = observe now (env_from e) (env_nonce e) (g_replay g);
                m = (if is_replay then m\<lparr>dropped_replay := dropped_replay m + 1\<rparr> else m)
            in (\<not> is_replay, g\<lparr>g_metrics := m, g_replay := cache\<rparr>))"

definition check_reputation_gate :: "u64 option \<Rightarrow> envelope \<Rightarrow> gate \<Rightarrow> bool \<times> gate" where
  "check_reputation_gate clock e g =
     (let m = g_metrics g; m = m\<lparr>envelopes_total := envelopes_total m + 1\<rparr>;
          now = (case clock of Some n \<Rightarrow> n | None \<Rightarrow> 0);
          (ok, rep) = observe_envelope (env_from e) now (g_reputation g);
          m = (if \<not> ok then m\<lparr>dropped_reputation := dropped_reputation m + 1\<rparr> else m)
      in (ok, g\<lparr>g_metrics := m, g_reputation := rep\<rparr>))"

text \<open>The two checks in the order the handlers run them; the second is skipped after a refusal.\<close>

definition admit :: "u64 option \<Rightarrow> envelope \<Rightarrow> gate \<Rightarrow> bool \<times> gate" where
  "admit clock e g =
     (let (ok, g) = check_reputation_gate clock e g in
      if \<not> ok then (False, g) else check_freshness_and_replay clock e g)"

fun admit_all :: "(u64 option \<times> envelope) list \<Rightarrow> gate \<Rightarrow> bool list \<times> gate" where
  "admit_all [] g = ([], g)"
| "admit_all ((clock, e) # es) g =
     (let (ok, g) = admit clock e g; (oks, g) = admit_all es g in (ok # oks, g))"

section \<open>Invariant\<close>

definition gate_inv :: "gate \<Rightarrow> bool" where
  "gate_inv g \<longleftrightarrow> cache_inv (g_replay g) \<and> mirror (g_replay g) \<and> table_inv (g_reputation g)"

lemma gate_inv_reputation:
  assumes "gate_inv g" "check_reputation_gate clock e g = (ok, g')"
  shows "gate_inv g' \<and> g_replay g' = g_replay g"
proof -
  obtain b rep where "observe_envelope (env_from e) (case clock of Some n \<Rightarrow> n | None \<Rightarrow> 0) (g_reputation g) = (b, rep)"
    by fastforce
  then show ?thesis using assms table_inv_observe
    by (auto simp: gate_inv_def check_reputation_gate_def Let_def)
qed

lemma gate_inv_freshness:
  assumes "gate_inv g" "check_freshness_and_replay clock e g = (ok, g')"
  shows "gate_inv g'"
proof (cases clock)
  case None
  then show ?thesis using assms by (simp add: check_freshness_and_replay_def)
next
  case (Some now)
  obtain r cache where o: "observe now (env_from e) (env_nonce e) (g_replay g) = (r, cache)" by fastforce
  have "cache_inv cache \<and> mirror cache"
    using assms(1) cache_inv_observe [OF _ o] mirror_observe [OF _ _ o] by (simp add: gate_inv_def)
  then show ?thesis using assms Some o
    by (auto simp: gate_inv_def check_freshness_and_replay_def Let_def split: if_splits)
qed

lemma gate_inv_admit:
  assumes "gate_inv g" "admit clock e g = (ok, g')"
  shows "gate_inv g'"
proof -
  obtain b g1 where r: "check_reputation_gate clock e g = (b, g1)" by fastforce
  then show ?thesis
    using gate_inv_reputation [OF assms(1) r] gate_inv_freshness [of g1 clock e ok g'] assms(2)
    by (auto simp: admit_def split: if_splits)
qed

section \<open>What an accepted envelope satisfies\<close>

lemma freshness_accepts:
  assumes "check_freshness_and_replay clock e g = (True, g')"
  obtains now where "clock = Some now" "abs_diff (env_timestamp e) now \<le> SOFT_MAX_SKEW_SECS"
    "observe now (env_from e) (env_nonce e) (g_replay g) = (False, g_replay g')"
proof (cases clock)
  case None
  then show ?thesis using assms by (simp add: check_freshness_and_replay_def)
next
  case (Some now)
  then show ?thesis using assms that [of now]
    by (auto simp: check_freshness_and_replay_def Let_def split: if_splits prod.splits)
qed

lemma admit_accepts:
  assumes "gate_inv g" "admit clock e g = (True, g')"
  obtains now where "clock = Some now" "abs_diff (env_timestamp e) now \<le> SOFT_MAX_SKEW_SECS"
    "observe now (env_from e) (env_nonce e) (g_replay g) = (False, g_replay g')"
proof -
  obtain b g1 where r: "check_reputation_gate clock e g = (b, g1)" by fastforce
  then have "b" "check_freshness_and_replay clock e g1 = (True, g')" "g_replay g1 = g_replay g"
    using assms(2) gate_inv_reputation [OF assms(1) r] by (auto simp: admit_def split: if_splits)
  then show ?thesis using that freshness_accepts by metis
qed

text \<open>Whatever the gate does, the replay cache moves by at most one observation.\<close>

lemma admit_replay_step:
  assumes "gate_inv g" "admit clock e g = (ok, g')"
  shows "g_replay g' = g_replay g \<or>
    (\<exists>now seen. clock = Some now \<and> abs_diff (env_timestamp e) now \<le> SOFT_MAX_SKEW_SECS \<and>
       observe now (env_from e) (env_nonce e) (g_replay g) = (seen, g_replay g'))"
proof -
  obtain b g1 where r: "check_reputation_gate clock e g = (b, g1)" by fastforce
  have g1: "g_replay g1 = g_replay g" using gate_inv_reputation [OF assms(1) r] by simp
  show ?thesis
  proof (cases b)
    case False
    then show ?thesis using assms(2) r g1 by (auto simp: admit_def)
  next
    case True
    then have "check_freshness_and_replay clock e g1 = (ok, g')" using assms(2) r by (simp add: admit_def)
    then show ?thesis using g1
      by (auto simp: check_freshness_and_replay_def Let_def split: option.splits if_splits prod.splits)
  qed
qed

section \<open>Replays within the time to live\<close>

lemma observe_recorded:
  "observe now from nonce c = (False, c') \<Longrightarrow> map_of (entries c') (from, nonce) = Some now"
  by (drule observe_entries) (simp add: update_conv')

lemma admit_all_keeps:
  assumes "gate_inv g" "map_of (entries (g_replay g)) k = Some t0"
    and "\<forall>op \<in> set ops. \<forall>now. fst op = Some now \<longrightarrow> alive (ttl (g_replay g)) now t0"
    and "recent t0 (g_replay g) + length ops \<le> max_entries (g_replay g)" "admit_all ops g = (oks, g')"
  shows "gate_inv g' \<and> map_of (entries (g_replay g')) k = Some t0 \<and> ttl (g_replay g') = ttl (g_replay g) \<and>
    max_entries (g_replay g') = max_entries (g_replay g) \<and>
    recent t0 (g_replay g') \<le> recent t0 (g_replay g) + length ops"
  using assms
proof (induction ops arbitrary: g oks)
  case Nil
  then show ?case by simp
next
  case (Cons op ops)
  obtain clock e where op: "op = (clock, e)" by (cases op)
  obtain ok g1 where a: "admit clock e g = (ok, g1)" by fastforce
  obtain oks1 where r: "admit_all ops g1 = (oks1, g')"
    using Cons.prems(5) op a by (cases "admit_all ops g1") auto
  have inv: "gate_inv g1" using gate_inv_admit [OF Cons.prems(1) a] .
  have c: "cache_inv (g_replay g)" using Cons.prems(1) by (simp add: gate_inv_def)
  have step: "map_of (entries (g_replay g1)) k = Some t0 \<and> ttl (g_replay g1) = ttl (g_replay g) \<and>
      max_entries (g_replay g1) = max_entries (g_replay g) \<and>
      recent t0 (g_replay g1) \<le> Suc (recent t0 (g_replay g))"
    using admit_replay_step [OF Cons.prems(1) a]
  proof (elim disjE exE conjE)
    assume "g_replay g1 = g_replay g"
    then show ?thesis using Cons.prems(2) by simp
  next
    fix now seen
    assume n: "clock = Some now" and o: "observe now (env_from e) (env_nonce e) (g_replay g) = (seen, g_replay g1)"
    have "alive (ttl (g_replay g)) now t0" "recent t0 (g_replay g) < max_entries (g_replay g)"
      using Cons.prems(3,4) op n by auto
    then show ?thesis
      using observe_keeps(1) [OF c Cons.prems(2) _ _ o] observe_entries [OF o] recent_observe [OF o, of t0] by auto
  qed
  then show ?case
    using Cons.IH [OF inv _ _ _ r] Cons.prems(3,4) by auto
qed

lemma admit_known:
  assumes "gate_inv g" "map_of (entries (g_replay g)) (env_from e, env_nonce e) = Some t0"
    and "alive (ttl (g_replay g)) now t0" "recent t0 (g_replay g) < max_entries (g_replay g)"
  shows "\<not> fst (admit (Some now) e g)"
proof
  assume "fst (admit (Some now) e g)"
  then obtain g' where "admit (Some now) e g = (True, g')" by (metis prod.collapse)
  then obtain n where "now = n" "observe n (env_from e) (env_nonce e) (g_replay g) = (False, g_replay g')"
    using admit_accepts [OF assms(1)] by blast
  then show False
    using observe_keeps(2) [of "g_replay g" "(env_from e, env_nonce e)" t0 now] assms by (auto simp: gate_inv_def)
qed

lemma admitted_then_refused:
  assumes "gate_inv g" "admit (Some t0) e g = (True, g1)" "admit_all ops g1 = (oks, g2)"
    and "\<forall>op \<in> set ops. \<forall>now. fst op = Some now \<longrightarrow> alive (ttl (g_replay g1)) now t0"
    and "alive (ttl (g_replay g1)) t1 t0"
    and "recent t0 (g_replay g1) + length ops < max_entries (g_replay g1)"
    and "env_from e' = env_from e" "env_nonce e' = env_nonce e"
  shows "\<not> fst (admit (Some t1) e' g2)"
proof -
  obtain "observe t0 (env_from e) (env_nonce e) (g_replay g) = (False, g_replay g1)"
    using admit_accepts [OF assms(1,2)] by (metis option.inject)
  then have k: "map_of (entries (g_replay g1)) (env_from e, env_nonce e) = Some t0" by (rule observe_recorded)
  have "recent t0 (g_replay g1) + length ops \<le> max_entries (g_replay g1)" using assms(6) by simp
  note keep = admit_all_keeps [OF gate_inv_admit [OF assms(1,2)] k assms(4) this assms(3)]
  show ?thesis using keep assms(5-8) by (intro admit_known [of g2 e' t0 t1]) auto
qed

lemma abs_diff_window:
  assumes "abs_diff ts a \<le> SOFT_MAX_SKEW_SECS" "abs_diff ts b \<le> SOFT_MAX_SKEW_SECS"
  shows "unat b - unat a \<le> 1800"
  using assms by (auto simp: word_le_nat_alt unat_abs_diff SOFT_MAX_SKEW_SECS_def split: if_splits)

lemma alive_iff: "alive t now t0 \<longleftrightarrow> unat now - unat t0 < unat t"
  by (simp add: alive_def word_less_nat_alt)

section \<open>A fresh node\<close>

definition metrics_new :: metrics where
  "metrics_new = \<lparr>envelopes_total = 0, dropped_reputation = 0, dropped_freshness = 0, dropped_replay = 0,
     dropped_skew_hard = 0, warned_skew_soft = 0\<rparr>"

definition gate_new :: gate where
  "gate_new = \<lparr>g_metrics = metrics_new, g_reputation = reputation_new default_policy, g_replay = cache_new\<rparr>"

lemma gate_inv_new: "gate_inv gate_new"
  by (simp add: gate_inv_def gate_new_def cache_new_def cache_inv_new mirror_def table_inv_def reputation_new_def
      default_policy_def) (simp add: cache_with_capacity_def)

lemma gate_inv_admit_all: "gate_inv g \<Longrightarrow> admit_all ops g = (oks, g') \<Longrightarrow> gate_inv g'"
proof (induction ops arbitrary: g oks)
  case Nil
  then show ?case by simp
next
  case (Cons op ops)
  obtain clock e where op: "op = (clock, e)" by (cases op)
  obtain ok g1 where a: "admit clock e g = (ok, g1)" by fastforce
  obtain oks1 where "admit_all ops g1 = (oks1, g')" using Cons.prems(2) op a by (cases "admit_all ops g1") auto
  then show ?case using Cons.IH gate_inv_admit [OF Cons.prems(1) a] by blast
qed

text \<open>An envelope for concrete evaluations.\<close>

definition probe :: envelope where
  "probe = \<lparr>env_version = 1, env_type = 0x20, env_from = [1], env_to = None, env_timestamp = 500,
     env_nonce = [2], env_payload = [], env_sig = []\<rparr>"

lemmas probe_simps = admit_def check_reputation_gate_def check_freshness_and_replay_def observe_def sweep_def
  Let_def gate_new_def cache_new_def cache_with_capacity_def reputation_new_def default_policy_def
  observe_envelope_def entry_or_fresh_def put_rep_def fresh_rep_def refill_def probe_def abs_diff_def
  SOFT_MAX_SKEW_SECS_def DEFAULT_MAX_SKEW_SECS_def DEFAULT_TTL_SECS_def DEFAULT_MAX_ENTRIES_def journal_call_def

lemma probe_admitted: "fst (admit (Some 120) probe gate_new)"
  by (simp add: probe_simps)

lemma probe_recent: "recent 120 (g_replay (snd (admit (Some 120) probe gate_new))) = 1"
  by (simp add: probe_simps recent_def)

lemma probe_bounds:
  "ttl (g_replay (snd (admit (Some 120) probe gate_new))) = 600"
  "max_entries (g_replay (snd (admit (Some 120) probe gate_new))) = 16384"
  by (simp_all add: probe_simps)

lemma admitted_is_fresh:
  assumes "gate_inv g" "fst (admit (Some now) e g)"
  shows "abs_diff (env_timestamp e) now \<le> SOFT_MAX_SKEW_SECS"
proof -
  obtain g' where "admit (Some now) e g = (True, g')"
    using assms(2) by (cases "admit (Some now) e g") simp
  from admit_accepts [OF assms(1) this] show ?thesis by auto
qed

text \<open>What is enough for an envelope to be admitted.\<close>

lemma admit_ok:
  assumes "observe_envelope (env_from e) now (g_reputation g) = (True, rep)"
    and "abs_diff (env_timestamp e) now \<le> SOFT_MAX_SKEW_SECS"
    and "observe now (env_from e) (env_nonce e) (g_replay g) = (False, c)"
  shows "fst (admit (Some now) e g) \<and> g_reputation (snd (admit (Some now) e g)) = rep \<and>
    g_replay (snd (admit (Some now) e g)) = c"
  using assms by (simp add: admit_def check_reputation_gate_def check_freshness_and_replay_def Let_def)

lemma fresh_peer_twice:
  assumes "observe_envelope p t0 (reputation_new default_policy) = (ok, rep)"
  shows "ok \<and> fst (observe_envelope p t1 rep)"
proof -
  have "ok \<and> (\<exists>r. map_of (peers rep) p = Some r \<and> \<not> refused r \<and> tokens r = 99) \<and> policy rep = default_policy"
    using assms by (auto simp: observe_envelope_def entry_or_fresh_def put_rep_def fresh_rep_def refill_def Let_def
        reputation_new_def default_policy_def)
  then show ?thesis
    by (auto simp: observe_envelope_def entry_or_fresh_def refill_def Let_def default_policy_def)
qed

lemma fresh_gate_admits:
  assumes "abs_diff (env_timestamp e) now \<le> SOFT_MAX_SKEW_SECS"
  obtains g where "admit (Some now) e gate_new = (True, g)"
proof -
  have "fst (admit (Some now) e gate_new)"
    using assms by (simp add: admit_def check_reputation_gate_def check_freshness_and_replay_def observe_def sweep_def
        Let_def gate_new_def cache_new_def cache_with_capacity_def reputation_new_def default_policy_def
        observe_envelope_def entry_or_fresh_def put_rep_def fresh_rep_def refill_def journal_call_def DEFAULT_MAX_ENTRIES_def)
  then show ?thesis using that by (cases "admit (Some now) e gate_new") simp
qed

lemma single_entry_forgotten:
  assumes "observe t0 p n (cache_with_capacity t m) = (seen, c)" "\<not> alive t t1 t0"
  shows "\<not> seen \<and> \<not> fst (observe t1 p n c)"
proof -
  have c: "\<not> seen \<and> ttl c = t \<and> entries c = [((p, n), t0)]"
    using observe_entries [OF assms(1)] by (auto simp: cache_with_capacity_def make_room_def)
  obtain b c' where o: "observe t1 p n c = (b, c')" by fastforce
  show ?thesis using observe_entries [OF o] c assms(2) by (simp add: o)
qed

section \<open>Properties\<close>

text \<open>An envelope that the gate admitted at \<open>t0\<close>, or any other with its sender and nonce, is
  refused as long as the replay cache's time to live has not passed, while fewer envelopes
  came in between than the cache has room for.\<close>
lemma admitted_at_most_once_within_ttl:
  assumes "gate_inv g" "admit (Some t0) e g = (True, g1)" "admit_all ops g1 = (oks, g2)"
    and "\<forall>op \<in> set ops. \<forall>now. fst op = Some now \<longrightarrow> unat now - unat t0 < unat (ttl (g_replay g1))"
    and "unat t1 - unat t0 < unat (ttl (g_replay g1))"
    and "recent t0 (g_replay g1) + length ops < max_entries (g_replay g1)"
    and "env_from e' = env_from e" "env_nonce e' = env_nonce e"
  shows "\<not> fst (admit (Some t1) e' g2)"
  using assms by (intro admitted_then_refused [OF assms(1-3)]) (simp_all add: alive_iff)

lemma admitted_at_most_once_within_ttl_witness:
  "\<not> fst (admit (Some 130) probe (snd (admit (Some 120) probe gate_new)))"
proof -
  have a: "admit (Some 120) probe gate_new = (True, snd (admit (Some 120) probe gate_new))"
    using probe_admitted by (simp add: prod_eq_iff)
  show ?thesis
    by (rule admitted_at_most_once_within_ttl [OF gate_inv_new a, where ops = "[]" and oks = "[]"])
      (simp_all add: probe_recent probe_bounds)
qed

text \<open>If the time to live exceeded the width of the accepted clock skew on both sides
  (2 * 900 s), no envelope could ever be admitted twice.\<close>
lemma admitted_once_if_ttl_covers_window:
  assumes "gate_inv g" "admit (Some t0) e g = (True, g1)" "admit_all ops g1 = (oks, g2)"
    and "\<forall>op \<in> set ops. \<forall>now. fst op = Some now \<longrightarrow> now \<le> t1"
    and "1800 < unat (ttl (g_replay g1))"
    and "recent t0 (g_replay g1) + length ops < max_entries (g_replay g1)"
  shows "\<not> fst (admit (Some t1) e g2)"
proof
  assume twice: "fst (admit (Some t1) e g2)"
  have "gate_inv g2" using gate_inv_admit_all [OF gate_inv_admit [OF assms(1,2)] assms(3)] .
  from admitted_is_fresh [OF this] have s1: "abs_diff (env_timestamp e) t1 \<le> SOFT_MAX_SKEW_SECS"
    using twice .
  have "fst (admit (Some t0) e g)" using assms(2) by simp
  with admitted_is_fresh [OF assms(1)] have "abs_diff (env_timestamp e) t0 \<le> SOFT_MAX_SKEW_SECS" by blast
  then have w: "unat t1 - unat t0 \<le> 1800" using s1 by (rule abs_diff_window)
  have "\<forall>op \<in> set ops. \<forall>now. fst op = Some now \<longrightarrow> unat now - unat t0 < unat (ttl (g_replay g1))"
  proof (intro ballI allI impI)
    fix op now
    assume "op \<in> set ops" "fst op = Some now"
    then have "unat now \<le> unat t1" using assms(4) by (simp add: word_le_nat_alt)
    then show "unat now - unat t0 < unat (ttl (g_replay g1))" using w assms(5) by linarith
  qed
  then have "\<not> fst (admit (Some t1) e g2)"
    using w assms(5,6) by (intro admitted_then_refused [OF assms(1-3)]) (simp_all add: alive_iff)
  then show False using twice by simp
qed

lemma admitted_once_if_ttl_covers_window_witness:
  "\<not> fst (admit (Some 900) probe (snd (admit (Some 120) probe
     (gate_new\<lparr>g_replay := cache_with_capacity 1801 4\<rparr>))))"
proof -
  let ?g = "gate_new\<lparr>g_replay := cache_with_capacity 1801 4\<rparr>"
  have "mirror (cache_with_capacity 1801 4)" by (simp add: mirror_def cache_with_capacity_def)
  then have i: "gate_inv ?g" using gate_inv_new by (simp add: gate_inv_def cache_inv_new)
  have a: "admit (Some 120) probe ?g = (True, snd (admit (Some 120) probe ?g))"
    by (simp add: probe_simps)
  show ?thesis
    by (rule admitted_once_if_ttl_covers_window [OF i a, where ops = "[]" and oks = "[]"])
      (simp_all add: probe_simps recent_def)
qed

text \<open>With the time to live the code uses (600 s) the accepted window is wider than the memory of
  the cache: a fresh node admits every envelope a second time 600 seconds after the first,
  whenever both times are within the accepted skew of its timestamp.\<close>
lemma replay_gap:
  assumes "abs_diff (env_timestamp e) t0 \<le> SOFT_MAX_SKEW_SECS" "unat t0 + 600 < 2 ^ 64"
    "abs_diff (env_timestamp e) (t0 + 600) \<le> SOFT_MAX_SKEW_SECS"
  shows "fst (admit_all [(Some t0, e), (Some (t0 + 600), e)] gate_new) = [True, True]"
proof -
  have "unat (t0 + 600) = unat t0 + 600" using assms(2) by (simp add: unat_word_ariths)
  then have dead: "\<not> alive 600 (t0 + 600) t0" by (simp add: alive_iff)
  obtain ok rep where r: "observe_envelope (env_from e) t0 (reputation_new default_policy) = (ok, rep)" by fastforce
  obtain ok' rep' where r': "observe_envelope (env_from e) (t0 + 600) rep = (ok', rep')" by fastforce
  obtain s c where c: "observe t0 (env_from e) (env_nonce e) (cache_with_capacity 600 16384) = (s, c)" by fastforce
  obtain s' c' where c': "observe (t0 + 600) (env_from e) (env_nonce e) c = (s', c')" by fastforce
  have ok: "ok \<and> ok' \<and> \<not> s \<and> \<not> s'"
    using fresh_peer_twice [OF r, of "t0 + 600"] single_entry_forgotten [OF c dead] r' c' by simp
  have "fst (admit (Some t0) e gate_new) \<and> g_reputation (snd (admit (Some t0) e gate_new)) = rep \<and>
      g_replay (snd (admit (Some t0) e gate_new)) = c"
    by (rule admit_ok) (use r c ok assms(1) in
      \<open>simp_all add: gate_new_def cache_new_def DEFAULT_TTL_SECS_def DEFAULT_MAX_ENTRIES_def\<close>)
  then obtain g1 where g1: "admit (Some t0) e gate_new = (True, g1)" "g_reputation g1 = rep" "g_replay g1 = c"
    by (metis prod.collapse)
  have "fst (admit (Some (t0 + 600)) e g1)"
    using admit_ok [of e "t0 + 600" g1 rep' c'] r' c' ok assms(3) g1 by simp
  then show ?thesis using g1 by (simp add: case_prod_unfold)
qed

lemma replay_gap_witness:
  "fst (admit_all [(Some 100, probe), (Some 700, probe)] gate_new) = [True, True]"
  using replay_gap [of probe 100] by (simp add: probe_def abs_diff_def SOFT_MAX_SKEW_SECS_def)

end
