(* ===== verification/Items.thy ===== *)
theory Items
  imports StringMap
begin

text \<open>
  The items the message payloads share beyond those of \<open>Cbor\<close>: optional keys and arrays,
  small integers, sets of texts, and items that are skipped or kept as raw bytes. Each is an
  interpretation of \<open>wire_codec\<close>, so that the payload theories read and write them by
  simplification. The helpers they model are repeated in the sources of several payloads
  (\<open>messages/direct.rs\<close>, \<open>messages/peer.rs\<close>, \<open>messages/profile.rs\<close>, \<open>messages/device.rs\<close>).
\<close>

section \<open>Small integers, arrays, optional items\<close>

abbreviation cbor_u8 :: "byte \<Rightarrow> byte list" where
  "cbor_u8 b \<equiv> cbor_uint (ucast b)"

interpretation u8_item: wire_codec cbor_u8 "read_u8 err" "\<lambda>_. True"
  by unfold_locales (simp add: read_u8_iff)

interpretation u8_array: wire_codec "cbor_array cbor_u8" "read_array (read_u8 err)" "wf_array (\<lambda>_. True)"
  by (rule u8_item.array_codec)

interpretation text_array: wire_codec "cbor_array cbor_text" "read_array read_text" "wf_array wf_text"
  by (rule text_item.array_codec)

interpretation key32_array: wire_codec "cbor_array cbor_bytes" "read_array (read_fixed field 32)"
    "wf_array (wf_fixed 32)"
  by (rule key32_item.array_codec)

definition read_optional_32 :: "string \<Rightarrow> cbor_reader \<Rightarrow> (byte list option \<times> cbor_reader) result" where
  "read_optional_32 field r = and_then (read_bytes_or_null r) (\<lambda>(x, r). case x of
     None \<Rightarrow> Inr (None, r)
   | Some b \<Rightarrow> if length b \<noteq> 32 then Inl (BadFieldLength field 32 (length b)) else Inr (Some b, r))"

interpretation optional_32: wire_codec cbor_bytes_or_null "read_optional_32 field" "pred_option (wf_fixed 32)"
proof (rule wire_codecI)
  fix pre s x r'
  assume "read_optional_32 field (rdr pre s) = Inr (x, r')"
  then obtain y r where y: "read_bytes_or_null (rdr pre s) = Inr (y, r)"
      "(case y of None \<Rightarrow> Inr (None, r)
        | Some b \<Rightarrow> if length b \<noteq> 32 then Inl (BadFieldLength field 32 (length b)) else Inr (Some b, r)) = Inr (x, r')"
    by (auto simp: read_optional_32_def and_then_eq_Inr)
  from y(2) have "y = x \<and> r = r' \<and> pred_option (wf_fixed 32) x"
    by (cases y) (auto simp: wf_fixed_def split: if_splits)
  then show "pred_option (wf_fixed 32) x \<and>
      (\<exists>suf. s = cbor_bytes_or_null x @ suf \<and> r' = rdr (pre @ cbor_bytes_or_null x) suf)"
    using y(1) by (simp add: read_bytes_or_null_iff)
next
  fix pre suf x
  assume "pred_option (wf_fixed 32) x"
  then show "read_optional_32 field (rdr pre (cbor_bytes_or_null x @ suf)) =
      Inr (x, rdr (pre @ cbor_bytes_or_null x) suf)"
    by (cases x) (simp_all add: read_optional_32_def wire_write wf_bytes_opt_def wf_fixed_def wf_bytes_def)
qed

text \<open>The peek at the next byte that chooses between null and an item.\<close>

definition read_optional :: "string \<Rightarrow> (cbor_reader \<Rightarrow> ('a \<times> cbor_reader) result) \<Rightarrow> cbor_reader \<Rightarrow>
    ('a option \<times> cbor_reader) result" where
  "read_optional msg dec r = (case remaining r of
     [] \<Rightarrow> Inl (CborDecode msg)
   | peek # _ \<Rightarrow>
       if peek = 0xF6 then and_then (read_bytes_or_null r) (\<lambda>(_, r). Inr (None, r))
       else and_then (dec r) (\<lambda>(t, r). Inr (Some t, r)))"

definition cbor_or_null :: "('a \<Rightarrow> byte list) \<Rightarrow> 'a option \<Rightarrow> byte list" where
  "cbor_or_null enc x = (case x of Some t \<Rightarrow> enc t | None \<Rightarrow> cbor_null)"

lemma optional_codec:
  assumes "wire_codec enc dec ok" "\<And>x. \<exists>m v t. m < 7 \<and> enc x = head_bytes m v @ t"
  shows "wire_codec (cbor_or_null enc) (read_optional msg dec) (pred_option ok)"
  unfolding cbor_or_null_def [abs_def] by (rule nullable_codec [OF assms]) (rule read_optional_def)

lemma array_head_form: "\<exists>m v t. m < 7 \<and> cbor_array enc x = head_bytes m v @ t"
  unfolding cbor_array_def array_header_head by (rule exI [of _ 4]) auto

lemma bytes_head_form: "\<exists>m v t. m < 7 \<and> cbor_bytes x = head_bytes m v @ t"
  unfolding cbor_bytes_head by (rule exI [of _ 2]) auto

lemma u8_head_form: "\<exists>m v t. m < 7 \<and> cbor_u8 x = head_bytes m v @ t"
  by (rule uint_head_form)

interpretation optional_u8: wire_codec "cbor_or_null cbor_u8" "read_optional msg (read_u8 err)" "\<lambda>_. True"
  using optional_codec [OF u8_item.wire_codec_axioms u8_head_form] by (simp add: option.pred_True)

interpretation optional_text_array: wire_codec "cbor_or_null (cbor_array cbor_text)"
    "read_optional msg (read_array read_text)" "pred_option (wf_array wf_text)"
  by (rule optional_codec [OF text_array.wire_codec_axioms array_head_form])

lemmas shared_iff [wire_iff] = u8_array.dec_iff text_array.dec_iff key32_array.dec_iff
  optional_32.dec_iff optional_u8.dec_iff optional_text_array.dec_iff
lemmas shared_write [wire_write] = u8_array.dec_enc text_array.dec_enc key32_array.dec_enc
  optional_32.dec_enc optional_u8.dec_enc optional_text_array.dec_enc

section \<open>Sets of texts\<close>

text \<open>
  \<open>BTreeSet<String>\<close>, the list of its elements in iteration order. The reader insists on
  ascending order, so every text it inserts goes to the end.
\<close>

fun set_insert :: "string \<Rightarrow> string list \<Rightarrow> string list" where
  "set_insert x [] = [x]"
| "set_insert x (y # ys) = (if x < y then x # y # ys else if x = y then y # ys else y # set_insert x ys)"

fun read_set_items :: "string \<Rightarrow> nat \<Rightarrow> string option \<Rightarrow> string list \<Rightarrow> cbor_reader \<Rightarrow>
    (string list \<times> cbor_reader) result" where
  "read_set_items msg 0 prev acc r = Inr (acc, r)"
| "read_set_items msg (Suc n) prev acc r = and_then (read_text r) (\<lambda>(s, r).
     if (case prev of Some p \<Rightarrow> s \<le> p | None \<Rightarrow> False) then Inl (CborNotCanonical msg)
     else read_set_items msg n (Some s) (set_insert s acc) r)"

definition read_text_set :: "string \<Rightarrow> cbor_reader \<Rightarrow> (string list \<times> cbor_reader) result" where
  "read_text_set msg r = and_then (read_array_header r) (\<lambda>(n, r). read_set_items msg n None [] r)"

definition wf_text_set :: "string list \<Rightarrow> bool" where
  [wf_defs]: "wf_text_set xs \<longleftrightarrow> sorted_wrt (<) xs \<and> wf_array wf_text xs"

lemma set_insert_last: "\<forall>y \<in> set ys. y < x \<Longrightarrow> set_insert x ys = ys @ [x]"
  by (induction ys) (auto dest: order.asym)

lemma read_set_items_iff:
  "(\<forall>y \<in> set acc. case prev of Some p \<Rightarrow> y \<le> p | None \<Rightarrow> False) \<Longrightarrow>
   read_set_items msg n prev acc (rdr pre s) = Inr (xs, r') \<longleftrightarrow>
     (\<exists>ys suf. length ys = n \<and> list_all wf_text ys \<and> sorted_wrt (<) ys \<and>
        (\<forall>y \<in> set ys. case prev of Some p \<Rightarrow> p < y | None \<Rightarrow> True) \<and> xs = acc @ ys \<and>
        s = concat (map cbor_text ys) @ suf \<and> r' = rdr (pre @ concat (map cbor_text ys)) suf)"
proof (induction n arbitrary: prev acc pre s)
  case 0
  then show ?case by auto
next
  case (Suc n)
  have step: "read_set_items msg (Suc n) prev acc (rdr pre s) = Inr (xs, r') \<longleftrightarrow>
      (\<exists>y t. wf_text y \<and> s = cbor_text y @ t \<and> (case prev of Some p \<Rightarrow> p < y | None \<Rightarrow> True) \<and>
        read_set_items msg n (Some y) (acc @ [y]) (rdr (pre @ cbor_text y) t) = Inr (xs, r'))" (is "?L \<longleftrightarrow> ?R")
  proof -
    have i: "set_insert y acc = acc @ [y]" if "case prev of Some p \<Rightarrow> p < y | None \<Rightarrow> True" for y
      using Suc.prems that by (intro set_insert_last) (auto split: option.splits)
    have o: "(case prev of Some p \<Rightarrow> y \<le> p | None \<Rightarrow> False) \<longleftrightarrow> \<not> (case prev of Some p \<Rightarrow> p < y | None \<Rightarrow> True)" for y
      by (auto split: option.split)
    show ?thesis
      using i by (auto simp: and_then_eq_Inr read_text_iff o split: if_splits)
  qed
  have IH: "read_set_items msg n (Some y) (acc @ [y]) (rdr (pre @ cbor_text y) t) = Inr (xs, r') \<longleftrightarrow>
      (\<exists>ys suf. length ys = n \<and> list_all wf_text ys \<and> sorted_wrt (<) ys \<and> (\<forall>z \<in> set ys. y < z) \<and>
        xs = (acc @ [y]) @ ys \<and> t = concat (map cbor_text ys) @ suf \<and>
        r' = rdr ((pre @ cbor_text y) @ concat (map cbor_text ys)) suf)"
    if "case prev of Some p \<Rightarrow> p < y | None \<Rightarrow> True" for y t
  proof -
    have "\<forall>z \<in> set (acc @ [y]). case Some y of Some p \<Rightarrow> z \<le> p | None \<Rightarrow> False"
      using Suc.prems that by (auto split: option.splits)
    from Suc.IH [OF this] show ?thesis by simp
  qed
  show ?case (is "_ \<longleftrightarrow> ?R")
  proof
    assume "read_set_items msg (Suc n) prev acc (rdr pre s) = Inr (xs, r')"
    then obtain y t ys suf where h: "wf_text y" "case prev of Some p \<Rightarrow> p < y | None \<Rightarrow> True" "length ys = n"
        "list_all wf_text ys" "sorted_wrt (<) ys" "\<forall>z \<in> set ys. y < z" "xs = (acc @ [y]) @ ys"
        "s = cbor_text y @ concat (map cbor_text ys) @ suf"
        "r' = rdr ((pre @ cbor_text y) @ concat (map cbor_text ys)) suf"
      unfolding step using IH by auto
    show ?R
      by (rule exI [of _ "y # ys"]) (use h in \<open>auto split: option.splits\<close>)
  next
    assume ?R
    then obtain y ys suf where h: "wf_text y" "case prev of Some p \<Rightarrow> p < y | None \<Rightarrow> True" "length ys = n"
        "list_all wf_text ys" "sorted_wrt (<) ys" "\<forall>z \<in> set ys. y < z" "xs = (acc @ [y]) @ ys"
        "s = cbor_text y @ concat (map cbor_text ys) @ suf"
        "r' = rdr ((pre @ cbor_text y) @ concat (map cbor_text ys)) suf"
      by (auto simp: length_Suc_conv)
    show "read_set_items msg (Suc n) prev acc (rdr pre s) = Inr (xs, r')"
      unfolding step
      by (intro exI [of _ y] exI [of _ "concat (map cbor_text ys) @ suf"] conjI, (use h in simp_all)[3],
        subst IH [OF h(2)]) (use h in blast)
  qed
qed

interpretation text_set: wire_codec "cbor_array cbor_text" "read_text_set msg" wf_text_set
  by unfold_locales
    (auto simp: read_text_set_def cbor_array_def and_then_eq_Inr read_array_header_iff read_set_items_iff
      wf_text_set_def wf_array_def)

lemmas text_set_iff [wire_iff] = text_set.dec_iff
lemmas text_set_write [wire_write] = text_set.dec_enc


section \<open>Records carried in a byte string\<close>

definition read_wrapped :: "(byte list \<Rightarrow> 'a result) \<Rightarrow> cbor_reader \<Rightarrow> ('a \<times> cbor_reader) result" where
  "read_wrapped dec r = and_then (read_bytes r) (\<lambda>(b, r). and_then (dec b) (\<lambda>x. Inr (x, r)))"

lemma read_wrapped_codec:
  assumes "\<And>bs x. dec bs = Inr x \<longleftrightarrow> ok x \<and> bs = enc x"
  shows "wire_codec (\<lambda>x. cbor_bytes (enc x)) (read_wrapped dec) (\<lambda>x. ok x \<and> wf_bytes (enc x))"
  by unfold_locales (auto simp: read_wrapped_def and_then_eq_Inr read_bytes_iff assms)

lemmas read_wrapped_iff = read_wrapped_codec [THEN wire_codec_iff]
lemmas read_wrapped_write = read_wrapped_codec [THEN wire_codec_write]

end
