(* ===== verification/HandshakeMessages.thy ===== *)
theory HandshakeMessages
  imports Items
begin

text \<open>
  The handshake payloads, \<open>sidevers-core/src/messages/handshake.rs\<close> (types 0x10 to 0x12).
  All three decoders insist on the end of the input.
\<close>

section \<open>Capabilities\<close>

type_synonym capabilities = "u64 text_map"

definition encode_capabilities :: "capabilities \<Rightarrow> byte list" where
  "encode_capabilities = encode_text_map cbor_uint"

definition decode_capabilities :: "cbor_reader \<Rightarrow> (capabilities \<times> cbor_reader) result" where
  "decode_capabilities = read_text_map read_u64 ''capabilities keys not in canonical order''"

definition wf_capabilities :: "capabilities \<Rightarrow> bool" where
  "wf_capabilities = wf_text_map (\<lambda>_. True)"

interpretation capabilities_item: wire_codec encode_capabilities decode_capabilities wf_capabilities
  unfolding encode_capabilities_def decode_capabilities_def wf_capabilities_def
  by (rule uint_item.text_map_codec)

lemmas capabilities_iff [wire_iff] = capabilities_item.dec_iff
lemmas capabilities_write [wire_write] = capabilities_item.dec_enc

section \<open>Hello\<close>

definition EPH_PUB_LEN :: nat where "EPH_PUB_LEN = 32"

record hello_payload =
  h_v_max :: u64
  h_v_min :: u64
  h_extensions :: "string list"
  h_eph_pub :: "byte list"
  h_intent :: byte
  h_capabilities :: capabilities

definition hello_entries :: "hello_payload \<Rightarrow> map_entry list" where
  "hello_entries x =
     [(cbor_text ''v_max'', cbor_uint (h_v_max x)),
      (cbor_text ''v_min'', cbor_uint (h_v_min x)),
      (cbor_text ''intent'', cbor_u8 (h_intent x)),
      (cbor_text ''eph_pub'', cbor_bytes (h_eph_pub x)),
      (cbor_text ''extensions'', cbor_array cbor_text (h_extensions x)),
      (cbor_text ''capabilities'', encode_capabilities (h_capabilities x))]"

definition encode_hello :: "hello_payload \<Rightarrow> byte list" where
  "encode_hello x = encode_map (hello_entries x)"

definition hello_fields :: "cbor_reader \<Rightarrow> (hello_payload \<times> cbor_reader) result" where
  "hello_fields r = (let msg = ''HelloPayload keys not in canonical order'' in
     and_then (read_field ''v_max'' msg read_u64 r) (\<lambda>(v_max, r).
     and_then (read_field ''v_min'' msg read_u64 r) (\<lambda>(v_min, r).
     and_then (read_field ''intent'' msg (read_u8 (CborDecode ''intent out of u8 range'')) r) (\<lambda>(intent, r).
     and_then (read_field ''eph_pub'' msg (read_fixed ''eph_pub'' EPH_PUB_LEN) r) (\<lambda>(eph_pub, r).
     and_then (read_field ''extensions'' msg (read_array read_text) r) (\<lambda>(extensions, r).
     and_then (read_field ''capabilities'' msg decode_capabilities r) (\<lambda>(capabilities, r).
     Inr (\<lparr>h_v_max = v_max,
          h_v_min = v_min,
          h_extensions = extensions,
          h_eph_pub = eph_pub,
          h_intent = intent,
          h_capabilities = capabilities\<rparr>, r))))))))"

definition decode_hello :: "byte list \<Rightarrow> hello_payload result" where
  "decode_hello =
     decode_all ''trailing bytes after HelloPayload''
       (read_map 6 ''HelloPayload expected 6 keys'' hello_fields)"

definition wf_hello :: "hello_payload \<Rightarrow> bool" where
  [wf_defs]: "wf_hello x \<longleftrightarrow> wf_fixed 32 (h_eph_pub x) \<and>
     wf_array wf_text (h_extensions x) \<and>
     wf_capabilities (h_capabilities x)"

lemma hello_codec: "wire_codec encode_hello (read_map 6 msg hello_fields) wf_hello"
  unfolding encode_hello_def [abs_def]
  by (rule map_codecI,
      (auto simp: and_then_eq_Inr literal_key wire_iff hello_fields_def Let_def hello_entries_def wf_hello_def cbor_key_text EPH_PUB_LEN_def)[1],
      simp_all add: literal_key wire_write hello_fields_def Let_def hello_entries_def wf_hello_def cbor_key_text EPH_PUB_LEN_def)

interpretation hello_msg: strict_message encode_hello decode_hello wf_hello
  unfolding decode_hello_def by (rule strict_messageI) (rule decode_all_iff [OF hello_codec])

section \<open>HelloBack\<close>

record hello_back_payload =
  hb_v :: u64
  hb_accept :: bool
  hb_reason :: "string option"
  hb_eph_pub :: "byte list"
  hb_extensions :: "string list"
  hb_capabilities :: capabilities

definition hello_back_entries :: "hello_back_payload \<Rightarrow> map_entry list" where
  "hello_back_entries x =
     [(cbor_text ''v'', cbor_uint (hb_v x)),
      (cbor_text ''accept'', cbor_boolean (hb_accept x)),
      (cbor_text ''reason'', cbor_text_or_null (hb_reason x)),
      (cbor_text ''eph_pub'', cbor_bytes (hb_eph_pub x)),
      (cbor_text ''extensions'', cbor_array cbor_text (hb_extensions x)),
      (cbor_text ''capabilities'', encode_capabilities (hb_capabilities x))]"

definition encode_hello_back :: "hello_back_payload \<Rightarrow> byte list" where
  "encode_hello_back x = encode_map (hello_back_entries x)"

definition hello_back_fields :: "cbor_reader \<Rightarrow> (hello_back_payload \<times> cbor_reader) result" where
  "hello_back_fields r = (let msg = ''HelloBackPayload keys not in canonical order'' in
     and_then (read_field ''v'' msg read_u64 r) (\<lambda>(v, r).
     and_then (read_field ''accept'' msg read_bool r) (\<lambda>(accept, r).
     and_then (read_field ''reason'' msg (read_optional_text ''missing reason'') r) (\<lambda>(reason, r).
     and_then (read_field ''eph_pub'' msg (read_fixed ''eph_pub'' EPH_PUB_LEN) r) (\<lambda>(eph_pub, r).
     and_then (read_field ''extensions'' msg (read_array read_text) r) (\<lambda>(extensions, r).
     and_then (read_field ''capabilities'' msg decode_capabilities r) (\<lambda>(capabilities, r).
     Inr (\<lparr>hb_v = v,
          hb_accept = accept,
          hb_reason = reason,
          hb_eph_pub = eph_pub,
          hb_extensions = extensions,
          hb_capabilities = capabilities\<rparr>, r))))))))"

definition decode_hello_back :: "byte list \<Rightarrow> hello_back_payload result" where
  "decode_hello_back =
     decode_all ''trailing bytes after HelloBackPayload''
       (read_map 6 ''HelloBackPayload expected 6 keys'' hello_back_fields)"

definition wf_hello_back :: "hello_back_payload \<Rightarrow> bool" where
  [wf_defs]: "wf_hello_back x \<longleftrightarrow> pred_option wf_text (hb_reason x) \<and>
     wf_fixed 32 (hb_eph_pub x) \<and>
     wf_array wf_text (hb_extensions x) \<and>
     wf_capabilities (hb_capabilities x)"

lemma hello_back_codec: "wire_codec encode_hello_back (read_map 6 msg hello_back_fields) wf_hello_back"
  unfolding encode_hello_back_def [abs_def]
  by (rule map_codecI,
      (auto simp: and_then_eq_Inr literal_key wire_iff hello_back_fields_def Let_def hello_back_entries_def wf_hello_back_def cbor_key_text EPH_PUB_LEN_def)[1],
      simp_all add: literal_key wire_write hello_back_fields_def Let_def hello_back_entries_def wf_hello_back_def cbor_key_text EPH_PUB_LEN_def)

interpretation hello_back_msg: strict_message encode_hello_back decode_hello_back wf_hello_back
  unfolding decode_hello_back_def by (rule strict_messageI) (rule decode_all_iff [OF hello_back_codec])

section \<open>Confirm\<close>

record confirm_payload =
  cp_proof :: "byte list"

definition confirm_entries :: "confirm_payload \<Rightarrow> map_entry list" where
  "confirm_entries x =
     [(cbor_text ''proof'', cbor_bytes (cp_proof x))]"

definition encode_confirm :: "confirm_payload \<Rightarrow> byte list" where
  "encode_confirm x = encode_map (confirm_entries x)"

definition confirm_fields :: "cbor_reader \<Rightarrow> (confirm_payload \<times> cbor_reader) result" where
  "confirm_fields r =
     and_then (read_field ''proof'' ''ConfirmPayload expects proof'' (read_fixed ''proof'' 32) r) (\<lambda>(proof, r).
     Inr (\<lparr>cp_proof = proof\<rparr>, r))"

definition decode_confirm :: "byte list \<Rightarrow> confirm_payload result" where
  "decode_confirm =
     decode_all ''trailing bytes after Confirm''
       (read_map 1 ''ConfirmPayload expected 1 key'' confirm_fields)"

definition wf_confirm :: "confirm_payload \<Rightarrow> bool" where
  [wf_defs]: "wf_confirm x \<longleftrightarrow> wf_fixed 32 (cp_proof x)"

lemma confirm_codec: "wire_codec encode_confirm (read_map 1 msg confirm_fields) wf_confirm"
  unfolding encode_confirm_def [abs_def]
  by (rule map_codecI,
      (auto simp: and_then_eq_Inr literal_key wire_iff confirm_fields_def Let_def confirm_entries_def wf_confirm_def cbor_key_text)[1],
      simp_all add: literal_key wire_write confirm_fields_def Let_def confirm_entries_def wf_confirm_def cbor_key_text)

interpretation confirm_msg: strict_message encode_confirm decode_confirm wf_confirm
  unfolding decode_confirm_def by (rule strict_messageI) (rule decode_all_iff [OF confirm_codec])

end
