(* ===== verification/Framing.thy ===== *)
theory Framing
  imports Envelope HandshakeMessages
begin

text \<open>
  What every service of the node speaks through: the message types of
  \<open>sidevers-core/src/envelope.rs\<close>, signing with the clock and the random source, the
  length-prefixed frames of \<open>sidevers-net/src/framing.rs\<close> and the sessions of
  \<open>sidevers-net/src/session.rs\<close>. A stream is the list of the bytes the peer will ever send on
  it; reading past its end is the error \<open>NetReadExact\<close>.
\<close>

section \<open>Message types\<close>

definition HELLO :: message_type where "HELLO = 0x10"
definition HELLO_BACK :: message_type where "HELLO_BACK = 0x11"
definition CONFIRM :: message_type where "CONFIRM = 0x12"

definition DIRECT_MESSAGE :: message_type where "DIRECT_MESSAGE = 0x20"
definition DIRECT_RECEIPT :: message_type where "DIRECT_RECEIPT = 0x21"
definition DIRECT_TYPING :: message_type where "DIRECT_TYPING = 0x22"
definition PROFILE_FETCH :: message_type where "PROFILE_FETCH = 0x23"
definition PROFILE_DELIVER :: message_type where "PROFILE_DELIVER = 0x24"
definition SIDE_RETIREMENT :: message_type where "SIDE_RETIREMENT = 0x25"
definition DEVICE_PAIRING_REQUEST :: message_type where "DEVICE_PAIRING_REQUEST = 0x26"
definition DEVICE_STATE_BUNDLE :: message_type where "DEVICE_STATE_BUNDLE = 0x27"
definition DEVICE_REVOKE :: message_type where "DEVICE_REVOKE = 0x28"
definition STATE_DELTA :: message_type where "STATE_DELTA = 0x29"
definition LINKAGE_PUBLISH :: message_type where "LINKAGE_PUBLISH = 0x2A"

definition STORAGE_GET :: message_type where "STORAGE_GET = 0x30"
definition STORAGE_HAVE :: message_type where "STORAGE_HAVE = 0x31"
definition STORAGE_MISS :: message_type where "STORAGE_MISS = 0x32"
definition STORAGE_OFFER :: message_type where "STORAGE_OFFER = 0x33"
definition STORAGE_WANT :: message_type where "STORAGE_WANT = 0x34"
definition STORAGE_RETRACT :: message_type where "STORAGE_RETRACT = 0x35"

definition PEER_ASK :: message_type where "PEER_ASK = 0x40"
definition PEER_TELL :: message_type where "PEER_TELL = 0x41"
definition RENDEZVOUS :: message_type where "RENDEZVOUS = 0x42"
definition RENDEZVOUS_ACK :: message_type where "RENDEZVOUS_ACK = 0x43"
definition FORWARD_STORE :: message_type where "FORWARD_STORE = 0x44"
definition FORWARD_DELIVER :: message_type where "FORWARD_DELIVER = 0x45"

definition ANNOUNCEMENT :: message_type where "ANNOUNCEMENT = 0x65"

lemmas direct_types = DIRECT_MESSAGE_def DIRECT_RECEIPT_def DIRECT_TYPING_def PROFILE_FETCH_def
  PROFILE_DELIVER_def SIDE_RETIREMENT_def DEVICE_PAIRING_REQUEST_def DEVICE_STATE_BUNDLE_def
  DEVICE_REVOKE_def STATE_DELTA_def LINKAGE_PUBLISH_def
lemmas storage_types = STORAGE_GET_def STORAGE_HAVE_def STORAGE_MISS_def STORAGE_OFFER_def
  STORAGE_WANT_def STORAGE_RETRACT_def
lemmas gossip_types = PEER_ASK_def PEER_TELL_def RENDEZVOUS_def RENDEZVOUS_ACK_def FORWARD_STORE_def
  FORWARD_DELIVER_def ANNOUNCEMENT_def
lemmas handshake_types = HELLO_def HELLO_BACK_def CONFIRM_def

section \<open>Signing now\<close>

text \<open>The clock reads before 1970 or it gives seconds.\<close>

definition now_unix_seconds :: "u64 option \<Rightarrow> u64 result" where
  "now_unix_seconds clock = (case clock of
     Some n \<Rightarrow> Inr n | None \<Rightarrow> Inl (Invariant ''system clock before unix epoch''))"

definition sign_fresh :: "crypto \<Rightarrow> side_key \<Rightarrow> byte list option \<Rightarrow> message_type \<Rightarrow> byte list \<Rightarrow> u64 option \<Rightarrow>
    byte list option \<Rightarrow> envelope result" where
  "sign_fresh C side to mt payload clock rnd =
     and_then (now_unix_seconds clock) (\<lambda>ts.
     and_then (fill_random rnd) (\<lambda>nonce. Inr (sign_with C mt side to payload ts nonce)))"

definition sign_response :: "crypto \<Rightarrow> side_key \<Rightarrow> byte list \<Rightarrow> message_type \<Rightarrow> byte list \<Rightarrow> u64 option \<Rightarrow>
    byte list option \<Rightarrow> envelope result" where
  "sign_response C side peer mt payload clock rnd = sign_fresh C side (Some peer) mt payload clock rnd"

section \<open>Errors of the network layer\<close>

datatype net_error =
    NetCore error
  | NetReadExact
  | NetDeclined string
  | NetTimeout
  | NetProtocol string
  | NetWrongIntent byte byte
  | NetTooLarge u32 u32
  | NetSqlite string
  | NetInvariant string

type_synonym 'a net_result = "net_error + 'a"

abbreviation core :: "'a result \<Rightarrow> 'a net_result" where
  "core m \<equiv> map_err NetCore m"

section \<open>Frames\<close>

definition MAX_ENVELOPE_LEN :: u32 where "MAX_ENVELOPE_LEN = 64 * 1024"

definition send_envelope :: "envelope \<Rightarrow> byte list net_result" where
  "send_envelope env = (let bytes = to_wire_bytes env in
     if unat MAX_ENVELOPE_LEN < length bytes
     then Inl (NetTooLarge (word_of_nat (length bytes)) MAX_ENVELOPE_LEN)
     else Inr (be_bytes 4 (length bytes) @ bytes))"

definition read_exact :: "nat \<Rightarrow> byte list \<Rightarrow> (byte list \<times> byte list) net_result" where
  "read_exact n stream =
     (if length stream < n then Inl NetReadExact else Inr (take n stream, drop n stream))"

definition recv_envelope :: "crypto \<Rightarrow> byte list \<Rightarrow> (envelope \<times> byte list) net_result" where
  "recv_envelope C stream =
     and_then (read_exact 4 stream) (\<lambda>(len_buf, stream).
     let len = word_of_nat (be_val len_buf) :: u32 in
     if len = 0 \<or> MAX_ENVELOPE_LEN < len then Inl (NetTooLarge len MAX_ENVELOPE_LEN)
     else and_then (read_exact (unat len) stream) (\<lambda>(frame, stream).
          and_then (core (from_wire_bytes C frame)) (\<lambda>env. Inr (env, stream))))"

lemma read_exact_iff: "read_exact n s = Inr (x, t) \<longleftrightarrow> s = x @ t \<and> length x = n"
  by (auto simp: read_exact_def)

lemma max_len [simp]: "unat MAX_ENVELOPE_LEN = 65536"
  by (simp add: MAX_ENVELOPE_LEN_def)

lemma to_wire_nonempty: "to_wire_bytes e \<noteq> []"
  by (simp add: to_wire_bytes_def encode_map_body map_header_head)

lemma frame_length:
  assumes "length bs = 4"
  shows "unat (word_of_nat (be_val bs) :: u32) = be_val bs"
  using be_val_bound [of bs] assms by (simp add: unat_of_nat)

text \<open>A frame is read back exactly when it was written: neither side accepts more or less.\<close>

lemma recv_envelope_iff:
  "recv_envelope C s = Inr (e, t) \<longleftrightarrow> wf_envelope C e \<and> (\<exists>f. send_envelope e = Inr f \<and> s = f @ t)"
proof
  assume "recv_envelope C s = Inr (e, t)"
  then obtain h b where h: "s = h @ b @ t" "length h = 4" "be_val h \<noteq> 0" "be_val h \<le> 65536"
      "length b = be_val h" "from_wire_bytes C b = Inr e"
    by (auto simp: recv_envelope_def and_then_eq_Inr read_exact_iff Let_def frame_length word_less_nat_alt
        not_less simp flip: unat_eq_zero split: if_splits)
  have "be_bytes 4 (length b) = h" using be_bytes_be_val [of h] h(2,5) by simp
  moreover have "b = to_wire_bytes e" "wf_envelope C e" using h(6) by (simp_all add: from_wire_bytes_iff)
  ultimately show "wf_envelope C e \<and> (\<exists>f. send_envelope e = Inr f \<and> s = f @ t)"
    using h(1,4,5) by (simp add: send_envelope_def Let_def)
next
  assume "wf_envelope C e \<and> (\<exists>f. send_envelope e = Inr f \<and> s = f @ t)"
  then have e: "wf_envelope C e" "length (to_wire_bytes e) \<le> 65536"
      "s = be_bytes 4 (length (to_wire_bytes e)) @ to_wire_bytes e @ t"
    by (auto simp: send_envelope_def Let_def split: if_splits)
  let ?n = "length (to_wire_bytes e)"
  have n: "unat (word_of_nat (be_val (be_bytes 4 ?n)) :: u32) = ?n" "0 < ?n"
    using e(2) to_wire_nonempty [of e] by (simp_all add: be_val_be_bytes unat_of_nat)
  then have "(word_of_nat (be_val (be_bytes 4 ?n)) :: u32) \<noteq> 0" by (metis less_irrefl unat_0)
  moreover have "from_wire_bytes C (to_wire_bytes e) = Inr e" using e(1) by (simp add: from_wire_bytes_iff)
  ultimately show "recv_envelope C s = Inr (e, t)"
    unfolding e(3) using n e(2) by (simp add: recv_envelope_def read_exact_def Let_def word_less_nat_alt)
qed

section \<open>Sessions\<close>

datatype intent = IntentDirect | IntentStorage | IntentGossip | IntentVerse | IntentPublicLayer

fun as_u8 :: "intent \<Rightarrow> byte" where
  "as_u8 IntentDirect = 1"
| "as_u8 IntentStorage = 2"
| "as_u8 IntentGossip = 3"
| "as_u8 IntentVerse = 4"
| "as_u8 IntentPublicLayer = 5"

definition from_u8 :: "byte \<Rightarrow> intent option" where
  "from_u8 v =
     (if v = 1 then Some IntentDirect
      else if v = 2 then Some IntentStorage
      else if v = 3 then Some IntentGossip
      else if v = 4 then Some IntentVerse
      else if v = 5 then Some IntentPublicLayer
      else None)"

definition accepts :: "intent \<Rightarrow> message_type \<Rightarrow> bool" where
  "accepts i mt = (case (i, category mt) of
     (IntentDirect, CatDirect) \<Rightarrow> True
   | (IntentStorage, CatStorage) \<Rightarrow> True
   | (IntentGossip, CatDiscovery) \<Rightarrow> True
   | (IntentGossip, CatPublic) \<Rightarrow> True
   | (IntentVerse, CatVerse) \<Rightarrow> True
   | (IntentPublicLayer, CatPublic) \<Rightarrow> True
   | _ \<Rightarrow> False)"

lemma from_as_u8 [simp]: "from_u8 (as_u8 i) = Some i"
  by (cases i) (simp_all add: from_u8_def)

lemma from_u8_Some: "from_u8 v = Some i \<longleftrightarrow> v = as_u8 i"
  by (cases i) (auto simp: from_u8_def)

lemma from_u8_known: "from_u8 v \<noteq> None \<longleftrightarrow> 1 \<le> v \<and> v \<le> 5"
proof -
  have "1 \<le> v \<and> v \<le> 5 \<longleftrightarrow> v = 1 \<or> v = 2 \<or> v = 3 \<or> v = 4 \<or> v = 5"
    by (simp add: word_le_nat_alt word_unat_eq_iff) arith
  then show ?thesis by (auto simp: from_u8_def)
qed

record session =
  ses_key :: "byte list"
  ses_peer_side :: "byte list"
  ses_intent :: intent
  ses_peer_capabilities :: capabilities

text \<open>Sending one envelope on a fresh stream, and reading one from an accepted stream.\<close>

definition open_and_send :: "session \<Rightarrow> envelope \<Rightarrow> byte list net_result" where
  "open_and_send s env =
     (if \<not> accepts (ses_intent s) (env_type env)
      then Inl (NetWrongIntent (env_type env) (as_u8 (ses_intent s)))
      else send_envelope env)"

definition accept_one :: "crypto \<Rightarrow> session \<Rightarrow> byte list \<Rightarrow> (envelope \<times> byte list) net_result" where
  "accept_one C s stream =
     and_then (recv_envelope C stream) (\<lambda>(env, stream).
     if \<not> accepts (ses_intent s) (env_type env)
     then Inl (NetWrongIntent (env_type env) (as_u8 (ses_intent s)))
     else Inr (env, stream))"

text \<open>A fresh envelope to the peer of the session, and the answer to a sender on its stream.\<close>

definition send_signed :: "crypto \<Rightarrow> session \<Rightarrow> side_key \<Rightarrow> message_type \<Rightarrow> byte list \<Rightarrow> u64 option \<Rightarrow> byte list option \<Rightarrow>
    (envelope \<times> byte list) net_result" where
  "send_signed C ses side mt payload clock rnd =
     and_then (core (sign_response C side (ses_peer_side ses) mt payload clock rnd)) (\<lambda>env.
     and_then (open_and_send ses env) (\<lambda>frame. Inr (env, frame)))"

definition signed_reply :: "crypto \<Rightarrow> side_key \<Rightarrow> byte list \<Rightarrow> message_type \<Rightarrow> byte list \<Rightarrow> u64 option \<Rightarrow> byte list option \<Rightarrow>
    envelope net_result" where
  "signed_reply C side peer mt payload clock rnd =
     and_then (core (sign_response C side peer mt payload clock rnd)) (\<lambda>resp.
     and_then (send_envelope resp) (\<lambda>_. Inr resp))"

lemma accept_one_iff:
  "accept_one C s st = Inr (e, t) \<longleftrightarrow>
     wf_envelope C e \<and> accepts (ses_intent s) (env_type e) \<and> (\<exists>f. send_envelope e = Inr f \<and> st = f @ t)"
  by (auto simp: accept_one_def and_then_eq_Inr recv_envelope_iff split: if_splits)

text \<open>Both ends of a session agree on which types it carries.\<close>

lemma open_accept:
  "ses_intent s = ses_intent s' \<Longrightarrow> wf_envelope C e \<Longrightarrow> open_and_send s e = Inr f \<Longrightarrow>
   accept_one C s' (f @ t) = Inr (e, t)"
  by (auto simp: accept_one_iff open_and_send_def split: if_splits)

section \<open>Sizes\<close>

lemma wire_length:
  assumes "wf_env_fields e"
  shows "length (to_wire_bytes e) \<le> 400 + length (env_payload e)"
proof -
  have "length (to_entry (env_to e)) \<le> 41"
    using assms item_lengths(2) [of "the (env_to e)"]
    by (cases "env_to e") (auto simp: to_entry_def cbor_null_def wf_env_fields_def wf_fixed_def)
  moreover have "length (cbor_bytes (env_from e)) \<le> 41" "length (cbor_bytes (env_nonce e)) \<le> 25"
      "length (cbor_bytes (env_sig e)) \<le> 73"
    using assms item_lengths(2) [of "env_from e"] item_lengths(2) [of "env_nonce e"] item_lengths(2) [of "env_sig e"]
    by (auto simp: wf_env_fields_def wf_fixed_def)
  moreover have "length (cbor_text ''t'') \<le> 10" "length (cbor_text ''v'') \<le> 10" "length (cbor_text ''to'') \<le> 11"
      "length (cbor_text ''ts'') \<le> 11" "length (cbor_text ''sig'') \<le> 12" "length (cbor_text ''from'') \<le> 13"
      "length (cbor_text ''nonce'') \<le> 14" "length (cbor_text ''payload'') \<le> 16"
    using item_lengths(3) by (smt (verit) list.size One_nat_def add.commute plus_1_eq_Suc numeral_nat add_Suc)+
  moreover note item_lengths(1) [of "ucast (env_type e)"] item_lengths(1) [of "env_version e"]
    item_lengths(1) [of "env_timestamp e"] item_lengths(2) [of "env_payload e"] item_lengths(4) [of "length (wire_entries e)"]
  ultimately show ?thesis
    by (simp add: to_wire_bytes_def encode_map_body wire_entries_def cbor_key_text)
qed

section \<open>Signing and sending\<close>

lemma sign_response_ok:
  "length nonce = 16 \<Longrightarrow>
   sign_response C k peer mt payload (Some ts) (Some nonce) = Inr (sign_with C mt k (Some peer) payload ts nonce)"
  by (simp add: sign_response_def sign_fresh_def now_unix_seconds_def fill_random_def)

lemma send_envelope_ok:
  assumes "wf_envelope C env" "length (env_payload env) \<le> 65136"
  shows "\<exists>f. send_envelope env = Inr f"
  using assms wire_length [of env] by (simp add: send_envelope_def wf_envelope_def Let_def)

lemma signed_reply_ok:
  assumes "signature_laws C" "wf_side k" "length peer = 32" "length payload \<le> 65136" "length nonce = 16"
  shows "signed_reply C k peer mt payload (Some ts) (Some nonce) = Inr (sign_with C mt k (Some peer) payload ts nonce)"
proof -
  have "wf_envelope C (sign_with C mt k (Some peer) payload ts nonce)"
    using assms by (intro sign_with_wf) (simp_all add: wf_fixed_def wf_bytes_def)
  from send_envelope_ok [OF this] assms(4,5) show ?thesis
    by (auto simp: signed_reply_def sign_response_ok)
qed

lemma signed_reply_fields:
  assumes "signed_reply C k peer mt payload clock rnd = Inr resp"
  shows "env_type resp = mt \<and> env_payload resp = payload \<and> env_from resp = public_bytes C k \<and> env_to resp = Some peer"
  using assms by (auto simp: signed_reply_def sign_response_def sign_fresh_def and_then_eq_Inr)

text \<open>What is sent over a session arrives at the other end as the signed envelope.\<close>

lemma send_signed_arrives:
  assumes "send_signed C ses k mt payload (Some ts) (Some nonce) = Inr (env, frame)"
    and "signature_laws C" "wf_side k" "length (ses_peer_side ses) = 32" "length nonce = 16" "length payload < 2 ^ 17"
    and "ses_intent ses' = ses_intent ses"
  shows "env = sign_with C mt k (Some (ses_peer_side ses)) payload ts nonce \<and> wf_envelope C env \<and>
    accept_one C ses' (frame @ rest) = Inr (env, rest)"
proof -
  have env: "env = sign_with C mt k (Some (ses_peer_side ses)) payload ts nonce" "open_and_send ses env = Inr frame"
    using assms(1,5) by (auto simp: send_signed_def sign_response_ok and_then_eq_Inr)
  moreover have "wf_envelope C env"
    unfolding env(1) using assms(2-6) by (intro sign_with_wf) (simp_all add: wf_fixed_def wf_bytes_def)
  ultimately show ?thesis using open_accept [OF assms(7) [symmetric]] by simp
qed

end
