(* ===== verification/VerseServer.thy ===== *)
theory VerseServer
  imports VerseHost Gate Framing
begin

text \<open>
  The verse service of \<open>sidevers-net/src/node.rs\<close>: the handlers of \<open>serve_verse\<close>, key
  rotation and its delivery, post fan-out, the owner's operations and the member's side of
  the protocol.

  Hosted verses live in a heap of handles (\<open>Arc<Mutex<VerseHostInner>>\<close>): a session holds
  the handles it found when it started, also when a verse is replaced later. A handler
  runs under the locks it takes one after the other; it returns the heap, what it sends
  and the tasks it spawns, which run later as steps of their own. All clock readings of
  one handler run have the same value; \<open>rnd i\<close> is the outcome of its \<open>i\<close>-th draw of
  randomness.
\<close>

section \<open>Message types and labels\<close>

definition CONTRACT_FETCH :: message_type where "CONTRACT_FETCH = 0x50"
definition CONTRACT_DELIVER :: message_type where "CONTRACT_DELIVER = 0x51"
definition JOIN_REQUEST :: message_type where "JOIN_REQUEST = 0x52"
definition JOIN_ACCEPT :: message_type where "JOIN_ACCEPT = 0x53"
definition JOIN_DECLINE :: message_type where "JOIN_DECLINE = 0x54"
definition VERSE_LEAVE :: message_type where "VERSE_LEAVE = 0x55"
definition VERSE_REMOVE :: message_type where "VERSE_REMOVE = 0x56"
definition VERSE_POST :: message_type where "VERSE_POST = 0x57"
definition VERSE_AMEND :: message_type where "VERSE_AMEND = 0x58"
definition VERSE_RECONSENT :: message_type where "VERSE_RECONSENT = 0x59"

lemmas verse_types = CONTRACT_FETCH_def CONTRACT_DELIVER_def JOIN_REQUEST_def JOIN_ACCEPT_def
  JOIN_DECLINE_def VERSE_LEAVE_def VERSE_REMOVE_def VERSE_POST_def VERSE_AMEND_def VERSE_RECONSENT_def

definition KEY_SHARE_AAD :: "byte list" where
  "KEY_SHARE_AAD = text_bytes ''sidevers/v1/verse-key-share''"

definition VERSE_POST_AAD :: "byte list" where
  "VERSE_POST_AAD = text_bytes ''sidevers/v1/verse-post''"

section \<open>State\<close>

type_synonym handle = nat

record verse_node =
  vn_side :: side_key
  vn_heap :: "handle \<rightharpoonup> verse_host"
  vn_hosted :: "(byte list \<times> handle) list"
  vn_posts_received :: u64

record verse_session =
  sess_peer :: "byte list"
  sess_connection :: connection
  sess_hosts :: "(byte list \<times> handle) list"
  sess_index :: "(byte list \<times> byte list) list"
  sess_default :: handle

datatype outgoing = Reply envelope | Received envelope "byte list" | Pushed connection envelope

datatype task = Fanout handle envelope "byte list" | KeyPush handle "byte list" connection envelope
  | AmendPush connection envelope

record verse_result =
  vres_node :: verse_node
  vres_out :: "outgoing list"
  vres_tasks :: "task list"
  vres_error :: "error option"

definition done_with :: "verse_node \<Rightarrow> outgoing list \<Rightarrow> task list \<Rightarrow> verse_result" where
  "done_with n out tasks = \<lparr>vres_node = n, vres_out = out, vres_tasks = tasks, vres_error = None\<rparr>"

definition failed :: "verse_node \<Rightarrow> error \<Rightarrow> verse_result" where
  "failed n e = \<lparr>vres_node = n, vres_out = [], vres_tasks = [], vres_error = Some e\<rparr>"

definition with_mut :: "handle \<Rightarrow> (verse_host \<Rightarrow> verse_host) \<Rightarrow> verse_node \<Rightarrow> verse_node" where
  "with_mut a f n = n\<lparr>vn_heap := (case vn_heap n a of
     Some h \<Rightarrow> (vn_heap n)(a \<mapsto> f h) | None \<Rightarrow> vn_heap n)\<rparr>"

section \<open>Responses\<close>

definition reply :: "verse_node \<Rightarrow> envelope result \<Rightarrow> verse_result" where
  "reply n resp = (case resp of Inl e \<Rightarrow> failed n e | Inr env \<Rightarrow> done_with n [Reply env] [])"

section \<open>Key rotation\<close>

definition key_push_envelope :: "crypto \<Rightarrow> verse_host \<Rightarrow> u64 \<Rightarrow> byte list \<Rightarrow> byte list option \<Rightarrow> byte list option \<Rightarrow>
    envelope result" where
  "key_push_envelope C h now member rnd_key rnd_env =
     (let token = token_sign C (vh_verse_key h) (contract_hash C (vh_contract h)) member now in
      and_then (fill_random rnd_key) (\<lambda>key_nonce.
      and_then (seal C (vh_content_key h) (vh_verse_key h) member key_nonce KEY_SHARE_AAD) (\<lambda>sealed.
      and_then (fill_random rnd_env) (\<lambda>nonce.
      Inr (sign_with C JOIN_ACCEPT (vh_verse_key h) (Some member)
        (encode_join_accept \<lparr>ja_membership_token = token_to_wire token, ja_key_nonce = key_nonce,
           ja_sealed_content_key = sealed\<rparr>) now nonce)))))"

text \<open>The loop over \<open>active_sessions\<close>; draws \<open>i\<close> and \<open>i + 1\<close> belong to the next member pushed to.\<close>

fun build_pushes :: "crypto \<Rightarrow> verse_host \<Rightarrow> handle \<Rightarrow> u64 \<Rightarrow> (nat \<Rightarrow> byte list option) \<Rightarrow> nat \<Rightarrow>
    (byte list \<times> connection) list \<Rightarrow> task list result" where
  "build_pushes C h a now rnd i [] = Inr []"
| "build_pushes C h a now rnd i ((member, conn) # ss) =
     (if member \<notin> vh_members h then build_pushes C h a now rnd i ss
      else and_then (key_push_envelope C h now member (rnd i) (rnd (i + 1))) (\<lambda>env.
        and_then (build_pushes C h a now rnd (i + 2) ss) (\<lambda>ts. Inr (KeyPush a member conn env # ts))))"

definition rotate_and_push_verse_key :: "crypto \<Rightarrow> u64 option \<Rightarrow> (nat \<Rightarrow> byte list option) \<Rightarrow> handle \<Rightarrow>
    verse_host \<Rightarrow> task list result \<times> verse_host" where
  "rotate_and_push_verse_key C clock rnd a h =
     (case rotate_content_key (rnd 0) h of
        (Inl e, h) \<Rightarrow> (Inl e, h)
      | (Inr _, h) \<Rightarrow>
          (and_then (now_unix_seconds clock) (\<lambda>now.
             build_pushes C h a now rnd 1 (vh_active_sessions h)), h))"

text \<open>A handler only logs a failed rotation: it goes on with no tasks.\<close>

definition rotate_in :: "crypto \<Rightarrow> u64 option \<Rightarrow> (nat \<Rightarrow> byte list option) \<Rightarrow> handle \<Rightarrow> verse_node \<Rightarrow>
    task list \<times> verse_node" where
  "rotate_in C clock rnd a n = (case vn_heap n a of
     None \<Rightarrow> ([], n)
   | Some h \<Rightarrow>
       let (r, h) = rotate_and_push_verse_key C clock rnd a h
       in ((case r of Inl _ \<Rightarrow> [] | Inr ts \<Rightarrow> ts), n\<lparr>vn_heap := (vn_heap n)(a \<mapsto> h)\<rparr>))"

section \<open>Handlers\<close>

definition handle_contract_fetch :: "crypto \<Rightarrow> u64 option \<Rightarrow> (nat \<Rightarrow> byte list option) \<Rightarrow> verse_session \<Rightarrow>
    envelope \<Rightarrow> verse_node \<Rightarrow> verse_result" where
  "handle_contract_fetch C clock rnd s env n = (case vn_heap n (sess_default s) of
     None \<Rightarrow> done_with n [] []
   | Some h \<Rightarrow> reply n (sign_response C (vn_side n) (env_from env) CONTRACT_DELIVER
       (encode_contract_deliver (vh_contract h)) clock (rnd 0)))"

definition decline :: "crypto \<Rightarrow> u64 option \<Rightarrow> (nat \<Rightarrow> byte list option) \<Rightarrow> envelope \<Rightarrow> verse_node \<Rightarrow>
    byte list \<Rightarrow> string \<Rightarrow> verse_result" where
  "decline C clock rnd env n expected reason =
     reply n (sign_response C (vn_side n) (env_from env) JOIN_DECLINE
       (encode_join_decline \<lparr>jd_contract_hash = expected, jd_reason = reason\<rparr>) clock (rnd 0))"

definition route_by_hash :: "verse_session \<Rightarrow> byte list \<Rightarrow> handle" where
  "route_by_hash s chash =
     (case Option.bind (map_of (sess_index s) chash) (map_of (sess_hosts s)) of
        Some a \<Rightarrow> a | None \<Rightarrow> sess_default s)"

definition accept_payload :: "crypto \<Rightarrow> verse_host \<Rightarrow> join_request \<Rightarrow> u64 option \<Rightarrow> byte list option \<Rightarrow>
    join_accept result" where
  "accept_payload C h req clock rnd_key =
     and_then (now_unix_seconds clock) (\<lambda>now.
     let token = token_sign C (vh_verse_key h) (contract_hash C (vh_contract h)) (jr_side req) now in
     and_then (fill_random rnd_key) (\<lambda>key_nonce.
     and_then (seal C (vh_content_key h) (vh_verse_key h) (jr_side req) key_nonce KEY_SHARE_AAD) (\<lambda>sealed.
     Inr \<lparr>ja_membership_token = token_to_wire token, ja_key_nonce = key_nonce, ja_sealed_content_key = sealed\<rparr>)))"

definition missing_required :: "contract_object \<Rightarrow> field_values \<Rightarrow> bool" where
  "missing_required c values \<longleftrightarrow> list_ex (\<lambda>spec. map_of values (fs_kind spec) = None) (co_required c)"

definition has_forbidden :: "contract_object \<Rightarrow> field_values \<Rightarrow> bool" where
  "has_forbidden c values \<longleftrightarrow> list_ex (\<lambda>(k, v). is_forbidden c k) values"

definition handle_join_request :: "crypto \<Rightarrow> u64 option \<Rightarrow> (nat \<Rightarrow> byte list option) \<Rightarrow> verse_session \<Rightarrow>
    envelope \<Rightarrow> verse_node \<Rightarrow> verse_result" where
  "handle_join_request C clock rnd s env n = (case decode_join_request C (env_payload env) of
     Inl _ \<Rightarrow> done_with n [] []
   | Inr req \<Rightarrow>
       let a = route_by_hash s (jr_contract_hash req) in
       (case vn_heap n a of None \<Rightarrow> done_with n [] []
        | Some h \<Rightarrow>
       let contract = vh_contract h; expected = contract_hash C contract in
       if jr_contract_hash req \<noteq> expected then decline C clock rnd env n expected ''contract-version-mismatch''
       else if missing_required contract (jr_fields req) then decline C clock rnd env n expected ''missing-required''
       else if has_forbidden contract (jr_fields req) then decline C clock rnd env n expected ''forbidden-field''
       else (case accept_payload C h req clock (rnd 0) of
         Inl e \<Rightarrow> failed n e
       | Inr accept \<Rightarrow>
           let n = with_mut a (add_member (jr_side req) (co_version contract)) n in
           reply n (sign_response C (vh_verse_key h) (env_from env) JOIN_ACCEPT
             (encode_join_accept accept) clock (rnd 1)))))"

definition route_post :: "verse_session \<Rightarrow> envelope \<Rightarrow> handle" where
  "route_post s env = (case Option.bind (env_to env) (map_of (sess_hosts s)) of
     Some a \<Rightarrow> a | None \<Rightarrow> sess_default s)"

definition may_post :: "verse_host \<Rightarrow> byte list \<Rightarrow> bool" where
  "may_post h side \<longleftrightarrow> side \<in> vh_members h \<and>
     vh_consented_versions h side = Some (co_version (vh_contract h))"

definition handle_verse_post :: "crypto \<Rightarrow> u64 option \<Rightarrow> verse_session \<Rightarrow> envelope \<Rightarrow> verse_node \<Rightarrow> verse_result" where
  "handle_verse_post C clock s env n = (case decode_verse_post (env_payload env) of
     Inl _ \<Rightarrow> done_with n [] []
   | Inr post \<Rightarrow>
       let a = route_post s env in
       (case vn_heap n a of None \<Rightarrow> done_with n [] []
        | Some h \<Rightarrow>
       if \<not> may_post h (env_from env) then done_with n [] []
       else (case content_key_open C (vh_content_key h) (vp_nonce post) (vp_ciphertext post) VERSE_POST_AAD of
         Inl _ \<Rightarrow> done_with n [] []
       | Inr plain \<Rightarrow>
           let now = (case clock of Some t \<Rightarrow> t | None \<Rightarrow> 0);
               n = with_mut a (\<lambda>h. h\<lparr>vh_posts := post_insert (public_bytes C (vh_verse_key h)) (env_from env)
                     env (env_payload env) now (vh_posts h)\<rparr>) n;
               n = n\<lparr>vn_posts_received := vn_posts_received n + 1\<rparr>
           in done_with n [Received env plain] [Fanout a env (env_from env)])))"

definition handle_verse_leave :: "crypto \<Rightarrow> u64 option \<Rightarrow> (nat \<Rightarrow> byte list option) \<Rightarrow> verse_session \<Rightarrow>
    envelope \<Rightarrow> verse_node \<Rightarrow> verse_result" where
  "handle_verse_leave C clock rnd s env n = (case decode_verse_leave C (env_payload env) of
     Inl _ \<Rightarrow> done_with n [] []
   | Inr leave \<Rightarrow>
       if vl_side leave \<noteq> env_from env then done_with n [] []
       else (case map_of (sess_hosts s) (vl_verse leave) of
         None \<Rightarrow> done_with n [] []
       | Some a \<Rightarrow> (case vn_heap n a of None \<Rightarrow> done_with n [] []
         | Some h \<Rightarrow>
           let (was_member, h) = drop_member (vl_side leave) h;
               n = n\<lparr>vn_heap := (vn_heap n)(a \<mapsto> h)\<rparr>
           in if \<not> was_member then done_with n [] []
              else
                let n = (if vl_disposition leave = Retract
                         then with_mut a (\<lambda>h. h\<lparr>vh_posts :=
                                snd (retract_by_author (public_bytes C (vh_verse_key h)) (vl_side leave) (vh_posts h))\<rparr>) n
                         else n);
                    (tasks, n) = rotate_in C clock rnd a n
                in done_with n [] tasks)))"

definition handle_verse_remove :: "crypto \<Rightarrow> u64 option \<Rightarrow> (nat \<Rightarrow> byte list option) \<Rightarrow> verse_session \<Rightarrow>
    envelope \<Rightarrow> verse_node \<Rightarrow> verse_result" where
  "handle_verse_remove C clock rnd s env n = (case decode_verse_remove C (env_payload env) of
     Inl _ \<Rightarrow> done_with n [] []
   | Inr rm \<Rightarrow> (case map_of (sess_hosts s) (vr_verse rm) of
         None \<Rightarrow> done_with n [] []
       | Some a \<Rightarrow> (case vn_heap n a of None \<Rightarrow> done_with n [] []
         | Some h \<Rightarrow>
           if \<not> is_moderator (vh_contract h) (vr_issued_by rm) then done_with n [] []
           else if env_from env \<noteq> vr_issued_by rm then done_with n [] []
           else
             let (was_member, h) = drop_member (vr_side rm) h;
                 n = n\<lparr>vn_heap := (vn_heap n)(a \<mapsto> h)\<rparr>
             in if was_member then (let (tasks, n) = rotate_in C clock rnd a n in done_with n [] tasks)
                else done_with n [] [])))"

definition handle_verse_reconsent :: "crypto \<Rightarrow> verse_session \<Rightarrow> envelope \<Rightarrow> verse_node \<Rightarrow> verse_result" where
  "handle_verse_reconsent C s env n = (case decode_verse_reconsent C (env_from env) (env_payload env) of
     Inl _ \<Rightarrow> done_with n [] []
   | Inr recon \<Rightarrow>
       done_with (with_mut (sess_default s) (\<lambda>h.
         if env_from env \<notin> vh_members h then h
         else if rc_contract_hash recon \<noteq> contract_hash C (vh_contract h) then h
         else h\<lparr>vh_consented_versions := (vh_consented_versions h)(env_from env \<mapsto> co_version (vh_contract h))\<rparr>) n)
         [] [])"

definition handle_verse :: "crypto \<Rightarrow> u64 option \<Rightarrow> (nat \<Rightarrow> byte list option) \<Rightarrow> verse_session \<Rightarrow> envelope \<Rightarrow>
    verse_node \<Rightarrow> verse_result" where
  "handle_verse C clock rnd s env n =
     (let t = env_type env in
      if t = CONTRACT_FETCH then handle_contract_fetch C clock rnd s env n
      else if t = JOIN_REQUEST then handle_join_request C clock rnd s env n
      else if t = VERSE_POST then handle_verse_post C clock s env n
      else if t = VERSE_LEAVE then handle_verse_leave C clock rnd s env n
      else if t = VERSE_REMOVE then handle_verse_remove C clock rnd s env n
      else if t = VERSE_RECONSENT then handle_verse_reconsent C s env n
      else done_with n [] [])"

section \<open>Sessions\<close>

text \<open>The lowest address among the hosted verses.\<close>

fun default_addr :: "(byte list \<times> handle) list \<Rightarrow> byte list option" where
  "default_addr [] = None"
| "default_addr ((addr, a) # hs) = (case default_addr hs of
     None \<Rightarrow> Some addr
   | Some cur \<Rightarrow> if bytes_less cur addr then Some cur else Some addr)"

definition contract_index :: "crypto \<Rightarrow> verse_node \<Rightarrow> (byte list \<times> handle) list \<Rightarrow> (byte list \<times> byte list) list" where
  "contract_index C n hosts = fold (\<lambda>(addr, a) idx. case vn_heap n a of
     None \<Rightarrow> idx
   | Some h \<Rightarrow> AList.update (contract_hash C (vh_contract h)) addr idx) hosts []"

text \<open>
  The redelivery loop at the start of a session; \<open>ok a\<close> says whether the push of host \<open>a\<close>
  reaches the peer.
\<close>

fun redeliver :: "byte list \<Rightarrow> connection \<Rightarrow> (handle \<Rightarrow> bool) \<Rightarrow> handle list \<Rightarrow> verse_node \<Rightarrow>
    outgoing list \<times> verse_node" where
  "redeliver peer conn ok [] n = ([], n)"
| "redeliver peer conn ok (a # as) n = (case vn_heap n a of
     None \<Rightarrow> redeliver peer conn ok as n
   | Some h \<Rightarrow> (case take_pending_key_push peer h of
       (None, h) \<Rightarrow> redeliver peer conn ok as (n\<lparr>vn_heap := (vn_heap n)(a \<mapsto> h)\<rparr>)
     | (Some env, h) \<Rightarrow>
         let h = (if ok a then h else stash_pending_key_push peer env h);
             (out, n) = redeliver peer conn ok as (n\<lparr>vn_heap := (vn_heap n)(a \<mapsto> h)\<rparr>)
         in (if ok a then Pushed conn env # out else out, n)))"

definition open_session :: "crypto \<Rightarrow> byte list \<Rightarrow> connection \<Rightarrow> (handle \<Rightarrow> bool) \<Rightarrow> verse_node \<Rightarrow>
    (verse_session \<times> outgoing list \<times> verse_node) option" where
  "open_session C peer conn ok n =
     (let hosts = vn_hosted n in
      case Option.bind (default_addr hosts) (map_of hosts) of
        None \<Rightarrow> None
      | Some d \<Rightarrow>
          let s = \<lparr>sess_peer = peer, sess_connection = conn, sess_hosts = hosts,
                   sess_index = contract_index C n hosts, sess_default = d\<rparr>;
              n = fold (\<lambda>(addr, a). with_mut a (register_session peer conn)) hosts n;
              (out, n) = redeliver peer conn ok (map snd hosts) n
          in Some (s, out, n))"

definition close_session :: "verse_session \<Rightarrow> verse_node \<Rightarrow> verse_node" where
  "close_session s n = fold (\<lambda>(addr, a). with_mut a (unregister_session (sess_peer s))) (sess_hosts s) n"

section \<open>Spawned tasks\<close>

definition verse_fanout_post :: "verse_host \<Rightarrow> envelope \<Rightarrow> byte list \<Rightarrow> outgoing list" where
  "verse_fanout_post h env author =
     map (\<lambda>(side, conn). Pushed conn env)
       (filter (\<lambda>(side, conn). side \<noteq> author \<and> side \<in> vh_members h) (vh_active_sessions h))"

text \<open>\<open>ok conn\<close> says whether a stream on the connection opens and takes the envelope.\<close>

fun run_task :: "(connection \<Rightarrow> bool) \<Rightarrow> task \<Rightarrow> verse_node \<Rightarrow> outgoing list \<times> verse_node" where
  "run_task ok (Fanout a env author) n = (case vn_heap n a of
     None \<Rightarrow> ([], n)
   | Some h \<Rightarrow> (filter (\<lambda>out. case out of Pushed conn _ \<Rightarrow> ok conn | _ \<Rightarrow> True) (verse_fanout_post h env author), n))"
| "run_task ok (KeyPush a member conn env) n =
     (if ok conn then ([Pushed conn env], n)
      else ([], with_mut a (stash_pending_key_push member env) n))"
| "run_task ok (AmendPush conn env) n = (if ok conn then [Pushed conn env] else [], n)"

section \<open>Operations of the owner\<close>

definition host_verse :: "crypto \<Rightarrow> handle \<Rightarrow> verse_host \<Rightarrow> verse_node \<Rightarrow> verse_node" where
  "host_verse C a h n =
     n\<lparr>vn_heap := (vn_heap n)(a \<mapsto> h),
       vn_hosted := AList.update (public_bytes C (vh_verse_key h)) a (vn_hosted n)\<rparr>"

definition host_rotate_verse_key :: "crypto \<Rightarrow> u64 option \<Rightarrow> (nat \<Rightarrow> byte list option) \<Rightarrow> byte list \<Rightarrow>
    verse_node \<Rightarrow> verse_result" where
  "host_rotate_verse_key C clock rnd addr n = (case Option.bind (map_of (vn_hosted n) addr)
       (\<lambda>a. map_option (Pair a) (vn_heap n a)) of
     None \<Rightarrow> failed n (Invariant ''rotate: verse not hosted'')
   | Some (a, h) \<Rightarrow>
       let (r, h) = rotate_and_push_verse_key C clock rnd a h; n = n\<lparr>vn_heap := (vn_heap n)(a \<mapsto> h)\<rparr>
       in (case r of Inl e \<Rightarrow> failed n e | Inr ts \<Rightarrow> done_with n [] ts))"

fun build_amend_pushes :: "crypto \<Rightarrow> verse_host \<Rightarrow> byte list \<Rightarrow> u64 \<Rightarrow> (nat \<Rightarrow> byte list option) \<Rightarrow> nat \<Rightarrow>
    (byte list \<times> connection) list \<Rightarrow> task list result" where
  "build_amend_pushes C h payload now rnd i [] = Inr []"
| "build_amend_pushes C h payload now rnd i ((member, conn) # ss) =
     (if member \<notin> vh_members h then build_amend_pushes C h payload now rnd i ss
      else and_then (fill_random (rnd i)) (\<lambda>nonce.
        and_then (build_amend_pushes C h payload now rnd (i + 1) ss) (\<lambda>ts.
        Inr (AmendPush conn (sign_with C VERSE_AMEND (vh_verse_key h) (Some member) payload now nonce) # ts))))"

definition host_amend_verse :: "crypto \<Rightarrow> u64 option \<Rightarrow> (nat \<Rightarrow> byte list option) \<Rightarrow> contract_object \<Rightarrow>
    verse_node \<Rightarrow> verse_result" where
  "host_amend_verse C clock rnd new n = (case Option.bind (map_of (vn_hosted n) (co_verse new))
       (\<lambda>a. map_option (Pair a) (vn_heap n a)) of
     None \<Rightarrow> failed n (Invariant ''no hosted verse for that contract.verse'')
   | Some (a, h) \<Rightarrow>
       let h = amend_contract new h; n = n\<lparr>vn_heap := (vn_heap n)(a \<mapsto> h)\<rparr>
       in (case and_then (now_unix_seconds clock) (\<lambda>now.
              build_amend_pushes C h (encode_verse_amend new) now rnd 0 (vh_active_sessions h)) of
             Inl e \<Rightarrow> failed n e | Inr ts \<Rightarrow> done_with n [] ts))"

section \<open>The member's side\<close>

record verse_membership =
  vm_verse :: "byte list"
  vm_contract_hash :: "byte list"
  vm_membership_token :: "byte list"
  vm_content_key :: "byte list"

definition decline_message :: "string \<Rightarrow> string" where
  "decline_message reason =
     (if reason \<in> {''contract-version-mismatch'', ''missing-required'', ''forbidden-field'', ''moderator-rejected''}
      then ''join declined: '' @ reason else ''join declined'')"

text \<open>\<open>request_join\<close>: the request it sends, and what it makes of the response.\<close>

definition request_join :: "crypto \<Rightarrow> side_key \<Rightarrow> byte list \<Rightarrow> contract_object \<Rightarrow> field_values \<Rightarrow>
    u64 option \<Rightarrow> byte list option \<Rightarrow> envelope result" where
  "request_join C side peer contract values clock rnd =
     sign_response C side peer JOIN_REQUEST
       (encode_join_request (join_sign C side (contract_hash C contract) values)) clock rnd"

definition finish_join :: "crypto \<Rightarrow> side_key \<Rightarrow> contract_object \<Rightarrow> envelope \<Rightarrow> verse_membership result" where
  "finish_join C side contract resp =
     (if env_type resp = JOIN_ACCEPT then
        and_then (decode_join_accept (env_payload resp)) (\<lambda>accept.
        and_then (token_from_wire C (ja_membership_token accept)) (\<lambda>token.
        if mt_verse token \<noteq> co_verse contract then Inl (Invariant ''membership-token verse mismatch'')
        else if mt_contract_hash token \<noteq> contract_hash C contract
          then Inl (Invariant ''membership-token contract mismatch'')
        else and_then (open_payload C (ja_sealed_content_key accept) side (co_verse contract)
               (ja_key_nonce accept) KEY_SHARE_AAD) (\<lambda>plain.
          if length plain \<noteq> 32 then Inl (Invariant ''verse content key not 32 bytes'')
          else Inr \<lparr>vm_verse = co_verse contract, vm_contract_hash = contract_hash C contract,
                    vm_membership_token = ja_membership_token accept, vm_content_key = plain\<rparr>)))
      else if env_type resp = JOIN_DECLINE then
        and_then (decode_join_decline (env_payload resp)) (\<lambda>d. Inl (Invariant (decline_message (jd_reason d))))
      else Inl (Invariant ''unexpected join response''))"

definition post_to_verse :: "crypto \<Rightarrow> side_key \<Rightarrow> verse_membership \<Rightarrow> byte list \<Rightarrow> u64 option \<Rightarrow>
    byte list option \<Rightarrow> byte list option \<Rightarrow> envelope result" where
  "post_to_verse C side m body clock rnd_key rnd_env =
     and_then (content_key_seal C rnd_key (vm_content_key m) body VERSE_POST_AAD) (\<lambda>(nonce, ct).
     and_then (now_unix_seconds clock) (\<lambda>ts.
     and_then (fill_random rnd_env) (\<lambda>n.
     Inr (sign_with C VERSE_POST side (Some (vm_verse m))
       (encode_verse_post \<lparr>vp_nonce = nonce, vp_ciphertext = ct\<rparr>) ts n))))"

definition leave_verse :: "crypto \<Rightarrow> side_key \<Rightarrow> verse_membership \<Rightarrow> data_disposition \<Rightarrow> string option \<Rightarrow>
    u64 option \<Rightarrow> byte list option \<Rightarrow> envelope result" where
  "leave_verse C side m disposition reason clock rnd =
     and_then (now_unix_seconds clock) (\<lambda>ts.
     and_then (fill_random rnd) (\<lambda>n.
     Inr (sign_with C VERSE_LEAVE side (Some (vm_verse m))
       (encode_verse_leave (leave_sign C side (vm_verse m) (blake3 C (vm_membership_token m)) reason disposition))
       ts n)))"

definition reconsent_to_amendment :: "crypto \<Rightarrow> side_key \<Rightarrow> byte list \<Rightarrow> byte list \<Rightarrow> u64 option \<Rightarrow>
    byte list option \<Rightarrow> envelope result" where
  "reconsent_to_amendment C side peer chash clock rnd =
     and_then (now_unix_seconds clock) (\<lambda>ts.
     and_then (fill_random rnd) (\<lambda>n.
     Inr (sign_with C VERSE_RECONSENT side (Some peer)
       (encode_verse_reconsent (reconsent_sign C side chash)) ts n)))"

definition apply_verse_key_rotation :: "crypto \<Rightarrow> side_key \<Rightarrow> verse_membership \<Rightarrow> envelope \<Rightarrow>
    verse_membership result" where
  "apply_verse_key_rotation C side m push =
     (if env_from push \<noteq> vm_verse m then Inl (Invariant ''rotation push: from != verse'')
      else and_then (decode_join_accept (env_payload push)) (\<lambda>accept.
        and_then (open_payload C (ja_sealed_content_key accept) side (vm_verse m) (ja_key_nonce accept)
          KEY_SHARE_AAD) (\<lambda>plain.
        if length plain \<noteq> 32 then Inl (Invariant ''verse content key not 32 bytes'')
        else Inr (m\<lparr>vm_content_key := plain, vm_membership_token := ja_membership_token accept\<rparr>))))"

definition accept_verse_amend :: "crypto \<Rightarrow> envelope \<Rightarrow> byte list \<Rightarrow> contract_object result" where
  "accept_verse_amend C push expected =
     (if env_type push \<noteq> VERSE_AMEND then Inl (Invariant ''expected VERSE_AMEND envelope'')
      else if env_from push \<noteq> expected then Inl (Invariant ''VerseAmend not signed by the verse'')
      else and_then (decode_verse_amend C (env_payload push)) (\<lambda>c.
        if co_verse c \<noteq> expected then Inl (Invariant ''VerseAmend contract.verse mismatch'') else Inr c))"

end
