(* ===== verification/VerseSystem.thy ===== *)
theory VerseSystem
  imports VerseServer
begin

text \<open>
  The verse service as a system: sessions, handled envelopes, spawned tasks and owner
  operations as the steps of a relation, with the invariants of every reachable state and
  what each handler may change.
\<close>

section \<open>What the heap operations preserve\<close>

definition heap_inv :: "verse_node \<Rightarrow> bool" where
  "heap_inv n \<longleftrightarrow> (\<forall>a h. vn_heap n a = Some h \<longrightarrow> host_inv h)"

lemma with_mut_heap: "vn_heap (with_mut a f n) b = (if b = a then map_option f (vn_heap n a) else vn_heap n b)"
  by (simp add: with_mut_def split: option.splits)

lemma heap_inv_with_mut: "heap_inv n \<Longrightarrow> (\<And>h. host_inv h \<Longrightarrow> host_inv (f h)) \<Longrightarrow> heap_inv (with_mut a f n)"
  by (auto simp: heap_inv_def with_mut_heap split: if_splits)

lemma heap_inv_put: "heap_inv n \<Longrightarrow> host_inv h \<Longrightarrow> heap_inv (n\<lparr>vn_heap := (vn_heap n)(a \<mapsto> h)\<rparr>)"
  by (simp add: heap_inv_def)

lemma heap_inv_count [simp]: "heap_inv (n\<lparr>vn_posts_received := x\<rparr>) = heap_inv n"
  by (simp add: heap_inv_def)

lemma result_simps [simp]:
  "vres_node (done_with n out ts) = n" "vres_out (done_with n out ts) = out"
  "vres_tasks (done_with n out ts) = ts" "vres_error (done_with n out ts) = None"
  "vres_node (failed n e) = n" "vres_out (failed n e) = []" "vres_tasks (failed n e) = []"
  "vres_error (failed n e) = Some e"
  by (simp_all add: done_with_def failed_def)

lemma reply_simps [simp]: "vres_node (reply n r) = n" "vres_tasks (reply n r) = []"
  by (simp_all add: reply_def split: sum.splits)

lemma rotate_host:
  "snd (rotate_and_push_verse_key C clock rnd a h) = snd (rotate_content_key (rnd 0) h)"
  by (auto simp: rotate_and_push_verse_key_def rotate_content_key_def split: sum.splits prod.splits)

lemma heap_inv_rotate: "heap_inv n \<Longrightarrow> heap_inv (snd (rotate_in C clock rnd a n))"
proof (cases "vn_heap n a")
  case (Some h)
  assume "heap_inv n"
  then have "host_inv (snd (rotate_and_push_verse_key C clock rnd a h))"
    using Some by (simp add: heap_inv_def rotate_host)
  then show ?thesis using \<open>heap_inv n\<close> Some by (simp add: rotate_in_def split_beta heap_inv_put)
qed (simp add: rotate_in_def)

lemma heap_inv_join: "heap_inv n \<Longrightarrow> heap_inv (vres_node (handle_join_request C clock rnd s env n))"
  by (auto simp: handle_join_request_def decline_def Let_def split: sum.splits option.splits
      intro!: heap_inv_with_mut host_inv_add)

lemma heap_inv_post: "heap_inv n \<Longrightarrow> heap_inv (vres_node (handle_verse_post C clock s env n))"
  by (auto simp: handle_verse_post_def Let_def host_inv_def split: sum.splits option.splits
      intro!: heap_inv_with_mut posts_inv_insert)

lemma heap_inv_reconsent: "heap_inv n \<Longrightarrow> heap_inv (vres_node (handle_verse_reconsent C s env n))"
  by (auto simp: handle_verse_reconsent_def split: sum.splits intro!: heap_inv_with_mut host_inv_reconsent)

lemma heap_inv_drop: "heap_inv n \<Longrightarrow> vn_heap n a = Some h \<Longrightarrow>
    heap_inv (n\<lparr>vn_heap := (vn_heap n)(a \<mapsto> snd (drop_member side h))\<rparr>)"
  by (intro heap_inv_put host_inv_drop) (auto simp: heap_inv_def)

lemma heap_inv_leave: "heap_inv n \<Longrightarrow> heap_inv (vres_node (handle_verse_leave C clock rnd s env n))"
  by (auto simp: handle_verse_leave_def Let_def split_beta heap_inv_drop host_inv_def posts_inv_retract
      split: sum.splits option.splits intro!: heap_inv_rotate heap_inv_with_mut)

lemma heap_inv_remove: "heap_inv n \<Longrightarrow> heap_inv (vres_node (handle_verse_remove C clock rnd s env n))"
  by (auto simp: handle_verse_remove_def Let_def split_beta heap_inv_drop
      split: sum.splits option.splits intro!: heap_inv_rotate)

lemma heap_inv_fetch: "heap_inv n \<Longrightarrow> heap_inv (vres_node (handle_contract_fetch C clock rnd s env n))"
  by (simp add: handle_contract_fetch_def split: option.splits)

lemma heap_inv_handle: "heap_inv n \<Longrightarrow> heap_inv (vres_node (handle_verse C clock rnd s env n))"
  by (simp add: handle_verse_def Let_def heap_inv_fetch heap_inv_join heap_inv_post heap_inv_leave
      heap_inv_remove heap_inv_reconsent)

section \<open>What each handler changes\<close>

lemma rotate_content_key_snd:
  "snd (rotate_content_key rnd h) = (case rnd of None \<Rightarrow> h | Some k \<Rightarrow> h\<lparr>vh_content_key := k\<rparr>)"
  by (simp add: rotate_content_key_def content_key_generate_def fill_random_def split: option.splits)

lemma rotate_in_heap:
  "vn_heap (snd (rotate_in C clock rnd a n)) b =
     (if b = a then map_option (\<lambda>h. snd (rotate_content_key (rnd 0) h)) (vn_heap n a) else vn_heap n b)"
  by (auto simp: rotate_in_def split_beta rotate_host split: option.splits)

text \<open>The host after a leave or a removal of \<open>side\<close>: the retraction, then the new key.\<close>

definition departed :: "byte list option \<Rightarrow> byte list \<Rightarrow> (verse_host \<Rightarrow> verse_host) \<Rightarrow> verse_host \<Rightarrow> verse_host" where
  "departed rnd side retract h = snd (rotate_content_key rnd (retract (snd (drop_member side h))))"

lemma departed_simps:
  assumes "\<And>h. vh_members (f h) = vh_members h" "\<And>h. vh_content_key (f h) = vh_content_key h"
    "\<And>h. vh_consented_versions (f h) = vh_consented_versions h" "\<And>h. vh_contract (f h) = vh_contract h"
    "\<And>h. vh_pending_key_pushes (f h) = vh_pending_key_pushes h"
  shows "vh_members (departed rnd side f h) = vh_members h - {side}"
    "vh_contract (departed rnd side f h) = vh_contract h"
    "vh_consented_versions (departed rnd side f h) = (vh_consented_versions h)(side := None)"
    "vh_pending_key_pushes (departed rnd side f h) = vh_pending_key_pushes h"
    "vh_content_key (departed rnd side f h) = (case rnd of None \<Rightarrow> vh_content_key h | Some k \<Rightarrow> k)"
  using assms by (simp_all add: departed_def rotate_content_key_snd drop_member_def split: option.splits)

definition retract_if :: "crypto \<Rightarrow> verse_leave \<Rightarrow> verse_host \<Rightarrow> verse_host" where
  "retract_if C leave h = (if vl_disposition leave = Retract then
     h\<lparr>vh_posts := snd (retract_by_author (public_bytes C (vh_verse_key h)) (vl_side leave) (vh_posts h))\<rparr> else h)"

lemma retract_if_simps [simp]:
  "vh_members (retract_if C l h) = vh_members h" "vh_content_key (retract_if C l h) = vh_content_key h"
  "vh_consented_versions (retract_if C l h) = vh_consented_versions h"
  "vh_contract (retract_if C l h) = vh_contract h"
  "vh_pending_key_pushes (retract_if C l h) = vh_pending_key_pushes h"
  "vh_verse_key (retract_if C l h) = vh_verse_key h"
  "vh_active_sessions (retract_if C l h) = vh_active_sessions h"
  by (simp_all add: retract_if_def)

lemma leave_cases:
  obtains (ignored) "vres_node (handle_verse_leave C clock rnd s env n) = n"
      "vres_tasks (handle_verse_leave C clock rnd s env n) = []"
  | (not_member) leave a h where "decode_verse_leave C (env_payload env) = Inr leave" "vn_heap n a = Some h"
      "vl_side leave \<notin> vh_members h" "vl_side leave = env_from env"
      "vres_node (handle_verse_leave C clock rnd s env n) =
         n\<lparr>vn_heap := (vn_heap n)(a \<mapsto> snd (drop_member (vl_side leave) h))\<rparr>"
      "vres_tasks (handle_verse_leave C clock rnd s env n) = []"
  | (left) leave a h where "decode_verse_leave C (env_payload env) = Inr leave" "vl_side leave = env_from env"
      "map_of (sess_hosts s) (vl_verse leave) = Some a" "vn_heap n a = Some h" "vl_side leave \<in> vh_members h"
      "\<And>b. vn_heap (vres_node (handle_verse_leave C clock rnd s env n)) b =
         (if b = a then Some (departed (rnd 0) (vl_side leave) (retract_if C leave) h) else vn_heap n b)"
      "vres_tasks (handle_verse_leave C clock rnd s env n) =
         (case fst (rotate_and_push_verse_key C clock rnd a (retract_if C leave (snd (drop_member (vl_side leave) h)))) of
            Inl _ \<Rightarrow> [] | Inr ts \<Rightarrow> ts)"
proof (cases "decode_verse_leave C (env_payload env)")
  case (Inl e)
  then show ?thesis using ignored by (simp add: handle_verse_leave_def)
next
  case (Inr leave)
  show ?thesis
  proof (cases "vl_side leave = env_from env")
    case False
    then show ?thesis using ignored Inr by (simp add: handle_verse_leave_def)
  next
    case side: True
    show ?thesis
    proof (cases "map_of (sess_hosts s) (vl_verse leave)")
      case None
      then show ?thesis using ignored Inr side by (simp add: handle_verse_leave_def)
    next
      case a: (Some a)
      show ?thesis
      proof (cases "vn_heap n a")
        case None
        then show ?thesis using ignored Inr side a by (simp add: handle_verse_leave_def)
      next
        case h: (Some h)
        note d = handle_verse_leave_def Let_def split_beta Inr side a h
        show ?thesis
        proof (cases "vl_side leave \<in> vh_members h")
          case False
          then show ?thesis using not_member [OF Inr h] side by (simp add: d drop_member_def)
        next
          case True
          then show ?thesis
            by (intro left [OF Inr side a h])
              (simp_all add: d departed_def retract_if_def rotate_in_def rotate_host with_mut_heap drop_member_def)
        qed
      qed
    qed
  qed
qed

lemma remove_cases:
  obtains (ignored) "vres_node (handle_verse_remove C clock rnd s env n) = n"
      "vres_tasks (handle_verse_remove C clock rnd s env n) = []"
  | (not_member) rm a h where "decode_verse_remove C (env_payload env) = Inr rm" "vn_heap n a = Some h"
      "is_moderator (vh_contract h) (env_from env)" "vr_side rm \<notin> vh_members h"
      "vres_node (handle_verse_remove C clock rnd s env n) =
         n\<lparr>vn_heap := (vn_heap n)(a \<mapsto> snd (drop_member (vr_side rm) h))\<rparr>"
      "vres_tasks (handle_verse_remove C clock rnd s env n) = []"
  | (removed) rm a h where "decode_verse_remove C (env_payload env) = Inr rm"
      "map_of (sess_hosts s) (vr_verse rm) = Some a" "vn_heap n a = Some h"
      "is_moderator (vh_contract h) (env_from env)" "env_from env = vr_issued_by rm" "vr_side rm \<in> vh_members h"
      "\<And>b. vn_heap (vres_node (handle_verse_remove C clock rnd s env n)) b =
         (if b = a then Some (departed (rnd 0) (vr_side rm) (\<lambda>h. h) h) else vn_heap n b)"
      "vres_tasks (handle_verse_remove C clock rnd s env n) =
         (case fst (rotate_and_push_verse_key C clock rnd a (snd (drop_member (vr_side rm) h))) of
            Inl _ \<Rightarrow> [] | Inr ts \<Rightarrow> ts)"
proof (cases "decode_verse_remove C (env_payload env)")
  case (Inl e)
  then show ?thesis using ignored by (simp add: handle_verse_remove_def)
next
  case (Inr rm)
  show ?thesis
  proof (cases "map_of (sess_hosts s) (vr_verse rm)")
    case None
    then show ?thesis using ignored Inr by (simp add: handle_verse_remove_def)
  next
    case a: (Some a)
    show ?thesis
    proof (cases "vn_heap n a")
      case None
      then show ?thesis using ignored Inr a by (simp add: handle_verse_remove_def)
    next
      case h: (Some h)
      note d = handle_verse_remove_def Let_def split_beta Inr a h
      show ?thesis
      proof (cases "is_moderator (vh_contract h) (vr_issued_by rm) \<and> env_from env = vr_issued_by rm")
        case False
        then show ?thesis using ignored by (auto simp: d)
      next
        case m: True
        show ?thesis
        proof (cases "vr_side rm \<in> vh_members h")
          case False
          then show ?thesis using not_member [OF Inr h] m by (simp add: d drop_member_def)
        next
          case True
          then show ?thesis using m
            by (intro removed [OF Inr a h])
              (simp_all add: d departed_def rotate_in_def rotate_host drop_member_def)
        qed
      qed
    qed
  qed
qed

section \<open>Rotated keys reach the active members and nobody else\<close>

lemma build_pushes_sound:
  assumes "build_pushes C h a now rnd i ss = Inr ts" "t \<in> set ts"
  shows "\<exists>member conn env j. t = KeyPush a member conn env \<and> member \<in> vh_members h \<and> (member, conn) \<in> set ss \<and>
    i \<le> j \<and> key_push_envelope C h now member (rnd j) (rnd (j + 1)) = Inr env"
  using assms
proof (induction ss arbitrary: i ts)
  case Nil
  then show ?case by simp
next
  case (Cons p ss)
  obtain m c where p: "p = (m, c)" by (cases p)
  show ?case
  proof (cases "m \<in> vh_members h")
    case False
    then show ?thesis using Cons.IH [of i ts] Cons.prems p by fastforce
  next
    case True
    then obtain env ts' where e: "key_push_envelope C h now m (rnd i) (rnd (i + 1)) = Inr env"
        "build_pushes C h a now rnd (i + 2) ss = Inr ts'" "ts = KeyPush a m c env # ts'"
      using Cons.prems(1) p by (auto simp: and_then_eq_Inr)
    show ?thesis
    proof (cases "t = KeyPush a m c env")
      case True
      then show ?thesis using e(1) \<open>m \<in> vh_members h\<close> p by auto
    next
      case False
      then show ?thesis using Cons.IH [OF e(2)] Cons.prems(2) e(3) by fastforce
    qed
  qed
qed

lemma build_pushes_complete:
  assumes "build_pushes C h a now rnd i ss = Inr ts" "(member, conn) \<in> set ss" "member \<in> vh_members h"
  shows "\<exists>env. KeyPush a member conn env \<in> set ts"
  using assms
proof (induction ss arbitrary: i ts)
  case Nil
  then show ?case by simp
next
  case (Cons p ss)
  then show ?case by (cases p) (fastforce simp: and_then_eq_Inr split: if_splits)
qed

lemma rotation_tasks:
  assumes "fst (rotate_and_push_verse_key C clock rnd a h) = Inr ts"
  obtains k now where "rnd 0 = Some k" "clock = Some now"
    "build_pushes C (h\<lparr>vh_content_key := k\<rparr>) a now rnd 1 (vh_active_sessions h) = Inr ts"
  using assms
  by (auto simp: rotate_and_push_verse_key_def rotate_content_key_def content_key_generate_def fill_random_def
      now_unix_seconds_def split: option.splits)

text \<open>The push a member receives gives it the host's content key.\<close>

definition wf_host :: "crypto \<Rightarrow> verse_host \<Rightarrow> bool" where
  "wf_host C h \<longleftrightarrow> wf_side (vh_verse_key h) \<and> length (vh_content_key h) = 32 \<and>
     co_verse (vh_contract h) = public_bytes C (vh_verse_key h)"

lemma sealed_key_opens:
  assumes "laws C" "wf_host C h" "wf_side k" "length key_nonce = 16" "wf_bytes token"
    and "seal C (vh_content_key h) (vh_verse_key h) (public_bytes C k) key_nonce KEY_SHARE_AAD = Inr sealed"
  shows "decode_join_accept (encode_join_accept \<lparr>ja_membership_token = token, ja_key_nonce = key_nonce,
      ja_sealed_content_key = sealed\<rparr>) = Inr \<lparr>ja_membership_token = token, ja_key_nonce = key_nonce,
      ja_sealed_content_key = sealed\<rparr>"
    and "open_payload C sealed k (public_bytes C (vh_verse_key h)) key_nonce KEY_SHARE_AAD = Inr (vh_content_key h)"
proof -
  obtain ct where ct: "seal C (vh_content_key h) (vh_verse_key h) (public_bytes C k) key_nonce KEY_SHARE_AAD = Inr ct"
      "length ct = length (vh_content_key h) + 16"
      "open_payload C ct k (public_bytes C (vh_verse_key h)) key_nonce KEY_SHARE_AAD = Inr (vh_content_key h)"
    using seal_open [of C "vh_verse_key h" k key_nonce "vh_content_key h" KEY_SHARE_AAD] assms(1-4)
    by (auto simp: laws_def wf_host_def)
  then show "open_payload C sealed k (public_bytes C (vh_verse_key h)) key_nonce KEY_SHARE_AAD = Inr (vh_content_key h)"
    using assms(6) by simp
  have "length sealed = 48" using ct assms(2,6) by (simp add: wf_host_def)
  then show "decode_join_accept (encode_join_accept \<lparr>ja_membership_token = token, ja_key_nonce = key_nonce,
      ja_sealed_content_key = sealed\<rparr>) = Inr \<lparr>ja_membership_token = token, ja_key_nonce = key_nonce,
      ja_sealed_content_key = sealed\<rparr>"
    using assms(4,5) by (intro join_accept_msg.decode_encode) (simp add: wf_join_accept_def wf_fixed_def wf_bytes_def)
qed

lemma host_token_wf:
  assumes "laws C" "wf_host C h" "length member = 32"
  shows "wf_token C (token_sign C (vh_verse_key h) (contract_hash C (vh_contract h)) member now)"
  using assms by (intro token_sign_wf) (simp_all add: laws_def wf_host_def hash_laws_def contract_hash_def)

lemma key_push_applies:
  assumes "laws C" "wf_host C h" "wf_side k"
    and "key_push_envelope C h now (public_bytes C k) rk re = Inr env" "\<And>x. rk = Some x \<Longrightarrow> length x = 16"
    and "vm_verse m = public_bytes C (vh_verse_key h)"
  shows "\<exists>token. apply_verse_key_rotation C k m env =
    Inr (m\<lparr>vm_content_key := vh_content_key h, vm_membership_token := token\<rparr>)"
proof -
  let ?token = "token_sign C (vh_verse_key h) (contract_hash C (vh_contract h)) (public_bytes C k) now"
  obtain kn sealed ne where e: "rk = Some kn"
      "seal C (vh_content_key h) (vh_verse_key h) (public_bytes C k) kn KEY_SHARE_AAD = Inr sealed"
      "env = sign_with C JOIN_ACCEPT (vh_verse_key h) (Some (public_bytes C k))
        (encode_join_accept \<lparr>ja_membership_token = token_to_wire ?token, ja_key_nonce = kn,
          ja_sealed_content_key = sealed\<rparr>) now ne"
    using assms(4) by (auto simp: key_push_envelope_def Let_def and_then_eq_Inr fill_random_def split: option.splits)
  have pk: "length (public_bytes C k) = 32" using signed_by_side(1) [of C k] assms(1,3) by (simp add: laws_def)
  have "wf_bytes (token_to_wire ?token)"
    using host_token_wf [OF assms(1,2) pk] by (intro token_to_wire_size) (simp add: wf_token_def)
  note o = sealed_key_opens [OF assms(1-3) assms(5) [OF e(1)] this e(2)]
  show ?thesis
    by (rule exI [of _ "token_to_wire ?token"])
      (use o assms(2,6) e(3) in \<open>simp add: apply_verse_key_rotation_def wf_host_def\<close>)
qed

section \<open>Who joins, who leaves, who posts\<close>

definition members_at :: "verse_node \<Rightarrow> handle \<Rightarrow> byte list set" where
  "members_at n a = (case vn_heap n a of Some h \<Rightarrow> vh_members h | None \<Rightarrow> {})"

text \<open>A join request that the contract of \<open>h\<close> admits.\<close>

definition admissible :: "crypto \<Rightarrow> verse_host \<Rightarrow> join_request \<Rightarrow> bool" where
  "admissible C h req \<longleftrightarrow> jr_contract_hash req = contract_hash C (vh_contract h) \<and>
     set (map fs_kind (co_required (vh_contract h))) \<subseteq> dom (map_of (jr_fields req)) \<and>
     set (co_forbidden (vh_contract h)) \<inter> dom (map_of (jr_fields req)) = {}"

lemma missing_required_iff:
  "missing_required c values \<longleftrightarrow> \<not> set (map fs_kind (co_required c)) \<subseteq> dom (map_of values)"
  by (auto simp: missing_required_def list_ex_iff)

lemma has_forbidden_iff:
  "has_forbidden c values \<longleftrightarrow> set (co_forbidden c) \<inter> dom (map_of values) \<noteq> {}"
  by (force simp: has_forbidden_def list_ex_iff is_forbidden_def dom_map_of_conv_image_fst)

lemma join_cases:
  obtains (ignored) "vres_node (handle_join_request C clock rnd s env n) = n"
  | (joined) req a h accept where "decode_join_request C (env_payload env) = Inr req"
      "a = route_by_hash s (jr_contract_hash req)" "vn_heap n a = Some h" "admissible C h req"
      "accept_payload C h req clock (rnd 0) = Inr accept"
      "vres_node (handle_join_request C clock rnd s env n) =
         with_mut a (add_member (jr_side req) (co_version (vh_contract h))) n"
proof (cases "decode_join_request C (env_payload env)")
  case (Inl e)
  then show ?thesis using ignored by (simp add: handle_join_request_def)
next
  case (Inr req)
  show ?thesis
  proof (cases "vn_heap n (route_by_hash s (jr_contract_hash req))")
    case None
    then show ?thesis using ignored Inr by (simp add: handle_join_request_def)
  next
    case h: (Some h)
    note d = handle_join_request_def Let_def Inr h decline_def
    show ?thesis
    proof (cases "admissible C h req")
      case False
      then show ?thesis using ignored
        by (auto simp: d admissible_def missing_required_iff has_forbidden_iff)
    next
      case ok: True
      then have f: "contract_hash C (vh_contract h) = jr_contract_hash req"
          "\<not> missing_required (vh_contract h) (jr_fields req)" "\<not> has_forbidden (vh_contract h) (jr_fields req)"
        by (simp_all add: admissible_def missing_required_iff has_forbidden_iff)
      show ?thesis
      proof (cases "accept_payload C h req clock (rnd 0)")
        case (Inl e)
        then show ?thesis using ignored by (simp add: d f)
      next
        case acc: (Inr accept)
        show ?thesis by (rule joined [OF Inr refl h ok acc]) (simp add: d f acc)
      qed
    qed
  qed
qed

lemma members_post [simp]: "members_at (vres_node (handle_verse_post C clock s env n)) b = members_at n b"
  by (auto simp: handle_verse_post_def Let_def members_at_def with_mut_heap split: sum.splits option.splits)

lemma members_reconsent [simp]: "members_at (vres_node (handle_verse_reconsent C s env n)) b = members_at n b"
  by (auto simp: handle_verse_reconsent_def members_at_def with_mut_heap split: sum.splits option.splits)

lemma members_fetch [simp]: "members_at (vres_node (handle_contract_fetch C clock rnd s env n)) b = members_at n b"
  by (simp add: handle_contract_fetch_def split: option.splits)

lemma drop_member_members [simp]: "vh_members (snd (drop_member side h)) = vh_members h - {side}"
  by (simp add: drop_member_def)

lemma leave_members: "members_at (vres_node (handle_verse_leave C clock rnd s env n)) b \<subseteq> members_at n b"
proof (cases rule: leave_cases [of C clock rnd s env n])
  case ignored
  then show ?thesis by simp
next
  case (not_member leave a h)
  then show ?thesis by (auto simp: members_at_def split: if_splits)
next
  case (left leave a h)
  then show ?thesis by (auto simp: members_at_def departed_simps split: if_splits)
qed

lemma remove_members: "members_at (vres_node (handle_verse_remove C clock rnd s env n)) b \<subseteq> members_at n b"
proof (cases rule: remove_cases [of C clock rnd s env n])
  case ignored
  then show ?thesis by simp
next
  case (not_member rm a h)
  then show ?thesis by (auto simp: members_at_def split: if_splits)
next
  case (removed rm a h)
  then show ?thesis by (auto simp: members_at_def departed_simps split: if_splits)
qed

lemma handle_types:
  "handle_verse C clock rnd s env n =
     (if env_type env = 0x50 then handle_contract_fetch C clock rnd s env n
      else if env_type env = 0x52 then handle_join_request C clock rnd s env n
      else if env_type env = 0x57 then handle_verse_post C clock s env n
      else if env_type env = 0x55 then handle_verse_leave C clock rnd s env n
      else if env_type env = 0x56 then handle_verse_remove C clock rnd s env n
      else if env_type env = 0x59 then handle_verse_reconsent C s env n
      else done_with n [] [])"
  by (simp add: handle_verse_def Let_def verse_types)

lemma joins_only_by_request:
  assumes "side \<in> members_at (vres_node (handle_verse C clock rnd s env n)) a" "side \<notin> members_at n a"
  shows "\<exists>req h. env_type env = JOIN_REQUEST \<and> decode_join_request C (env_payload env) = Inr req \<and>
    jr_side req = side \<and> wf_join_request C req \<and> vn_heap n a = Some h \<and> admissible C h req"
proof -
  have t: "env_type env = 0x52"
    using assms leave_members [of C clock rnd s env n a] remove_members [of C clock rnd s env n a]
    by (auto simp: handle_types split: if_splits)
  then have m: "side \<in> members_at (vres_node (handle_join_request C clock rnd s env n)) a"
    using assms(1) by (simp add: handle_types)
  show ?thesis
  proof (cases rule: join_cases [of C clock rnd s env n])
    case ignored
    then show ?thesis using m assms(2) by simp
  next
    case (joined req b h accept)
    then have "b = a" "jr_side req = side"
      using m assms(2) by (auto simp: members_at_def with_mut_heap add_member_def split: if_splits option.splits)
    then show ?thesis using joined t by (auto simp: decode_join_request_iff JOIN_REQUEST_def)
  qed
qed

lemma join_members: "members_at n b \<subseteq> members_at (vres_node (handle_join_request C clock rnd s env n)) b"
proof (cases rule: join_cases [of C clock rnd s env n])
  case ignored
  then show ?thesis by simp
next
  case (joined req a h accept)
  then show ?thesis by (auto simp: members_at_def with_mut_heap add_member_def)
qed

lemma leaves_only_by_consent_or_moderation:
  assumes "side \<in> members_at n a" "side \<notin> members_at (vres_node (handle_verse C clock rnd s env n)) a"
  shows "(env_type env = VERSE_LEAVE \<and> env_from env = side) \<or>
    (env_type env = VERSE_REMOVE \<and> (\<exists>h. vn_heap n a = Some h \<and> is_moderator (vh_contract h) (env_from env)))"
proof -
  consider "env_type env = 0x55" | "env_type env = 0x56"
    using assms join_members [of n a C clock rnd s env] by (auto simp: handle_types split: if_splits)
  then show ?thesis
  proof cases
    case 1
    then have m: "side \<notin> members_at (vres_node (handle_verse_leave C clock rnd s env n)) a"
      using assms(2) by (simp add: handle_types)
    show ?thesis
    proof (cases rule: leave_cases [of C clock rnd s env n])
      case ignored
      then show ?thesis using m assms(1) by simp
    next
      case (not_member leave b h)
      then show ?thesis using m assms(1) by (auto simp: members_at_def split: if_splits)
    next
      case (left leave b h)
      then show ?thesis using m assms(1) 1
        by (auto simp: members_at_def departed_simps VERSE_LEAVE_def split: if_splits)
    qed
  next
    case 2
    then have m: "side \<notin> members_at (vres_node (handle_verse_remove C clock rnd s env n)) a"
      using assms(2) by (simp add: handle_types)
    show ?thesis
    proof (cases rule: remove_cases [of C clock rnd s env n])
      case ignored
      then show ?thesis using m assms(1) by simp
    next
      case (not_member rm b h)
      then show ?thesis using m assms(1) by (auto simp: members_at_def split: if_splits)
    next
      case (removed rm b h)
      then show ?thesis using m assms(1) 2
        by (auto simp: members_at_def departed_simps VERSE_REMOVE_def split: if_splits)
    qed
  qed
qed

section \<open>Departures rotate the key\<close>

definition rotated_key :: "byte list option \<Rightarrow> verse_host \<Rightarrow> byte list" where
  "rotated_key rnd h = (case rnd of Some k \<Rightarrow> k | None \<Rightarrow> vh_content_key h)"

lemma rotation_task_members:
  assumes "t \<in> set (case fst (rotate_and_push_verse_key C clock rnd a h) of Inl _ \<Rightarrow> [] | Inr ts \<Rightarrow> ts)"
  shows "\<exists>member conn env. t = KeyPush a member conn env \<and> member \<in> vh_members h \<and>
    (member, conn) \<in> set (vh_active_sessions h)"
proof (cases "fst (rotate_and_push_verse_key C clock rnd a h)")
  case (Inl e)
  then show ?thesis using assms by simp
next
  case (Inr ts)
  then obtain k now where "build_pushes C (h\<lparr>vh_content_key := k\<rparr>) a now rnd 1 (vh_active_sessions h) = Inr ts"
    using rotation_tasks by blast
  from build_pushes_sound [OF this, of t] show ?thesis using assms Inr by auto
qed

lemma departure_effect:
  assumes "side \<in> members_at n a" "side \<notin> members_at (vres_node (handle_verse C clock rnd s env n)) a"
  obtains h h' where "vn_heap n a = Some h" "vn_heap (vres_node (handle_verse C clock rnd s env n)) a = Some h'"
    "vh_members h' = vh_members h - {side}" "vh_content_key h' = rotated_key (rnd 0) h"
    "vh_pending_key_pushes h' = vh_pending_key_pushes h" "vh_contract h' = vh_contract h"
    "\<And>t. t \<in> set (vres_tasks (handle_verse C clock rnd s env n)) \<Longrightarrow>
       \<exists>member conn env. t = KeyPush a member conn env \<and> member \<in> vh_members h' \<and>
         (member, conn) \<in> set (vh_active_sessions h)"
proof -
  consider "env_type env = 0x55" | "env_type env = 0x56"
    using leaves_only_by_consent_or_moderation [OF assms] by (auto simp: verse_types)
  then show ?thesis
  proof cases
    case 1
    then have e: "handle_verse C clock rnd s env n = handle_verse_leave C clock rnd s env n"
      by (simp add: handle_types)
    show ?thesis
    proof (cases rule: leave_cases [of C clock rnd s env n])
      case ignored
      then show ?thesis using assms e by simp
    next
      case (not_member leave b h)
      then show ?thesis using assms e by (auto simp: members_at_def split: if_splits)
    next
      case (left leave b h)
      then have b: "b = a" "vl_side leave = side"
        using assms e by (auto simp: members_at_def departed_simps split: if_splits)
      let ?h0 = "retract_if C leave (snd (drop_member side h))"
      have "\<exists>member conn env. t = KeyPush a member conn env \<and> member \<in> vh_members h - {side} \<and>
          (member, conn) \<in> set (vh_active_sessions h)"
        if "t \<in> set (vres_tasks (handle_verse C clock rnd s env n))" for t
        using rotation_task_members [of t C clock rnd a ?h0] that left(7) b e
        by (auto simp: drop_member_def AList.delete_eq)
      then show ?thesis using left b e
        by (intro that [of h "departed (rnd 0) side (retract_if C leave) h"])
          (simp_all add: departed_simps rotated_key_def split: option.splits)
    qed
  next
    case 2
    then have e: "handle_verse C clock rnd s env n = handle_verse_remove C clock rnd s env n"
      by (simp add: handle_types)
    show ?thesis
    proof (cases rule: remove_cases [of C clock rnd s env n])
      case ignored
      then show ?thesis using assms e by simp
    next
      case (not_member rm b h)
      then show ?thesis using assms e by (auto simp: members_at_def split: if_splits)
    next
      case (removed rm b h)
      then have b: "b = a" "vr_side rm = side"
        using assms e by (auto simp: members_at_def departed_simps split: if_splits)
      have "\<exists>member conn env. t = KeyPush a member conn env \<and> member \<in> vh_members h - {side} \<and>
          (member, conn) \<in> set (vh_active_sessions h)"
        if "t \<in> set (vres_tasks (handle_verse C clock rnd s env n))" for t
        using rotation_task_members [of t C clock rnd a "snd (drop_member side h)"] that removed(8) b e
        by (auto simp: drop_member_def AList.delete_eq)
      then show ?thesis using removed b e
        by (intro that [of h "departed (rnd 0) side (\<lambda>h. h) h"])
          (simp_all add: departed_simps rotated_key_def split: option.splits)
    qed
  qed
qed

section \<open>Posts\<close>

lemma reply_not_received: "Received e plain \<notin> set (vres_out (reply m x))"
  by (simp add: reply_def split: sum.splits)

lemma join_not_received: "Received e plain \<notin> set (vres_out (handle_join_request C clock rnd s env n))"
  by (simp add: handle_join_request_def decline_def Let_def reply_not_received split: sum.split option.split)

lemma leave_not_received: "vres_out (handle_verse_leave C clock rnd s env n) = []"
  by (simp add: handle_verse_leave_def Let_def split_beta split: sum.split option.split)

lemma remove_not_received: "vres_out (handle_verse_remove C clock rnd s env n) = []"
  by (simp add: handle_verse_remove_def Let_def split_beta split: sum.split option.split)

lemma reconsent_not_received: "vres_out (handle_verse_reconsent C s env n) = []"
  by (simp add: handle_verse_reconsent_def split: sum.split)

lemma fetch_not_received: "Received e plain \<notin> set (vres_out (handle_contract_fetch C clock rnd s env n))"
  by (simp add: handle_contract_fetch_def reply_not_received split: option.split)

lemmas not_received = join_not_received leave_not_received remove_not_received reconsent_not_received
  fetch_not_received

lemma post_delivered:
  assumes "Received e plain \<in> set (vres_out (handle_verse C clock rnd s env n))"
  shows "e = env \<and> env_type env = VERSE_POST \<and> (\<exists>h post. vn_heap n (route_post s env) = Some h \<and>
    may_post h (env_from env) \<and> decode_verse_post (env_payload env) = Inr post \<and>
    aead_decrypt C (vh_content_key h) (vp_nonce post) VERSE_POST_AAD (vp_ciphertext post) = Some plain)"
proof -
  have "env_type env = 0x57"
    using assms by (auto simp: handle_types not_received split: if_splits)
  then show ?thesis using assms
    by (auto simp: handle_types verse_types handle_verse_post_def Let_def content_key_open_def
        split: if_splits sum.splits option.splits)
qed

lemma post_round_trip:
  assumes "aead_laws C" "vn_heap n a = Some h" "may_post h (public_bytes C k)" "route_post s env = a"
    and "vm_content_key m = vh_content_key h" "length nonce = 12" "length body < 2 ^ 63"
    and "post_to_verse C k m body (Some ts) (Some nonce) (Some ne) = Inr env"
  shows "vres_out (handle_verse C clock rnd s env n) = [Received env body]"
proof -
  obtain ct where ct: "aead_encrypt C (vh_content_key h) nonce VERSE_POST_AAD body = Some ct"
      "env = sign_with C VERSE_POST k (Some (vm_verse m)) (encode_verse_post \<lparr>vp_nonce = nonce, vp_ciphertext = ct\<rparr>) ts ne"
    using assms(5,8)
    by (auto simp: post_to_verse_def content_key_seal_def fill_random_def now_unix_seconds_def split: option.splits)
  have "length ct < 2 ^ 64" using aead_length [OF assms(1) ct(1)] assms(7) by simp
  then have "decode_verse_post (env_payload env) = Inr \<lparr>vp_nonce = nonce, vp_ciphertext = ct\<rparr>"
    using assms(6) ct(2) by (simp add: verse_post_msg.decode_encode wf_verse_post_def wf_fixed_def wf_bytes_def)
  moreover have "aead_decrypt C (vh_content_key h) nonce VERSE_POST_AAD ct = Some body"
    using assms(1) ct(1) by (simp add: aead_laws_def)
  ultimately show ?thesis using assms(2-4) ct(2)
    by (simp add: handle_types verse_types handle_verse_post_def Let_def content_key_open_def)
qed

section \<open>Joining, end to end\<close>

lemma join_round_trip:
  assumes C: "laws C" and k: "wf_side k" and h: "vn_heap n a = Some h" "wf_host C h"
    and vals: "wf_string_map values" "admissible C h (join_sign C k (contract_hash C (vh_contract h)) values)"
    and route: "route_by_hash s (contract_hash C (vh_contract h)) = a"
    and io: "rnd 0 = Some kn" "length kn = 16" "rnd 1 = Some ne"
    and req: "request_join C k peer (vh_contract h) values (Some ts) (Some re) = Inr env"
  shows "\<exists>resp m. vres_out (handle_verse C (Some now) rnd s env n) = [Reply resp] \<and>
    finish_join C k (vh_contract h) resp = Inr m \<and> vm_content_key m = vh_content_key h \<and>
    vm_verse m = co_verse (vh_contract h) \<and>
    (\<exists>h'. vn_heap (vres_node (handle_verse C (Some now) rnd s env n)) a = Some h' \<and>
       may_post h' (public_bytes C k))"
proof -
  let ?hash = "contract_hash C (vh_contract h)" and ?pk = "public_bytes C k"
  let ?token = "token_sign C (vh_verse_key h) ?hash ?pk now"
  have laws: "signature_laws C" "aead_laws C" "dh_laws C" "hash_laws C" using C by (simp_all add: laws_def)
  have pk: "length ?pk = 32" using signed_by_side(1) [OF laws(1) k] .
  have "wf_join_request C (join_sign C k ?hash values)"
    using laws k vals(1) by (intro join_sign_wf) (simp_all add: hash_laws_def contract_hash_def)
  then have d: "decode_join_request C (encode_join_request (join_sign C k ?hash values)) = Inr (join_sign C k ?hash values)"
    by (rule join_request_msg.decode_encode)
  have env: "env = sign_with C JOIN_REQUEST k (Some peer) (encode_join_request (join_sign C k ?hash values)) ts re"
    using req by (simp add: request_join_def sign_response_def sign_fresh_def now_unix_seconds_def fill_random_def)
  obtain sealed where seal: "seal C (vh_content_key h) (vh_verse_key h) ?pk kn KEY_SHARE_AAD = Inr sealed"
    using seal_open [OF laws, of "vh_verse_key h" k kn "vh_content_key h" KEY_SHARE_AAD] h(2) k io(2)
    by (auto simp: wf_host_def)
  define accept where "accept = \<lparr>ja_membership_token = token_to_wire ?token, ja_key_nonce = kn, ja_sealed_content_key = sealed\<rparr>"
  have j: "jr_side (join_sign C k ?hash values) = ?pk" "jr_contract_hash (join_sign C k ?hash values) = ?hash"
    by (simp_all add: join_sign_def Let_def)
  have acc: "accept_payload C h (join_sign C k ?hash values) (Some now) (rnd 0) = Inr accept"
    using io seal by (simp add: accept_payload_def now_unix_seconds_def fill_random_def j accept_def)
  define resp where "resp = sign_with C JOIN_ACCEPT (vh_verse_key h) (Some ?pk) (encode_join_accept accept) now ne"
  have f: "\<not> missing_required (vh_contract h) (jr_fields (join_sign C k ?hash values))"
      "\<not> has_forbidden (vh_contract h) (jr_fields (join_sign C k ?hash values))"
    using vals(2) by (simp_all add: admissible_def missing_required_iff has_forbidden_iff)
  have r: "handle_verse C (Some now) rnd s env n =
      done_with (with_mut a (add_member ?pk (co_version (vh_contract h))) n) [Reply resp] []"
    using d h(1) route f acc io
    by (simp add: handle_types env JOIN_REQUEST_def handle_join_request_def Let_def j reply_def sign_response_def sign_fresh_def
        now_unix_seconds_def fill_random_def resp_def)
  have tok: "wf_token C ?token" by (rule host_token_wf [OF C h(2) pk])
  then have "token_from_wire C (token_to_wire ?token) = Inr ?token" by (rule token_msg.decode_encode)
  moreover have "wf_bytes (token_to_wire ?token)" using tok by (intro token_to_wire_size) (simp add: wf_token_def)
  note o = sealed_key_opens [OF C h(2) k io(2) this seal, folded accept_def]
  ultimately have "finish_join C k (vh_contract h) resp = Inr \<lparr>vm_verse = co_verse (vh_contract h),
      vm_contract_hash = ?hash, vm_membership_token = token_to_wire ?token, vm_content_key = vh_content_key h\<rparr>"
    using o h(2)
    by (simp add: finish_join_def resp_def accept_def wf_host_def token_sign_def Let_def)
  then show ?thesis
    using r h(1) by (simp add: with_mut_heap may_post_def add_member_def)
qed

section \<open>Amendment and re-consent\<close>

lemma reconsent_effect:
  "vn_heap (vres_node (handle_verse_reconsent C s env n)) b =
     (case decode_verse_reconsent C (env_from env) (env_payload env) of
        Inl _ \<Rightarrow> vn_heap n b
      | Inr recon \<Rightarrow>
          if b \<noteq> sess_default s then vn_heap n b
          else map_option (\<lambda>h. if env_from env \<in> vh_members h \<and> rc_contract_hash recon = contract_hash C (vh_contract h)
            then h\<lparr>vh_consented_versions := (vh_consented_versions h)(env_from env \<mapsto> co_version (vh_contract h))\<rparr>
            else h) (vn_heap n b))"
  by (auto simp: handle_verse_reconsent_def with_mut_heap split: sum.splits intro!: map_option_cong)

lemma amend_effect:
  assumes "map_of (vn_hosted n) (co_verse new) = Some a" "vn_heap n a = Some h"
  shows "vn_heap (vres_node (host_amend_verse C clock rnd new n)) b =
    (if b = a then Some (h\<lparr>vh_contract := new\<rparr>) else vn_heap n b)"
  using assms by (simp add: host_amend_verse_def Let_def amend_contract_def split: sum.split)

section \<open>Reachable states\<close>

record verse_system =
  sys_node :: verse_node
  sys_sessions :: "verse_session list"
  sys_tasks :: "task list"

definition system_init :: "side_key \<Rightarrow> verse_system" where
  "system_init side = \<lparr>sys_node = \<lparr>vn_side = side, vn_heap = Map.empty, vn_hosted = [], vn_posts_received = 0\<rparr>,
     sys_sessions = [], sys_tasks = []\<rparr>"

text \<open>
  One step: a verse is hosted under a fresh handle, a session opens, an envelope that
  parses and verifies is handled, a task runs, a session ends, the owner acts. A handler
  that fails ends its session; the session guard may run at any later time.
\<close>

inductive verse_step :: "crypto \<Rightarrow> verse_system \<Rightarrow> verse_system \<Rightarrow> bool" for C where
  host: "vn_heap (sys_node y) a = None \<Longrightarrow> h = verse_host_new key contract content_key \<Longrightarrow>
    verse_step C y (y\<lparr>sys_node := host_verse C a h (sys_node y)\<rparr>)"
| opened: "open_session C peer conn ok (sys_node y) = Some (s, out, n) \<Longrightarrow>
    verse_step C y (y\<lparr>sys_node := n, sys_sessions := s # sys_sessions y\<rparr>)"
| handled: "s \<in> set (sys_sessions y) \<Longrightarrow> from_wire_bytes C bs = Inr env \<Longrightarrow>
    r = handle_verse C clock rnd s env (sys_node y) \<Longrightarrow>
    verse_step C y (y\<lparr>sys_node := vres_node r, sys_tasks := sys_tasks y @ vres_tasks r\<rparr>)"
| task_run: "t \<in> set (sys_tasks y) \<Longrightarrow>
    verse_step C y (y\<lparr>sys_node := snd (run_task ok t (sys_node y)), sys_tasks := remove1 t (sys_tasks y)\<rparr>)"
| closed: "s \<in> set (sys_sessions y) \<Longrightarrow>
    verse_step C y (y\<lparr>sys_node := close_session s (sys_node y), sys_sessions := remove1 s (sys_sessions y)\<rparr>)"
| rotated: "r = host_rotate_verse_key C clock rnd addr (sys_node y) \<Longrightarrow>
    verse_step C y (y\<lparr>sys_node := vres_node r, sys_tasks := sys_tasks y @ vres_tasks r\<rparr>)"
| amended: "r = host_amend_verse C clock rnd new (sys_node y) \<Longrightarrow>
    verse_step C y (y\<lparr>sys_node := vres_node r, sys_tasks := sys_tasks y @ vres_tasks r\<rparr>)"
| local_member: "vn_heap (sys_node y) a = Some h \<Longrightarrow>
    verse_step C y (y\<lparr>sys_node := (sys_node y)\<lparr>vn_heap := (vn_heap (sys_node y))
      (a \<mapsto> snd (add_local_member C side ts h))\<rparr>\<rparr>)"

inductive verse_reachable :: "crypto \<Rightarrow> side_key \<Rightarrow> verse_system \<Rightarrow> bool" for C side where
  init: "verse_reachable C side (system_init side)"
| step: "verse_reachable C side y \<Longrightarrow> verse_step C y y' \<Longrightarrow> verse_reachable C side y'"

lemma heap_inv_fold: "(\<And>x m. heap_inv m \<Longrightarrow> heap_inv (f x m)) \<Longrightarrow> heap_inv n \<Longrightarrow> heap_inv (fold f xs n)"
  by (induction xs arbitrary: n) simp_all

lemma heap_inv_redeliver: "heap_inv n \<Longrightarrow> heap_inv (snd (redeliver peer conn ok as n))"
proof (induction as arbitrary: n)
  case Nil
  then show ?case by simp
next
  case (Cons a as)
  show ?case
  proof (cases "vn_heap n a")
    case None
    then show ?thesis using Cons by simp
  next
    case (Some h)
    obtain pending h' where t: "take_pending_key_push peer h = (pending, h')" by fastforce
    have "host_inv (snd (take_pending_key_push peer h))" using Cons.prems Some by (simp add: heap_inv_def)
    then have "host_inv h'" using t by simp
    then have "heap_inv (n\<lparr>vn_heap := (vn_heap n)(a \<mapsto> h')\<rparr>)"
        "heap_inv (n\<lparr>vn_heap := (vn_heap n)(a \<mapsto> stash_pending_key_push peer e h')\<rparr>)" for e
      using Cons.prems by (auto intro!: heap_inv_put)
    then show ?thesis using Cons.IH Some t by (cases pending) (simp_all add: split_beta)
  qed
qed

lemma heap_inv_open: "heap_inv n \<Longrightarrow> open_session C peer conn ok n = Some (s, out, n') \<Longrightarrow> heap_inv n'"
proof -
  assume n: "heap_inv n" and o: "open_session C peer conn ok n = Some (s, out, n')"
  have f: "heap_inv (fold (\<lambda>(addr, a). with_mut a (register_session peer conn)) (vn_hosted n) n)"
    by (rule heap_inv_fold [OF _ n]) (auto intro!: heap_inv_with_mut)
  have "n' = snd (redeliver peer conn ok (map snd (vn_hosted n))
      (fold (\<lambda>(addr, a). with_mut a (register_session peer conn)) (vn_hosted n) n))"
    using o by (auto simp: open_session_def Let_def split_beta split: option.splits)
  then show "heap_inv n'" using heap_inv_redeliver [OF f] by simp
qed

lemma heap_inv_step:
  assumes inv: "heap_inv (sys_node y)" and step: "verse_step C y y'"
  shows "heap_inv (sys_node y')"
  using step inv
proof (cases rule: verse_step.cases)
  case (host a h key contract content_key)
  then show ?thesis using inv by (simp add: host_verse_def heap_inv_def host_inv_new)
next
  case (opened peer conn ok s out n)
  then show ?thesis using inv heap_inv_open by simp
next
  case (handled s bs env r clock rnd)
  then show ?thesis using inv by (simp add: heap_inv_handle)
next
  case (task_run t ok)
  then show ?thesis using inv by (cases t) (auto intro!: heap_inv_with_mut split: option.split)
next
  case (closed s)
  then show ?thesis using inv by (auto simp: close_session_def intro!: heap_inv_fold heap_inv_with_mut)
next
  case (rotated r clock rnd addr)
  then show ?thesis using inv
    by (auto simp: host_rotate_verse_key_def Let_def split_beta rotate_host heap_inv_def
        split: option.split sum.split bind_splits)
next
  case (amended r clock rnd new)
  then show ?thesis using inv
    by (auto simp: host_amend_verse_def Let_def heap_inv_def split: option.split sum.split bind_splits)
next
  case (local_member a h side ts)
  then show ?thesis using inv by (auto simp: heap_inv_def intro!: host_inv_local)
qed

lemma reachable_heap_inv: "verse_reachable C side y \<Longrightarrow> heap_inv (sys_node y)"
  by (induction rule: verse_reachable.induct)
    (auto simp: system_init_def heap_inv_def intro: heap_inv_step [unfolded heap_inv_def, rule_format])

end
