(* ===== verification/VerseSafety.thy ===== *)
theory VerseSafety
  imports VerseSystem
begin

text \<open>
  The safety properties of the verse service: who may join, leave and post, what a
  departure does to the content key, what members can do with what they receive, and
  where the service falls short of its description. Small concrete nodes show that the
  hypotheses can hold.
\<close>

section \<open>Concrete nodes\<close>

definition sample_verse_key :: side_key where
  "sample_verse_key = \<lparr>seed = replicate 32 1, label = ''verse''\<rparr>"

definition sample_member_key :: side_key where
  "sample_member_key = \<lparr>seed = replicate 32 2, label = ''member''\<rparr>"

definition sample_moderator_key :: side_key where
  "sample_moderator_key = \<lparr>seed = replicate 32 3, label = ''moderator''\<rparr>"

definition sample_contract :: contract_object where
  "sample_contract = \<lparr>co_verse = replicate 32 1, co_version = 1, co_title = ''t'', co_description = '''',
     co_required = [], co_optional = [], co_forbidden = [], co_scoped = [], co_policies = [],
     co_moderators = [replicate 32 3], co_issued_at = 0, co_signature = replicate 64 0\<rparr>"

definition sample_host :: verse_host where
  "sample_host = verse_host_new sample_verse_key sample_contract (replicate 32 7)"

text \<open>The same host with one member, connected over connection 4, and an absent one.\<close>

definition sample_joined :: verse_host where
  "sample_joined = register_session (replicate 32 2) 4
     (add_member (replicate 32 3) 1 (add_member (replicate 32 2) 1 sample_host))"

definition sample_node :: "verse_host \<Rightarrow> verse_node" where
  "sample_node h = \<lparr>vn_side = sample_verse_key, vn_heap = [0 \<mapsto> h], vn_hosted = [(replicate 32 1, 0)],
     vn_posts_received = 0\<rparr>"

definition sample_session :: verse_session where
  "sample_session = \<lparr>sess_peer = replicate 32 2, sess_connection = 4, sess_hosts = [(replicate 32 1, 0)],
     sess_index = [(contract_hash sample_crypto sample_contract, replicate 32 1)], sess_default = 0\<rparr>"

definition sample_draws :: "nat \<Rightarrow> byte list option" where
  "sample_draws i = Some (if i = 0 then replicate 32 6 else replicate 16 5)"

lemmas sample_defs = sample_verse_key_def sample_member_key_def sample_moderator_key_def sample_contract_def
  sample_host_def sample_joined_def verse_host_new_def add_member_def register_session_def

lemma sample_wf_keys: "wf_side sample_verse_key" "wf_side sample_member_key" "wf_side sample_moderator_key"
  by (simp_all add: sample_defs wf_side_def)

lemma sample_wf_host: "wf_host sample_crypto sample_host" "wf_host sample_crypto sample_joined"
  using sample_wf_keys(1) by (simp_all add: wf_host_def sample_public sample_defs)

lemma sample_hash_length: "length (blake3 sample_crypto m) = 32"
  using sample_hash_laws by (simp add: hash_laws_def)

lemma sample_no_posts: "posts_of (vh_posts sample_joined) v author = []"
  by (simp add: sample_defs posts_of_def map_get_def)

lemma sample_node_heap: "vn_heap (sample_node h) 0 = Some h"
  by (simp add: sample_node_def)

text \<open>A join, a departure and a post as the member's side of the code makes them.\<close>

definition sample_join :: join_request where
  "sample_join = join_sign sample_crypto sample_member_key (contract_hash sample_crypto sample_contract) []"

definition sample_join_env :: "side_key \<Rightarrow> envelope" where
  "sample_join_env k = sign_with sample_crypto JOIN_REQUEST k None (encode_join_request sample_join) 5 (replicate 16 1)"

definition sample_leave :: verse_leave where
  "sample_leave = leave_sign sample_crypto sample_member_key (replicate 32 1) (replicate 32 8) None Retract"

definition sample_leave_env :: envelope where
  "sample_leave_env = sign_with sample_crypto VERSE_LEAVE sample_member_key (Some (replicate 32 1))
     (encode_verse_leave sample_leave) 5 (replicate 16 1)"

lemma sample_join_decodes: "decode_join_request sample_crypto (encode_join_request sample_join) = Inr sample_join"
  unfolding sample_join_def
  by (intro join_request_msg.decode_encode join_sign_wf sample_signature_laws sample_wf_keys)
    (simp_all add: contract_hash_def sample_hash_length wf_string_map_def wf_text_map_def wf_btree_def)

lemma sample_leave_decodes: "decode_verse_leave sample_crypto (encode_verse_leave sample_leave) = Inr sample_leave"
  unfolding sample_leave_def
  by (intro verse_leave_msg.decode_encode leave_sign_wf sample_signature_laws sample_wf_keys) simp_all

lemma sample_admissible: "admissible sample_crypto sample_host sample_join"
  by (simp add: admissible_def sample_join_def join_sign_def Let_def sample_host_def verse_host_new_def)
    (simp add: sample_contract_def)

lemma sample_leave_side: "vl_side sample_leave = replicate 32 2" "vl_verse sample_leave = replicate 32 1"
  by (simp_all add: sample_leave_def leave_sign_def Let_def sample_public sample_member_key_def)

lemma sample_left_members:
  "replicate 32 2 \<in> members_at (sample_node sample_joined) 0"
  "replicate 32 2 \<notin> members_at (vres_node (handle_verse sample_crypto clock rnd sample_session sample_leave_env
     (sample_node sample_joined))) 0"
proof -
  show m: "replicate 32 2 \<in> members_at (sample_node sample_joined) 0"
    by (simp add: members_at_def sample_node_def sample_defs)
  have e: "env_type sample_leave_env = 0x55" "env_from sample_leave_env = replicate 32 2"
      "env_payload sample_leave_env = encode_verse_leave sample_leave"
    by (simp_all add: sample_leave_env_def VERSE_LEAVE_def sample_public sample_member_key_def)
  show "replicate 32 2 \<notin> members_at (vres_node (handle_verse sample_crypto clock rnd sample_session sample_leave_env
     (sample_node sample_joined))) 0"
    using e sample_leave_decodes
    by (simp add: handle_types handle_verse_leave_def sample_leave_side sample_session_def sample_node_def
        sample_joined_def register_session_def add_member_def drop_member_def Let_def split_beta members_at_def
        rotate_in_heap with_mut_heap rotate_content_key_snd split: option.split)
qed

section \<open>Consequences shared below\<close>

text \<open>An admissible request makes its side a member, whoever sends the envelope.\<close>

lemma join_adds:
  assumes "env_type env = JOIN_REQUEST" "decode_join_request C (env_payload env) = Inr req"
    and "vn_heap n (route_by_hash s (jr_contract_hash req)) = Some h" "admissible C h req"
    and "accept_payload C h req clock (rnd 0) = Inr accept"
  shows "vres_node (handle_verse C clock rnd s env n) =
    with_mut (route_by_hash s (jr_contract_hash req)) (add_member (jr_side req) (co_version (vh_contract h))) n"
  using assms
  by (simp add: handle_types JOIN_REQUEST_def handle_join_request_def Let_def admissible_def missing_required_iff
      has_forbidden_iff)

lemma accept_payload_exists:
  assumes "laws C" "wf_host C h" "wf_side k" "jr_side req = public_bytes C k" "length kn = 16"
  shows "\<exists>accept. accept_payload C h req (Some now) (Some kn) = Inr accept"
proof -
  have "\<exists>ct. seal C (vh_content_key h) (vh_verse_key h) (public_bytes C k) kn KEY_SHARE_AAD = Inr ct"
    using seal_open [of C "vh_verse_key h" k kn "vh_content_key h" KEY_SHARE_AAD] assms
    by (auto simp: laws_def wf_host_def)
  then show ?thesis using assms(4) by (auto simp: accept_payload_def now_unix_seconds_def fill_random_def)
qed

lemma reachable_posts_inv:
  assumes "verse_reachable C side y" "vn_heap (sys_node y) a = Some h"
  shows "dom (vh_consented_versions h) = vh_members h \<and>
    distinct (map (env_nonce \<circ> sp_envelope) (posts_of (vh_posts h) v author))"
  using reachable_heap_inv [OF assms(1)] assms(2) by (auto simp: heap_inv_def host_inv_def posts_inv_def)

text \<open>Leaving with \<open>Retract\<close> and what stays in the post log.\<close>

lemma leave_posts:
  assumes "decode_verse_leave C (env_payload env) = Inr leave" "env_type env = VERSE_LEAVE"
    and "vl_side leave \<in> members_at n a" "vl_side leave \<notin> members_at (vres_node (handle_verse C clock rnd s env n)) a"
  shows "\<exists>h. vn_heap n a = Some h \<and> vn_heap (vres_node (handle_verse C clock rnd s env n)) a =
    Some (departed (rnd 0) (vl_side leave) (retract_if C leave) h)"
proof -
  have e: "handle_verse C clock rnd s env n = handle_verse_leave C clock rnd s env n"
    using assms(2) by (simp add: handle_types VERSE_LEAVE_def)
  show ?thesis
  proof (cases rule: leave_cases [of C clock rnd s env n])
    case ignored
    then show ?thesis using assms(3,4) e by simp
  next
    case (not_member l b h)
    then show ?thesis using assms e by (auto simp: members_at_def split: if_splits)
  next
    case (left l b h)
    then have "l = leave" using assms(1) by simp
    then show ?thesis using left assms(3,4) e by (auto simp: members_at_def departed_simps split: if_splits)
  qed
qed

lemma departed_posts:
  "posts_of (vh_posts (departed rnd side (retract_if C leave) h)) v author =
     (if vl_disposition leave = Retract \<and> v = public_bytes C (vh_verse_key h) \<and> author = vl_side leave then []
      else posts_of (vh_posts h) v author)"
  by (simp add: departed_def rotate_content_key_snd retract_if_def drop_member_def posts_of_retract split: option.split)

text \<open>After a rotation every connected member has a push that opens to the new key.\<close>

lemma rotation_reaches:
  assumes "laws C" "wf_host C h" "wf_side k" "public_bytes C k \<in> vh_members h"
    and "(public_bytes C k, conn) \<in> set (vh_active_sessions h)"
    and "rotate_and_push_verse_key C (Some now) rnd a h = (Inr ts, h')"
    and "\<And>x. rnd 0 = Some x \<Longrightarrow> length x = 32" "\<And>i x. 0 < i \<Longrightarrow> rnd i = Some x \<Longrightarrow> length x = 16"
    and "vm_verse m = public_bytes C (vh_verse_key h)"
  shows "\<exists>push token. KeyPush a (public_bytes C k) conn push \<in> set ts \<and> apply_verse_key_rotation C k m push =
    Inr (m\<lparr>vm_content_key := vh_content_key h', vm_membership_token := token\<rparr>)"
proof -
  have f: "fst (rotate_and_push_verse_key C (Some now) rnd a h) = Inr ts" using assms(6) by simp
  obtain key now' where r: "rnd 0 = Some key" "Some now = Some now'"
      "build_pushes C (h\<lparr>vh_content_key := key\<rparr>) a now' rnd 1 (vh_active_sessions h) = Inr ts"
    by (rule rotation_tasks [OF f])
  have h': "h' = h\<lparr>vh_content_key := key\<rparr>"
    using rotate_host [of C "Some now" rnd a h] assms(6) r(1) by (simp add: rotate_content_key_snd)
  obtain push where push: "KeyPush a (public_bytes C k) conn push \<in> set ts"
    using build_pushes_complete [OF r(3) assms(5)] assms(4) by auto
  obtain j where j: "1 \<le> j" "key_push_envelope C h' now' (public_bytes C k) (rnd j) (rnd (j + 1)) = Inr push"
    using build_pushes_sound [OF r(3) push] h' by auto
  have "wf_host C h'" using assms(2) assms(7) [OF r(1)] h' by (simp add: wf_host_def)
  moreover have "length x = 16" if "rnd j = Some x" for x using assms(8) [OF _ that] j(1) by simp
  ultimately have "\<exists>token. apply_verse_key_rotation C k m push =
      Inr (m\<lparr>vm_content_key := vh_content_key h', vm_membership_token := token\<rparr>)"
    using assms(9) h' by (intro key_push_applies [OF assms(1) _ assms(3) j(2)]) auto
  then show ?thesis using push by blast
qed

text \<open>A rotation leaves the stash of undelivered pushes alone and pushes to open sessions only.\<close>

lemma rotation_ignores_offline:
  assumes "rotate_and_push_verse_key C clock rnd a h = (Inr ts, h')" "member \<notin> fst ` set (vh_active_sessions h)"
  shows "vh_pending_key_pushes h' = vh_pending_key_pushes h \<and> (\<forall>conn push. KeyPush a member conn push \<notin> set ts)"
proof
  show "vh_pending_key_pushes h' = vh_pending_key_pushes h"
    using rotate_host [of C clock rnd a h] assms(1) by (simp add: rotate_content_key_snd split: option.split)
  show "\<forall>conn push. KeyPush a member conn push \<notin> set ts"
  proof (intro allI notI)
    fix conn push
    assume "KeyPush a member conn push \<in> set ts"
    then show False
      using rotation_task_members [of "KeyPush a member conn push" C clock rnd a h] assms by force
  qed
qed

section \<open>Properties\<close>



text \<open>C2: a member leaves a verse only by a leave envelope of its own or by a removal that a moderator
  of the current contract sends.\<close>
theorem members_leave_only_by_self_or_moderator:
  assumes "side \<in> members_at n a" "side \<notin> members_at (vres_node (handle_verse C clock rnd s env n)) a"
  shows "(env_type env = VERSE_LEAVE \<and> env_from env = side) \<or>
    (env_type env = VERSE_REMOVE \<and> (\<exists>h. vn_heap n a = Some h \<and> is_moderator (vh_contract h) (env_from env)))"
  using assms by (rule leaves_only_by_consent_or_moderation)

theorem members_leave_only_by_self_or_moderator_witness:
  "env_type sample_leave_env = VERSE_LEAVE \<and> env_from sample_leave_env = replicate 32 2"
  using members_leave_only_by_self_or_moderator [OF sample_left_members]
  by (simp add: sample_leave_env_def VERSE_LEAVE_def VERSE_REMOVE_def)

text \<open>C3: a departure replaces the content key by a fresh one, keeps the contract, and
  pushes the new key to remaining members with an open session and to nobody else.\<close>
theorem departure_rotates_key:
  assumes "side \<in> members_at n a" "side \<notin> members_at (vres_node (handle_verse C clock rnd s env n)) a"
    and "rnd 0 = Some fresh"
  shows "\<exists>h h'. vn_heap n a = Some h \<and> vn_heap (vres_node (handle_verse C clock rnd s env n)) a = Some h' \<and>
    vh_content_key h' = fresh \<and> vh_members h' = vh_members h - {side} \<and> vh_contract h' = vh_contract h \<and>
    (\<forall>t \<in> set (vres_tasks (handle_verse C clock rnd s env n)). \<exists>member conn push.
       t = KeyPush a member conn push \<and> member \<in> vh_members h - {side} \<and>
       (member, conn) \<in> set (vh_active_sessions h))"
proof -
  obtain h h' where "vn_heap n a = Some h" "vn_heap (vres_node (handle_verse C clock rnd s env n)) a = Some h'"
    "vh_members h' = vh_members h - {side}" "vh_content_key h' = rotated_key (rnd 0) h" "vh_contract h' = vh_contract h"
    "\<And>t. t \<in> set (vres_tasks (handle_verse C clock rnd s env n)) \<Longrightarrow>
       \<exists>member conn env. t = KeyPush a member conn env \<and> member \<in> vh_members h' \<and>
         (member, conn) \<in> set (vh_active_sessions h)"
    by (rule departure_effect [OF assms(1,2)]) blast
  then show ?thesis using assms(3) by (auto simp: rotated_key_def)
qed

theorem departure_rotates_key_witness:
  "\<exists>h'. vn_heap (vres_node (handle_verse sample_crypto (Some 9) sample_draws sample_session sample_leave_env
     (sample_node sample_joined))) 0 = Some h' \<and> vh_content_key h' = replicate 32 6"
  using departure_rotates_key [OF sample_left_members, of sample_draws "replicate 32 6" "Some 9"]
  by (auto simp: sample_draws_def)

text \<open>C9: after a rotation, every member with an open session has a push on its connection from which
  the member's side of the protocol takes exactly the host's new key.\<close>
theorem rotation_reaches_connected_members:
  assumes "laws C" "wf_host C h" "wf_side k" "public_bytes C k \<in> vh_members h"
    and "(public_bytes C k, conn) \<in> set (vh_active_sessions h)"
    and "rotate_and_push_verse_key C (Some now) rnd a h = (Inr ts, h')"
    and "\<forall>i x. rnd i = Some x \<longrightarrow> length x = (if i = 0 then 32 else 16)"
    and "vm_verse m = public_bytes C (vh_verse_key h)"
  shows "\<exists>push token. KeyPush a (public_bytes C k) conn push \<in> set ts \<and> apply_verse_key_rotation C k m push =
    Inr (m\<lparr>vm_content_key := vh_content_key h', vm_membership_token := token\<rparr>)"
  using assms by (intro rotation_reaches [OF assms(1-6)]) auto

theorem rotation_reaches_connected_members_witness:
  "\<exists>ts h' push token. rotate_and_push_verse_key sample_crypto (Some 9) sample_draws 0 sample_joined = (Inr ts, h') \<and>
     KeyPush 0 (replicate 32 2) 4 push \<in> set ts \<and>
     apply_verse_key_rotation sample_crypto sample_member_key \<lparr>vm_verse = replicate 32 1, vm_contract_hash = [],
       vm_membership_token = [], vm_content_key = replicate 32 7\<rparr> push =
     Inr \<lparr>vm_verse = replicate 32 1, vm_contract_hash = [], vm_membership_token = token,
       vm_content_key = vh_content_key h'\<rparr>"
proof -
  have act: "vh_active_sessions sample_joined = [(replicate 32 2, 4)]" "replicate 32 2 \<in> vh_members sample_joined"
    by (simp_all add: sample_defs)
  let ?h = "sample_joined\<lparr>vh_content_key := replicate 32 6\<rparr>"
  have "\<exists>push. key_push_envelope sample_crypto ?h 9 (replicate 32 2) (sample_draws 1) (sample_draws 2) = Inr push"
    using seal_open [OF sample_signature_laws sample_aead_laws sample_dh_laws sample_hash_laws sample_wf_keys(1,2),
        of "replicate 16 5" "replicate 32 6" KEY_SHARE_AAD]
    by (auto simp: key_push_envelope_def Let_def sample_draws_def fill_random_def sample_public sample_member_key_def
        sample_joined_def register_session_def add_member_def sample_host_def verse_host_new_def)
  then obtain push where "build_pushes sample_crypto ?h 0 9 sample_draws 1 (vh_active_sessions ?h) =
      Inr [KeyPush 0 (replicate 32 2) 4 push]"
    using act by (auto simp: numeral_2_eq_2)
  then have r: "rotate_and_push_verse_key sample_crypto (Some 9) sample_draws 0 sample_joined =
      (Inr [KeyPush 0 (replicate 32 2) 4 push], ?h)"
    by (simp add: rotate_and_push_verse_key_def rotate_content_key_def content_key_generate_def fill_random_def
        now_unix_seconds_def sample_draws_def)
  have k: "public_bytes sample_crypto sample_member_key = replicate 32 2" "vh_verse_key sample_joined = sample_verse_key"
      "seed sample_verse_key = replicate 32 1"
    by (simp_all add: sample_public sample_defs)
  show ?thesis
    using rotation_reaches_connected_members [OF sample_laws_all sample_wf_host(2) sample_wf_keys(2) _ _ r, of 4
        "\<lparr>vm_verse = replicate 32 1, vm_contract_hash = [], vm_membership_token = [], vm_content_key = replicate 32 7\<rparr>"]
      r act k
    by (auto simp: sample_draws_def sample_public)
qed

text \<open>Leaving with \<open>Retract\<close> deletes from the verse's log all posts of the leaving member and
  nothing else; with the other disposition nothing is deleted.\<close>
lemma retraction_removes_only_the_leaver:
  assumes "decode_verse_leave C (env_payload env) = Inr leave" "env_type env = VERSE_LEAVE"
    and "vl_side leave \<in> members_at n a" "vl_side leave \<notin> members_at (vres_node (handle_verse C clock rnd s env n)) a"
  shows "\<exists>h h'. vn_heap n a = Some h \<and> vn_heap (vres_node (handle_verse C clock rnd s env n)) a = Some h' \<and>
    (\<forall>v author. posts_of (vh_posts h') v author =
       (if vl_disposition leave = Retract \<and> v = public_bytes C (vh_verse_key h) \<and> author = vl_side leave then []
        else posts_of (vh_posts h) v author))"
  using leave_posts [OF assms] by (auto simp: departed_posts)

lemma retraction_removes_only_the_leaver_witness:
  "\<exists>h'. vn_heap (vres_node (handle_verse sample_crypto (Some 9) sample_draws sample_session sample_leave_env
     (sample_node sample_joined))) 0 = Some h' \<and> posts_of (vh_posts h') (replicate 32 1) (replicate 32 2) = []"
proof -
  have m: "vl_side sample_leave \<in> members_at (sample_node sample_joined) 0"
      "vl_side sample_leave \<notin> members_at (vres_node (handle_verse sample_crypto (Some 9) sample_draws sample_session
         sample_leave_env (sample_node sample_joined))) 0"
    using sample_left_members by (simp_all add: sample_leave_side)
  have "decode_verse_leave sample_crypto (env_payload sample_leave_env) = Inr sample_leave"
      "env_type sample_leave_env = VERSE_LEAVE"
    using sample_leave_decodes by (simp_all add: sample_leave_env_def)
  from retraction_removes_only_the_leaver [OF this m] show ?thesis
    by (force simp: sample_node_heap sample_no_posts split: if_splits)
qed

text \<open>C6: the application is handed a post only if the sender is a member that consented to the
  contract version now in force, and then the plaintext is what decryption of the post
  under the verse's content key gives.\<close>
theorem posts_need_current_consent:
  assumes "Received e plain \<in> set (vres_out (handle_verse C clock rnd s env n))"
  shows "e = env \<and> (\<exists>h post. vn_heap n (route_post s env) = Some h \<and> env_from env \<in> vh_members h \<and>
    vh_consented_versions h (env_from env) = Some (co_version (vh_contract h)) \<and>
    decode_verse_post (env_payload env) = Inr post \<and>
    aead_decrypt C (vh_content_key h) (vp_nonce post) VERSE_POST_AAD (vp_ciphertext post) = Some plain)"
  using post_delivered [OF assms] by (auto simp: may_post_def)


definition sample_membership :: verse_membership where
  "sample_membership = \<lparr>vm_verse = replicate 32 1, vm_contract_hash = [], vm_membership_token = [],
     vm_content_key = replicate 32 7\<rparr>"

lemma sample_may_post:
  "public_bytes sample_crypto sample_member_key \<in> vh_members sample_joined"
  "vh_consented_versions sample_joined (public_bytes sample_crypto sample_member_key) =
     Some (co_version (vh_contract sample_joined))"
  "vm_content_key sample_membership = vh_content_key sample_joined"
  by (simp_all add: sample_public sample_defs sample_membership_def)

lemma sample_post_exists:
  "\<exists>env. post_to_verse sample_crypto sample_member_key sample_membership [104, 105] (Some 9) (Some (replicate 12 1))
     (Some (replicate 16 2)) = Inr env \<and> route_post sample_session env = 0"
  by (simp add: post_to_verse_def content_key_seal_def fill_random_def now_unix_seconds_def sample_crypto_def
      route_post_def sample_session_def sample_membership_def)


theorem posts_need_current_consent_witness:
  "replicate 32 2 \<in> vh_members sample_joined"
proof -
  obtain env where e: "post_to_verse sample_crypto sample_member_key sample_membership [104, 105] (Some 9)
      (Some (replicate 12 1)) (Some (replicate 16 2)) = Inr env" "route_post sample_session env = 0"
    using sample_post_exists by blast
  have h: "vn_heap (sample_node sample_joined) (route_post sample_session env) = Some sample_joined"
    using e(2) by (simp add: sample_node_heap)
  have "may_post sample_joined (public_bytes sample_crypto sample_member_key)"
    using sample_may_post by (simp add: may_post_def)
  then have "Received env [104, 105] \<in> set (vres_out (handle_verse sample_crypto (Some 9) sample_draws sample_session env
      (sample_node sample_joined)))"
    using post_round_trip [OF sample_aead_laws h _ refl sample_may_post(3) _ _ e(1)] by simp
  from posts_need_current_consent [OF this] have "env_from env \<in> vh_members sample_joined" using h by auto
  moreover have "env_from env = replicate 32 2"
    using e(1) by (auto simp: post_to_verse_def and_then_eq_Inr sample_public sample_member_key_def split: prod.splits)
  ultimately show ?thesis by simp
qed



text \<open>C7: in every reachable state of the service, whatever sessions, envelopes, deliveries and owner
  operations came before and in whatever order, each hosted verse has a recorded consent
  for its members and only for them, and its log holds at most one post per author and nonce.\<close>
theorem reachable_hosts_consistent:
  assumes "verse_reachable C side y" "vn_heap (sys_node y) a = Some h"
  shows "dom (vh_consented_versions h) = vh_members h \<and>
    distinct (map (env_nonce \<circ> sp_envelope) (posts_of (vh_posts h) v author))"
  using assms by (rule reachable_posts_inv)

theorem reachable_hosts_consistent_witness:
  "dom (vh_consented_versions sample_host) = vh_members sample_host"
proof -
  let ?y = "(system_init sample_verse_key)\<lparr>sys_node :=
    host_verse sample_crypto 0 sample_host (sys_node (system_init sample_verse_key))\<rparr>"
  have "verse_step sample_crypto (system_init sample_verse_key) ?y"
    by (rule verse_step.host [OF _ sample_host_def]) (simp add: system_init_def)
  then have "verse_reachable sample_crypto sample_verse_key ?y"
    by (rule verse_reachable.step [OF verse_reachable.init])
  from reachable_hosts_consistent [OF this, of 0 sample_host] show ?thesis by (simp add: host_verse_def)
qed

text \<open>A member that has not consented to the version of an amended contract can no longer post: the
  host drops its posts without a trace.\<close>
lemma amendment_blocks_posting:
  assumes "map_of (vn_hosted n) (co_verse new) = Some a" "vn_heap n a = Some h"
    and "vh_consented_versions h (env_from env) \<noteq> Some (co_version new)"
    and "env_type env = VERSE_POST" "route_post s env = a"
  shows "handle_verse C clock rnd s env (vres_node (host_amend_verse C clock' rnd' new n)) =
    done_with (vres_node (host_amend_verse C clock' rnd' new n)) [] []"
  using assms amend_effect [OF assms(1,2), of C clock' rnd' a]
  by (auto simp: handle_types VERSE_POST_def handle_verse_post_def may_post_def Let_def split: sum.split)

definition sample_amended :: contract_object where
  "sample_amended = sample_contract\<lparr>co_version := 2\<rparr>"

lemma amendment_blocks_posting_witness:
  "vres_out (handle_verse sample_crypto (Some 9) sample_draws sample_session
     (sign_with sample_crypto VERSE_POST sample_member_key None [] 5 (replicate 16 1))
     (vres_node (host_amend_verse sample_crypto (Some 8) sample_draws sample_amended (sample_node sample_joined)))) = []"
proof -
  have "map_of (vn_hosted (sample_node sample_joined)) (co_verse sample_amended) = Some 0"
    by (simp add: sample_node_def sample_amended_def sample_contract_def)
  from amendment_blocks_posting [OF this sample_node_heap] show ?thesis
    by (simp add: sample_public sample_defs sample_amended_def route_post_def sample_session_def)
qed

text \<open>Re-consent reaches only the default host of the session, whatever verse it is meant for: in a
  node that hosts several verses, the consent of every other host stays as it is.\<close>
lemma reconsent_only_at_default_host:
  "b \<noteq> sess_default s \<Longrightarrow> vn_heap (vres_node (handle_verse_reconsent C s env n)) b = vn_heap n b"
  by (simp add: reconsent_effect split: sum.split)

lemma reconsent_only_at_default_host_witness:
  "vn_heap (vres_node (handle_verse_reconsent sample_crypto sample_session sample_leave_env
     ((sample_node sample_host)\<lparr>vn_heap := [0 \<mapsto> sample_host, 1 \<mapsto> sample_joined]\<rparr>))) 1 = Some sample_joined"
  using reconsent_only_at_default_host [of 1 sample_session sample_crypto sample_leave_env
      "(sample_node sample_host)\<lparr>vn_heap := [0 \<mapsto> sample_host, 1 \<mapsto> sample_joined]\<rparr>"]
  by (simp add: sample_session_def)

text \<open>A member without an open session never gets a rotated key: the rotation neither pushes to it
  nor stashes a push, so its next session finds nothing to redeliver.\<close>
lemma offline_members_miss_rotations:
  assumes "rotate_and_push_verse_key C clock rnd a h = (Inr ts, h')" "member \<notin> fst ` set (vh_active_sessions h)"
    and "vh_pending_key_pushes h member = None" "vn_heap n a = Some h'"
  shows "(\<forall>conn push. KeyPush a member conn push \<notin> set ts) \<and> fst (redeliver member conn ok [a] n) = []"
  using rotation_ignores_offline [OF assms(1,2)] assms(3,4) by (simp add: take_pending_key_push_def)

lemma offline_members_miss_rotations_witness:
  "fst (redeliver (replicate 32 3) 5 (\<lambda>_. True) [0] (sample_node
     (sample_host\<lparr>vh_content_key := replicate 32 6\<rparr>))) = []"
proof -
  have "rotate_and_push_verse_key sample_crypto (Some 9) sample_draws 0 sample_host =
      (Inr [], sample_host\<lparr>vh_content_key := replicate 32 6\<rparr>)"
    by (simp add: rotate_and_push_verse_key_def rotate_content_key_def content_key_generate_def fill_random_def
        now_unix_seconds_def sample_draws_def sample_defs)
  from offline_members_miss_rotations [OF this _ _ sample_node_heap] show ?thesis
    by (simp add: sample_host_def verse_host_new_def)
qed

text \<open>A join request carries nothing fresh and is not tied to its envelope: as long as the contract
  stands, anybody who holds the bytes of an old request can make its side a member again,
  also after the side left or was removed.\<close>
lemma old_join_request_readmits:
  assumes "laws C" "wf_host C h" "wf_side k" "decode_join_request C payload = Inr req" "jr_side req = public_bytes C k"
    and "vn_heap n (route_by_hash s (jr_contract_hash req)) = Some h" "admissible C h req"
    and "env_type env = JOIN_REQUEST" "env_payload env = payload" "rnd 0 = Some kn" "length kn = 16"
  shows "public_bytes C k \<in> members_at (vres_node (handle_verse C (Some now) rnd s env n))
    (route_by_hash s (jr_contract_hash req))"
proof -
  obtain accept where "accept_payload C h req (Some now) (rnd 0) = Inr accept"
    using accept_payload_exists [OF assms(1-3,5,11)] assms(10) by auto
  then have "vres_node (handle_verse C (Some now) rnd s env n) =
      with_mut (route_by_hash s (jr_contract_hash req)) (add_member (jr_side req) (co_version (vh_contract h))) n"
    using assms(4,6-9) by (intro join_adds) simp_all
  then show ?thesis using assms(5,6)
    by (simp add: members_at_def with_mut_heap add_member_def)
qed

lemma old_join_request_readmits_witness:
  "replicate 32 2 \<in> members_at (vres_node (handle_verse sample_crypto (Some 99) (\<lambda>_. Some (replicate 16 4))
     sample_session (sample_join_env sample_moderator_key) (sample_node (snd (drop_member (replicate 32 2) sample_joined))))) 0"
proof -
  let ?h = "snd (drop_member (replicate 32 2) sample_joined)"
  have h: "wf_host sample_crypto ?h" "vh_contract ?h = vh_contract sample_host" "vh_contract sample_host = sample_contract"
    using sample_wf_host(2) by (simp_all add: wf_host_def drop_member_def sample_joined_def register_session_def
        add_member_def sample_host_def verse_host_new_def)
  have j: "jr_side sample_join = public_bytes sample_crypto sample_member_key"
      "jr_contract_hash sample_join = contract_hash sample_crypto sample_contract"
    by (simp_all add: sample_join_def join_sign_def Let_def)
  have r: "route_by_hash sample_session (jr_contract_hash sample_join) = 0"
    by (simp add: j route_by_hash_def sample_session_def)
  then have n: "vn_heap (sample_node ?h) (route_by_hash sample_session (jr_contract_hash sample_join)) = Some ?h"
    by (simp add: sample_node_heap)
  have a: "admissible sample_crypto ?h sample_join" using sample_admissible h by (simp add: admissible_def)
  have e: "env_type (sample_join_env sample_moderator_key) = JOIN_REQUEST"
      "env_payload (sample_join_env sample_moderator_key) = encode_join_request sample_join"
    by (simp_all add: sample_join_env_def)
  from old_join_request_readmits [OF sample_laws_all h(1) sample_wf_keys(2) sample_join_decodes j(1) n a e,
      where rnd = "\<lambda>_. Some (replicate 16 4)" and kn = "replicate 16 4" and now = 99] r
  show ?thesis by (simp add: sample_public sample_member_key_def)
qed

end
