(* ===== verification/Keystore.thy ===== *)
theory Keystore
  imports Codec Keys
begin

text \<open>
  The passphrase-sealed master seed, \<open>sidevers-core/src/keystore.rs\<close>: Argon2id turns the
  passphrase into a key, ChaCha20-Poly1305 encrypts the seed, and every parameter of the
  format is bound into the associated data. Opening succeeds exactly on what sealing
  produced for the same passphrase.
\<close>

definition SEALED_SEED_VERSION :: u64 where "SEALED_SEED_VERSION = 1"
definition KDF_ARGON2ID :: string where "KDF_ARGON2ID = ''argon2id''"
definition AEAD_CC20P :: string where "AEAD_CC20P = ''chacha20-poly1305''"
definition SALT_LEN :: nat where "SALT_LEN = 16"

record argon2_params =
  m_kib :: u32
  t_cost :: u32
  p_lanes :: u32

definition default_argon2 :: argon2_params where
  "default_argon2 = \<lparr>m_kib = 19456, t_cost = 2, p_lanes = 1\<rparr>"

record parsed_sealed =
  ps_version :: u64
  ps_kdf :: string
  ps_params :: argon2_params
  ps_salt :: "byte list"
  ps_aead :: string
  ps_nonce :: "byte list"
  ps_ct :: "byte list"

definition derive_kek :: "crypto \<Rightarrow> string \<Rightarrow> byte list \<Rightarrow> argon2_params \<Rightarrow> byte list result" where
  "derive_kek C passphrase salt ps =
     (if \<not> argon2_params_ok C (m_kib ps) (t_cost ps) (p_lanes ps)
      then Inl (Invariant ''invalid Argon2 parameters'')
      else case argon2id C (m_kib ps) (t_cost ps) (p_lanes ps) (text_bytes passphrase) salt of
        None \<Rightarrow> Inl (Invariant ''Argon2 derivation failed'')
      | Some kek \<Rightarrow> Inr kek)"

definition build_aad :: "u64 \<Rightarrow> string \<Rightarrow> string \<Rightarrow> argon2_params \<Rightarrow> byte list \<Rightarrow> byte list" where
  "build_aad version kdf aead ps salt =
     (let w = write_array_header [] 7;
          w = write_u64 w version;
          w = write_text w kdf;
          w = write_u64 w (ucast (m_kib ps));
          w = write_u64 w (ucast (t_cost ps));
          w = write_u64 w (ucast (p_lanes ps));
          w = write_text w aead
      in write_bytes w salt)"

definition sealed_entries :: "parsed_sealed \<Rightarrow> map_entry list" where
  "sealed_entries s =
     [(cbor_text ''ct'', cbor_bytes (ps_ct s)),
      (cbor_text ''kdf'', cbor_text (ps_kdf s)),
      (cbor_text ''aead'', cbor_text (ps_aead s)),
      (cbor_text ''salt'', cbor_bytes (ps_salt s)),
      (cbor_text ''nonce'', cbor_bytes (ps_nonce s)),
      (cbor_text ''version'', cbor_uint (ps_version s)),
      (cbor_text ''argon2_m'', cbor_uint (ucast (m_kib (ps_params s)))),
      (cbor_text ''argon2_p'', cbor_uint (ucast (p_lanes (ps_params s)))),
      (cbor_text ''argon2_t'', cbor_uint (ucast (t_cost (ps_params s))))]"

definition encode_sealed :: "parsed_sealed \<Rightarrow> byte list" where
  "encode_sealed s = encode_map (sealed_entries s)"

definition u32_error :: "string \<Rightarrow> error" where
  "u32_error name = BadFieldLength name 4 8"

definition sealed_fields :: "cbor_reader \<Rightarrow> (parsed_sealed \<times> cbor_reader) result" where
  "sealed_fields r = (let msg = ''sealed-seed keys not in canonical order'' in
     and_then (read_field ''ct'' msg read_bytes r) (\<lambda>(ct, r).
     and_then (read_field ''kdf'' msg read_text r) (\<lambda>(kdf, r).
     and_then (read_field ''aead'' msg read_text r) (\<lambda>(aead, r).
     and_then (read_field ''salt'' msg read_bytes r) (\<lambda>(salt, r).
     and_then (read_field ''nonce'' msg read_bytes r) (\<lambda>(nonce, r).
     and_then (read_field ''version'' msg read_u64 r) (\<lambda>(version, r).
     and_then (read_field ''argon2_m'' msg (read_u32 (u32_error ''argon2_m'')) r) (\<lambda>(m, r).
     and_then (read_field ''argon2_p'' msg (read_u32 (u32_error ''argon2_p'')) r) (\<lambda>(p, r).
     and_then (read_field ''argon2_t'' msg (read_u32 (u32_error ''argon2_t'')) r) (\<lambda>(t, r).
     Inr (\<lparr>ps_version = version, ps_kdf = kdf, ps_params = \<lparr>m_kib = m, t_cost = t, p_lanes = p\<rparr>,
          ps_salt = salt, ps_aead = aead, ps_nonce = nonce, ps_ct = ct\<rparr>, r)))))))))))"

definition decode_sealed :: "byte list \<Rightarrow> parsed_sealed result" where
  "decode_sealed bs = decode_all ''trailing bytes after sealed-seed''
     (read_map 9 ''sealed-seed expected 9 keys'' sealed_fields) bs"

definition seal_seed_with :: "crypto \<Rightarrow> byte list option \<Rightarrow> byte list option \<Rightarrow> byte list \<Rightarrow> string \<Rightarrow>
    argon2_params \<Rightarrow> byte list result" where
  "seal_seed_with C rnd_salt rnd_nonce sd passphrase ps =
     and_then (fill_random rnd_salt) (\<lambda>salt.
     and_then (fill_random rnd_nonce) (\<lambda>nonce.
     and_then (derive_kek C passphrase salt ps) (\<lambda>kek.
     case aead_encrypt C kek nonce (build_aad SEALED_SEED_VERSION KDF_ARGON2ID AEAD_CC20P ps salt) sd of
       None \<Rightarrow> Inl (Invariant ''AEAD seal failed (impossible at fixed input length)'')
     | Some ct \<Rightarrow> Inr (encode_sealed
         \<lparr>ps_version = SEALED_SEED_VERSION, ps_kdf = KDF_ARGON2ID, ps_params = ps, ps_salt = salt,
          ps_aead = AEAD_CC20P, ps_nonce = nonce, ps_ct = ct\<rparr>))))"

definition seal_seed :: "crypto \<Rightarrow> byte list option \<Rightarrow> byte list option \<Rightarrow> byte list \<Rightarrow> string \<Rightarrow>
    byte list result" where
  "seal_seed C rnd_salt rnd_nonce sd passphrase =
     seal_seed_with C rnd_salt rnd_nonce sd passphrase default_argon2"

definition open_seed :: "crypto \<Rightarrow> byte list \<Rightarrow> string \<Rightarrow> byte list result" where
  "open_seed C sealed passphrase =
     and_then (decode_sealed sealed) (\<lambda>s.
     if ps_version s \<noteq> SEALED_SEED_VERSION then Inl (CborDecode ''sealed-seed format version not supported'')
     else if ps_kdf s \<noteq> KDF_ARGON2ID then Inl (CborDecode ''sealed-seed kdf not supported'')
     else if ps_aead s \<noteq> AEAD_CC20P then Inl (CborDecode ''sealed-seed aead not supported'')
     else if length (ps_salt s) \<noteq> SALT_LEN then Inl (BadFieldLength ''salt'' SALT_LEN (length (ps_salt s)))
     else if length (ps_nonce s) \<noteq> AEAD_NONCE_LEN
       then Inl (BadFieldLength ''nonce'' AEAD_NONCE_LEN (length (ps_nonce s)))
     else and_then (derive_kek C passphrase (ps_salt s) (ps_params s)) (\<lambda>kek.
       case aead_decrypt C kek (ps_nonce s)
           (build_aad (ps_version s) (ps_kdf s) (ps_aead s) (ps_params s) (ps_salt s)) (ps_ct s) of
         None \<Rightarrow> Inl DecryptionFailed
       | Some pt \<Rightarrow> if length pt \<noteq> SECRET_KEY_LEN
                    then Inl (BadFieldLength ''seed'' SECRET_KEY_LEN (length pt)) else Inr pt))"

section \<open>The codec\<close>

definition wf_sealed :: "parsed_sealed \<Rightarrow> bool" where
  [wf_defs]: "wf_sealed s \<longleftrightarrow> wf_bytes (ps_ct s) \<and> wf_text (ps_kdf s) \<and> wf_text (ps_aead s) \<and>
     wf_bytes (ps_salt s) \<and> wf_bytes (ps_nonce s)"

lemma sealed_map_codec: "wire_codec encode_sealed (read_map 9 msg sealed_fields) wf_sealed"
  unfolding encode_sealed_def [abs_def]
  by (rule map_codecI,
      (auto simp: and_then_eq_Inr literal_key wire_iff sealed_fields_def Let_def sealed_entries_def wf_sealed_def)[1],
      simp_all add: literal_key wire_write sealed_fields_def Let_def sealed_entries_def wf_sealed_def)

interpretation sealed_msg: strict_message encode_sealed decode_sealed wf_sealed
  unfolding decode_sealed_def [abs_def]
  by (rule strict_messageI) (rule decode_all_iff [OF sealed_map_codec])

lemma sealed_constants_wf: "wf_text KDF_ARGON2ID" "wf_text AEAD_CC20P"
  by (simp_all add: KDF_ARGON2ID_def AEAD_CC20P_def literal_key)

section \<open>The associated data binds every parameter\<close>

lemma build_aad_items:
  "build_aad v kdf aead ps salt = write_array_header [] 7 @ cbor_uint v @ cbor_text kdf @
     cbor_uint (ucast (m_kib ps)) @ cbor_uint (ucast (t_cost ps)) @ cbor_uint (ucast (p_lanes ps)) @
     cbor_text aead @ cbor_bytes salt"
  by (simp add: build_aad_def Let_def write_u64_def write_text_def write_bytes_def cbor_uint_def
      cbor_text_def cbor_bytes_def write_head_append [of "_ @ _"] write_head_append [of "write_head _ _ _"]
      write_head_append [of "write_array_header _ _"])

lemma ucast_u32_inj: "(ucast (a :: u32) :: u64) = ucast b \<Longrightarrow> a = b"
  by (metis (no_types) read_u32_write Inr_inject prod.inject append_Nil2)

lemma build_aad_inj:
  assumes "wf_text kdf" "wf_text kdf'" "wf_text aead" "wf_text aead'" "wf_bytes salt" "wf_bytes salt'"
    and "build_aad v kdf aead ps salt = build_aad v' kdf' aead' ps' salt'"
  shows "v = v' \<and> kdf = kdf' \<and> aead = aead' \<and> ps = ps' \<and> salt = salt'"
proof -
  have h: "cbor_uint v @ cbor_text kdf @ cbor_uint (ucast (m_kib ps)) @ cbor_uint (ucast (t_cost ps)) @
      cbor_uint (ucast (p_lanes ps)) @ cbor_text aead @ cbor_bytes salt =
    cbor_uint v' @ cbor_text kdf' @ cbor_uint (ucast (m_kib ps')) @ cbor_uint (ucast (t_cost ps')) @
      cbor_uint (ucast (p_lanes ps')) @ cbor_text aead' @ cbor_bytes salt'"
    using assms(7) by (simp add: build_aad_items)
  note u = uint_item.enc_prefix_free [OF TrueI TrueI]
  from u [OF h] have v: "v = v'" by simp
  from u [OF h, THEN conjunct2] text_item.enc_prefix_free [OF assms(1,2)] have k: "kdf = kdf'" by blast
  from u [OF h, THEN conjunct2] text_item.enc_prefix_free [OF assms(1,2)]
  have h2: "cbor_uint (ucast (m_kib ps)) @ cbor_uint (ucast (t_cost ps)) @
      cbor_uint (ucast (p_lanes ps)) @ cbor_text aead @ cbor_bytes salt =
    cbor_uint (ucast (m_kib ps')) @ cbor_uint (ucast (t_cost ps')) @
      cbor_uint (ucast (p_lanes ps')) @ cbor_text aead' @ cbor_bytes salt'" by blast
  note h3 = u [OF h2, THEN conjunct2]
  note h4 = u [OF h3, THEN conjunct2]
  note h5 = u [OF h4, THEN conjunct2]
  have "ps = ps'"
    using u [OF h2, THEN conjunct1] u [OF h3, THEN conjunct1] u [OF h4, THEN conjunct1]
    by (cases ps; cases ps') (auto dest: ucast_u32_inj)
  moreover have "aead = aead'" "cbor_bytes salt = cbor_bytes salt'"
    using text_item.enc_prefix_free [OF assms(3,4) h5] by auto
  ultimately show ?thesis using v k bytes_item.enc_inj [OF assms(5,6)] by simp
qed

section \<open>Opening inverts sealing\<close>

lemma open_seed_iff:
  assumes "aead_laws C"
  shows "open_seed C bs pw = Inr sd \<longleftrightarrow> length sd = 32 \<and>
    (\<exists>salt nonce ps. length salt = 16 \<and> length nonce = 12 \<and>
       seal_seed_with C (Some salt) (Some nonce) sd pw ps = Inr bs)" (is "?L \<longleftrightarrow> ?R")
proof
  assume ?L
  then obtain s kek where s: "wf_sealed s" "bs = encode_sealed s" "ps_version s = SEALED_SEED_VERSION"
      "ps_kdf s = KDF_ARGON2ID" "ps_aead s = AEAD_CC20P" "length (ps_salt s) = 16" "length (ps_nonce s) = 12"
      "derive_kek C pw (ps_salt s) (ps_params s) = Inr kek" "length sd = 32"
      "aead_decrypt C kek (ps_nonce s)
         (build_aad (ps_version s) (ps_kdf s) (ps_aead s) (ps_params s) (ps_salt s)) (ps_ct s) = Some sd"
    by (auto simp: open_seed_def and_then_eq_Inr sealed_msg.decode_iff SALT_LEN_def AEAD_NONCE_LEN_def
        split: if_splits option.splits)
  have "seal_seed_with C (Some (ps_salt s)) (Some (ps_nonce s)) sd pw (ps_params s) = Inr bs"
    using s assms
    by (simp add: seal_seed_with_def fill_random_def aead_laws_def encode_sealed_def sealed_entries_def)
  then show ?R using s by blast
next
  assume ?R
  then obtain salt nonce ps kek ct where h: "length sd = 32" "length salt = 16" "length nonce = 12"
      "derive_kek C pw salt ps = Inr kek"
      "aead_encrypt C kek nonce (build_aad SEALED_SEED_VERSION KDF_ARGON2ID AEAD_CC20P ps salt) sd = Some ct"
      "bs = encode_sealed \<lparr>ps_version = SEALED_SEED_VERSION, ps_kdf = KDF_ARGON2ID, ps_params = ps,
         ps_salt = salt, ps_aead = AEAD_CC20P, ps_nonce = nonce, ps_ct = ct\<rparr>"
    by (auto simp: seal_seed_with_def fill_random_def and_then_eq_Inr split: option.splits)
  have "length ct = 48" using aead_length [OF assms h(5)] h(1) by simp
  then have "decode_sealed bs = Inr \<lparr>ps_version = SEALED_SEED_VERSION, ps_kdf = KDF_ARGON2ID, ps_params = ps,
         ps_salt = salt, ps_aead = AEAD_CC20P, ps_nonce = nonce, ps_ct = ct\<rparr>"
    using h sealed_constants_wf by (simp add: sealed_msg.decode_iff wf_sealed_def wf_bytes_def)
  moreover have "aead_decrypt C kek nonce (build_aad SEALED_SEED_VERSION KDF_ARGON2ID AEAD_CC20P ps salt) ct = Some sd"
    using h(5) assms by (simp add: aead_laws_def)
  ultimately show ?L using h by (simp add: open_seed_def SALT_LEN_def AEAD_NONCE_LEN_def)
qed

section \<open>Properties\<close>

text \<open>C39: opening a sealed seed with a passphrase succeeds exactly on the outputs of sealing that
  seed with that passphrase, for some parameters, salt and nonce.\<close>
theorem sealed_seed_opens_iff_sealed:
  assumes "aead_laws C"
  shows "open_seed C bs pw = Inr sd \<longleftrightarrow> length sd = 32 \<and>
    (\<exists>salt nonce ps. length salt = 16 \<and> length nonce = 12 \<and>
       seal_seed_with C (Some salt) (Some nonce) sd pw ps = Inr bs)"
  by (rule open_seed_iff [OF assms])

theorem sealed_seed_opens_iff_sealed_witness:
  "\<exists>bs. seal_seed sample_crypto (Some (replicate 16 1)) (Some (replicate 12 2)) (replicate 32 5) ''pw'' = Inr bs \<and>
     open_seed sample_crypto bs ''pw'' = Inr (replicate 32 5)"
proof -
  obtain bs where bs: "seal_seed_with sample_crypto (Some (replicate 16 1)) (Some (replicate 12 2)) (replicate 32 5)
      ''pw'' default_argon2 = Inr bs"
    by (simp add: seal_seed_with_def fill_random_def derive_kek_def sample_crypto_def default_argon2_def)
  then have "open_seed sample_crypto bs ''pw'' = Inr (replicate 32 5)"
    unfolding sealed_seed_opens_iff_sealed [OF sample_aead_laws]
    by (intro conjI exI [of _ "replicate 16 1"] exI [of _ "replicate 12 2"] exI [of _ default_argon2]) simp_all
  then show ?thesis using bs by (auto simp: seal_seed_def)
qed

text \<open>The associated data of a sealed seed binds the version, both algorithm names, all three
  Argon2 parameters and the salt: changing any of them changes the bytes.\<close>
lemma aad_binds_parameters:
  assumes "wf_text kdf" "wf_text kdf'" "wf_text aead" "wf_text aead'" "wf_bytes salt" "wf_bytes salt'"
    and "build_aad v kdf aead ps salt = build_aad v' kdf' aead' ps' salt'"
  shows "v = v' \<and> kdf = kdf' \<and> aead = aead' \<and> ps = ps' \<and> salt = salt'"
  by (rule build_aad_inj [OF assms])

lemma aad_binds_parameters_witness:
  "build_aad 1 ''argon2id'' ''x'' \<lparr>m_kib = 19456, t_cost = 2, p_lanes = 1\<rparr> [1] \<noteq>
   build_aad 1 ''argon2id'' ''x'' \<lparr>m_kib = 32, t_cost = 2, p_lanes = 1\<rparr> [1]"
  using aad_binds_parameters [of "''argon2id''" "''argon2id''" "''x''" "''x''" "[1]" "[1]" 1
      "\<lparr>m_kib = 19456, t_cost = 2, p_lanes = 1\<rparr>" 1 "\<lparr>m_kib = 32, t_cost = 2, p_lanes = 1\<rparr>"]
  by (auto simp: literal_key wf_bytes_def)

end
