(* ===== verification/Handshake.thy ===== *)
theory Handshake
  imports Framing
begin

text \<open>
  The three-message handshake, \<open>sidevers-net/src/handshake.rs\<close>. Each side is a function of the
  bytes the peer sends on the stream; it returns the bytes it writes and its outcome. The
  ephemeral secret, the clock readings and the random draws are arguments. The deadline of
  ten seconds is not modelled: it turns an unfinished run into an error.
\<close>

section \<open>Capabilities and keys\<close>

definition CAP_PROTOCOL :: string where "CAP_PROTOCOL = ''protocol''"
definition CAP_INTENTS_MASK :: string where "CAP_INTENTS_MASK = ''intents_mask''"
definition CAP_MAX_ENVELOPE_KIB :: string where "CAP_MAX_ENVELOPE_KIB = ''max_envelope_kib''"

unbundle bit_operations_syntax

definition intents_mask :: u64 where
  "intents_mask = fold (\<lambda>i mask. mask OR push_bit i 1) [1..<6] 0"

definition local_capabilities :: capabilities where
  "local_capabilities =
     btree_insert CAP_MAX_ENVELOPE_KIB 1024
       (btree_insert CAP_INTENTS_MASK intents_mask
         (btree_insert CAP_PROTOCOL PROTOCOL_VERSION []))"

definition SESSION_KEY_LEN :: nat where "SESSION_KEY_LEN = 32"

definition SESSION_HKDF_INFO :: "byte list" where
  "SESSION_HKDF_INFO = text_bytes ''sidevers/v1/session''"

definition derive_session_key :: "crypto \<Rightarrow> byte list \<Rightarrow> byte list \<Rightarrow> byte list \<Rightarrow> byte list \<Rightarrow> byte list" where
  "derive_session_key C my_eph their_eph hello_bytes helloback_bytes =
     hkdf_sha512 C (blake3 C (hello_bytes @ helloback_bytes)) (x25519 C my_eph their_eph) SESSION_HKDF_INFO"

definition transcript_mac :: "crypto \<Rightarrow> byte list \<Rightarrow> byte list \<Rightarrow> byte list \<Rightarrow> byte list" where
  "transcript_mac C session_key hello_bytes helloback_bytes =
     blake3_keyed C session_key (hello_bytes @ helloback_bytes)"

definition subtle_eq :: "byte list \<Rightarrow> byte list \<Rightarrow> bool" where
  "subtle_eq a b \<longleftrightarrow> a = b"

text \<open>What one run draws: the ephemeral secret, and clock and nonce for each signed envelope.\<close>

record draws =
  dr_eph :: "byte list"
  dr_clock1 :: "u64 option"
  dr_nonce1 :: "byte list option"
  dr_clock2 :: "u64 option"
  dr_nonce2 :: "byte list option"

section \<open>Initiator\<close>

definition hello_of :: "crypto \<Rightarrow> intent \<Rightarrow> byte list \<Rightarrow> hello_payload" where
  "hello_of C intent eph = \<lparr>h_v_max = 1, h_v_min = 1, h_extensions = [], h_eph_pub = x25519_base C eph,
     h_intent = as_u8 intent, h_capabilities = local_capabilities\<rparr>"

text \<open>From the HelloBack envelope to the Confirm envelope and the session.\<close>

definition initiator_confirm :: "crypto \<Rightarrow> side_key \<Rightarrow> intent \<Rightarrow> draws \<Rightarrow> envelope \<Rightarrow> envelope \<Rightarrow>
    (envelope \<times> session) net_result" where
  "initiator_confirm C my_side intent d hello_env helloback_env =
     (if env_type helloback_env \<noteq> HELLO_BACK then Inl (NetProtocol ''expected HelloBack'')
      else and_then (core (decode_hello_back (env_payload helloback_env))) (\<lambda>hb.
      if \<not> hb_accept hb then
        Inl (NetDeclined (case hb_reason hb of Some r \<Rightarrow> r | None \<Rightarrow> ''(no reason)''))
      else if hb_v hb \<noteq> 1 then Inl (NetProtocol ''unsupported version negotiated'')
      else (let hello_bytes = to_wire_bytes hello_env; helloback_bytes = to_wire_bytes helloback_env;
                session_key = derive_session_key C (dr_eph d) (hb_eph_pub hb) hello_bytes helloback_bytes;
                proof = transcript_mac C session_key hello_bytes helloback_bytes in
        and_then (core (sign_fresh C my_side (Some (env_from helloback_env)) CONFIRM
            (encode_confirm \<lparr>cp_proof = proof\<rparr>) (dr_clock2 d) (dr_nonce2 d))) (\<lambda>confirm_env.
        Inr (confirm_env, \<lparr>ses_key = session_key, ses_peer_side = env_from helloback_env,
                           ses_intent = intent, ses_peer_capabilities = hb_capabilities hb\<rparr>)))))"

definition run_initiator :: "crypto \<Rightarrow> side_key \<Rightarrow> intent \<Rightarrow> byte list option \<Rightarrow> draws \<Rightarrow> byte list \<Rightarrow>
    byte list \<times> session net_result" where
  "run_initiator C my_side intent expected_peer_side d stream =
     (case and_then (core (sign_fresh C my_side expected_peer_side HELLO
              (encode_hello (hello_of C intent (dr_eph d))) (dr_clock1 d) (dr_nonce1 d))) (\<lambda>hello_env.
           and_then (send_envelope hello_env) (\<lambda>out. Inr (hello_env, out))) of
        Inl e \<Rightarrow> ([], Inl e)
      | Inr (hello_env, out1) \<Rightarrow>
          (case and_then (recv_envelope C stream) (\<lambda>(helloback_env, _).
                and_then (initiator_confirm C my_side intent d hello_env helloback_env) (\<lambda>(confirm_env, s).
                and_then (send_envelope confirm_env) (\<lambda>out. Inr (out, s)))) of
             Inl e \<Rightarrow> (out1, Inl e)
           | Inr (out2, s) \<Rightarrow> (out1 @ out2, Inr s)))"

section \<open>Responder\<close>

definition accept_version :: "hello_payload \<Rightarrow> bool" where
  "accept_version h \<longleftrightarrow> h_v_min h \<le> 1 \<and> 1 \<le> h_v_max h"

definition intent_known :: "hello_payload \<Rightarrow> bool" where
  "intent_known h \<longleftrightarrow> 1 \<le> h_intent h \<and> h_intent h \<le> 5"

definition decline_of :: "hello_payload \<Rightarrow> hello_back_payload" where
  "decline_of h = \<lparr>hb_v = 1, hb_accept = False,
     hb_reason = Some (if \<not> accept_version h then ''version-incompatible'' else ''intent-refused''),
     hb_eph_pub = replicate EPH_PUB_LEN 0, hb_extensions = [], hb_capabilities = []\<rparr>"

definition accept_of :: "crypto \<Rightarrow> byte list \<Rightarrow> hello_back_payload" where
  "accept_of C eph = \<lparr>hb_v = 1, hb_accept = True, hb_reason = None, hb_eph_pub = x25519_base C eph,
     hb_extensions = [], hb_capabilities = local_capabilities\<rparr>"

definition read_hello :: "crypto \<Rightarrow> byte list \<Rightarrow> (envelope \<times> hello_payload \<times> byte list) net_result" where
  "read_hello C stream = and_then (recv_envelope C stream) (\<lambda>(hello_env, stream).
     if env_type hello_env \<noteq> HELLO then Inl (NetProtocol ''expected Hello'')
     else and_then (core (decode_hello (env_payload hello_env))) (\<lambda>hp. Inr (hello_env, hp, stream)))"

definition send_helloback :: "crypto \<Rightarrow> side_key \<Rightarrow> envelope \<Rightarrow> hello_back_payload \<Rightarrow> draws \<Rightarrow>
    (envelope \<times> byte list) net_result" where
  "send_helloback C my_side hello_env hb d =
     and_then (core (sign_fresh C my_side (Some (env_from hello_env)) HELLO_BACK (encode_hello_back hb)
         (dr_clock1 d) (dr_nonce1 d))) (\<lambda>env.
     and_then (send_envelope env) (\<lambda>out. Inr (env, out)))"

text \<open>From the Confirm on: the proof must be the transcript MAC under the session key.\<close>

definition responder_finish :: "crypto \<Rightarrow> draws \<Rightarrow> envelope \<Rightarrow> hello_payload \<Rightarrow> envelope \<Rightarrow> byte list \<Rightarrow>
    session net_result" where
  "responder_finish C d hello_env hp helloback_env stream =
     (let hello_bytes = to_wire_bytes hello_env; helloback_bytes = to_wire_bytes helloback_env;
          session_key = derive_session_key C (dr_eph d) (h_eph_pub hp) hello_bytes helloback_bytes in
      and_then (recv_envelope C stream) (\<lambda>(confirm_env, _).
      if env_type confirm_env \<noteq> CONFIRM then Inl (NetProtocol ''expected Confirm'')
      else and_then (core (decode_confirm (env_payload confirm_env))) (\<lambda>cp.
      if \<not> subtle_eq (cp_proof cp) (transcript_mac C session_key hello_bytes helloback_bytes)
      then Inl (NetProtocol ''Confirm MAC mismatch'')
      else (case from_u8 (h_intent hp) of
          None \<Rightarrow> Inl (NetProtocol ''unknown intent'')
        | Some intent \<Rightarrow> Inr \<lparr>ses_key = session_key, ses_peer_side = env_from hello_env,
                              ses_intent = intent, ses_peer_capabilities = h_capabilities hp\<rparr>))))"

definition run_responder :: "crypto \<Rightarrow> side_key \<Rightarrow> draws \<Rightarrow> byte list \<Rightarrow> byte list \<times> session net_result" where
  "run_responder C my_side d stream = (case read_hello C stream of
     Inl e \<Rightarrow> ([], Inl e)
   | Inr (hello_env, hp, stream) \<Rightarrow>
       if \<not> accept_version hp \<or> \<not> intent_known hp then
         (case send_helloback C my_side hello_env (decline_of hp) d of
            Inl e \<Rightarrow> ([], Inl e)
          | Inr (_, out) \<Rightarrow> (out, Inl (NetDeclined ''local refusal'')))
       else
         (case send_helloback C my_side hello_env (accept_of C (dr_eph d)) d of
            Inl e \<Rightarrow> ([], Inl e)
          | Inr (helloback_env, out) \<Rightarrow> (out, responder_finish C d hello_env hp helloback_env stream)))"

section \<open>Both ends derive the same key\<close>

lemma session_key_sym:
  assumes "dh_laws C"
  shows "derive_session_key C a (x25519_base C b) h hb = derive_session_key C b (x25519_base C a) h hb"
  using assms by (simp add: derive_session_key_def dh_laws_def)

lemma sign_fresh_Inr:
  "sign_fresh C k to t p clock rnd = Inr e \<longleftrightarrow>
     (\<exists>ts n. clock = Some ts \<and> rnd = Some n \<and> e = sign_with C t k to p ts n)"
  by (auto simp: sign_fresh_def now_unix_seconds_def fill_random_def and_then_eq_Inr split: option.splits)

text \<open>The advertised capabilities are a canonical map of three entries.\<close>

lemma local_capabilities_eq:
  "local_capabilities = [(CAP_INTENTS_MASK, 62), (CAP_MAX_ENVELOPE_KIB, 1024), (CAP_PROTOCOL, 1)]"
  by (simp add: local_capabilities_def CAP_PROTOCOL_def CAP_INTENTS_MASK_def CAP_MAX_ENVELOPE_KIB_def
      PROTOCOL_VERSION_def intents_mask_def upt_rec less_char_def)

section \<open>An honest run\<close>

lemma capabilities_wf: "wf_capabilities local_capabilities"
  by (simp add: wf_capabilities_def wf_text_map_def local_capabilities_eq wf_btree_def less_char_def less_eq_char_def
      CAP_PROTOCOL_def CAP_INTENTS_MASK_def CAP_MAX_ENVELOPE_KIB_def literal_key)

lemma capabilities_canonical:
  "canonical_order local_capabilities =
     [(CAP_PROTOCOL, 1), (CAP_INTENTS_MASK, 62), (CAP_MAX_ENVELOPE_KIB, 1024)]"
  by (simp add: canonical_order_def local_capabilities_eq CAP_PROTOCOL_def CAP_INTENTS_MASK_def
      CAP_MAX_ENVELOPE_KIB_def cbor_text_head head_bytes_cases less_eq_list_code)

lemma capabilities_length: "length (encode_capabilities local_capabilities) \<le> 200"
proof -
  have "length (cbor_text k @ cbor_uint v) \<le> 18 + length k" for k and v :: u64
    using item_lengths(1) [of v] item_lengths(3) [of k] by simp
  from this [of CAP_INTENTS_MASK 62] this [of CAP_MAX_ENVELOPE_KIB 1024] this [of CAP_PROTOCOL 1]
  show ?thesis
    using item_lengths(4) [of "length local_capabilities"]
    by (simp add: encode_capabilities_def uint_item.encode_text_map_body uint_item.kv_body_def
        capabilities_canonical CAP_PROTOCOL_def CAP_INTENTS_MASK_def CAP_MAX_ENVELOPE_KIB_def)
qed

lemma hello_ok:
  assumes "length (x25519_base C eph) = 32"
  shows "wf_hello (hello_of C i eph)" "length (encode_hello (hello_of C i eph)) \<le> 1000"
proof -
  show "wf_hello (hello_of C i eph)"
    using assms capabilities_wf by (simp add: wf_hello_def hello_of_def wf_fixed_def)
  note capabilities_length array_nil_length [of cbor_text] item_lengths(2) [of "x25519_base C eph"]
    item_lengths(1) [of 1] item_lengths(1) [of "ucast (as_u8 i)"]
    item_lengths(3) [of "''v_max''"] item_lengths(3) [of "''v_min''"] item_lengths(3) [of "''intent''"]
    item_lengths(3) [of "''eph_pub''"] item_lengths(3) [of "''extensions''"] item_lengths(3) [of "''capabilities''"]
    item_lengths(4) [of "length (hello_entries (hello_of C i eph))"]
  then show "length (encode_hello (hello_of C i eph)) \<le> 1000"
    using assms by (simp add: encode_hello_def encode_map_body hello_entries_def hello_of_def)
qed

lemma accept_ok:
  assumes "length (x25519_base C eph) = 32"
  shows "wf_hello_back (accept_of C eph)" "length (encode_hello_back (accept_of C eph)) \<le> 1000"
proof -
  show "wf_hello_back (accept_of C eph)"
    using assms capabilities_wf by (simp add: wf_hello_back_def accept_of_def wf_fixed_def)
  note capabilities_length array_nil_length [of cbor_text] item_lengths(2) [of "x25519_base C eph"]
    item_lengths(1) [of 1] item_lengths(3) [of "''v''"] item_lengths(3) [of "''accept''"] item_lengths(3) [of "''reason''"]
    item_lengths(3) [of "''eph_pub''"] item_lengths(3) [of "''extensions''"] item_lengths(3) [of "''capabilities''"]
    item_lengths(4) [of "length (hello_back_entries (accept_of C eph))"]
  then show "length (encode_hello_back (accept_of C eph)) \<le> 1000"
    using assms
    by (simp add: encode_hello_back_def encode_map_body hello_back_entries_def accept_of_def
        cbor_text_or_null_def cbor_null_def cbor_boolean_def)
qed

lemma decline_ok:
  shows "wf_hello_back (decline_of hp)" "length (encode_hello_back (decline_of hp)) \<le> 1000"
proof -
  show "wf_hello_back (decline_of hp)"
    by (simp add: wf_hello_back_def decline_of_def wf_fixed_def EPH_PUB_LEN_def literal_key wf_capabilities_def
        wf_text_map_def wf_btree_def)
  have "length (encode_capabilities []) \<le> 9"
    using item_lengths(4) [of 0]
    by (simp add: encode_capabilities_def uint_item.encode_text_map_body uint_item.kv_body_def canonical_order_def)
  moreover note array_nil_length [of cbor_text] item_lengths(2) [of "replicate EPH_PUB_LEN 0"]
    item_lengths(3) [of "''version-incompatible''"] item_lengths(3) [of "''intent-refused''"]
    item_lengths(1) [of 1] item_lengths(3) [of "''v''"] item_lengths(3) [of "''accept''"] item_lengths(3) [of "''reason''"]
    item_lengths(3) [of "''eph_pub''"] item_lengths(3) [of "''extensions''"] item_lengths(3) [of "''capabilities''"]
    item_lengths(4) [of "length (hello_back_entries (decline_of hp))"]
  ultimately show "length (encode_hello_back (decline_of hp)) \<le> 1000"
    by (simp add: encode_hello_back_def encode_map_body hello_back_entries_def decline_of_def EPH_PUB_LEN_def
        cbor_text_or_null_def cbor_boolean_def)
qed

lemma confirm_ok:
  assumes "length p = 32"
  shows "wf_confirm \<lparr>cp_proof = p\<rparr>" "length (encode_confirm \<lparr>cp_proof = p\<rparr>) \<le> 1000"
  using assms item_lengths(2) [of p] item_lengths(3) [of "''proof''"]
    item_lengths(4) [of "length (confirm_entries \<lparr>cp_proof = p\<rparr>)"]
  by (simp_all add: wf_confirm_def wf_fixed_def encode_confirm_def encode_map_body confirm_entries_def)

text \<open>A freshly signed envelope with a small payload is framed, and its receiver reads it.\<close>

lemma signed_frame:
  assumes "signature_laws C" "wf_side k" "pred_option (wf_fixed 32) to" "length p \<le> 1000" "length n = 16"
  obtains f where "send_envelope (sign_with C t k to p ts n) = Inr f"
    "\<And>s. recv_envelope C (f @ s) = Inr (sign_with C t k to p ts n, s)"
proof -
  let ?e = "sign_with C t k to p ts n"
  have wf: "wf_envelope C ?e"
    using assms by (intro sign_with_wf) (simp_all add: wf_bytes_def wf_fixed_def)
  then have "length (to_wire_bytes ?e) \<le> 65536"
    using wire_length [of ?e] assms(4) by (simp add: wf_envelope_def)
  then have "send_envelope ?e = Inr (be_bytes 4 (length (to_wire_bytes ?e)) @ to_wire_bytes ?e)"
    by (simp add: send_envelope_def Let_def)
  then show thesis using that wf by (simp add: recv_envelope_iff)
qed

text \<open>The draws of a run in which the clock and the random source work.\<close>

definition draws_ok :: "draws \<Rightarrow> bool" where
  "draws_ok d \<longleftrightarrow> length (dr_eph d) = 32 \<and> dr_clock1 d \<noteq> None \<and> dr_clock2 d \<noteq> None \<and>
     pred_option (\<lambda>n. length n = 16) (dr_nonce1 d) \<and> dr_nonce1 d \<noteq> None \<and>
     pred_option (\<lambda>n. length n = 16) (dr_nonce2 d) \<and> dr_nonce2 d \<noteq> None"

lemma honest_run:
  assumes laws: "signature_laws C" "dh_laws C" "hash_laws C" and sides: "wf_side a" "wf_side b"
    and ok: "draws_ok da" "draws_ok db" and expected: "pred_option (wf_fixed 32) expected"
  shows "\<exists>out_a out_b key. run_initiator C a i expected da out_b =
      (out_a, Inr \<lparr>ses_key = key, ses_peer_side = public_bytes C b, ses_intent = i,
                   ses_peer_capabilities = local_capabilities\<rparr>) \<and>
    run_responder C b db out_a =
      (out_b, Inr \<lparr>ses_key = key, ses_peer_side = public_bytes C a, ses_intent = i,
                   ses_peer_capabilities = local_capabilities\<rparr>)"
proof -
  obtain t1 n1 t2 n2 where da: "dr_clock1 da = Some t1" "dr_nonce1 da = Some n1" "dr_clock2 da = Some t2"
      "dr_nonce2 da = Some n2" "length n1 = 16" "length n2 = 16" "length (dr_eph da) = 32"
    using ok(1) by (auto simp: draws_ok_def)
  obtain t3 n3 where db: "dr_clock1 db = Some t3" "dr_nonce1 db = Some n3" "length n3 = 16" "length (dr_eph db) = 32"
    using ok(2) by (auto simp: draws_ok_def)
  have eph: "length (x25519_base C (dr_eph da)) = 32" "length (x25519_base C (dr_eph db)) = 32"
    using laws(2) da(7) db(4) by (simp_all add: dh_laws_def)
  have pks: "pred_option (wf_fixed 32) (Some (public_bytes C a))" "pred_option (wf_fixed 32) (Some (public_bytes C b))"
    using signed_by_side(1) [OF laws(1)] sides by (simp_all add: wf_fixed_def)
  let ?h = "hello_of C i (dr_eph da)" and ?r = "accept_of C (dr_eph db)"
  let ?hello = "sign_with C HELLO a expected (encode_hello ?h) t1 n1"
  obtain f1 where f1: "send_envelope ?hello = Inr f1" "\<And>s. recv_envelope C (f1 @ s) = Inr (?hello, s)"
    using signed_frame [OF laws(1) sides(1) expected hello_ok(2) [OF eph(1), of i] da(5), where t = HELLO and ts = t1] by blast
  let ?returned = "sign_with C HELLO_BACK b (Some (public_bytes C a)) (encode_hello_back ?r) t3 n3"
  obtain f2 where f2: "send_envelope ?returned = Inr f2" "\<And>s. recv_envelope C (f2 @ s) = Inr (?returned, s)"
    using signed_frame [OF laws(1) sides(2) pks(1) accept_ok(2) [OF eph(2)] db(3), where t = HELLO_BACK and ts = t3] by blast
  let ?key = "derive_session_key C (dr_eph da) (x25519_base C (dr_eph db)) (to_wire_bytes ?hello) (to_wire_bytes ?returned)"
  let ?proof = "transcript_mac C ?key (to_wire_bytes ?hello) (to_wire_bytes ?returned)"
  have p: "length ?proof = 32" using laws(3) by (simp add: transcript_mac_def hash_laws_def)
  let ?conf = "sign_with C CONFIRM a (Some (public_bytes C b)) (encode_confirm \<lparr>cp_proof = ?proof\<rparr>) t2 n2"
  obtain f3 where f3: "send_envelope ?conf = Inr f3" "\<And>s. recv_envelope C (f3 @ s) = Inr (?conf, s)"
    using signed_frame [OF laws(1) sides(1) pks(2) confirm_ok(2) [OF p] da(6), where t = CONFIRM and ts = t2] by blast
  have dec: "decode_hello (encode_hello ?h) = Inr ?h" "decode_hello_back (encode_hello_back ?r) = Inr ?r"
      "decode_confirm (encode_confirm \<lparr>cp_proof = ?proof\<rparr>) = Inr \<lparr>cp_proof = ?proof\<rparr>"
    using hello_ok(1) [OF eph(1)] accept_ok(1) [OF eph(2)] confirm_ok(1) [OF p]
    by (simp_all add: hello_msg.decode_encode hello_back_msg.decode_encode confirm_msg.decode_encode)
  have fresh: "sign_fresh C a expected HELLO (encode_hello ?h) (dr_clock1 da) (dr_nonce1 da) = Inr ?hello"
      "sign_fresh C b (Some (public_bytes C a)) HELLO_BACK (encode_hello_back ?r) (dr_clock1 db) (dr_nonce1 db) = Inr ?returned"
      "sign_fresh C a (Some (public_bytes C b)) CONFIRM (encode_confirm \<lparr>cp_proof = ?proof\<rparr>) (dr_clock2 da) (dr_nonce2 da) = Inr ?conf"
    using da db by (simp_all add: sign_fresh_Inr)
  have "run_initiator C a i expected da f2 = (f1 @ f3, Inr \<lparr>ses_key = ?key, ses_peer_side = public_bytes C b,
      ses_intent = i, ses_peer_capabilities = local_capabilities\<rparr>)"
    using fresh f1(1) f2(2) [of "[]"] f3(1) dec(2)
    by (simp add: run_initiator_def initiator_confirm_def Let_def) (simp add: accept_of_def)
  moreover have "accept_version ?h" "intent_known ?h"
    using from_u8_known [of "as_u8 i"] by (simp_all add: accept_version_def intent_known_def hello_of_def)
  then have "run_responder C b db (f1 @ f3) = (f2, Inr \<lparr>ses_key = ?key, ses_peer_side = public_bytes C a,
      ses_intent = i, ses_peer_capabilities = local_capabilities\<rparr>)"
    using fresh f1(2) f2(1) f3(2) [of "[]"] dec
    by (simp add: run_responder_def read_hello_def send_helloback_def responder_finish_def Let_def subtle_eq_def
        session_key_sym [OF laws(2), of "dr_eph db"])
      (simp add: hello_of_def session_key_sym [OF laws(2), of "dr_eph db"])
  ultimately show ?thesis by blast
qed

section \<open>Properties\<close>

text \<open>C11: two honest nodes finish the handshake: whatever peer the initiator expects, each side
  ends with the other's key as peer, the initiator's intent, and the same session key.\<close>
theorem handshake_agrees:
  assumes "signature_laws C" "dh_laws C" "hash_laws C" "length (seed a) = 32" "length (seed b) = 32"
    "draws_ok da" "draws_ok db" "\<forall>k. expected = Some k \<longrightarrow> length k = 32"
  shows "\<exists>out_a out_b sa sb. run_initiator C a i expected da out_b = (out_a, Inr sa) \<and>
    run_responder C b db out_a = (out_b, Inr sb) \<and> ses_key sa = ses_key sb \<and>
    ses_peer_side sa = public_bytes C b \<and> ses_peer_side sb = public_bytes C a \<and>
    ses_intent sa = i \<and> ses_intent sb = i"
proof -
  have "pred_option (wf_fixed 32) expected" using assms(8) by (cases expected) (simp_all add: wf_fixed_def)
  from honest_run [OF assms(1-3) _ _ assms(6,7) this, of a b i] show ?thesis
    using assms(4,5) unfolding wf_side_def by fastforce
qed

definition handshake_draws :: "byte \<Rightarrow> draws" where
  "handshake_draws b = \<lparr>dr_eph = replicate 32 b, dr_clock1 = Some 100, dr_nonce1 = Some (replicate 16 b),
     dr_clock2 = Some 101, dr_nonce2 = Some (replicate 16 (b + 1))\<rparr>"

lemma handshake_draws_ok: "draws_ok (handshake_draws b)"
  by (simp add: handshake_draws_def draws_ok_def)

theorem handshake_agrees_witness:
  "\<exists>out_a out_b sa sb.
    run_initiator sample_crypto \<lparr>seed = replicate 32 1, label = ''a''\<rparr> IntentVerse None (handshake_draws 5) out_b = (out_a, Inr sa) \<and>
    run_responder sample_crypto \<lparr>seed = replicate 32 2, label = ''b''\<rparr> (handshake_draws 6) out_a = (out_b, Inr sb) \<and>
    ses_key sa = ses_key sb \<and> ses_peer_side sa = public_bytes sample_crypto \<lparr>seed = replicate 32 2, label = ''b''\<rparr> \<and>
    ses_peer_side sb = public_bytes sample_crypto \<lparr>seed = replicate 32 1, label = ''a''\<rparr> \<and>
    ses_intent sa = IntentVerse \<and> ses_intent sb = IntentVerse"
  by (rule handshake_agrees) (simp_all add: sample_laws handshake_draws_ok)

text \<open>C12: a responder opens a session only after it has read a Hello signed by the peer it
  records, whose version range contains 1 and whose intent is the session's, and a Confirm
  carrying the MAC of exactly the two envelopes exchanged under the key of the session.\<close>
theorem responder_session_confirmed:
  assumes "run_responder C b d stream = (out, Inr s)"
  shows "\<exists>hello hp hback confirm f1 f3 rest.
    stream = f1 @ f3 @ rest \<and> send_envelope hello = Inr f1 \<and> send_envelope confirm = Inr f3 \<and>
    wf_envelope C hello \<and> env_type hello = HELLO \<and> env_payload hello = encode_hello hp \<and>
    h_v_min hp \<le> 1 \<and> 1 \<le> h_v_max hp \<and> h_intent hp = as_u8 (ses_intent s) \<and>
    ses_peer_side s = env_from hello \<and>
    send_envelope hback = Inr out \<and> env_from hback = public_bytes C b \<and> env_type hback = HELLO_BACK \<and>
    ses_key s = derive_session_key C (dr_eph d) (h_eph_pub hp) (to_wire_bytes hello) (to_wire_bytes hback) \<and>
    wf_envelope C confirm \<and> env_type confirm = CONFIRM \<and>
    env_payload confirm =
      encode_confirm \<lparr>cp_proof = transcript_mac C (ses_key s) (to_wire_bytes hello) (to_wire_bytes hback)\<rparr>"
proof -
  obtain hello hp s1 where h: "read_hello C stream = Inr (hello, hp, s1)" "accept_version hp" "intent_known hp"
    using assms by (auto simp: run_responder_def split: sum.splits if_splits prod.splits)
  then obtain hback where b: "send_helloback C b hello (accept_of C (dr_eph d)) d = Inr (hback, out)"
      "responder_finish C d hello hp hback s1 = Inr s"
    using assms by (auto simp: run_responder_def split: sum.splits prod.splits)
  obtain f1 where f1: "stream = f1 @ s1" "send_envelope hello = Inr f1" "wf_envelope C hello" "env_type hello = HELLO"
      "env_payload hello = encode_hello hp"
    using h(1) by (auto simp: read_hello_def and_then_eq_Inr recv_envelope_iff hello_msg.decode_iff split: if_splits)
  have hback: "send_envelope hback = Inr out" "env_from hback = public_bytes C b" "env_type hback = HELLO_BACK"
    using b(1) by (auto simp: send_helloback_def and_then_eq_Inr sign_fresh_Inr)
  obtain confirm cp f3 rest where "s1 = f3 @ rest" "send_envelope confirm = Inr f3" "wf_envelope C confirm"
      "env_type confirm = CONFIRM" "env_payload confirm = encode_confirm cp"
      "cp_proof cp = transcript_mac C (ses_key s) (to_wire_bytes hello) (to_wire_bytes hback)"
      "ses_key s = derive_session_key C (dr_eph d) (h_eph_pub hp) (to_wire_bytes hello) (to_wire_bytes hback)"
      "ses_peer_side s = env_from hello" "from_u8 (h_intent hp) = Some (ses_intent s)"
    using b(2)
    by (auto simp: responder_finish_def Let_def and_then_eq_Inr recv_envelope_iff confirm_msg.decode_iff subtle_eq_def
        split: if_splits option.splits)
  moreover have "cp = \<lparr>cp_proof = cp_proof cp\<rparr>" by simp
  ultimately show ?thesis
    using f1 hback h(2) unfolding accept_version_def from_u8_Some by metis
qed

theorem responder_session_confirmed_witness:
  "\<exists>stream out s hello confirm f1 f3 rest.
     run_responder sample_crypto \<lparr>seed = replicate 32 2, label = ''b''\<rparr> (handshake_draws 6) stream = (out, Inr s) \<and>
     stream = f1 @ f3 @ rest \<and> send_envelope hello = Inr f1 \<and> send_envelope confirm = Inr f3 \<and>
     ses_peer_side s = env_from hello \<and> env_type confirm = CONFIRM"
proof -
  have "wf_side \<lparr>seed = replicate 32 1, label = ''a''\<rparr>" "wf_side \<lparr>seed = replicate 32 2, label = ''b''\<rparr>"
    by (simp_all add: wf_side_def)
  then obtain out_a out_b s where
    r: "run_responder sample_crypto \<lparr>seed = replicate 32 2, label = ''b''\<rparr> (handshake_draws 6) out_a = (out_b, Inr s)"
    using honest_run [OF sample_signature_laws sample_dh_laws sample_hash_laws _ _ handshake_draws_ok handshake_draws_ok, of _ _ None]
    by fastforce
  from responder_session_confirmed [OF r] r show ?thesis by blast
qed

text \<open>C38: a Hello for another protocol version or an unknown intent is answered by a HelloBack
  that declines, no session is opened, and the initiator that reads the answer reports the
  refusal with its reason.\<close>
theorem handshake_declined:
  assumes "signature_laws C" "length (seed b) = 32" "draws_ok db"
    and "read_hello C stream = Inr (hello, hp, rest)" "h_v_max hp < 1 \<or> 1 < h_v_min hp \<or> h_intent hp = 0 \<or> 5 < h_intent hp"
  shows "\<exists>out. run_responder C b db stream = (out, Inl (NetDeclined ''local refusal'')) \<and>
    (\<forall>a i expected d out_a r. run_initiator C a i expected d out = (out_a, r) \<longrightarrow> out_a \<noteq> [] \<longrightarrow>
       r = Inl (NetDeclined (if h_v_max hp < 1 \<or> 1 < h_v_min hp then ''version-incompatible'' else ''intent-refused'')))"
proof -
  have bad: "\<not> accept_version hp \<or> \<not> intent_known hp"
    using assms(5) by (auto simp: accept_version_def intent_known_def not_le word_le_nat_alt word_less_nat_alt unat_eq_zero)
  obtain t n where db: "dr_clock1 db = Some t" "dr_nonce1 db = Some n" "length n = 16"
    using assms(3) by (auto simp: draws_ok_def)
  have "pred_option (wf_fixed 32) (Some (env_from hello))"
    using assms(4) by (auto simp: read_hello_def and_then_eq_Inr recv_envelope_iff wf_envelope_def wf_env_fields_def split: if_splits)
  then obtain f where f: "send_envelope (sign_with C HELLO_BACK b (Some (env_from hello)) (encode_hello_back (decline_of hp)) t n) = Inr f"
      "\<And>s. recv_envelope C (f @ s) = Inr (sign_with C HELLO_BACK b (Some (env_from hello)) (encode_hello_back (decline_of hp)) t n, s)"
    using signed_frame [OF assms(1) _ _ decline_ok(2) [of hp] db(3), where k = b and to = "Some (env_from hello)" and t = HELLO_BACK and ts = t] assms(2)
    unfolding wf_side_def by blast
  have "run_responder C b db stream = (f, Inl (NetDeclined ''local refusal''))"
    using assms(4) bad f(1) db by (simp add: run_responder_def send_helloback_def sign_fresh_def now_unix_seconds_def fill_random_def)
  moreover have "r = Inl (NetDeclined (if h_v_max hp < 1 \<or> 1 < h_v_min hp then ''version-incompatible'' else ''intent-refused''))"
    if "run_initiator C a i expected d f = (out_a, r)" "out_a \<noteq> []" for a i expected d out_a r
    using that f(2) [of "[]"] hello_back_msg.decode_encode [OF decline_ok(1) [of hp]]
    by (auto simp: run_initiator_def initiator_confirm_def accept_version_def not_le
        decline_of_def split: sum.splits prod.splits)
  ultimately show ?thesis by blast
qed

theorem handshake_declined_witness:
  "\<exists>stream out. run_responder sample_crypto \<lparr>seed = replicate 32 2, label = ''b''\<rparr> (handshake_draws 6) stream =
     (out, Inl (NetDeclined ''local refusal''))"
proof -
  let ?a = "\<lparr>seed = replicate 32 1, label = ''a''\<rparr>"
  let ?h = "(hello_of sample_crypto IntentDirect (replicate 32 5))\<lparr>h_intent := 9\<rparr>"
  have l: "length (x25519_base sample_crypto (replicate 32 5)) = 32" by (simp add: sample_crypto_def)
  have wf: "wf_hello ?h" using hello_ok(1) [OF l, of IntentDirect] by (simp add: wf_hello_def)
  have u: "length (cbor_u8 (9 :: byte)) = 1" "length (cbor_u8 (as_u8 IntentDirect)) = 1"
    by (simp_all add: cbor_uint_head head_bytes_cases)
  have len: "length (encode_hello ?h) \<le> 1000"
    using hello_ok(2) [OF l, of IntentDirect] u
    by (simp add: encode_hello_def encode_map_body hello_entries_def hello_of_def)
  have k: "wf_side ?a" "pred_option (wf_fixed 32) None" "length (replicate 16 (3 :: byte)) = 16"
    by (simp_all add: wf_side_def)
  obtain f where "\<And>s. recv_envelope sample_crypto (f @ s) =
      Inr (sign_with sample_crypto HELLO ?a None (encode_hello ?h) 7 (replicate 16 3), s)"
    using signed_frame [OF sample_signature_laws k(1,2) len k(3), where t = HELLO and ts = 7] by blast
  from this [of "[]"] have "read_hello sample_crypto f =
      Inr (sign_with sample_crypto HELLO ?a None (encode_hello ?h) 7 (replicate 16 3), ?h, [])"
    by (simp add: read_hello_def hello_msg.decode_encode [OF wf])
  moreover have "5 < h_intent ?h" by simp
  moreover have "length (seed \<lparr>seed = replicate 32 (2 :: byte), label = ''b''\<rparr>) = 32" by simp
  ultimately show ?thesis
    using handshake_declined [OF sample_signature_laws _ handshake_draws_ok] by blast
qed

end
