(* ===== verification/PeerMessages.thy ===== *)
theory PeerMessages
  imports Items
begin

text \<open>
  Payloads of the peer exchange (\<open>messages/peer.rs\<close>, types 0x40 and 0x41), of store-and-forward
  (\<open>messages/forward.rs\<close>) and of hole punching (\<open>messages/rendezvous.rs\<close>). Their decoders ignore
  bytes after the map.
\<close>

section \<open>Peer exchange\<close>

record peer_ask =
  pa_limit :: u64
  pa_intent_filter :: "byte option"

definition peer_ask_entries :: "peer_ask \<Rightarrow> map_entry list" where
  "peer_ask_entries x =
     [(cbor_text ''limit'', cbor_uint (pa_limit x)),
      (cbor_text ''intent_filter'', cbor_or_null cbor_u8 (pa_intent_filter x))]"

definition encode_peer_ask :: "peer_ask \<Rightarrow> byte list" where
  "encode_peer_ask x = encode_map (peer_ask_entries x)"

definition peer_ask_fields :: "cbor_reader \<Rightarrow> (peer_ask \<times> cbor_reader) result" where
  "peer_ask_fields r =
     and_then (read_field ''limit'' ''expected limit first'' read_u64 r) (\<lambda>(limit, r).
     and_then (read_field ''intent_filter'' ''expected intent_filter second'' (read_optional ''missing intent_filter'' (read_u8 (CborDecode ''intent out of u8''))) r) (\<lambda>(intent_filter, r).
     Inr (\<lparr>pa_limit = limit,
          pa_intent_filter = intent_filter\<rparr>, r)))"

definition decode_peer_ask :: "byte list \<Rightarrow> peer_ask result" where
  "decode_peer_ask =
     decode_prefix (read_map 2 ''PeerAsk expected 2 keys'' peer_ask_fields)"

definition wf_peer_ask :: "peer_ask \<Rightarrow> bool" where
  [wf_defs]: "wf_peer_ask x \<longleftrightarrow> True"

lemma peer_ask_codec: "wire_codec encode_peer_ask (read_map 2 msg peer_ask_fields) wf_peer_ask"
  unfolding encode_peer_ask_def [abs_def]
  by (rule map_codecI,
      (auto simp: and_then_eq_Inr literal_key wire_iff peer_ask_fields_def Let_def peer_ask_entries_def wf_peer_ask_def cbor_key_text)[1],
      simp_all add: literal_key wire_write peer_ask_fields_def Let_def peer_ask_entries_def wf_peer_ask_def cbor_key_text)

interpretation peer_ask_msg: lax_message encode_peer_ask decode_peer_ask wf_peer_ask
  unfolding decode_peer_ask_def by (rule lax_messageI) (rule decode_prefix_iff [OF peer_ask_codec])

record peer_info =
  pi_address :: "byte list"
  pi_intents :: "byte list"
  pi_endpoints :: "string list"
  pi_last_seen :: u64

definition peer_info_entries :: "peer_info \<Rightarrow> map_entry list" where
  "peer_info_entries x =
     [(cbor_text ''address'', cbor_bytes (pi_address x)),
      (cbor_text ''intents'', cbor_array cbor_u8 (pi_intents x)),
      (cbor_text ''endpoints'', cbor_array cbor_text (pi_endpoints x)),
      (cbor_text ''last_seen'', cbor_uint (pi_last_seen x))]"

definition encode_peer_info :: "peer_info \<Rightarrow> byte list" where
  "encode_peer_info x = encode_map (peer_info_entries x)"

definition peer_info_fields :: "cbor_reader \<Rightarrow> (peer_info \<times> cbor_reader) result" where
  "peer_info_fields r = (let msg = ''PeerInfo keys not in canonical order'' in
     and_then (read_field ''address'' msg (read_fixed ''address'' 32) r) (\<lambda>(address, r).
     and_then (read_field ''intents'' msg (read_array (read_u8 (CborDecode ''intent out of u8''))) r) (\<lambda>(intents, r).
     and_then (read_field ''endpoints'' msg (read_array read_text) r) (\<lambda>(endpoints, r).
     and_then (read_field ''last_seen'' msg read_u64 r) (\<lambda>(last_seen, r).
     Inr (\<lparr>pi_address = address,
          pi_intents = intents,
          pi_endpoints = endpoints,
          pi_last_seen = last_seen\<rparr>, r))))))"

definition read_peer_info :: "cbor_reader \<Rightarrow> (peer_info \<times> cbor_reader) result" where
  "read_peer_info =
     read_map 4 ''PeerInfo expected 4 keys'' peer_info_fields"

definition wf_peer_info :: "peer_info \<Rightarrow> bool" where
  [wf_defs]: "wf_peer_info x \<longleftrightarrow> wf_fixed 32 (pi_address x) \<and>
     wf_array (\<lambda>_. True) (pi_intents x) \<and>
     wf_array wf_text (pi_endpoints x)"

lemma peer_info_codec: "wire_codec encode_peer_info (read_map 4 msg peer_info_fields) wf_peer_info"
  unfolding encode_peer_info_def [abs_def]
  by (rule map_codecI,
      (auto simp: and_then_eq_Inr literal_key wire_iff peer_info_fields_def Let_def peer_info_entries_def wf_peer_info_def cbor_key_text)[1],
      simp_all add: literal_key wire_write peer_info_fields_def Let_def peer_info_entries_def wf_peer_info_def cbor_key_text)

interpretation peer_info_item: wire_codec encode_peer_info read_peer_info wf_peer_info
  unfolding read_peer_info_def by (rule peer_info_codec)

lemmas peer_info_iff [wire_iff] = peer_info_item.dec_iff
lemmas peer_info_write [wire_write] = peer_info_item.dec_enc

lemmas peer_info_array_iff [wire_iff] = peer_info_item.array_codec [THEN wire_codec_iff]
lemmas peer_info_array_write [wire_write] = peer_info_item.array_codec [THEN wire_codec_write]

record peer_tell =
  pt_peers :: "peer_info list"

definition peer_tell_entries :: "peer_tell \<Rightarrow> map_entry list" where
  "peer_tell_entries x =
     [(cbor_text ''peers'', cbor_array encode_peer_info (pt_peers x))]"

definition encode_peer_tell :: "peer_tell \<Rightarrow> byte list" where
  "encode_peer_tell x = encode_map (peer_tell_entries x)"

definition peer_tell_fields :: "cbor_reader \<Rightarrow> (peer_tell \<times> cbor_reader) result" where
  "peer_tell_fields r =
     and_then (read_field ''peers'' ''expected peers'' (read_array read_peer_info) r) (\<lambda>(peers, r).
     Inr (\<lparr>pt_peers = peers\<rparr>, r))"

definition decode_peer_tell :: "byte list \<Rightarrow> peer_tell result" where
  "decode_peer_tell =
     decode_prefix (read_map 1 ''PeerTell expected 1 key'' peer_tell_fields)"

definition wf_peer_tell :: "peer_tell \<Rightarrow> bool" where
  [wf_defs]: "wf_peer_tell x \<longleftrightarrow> wf_array wf_peer_info (pt_peers x)"

lemma peer_tell_codec: "wire_codec encode_peer_tell (read_map 1 msg peer_tell_fields) wf_peer_tell"
  unfolding encode_peer_tell_def [abs_def]
  by (rule map_codecI,
      (auto simp: and_then_eq_Inr literal_key wire_iff peer_tell_fields_def Let_def peer_tell_entries_def wf_peer_tell_def cbor_key_text)[1],
      simp_all add: literal_key wire_write peer_tell_fields_def Let_def peer_tell_entries_def wf_peer_tell_def cbor_key_text)

interpretation peer_tell_msg: lax_message encode_peer_tell decode_peer_tell wf_peer_tell
  unfolding decode_peer_tell_def by (rule lax_messageI) (rule decode_prefix_iff [OF peer_tell_codec])

section \<open>Store and forward\<close>

record forward_store =
  fs_envelope :: "byte list"
  fs_recipient :: "byte list"
  fs_ttl_secs :: u64

definition forward_store_entries :: "forward_store \<Rightarrow> map_entry list" where
  "forward_store_entries x =
     [(cbor_text ''envelope'', cbor_bytes (fs_envelope x)),
      (cbor_text ''ttl_secs'', cbor_uint (fs_ttl_secs x)),
      (cbor_text ''recipient'', cbor_bytes (fs_recipient x))]"

definition encode_forward_store :: "forward_store \<Rightarrow> byte list" where
  "encode_forward_store x = encode_map (forward_store_entries x)"

definition forward_store_fields :: "cbor_reader \<Rightarrow> (forward_store \<times> cbor_reader) result" where
  "forward_store_fields r =
     and_then (read_field ''envelope'' ''expected envelope first'' read_bytes r) (\<lambda>(envelope, r).
     and_then (read_field ''ttl_secs'' ''expected ttl_secs second'' read_u64 r) (\<lambda>(ttl_secs, r).
     and_then (read_field ''recipient'' ''expected recipient third'' (read_fixed ''recipient'' 32) r) (\<lambda>(recipient, r).
     Inr (\<lparr>fs_envelope = envelope,
          fs_recipient = recipient,
          fs_ttl_secs = ttl_secs\<rparr>, r))))"

definition decode_forward_store :: "byte list \<Rightarrow> forward_store result" where
  "decode_forward_store =
     decode_prefix (read_map 3 ''ForwardStore expected 3 keys'' forward_store_fields)"

definition wf_forward_store :: "forward_store \<Rightarrow> bool" where
  [wf_defs]: "wf_forward_store x \<longleftrightarrow> wf_bytes (fs_envelope x) \<and>
     wf_fixed 32 (fs_recipient x)"

lemma forward_store_codec: "wire_codec encode_forward_store (read_map 3 msg forward_store_fields) wf_forward_store"
  unfolding encode_forward_store_def [abs_def]
  by (rule map_codecI,
      (auto simp: and_then_eq_Inr literal_key wire_iff forward_store_fields_def Let_def forward_store_entries_def wf_forward_store_def cbor_key_text)[1],
      simp_all add: literal_key wire_write forward_store_fields_def Let_def forward_store_entries_def wf_forward_store_def cbor_key_text)

interpretation forward_store_msg: lax_message encode_forward_store decode_forward_store wf_forward_store
  unfolding decode_forward_store_def by (rule lax_messageI) (rule decode_prefix_iff [OF forward_store_codec])

record forward_deliver =
  fd_envelope :: "byte list"
  fd_stored_at :: u64

definition forward_deliver_entries :: "forward_deliver \<Rightarrow> map_entry list" where
  "forward_deliver_entries x =
     [(cbor_text ''envelope'', cbor_bytes (fd_envelope x)),
      (cbor_text ''stored_at'', cbor_uint (fd_stored_at x))]"

definition encode_forward_deliver :: "forward_deliver \<Rightarrow> byte list" where
  "encode_forward_deliver x = encode_map (forward_deliver_entries x)"

definition forward_deliver_fields :: "cbor_reader \<Rightarrow> (forward_deliver \<times> cbor_reader) result" where
  "forward_deliver_fields r =
     and_then (read_field ''envelope'' ''expected envelope first'' read_bytes r) (\<lambda>(envelope, r).
     and_then (read_field ''stored_at'' ''expected stored_at second'' read_u64 r) (\<lambda>(stored_at, r).
     Inr (\<lparr>fd_envelope = envelope,
          fd_stored_at = stored_at\<rparr>, r)))"

definition decode_forward_deliver :: "byte list \<Rightarrow> forward_deliver result" where
  "decode_forward_deliver =
     decode_prefix (read_map 2 ''ForwardDeliver expected 2 keys'' forward_deliver_fields)"

definition wf_forward_deliver :: "forward_deliver \<Rightarrow> bool" where
  [wf_defs]: "wf_forward_deliver x \<longleftrightarrow> wf_bytes (fd_envelope x)"

lemma forward_deliver_codec: "wire_codec encode_forward_deliver (read_map 2 msg forward_deliver_fields) wf_forward_deliver"
  unfolding encode_forward_deliver_def [abs_def]
  by (rule map_codecI,
      (auto simp: and_then_eq_Inr literal_key wire_iff forward_deliver_fields_def Let_def forward_deliver_entries_def wf_forward_deliver_def cbor_key_text)[1],
      simp_all add: literal_key wire_write forward_deliver_fields_def Let_def forward_deliver_entries_def wf_forward_deliver_def cbor_key_text)

interpretation forward_deliver_msg: lax_message encode_forward_deliver decode_forward_deliver wf_forward_deliver
  unfolding decode_forward_deliver_def by (rule lax_messageI) (rule decode_prefix_iff [OF forward_deliver_codec])

section \<open>Rendezvous\<close>

record rendezvous =
  rv_target :: "byte list"

definition rendezvous_entries :: "rendezvous \<Rightarrow> map_entry list" where
  "rendezvous_entries x =
     [(cbor_text ''target'', cbor_bytes (rv_target x))]"

definition encode_rendezvous :: "rendezvous \<Rightarrow> byte list" where
  "encode_rendezvous x = encode_map (rendezvous_entries x)"

definition rendezvous_fields :: "cbor_reader \<Rightarrow> (rendezvous \<times> cbor_reader) result" where
  "rendezvous_fields r =
     and_then (read_field ''target'' ''expected target'' (read_fixed ''target'' 32) r) (\<lambda>(target, r).
     Inr (\<lparr>rv_target = target\<rparr>, r))"

definition decode_rendezvous :: "byte list \<Rightarrow> rendezvous result" where
  "decode_rendezvous =
     decode_prefix (read_map 1 ''Rendezvous expected 1 key'' rendezvous_fields)"

definition wf_rendezvous :: "rendezvous \<Rightarrow> bool" where
  [wf_defs]: "wf_rendezvous x \<longleftrightarrow> wf_fixed 32 (rv_target x)"

lemma rendezvous_codec: "wire_codec encode_rendezvous (read_map 1 msg rendezvous_fields) wf_rendezvous"
  unfolding encode_rendezvous_def [abs_def]
  by (rule map_codecI,
      (auto simp: and_then_eq_Inr literal_key wire_iff rendezvous_fields_def Let_def rendezvous_entries_def wf_rendezvous_def cbor_key_text)[1],
      simp_all add: literal_key wire_write rendezvous_fields_def Let_def rendezvous_entries_def wf_rendezvous_def cbor_key_text)

interpretation rendezvous_msg: lax_message encode_rendezvous decode_rendezvous wf_rendezvous
  unfolding decode_rendezvous_def by (rule lax_messageI) (rule decode_prefix_iff [OF rendezvous_codec])

record rendezvous_ack =
  ra_target :: "byte list"
  ra_endpoints :: "string list"

definition rendezvous_ack_entries :: "rendezvous_ack \<Rightarrow> map_entry list" where
  "rendezvous_ack_entries x =
     [(cbor_text ''target'', cbor_bytes (ra_target x)),
      (cbor_text ''endpoints'', cbor_array cbor_text (ra_endpoints x))]"

definition encode_rendezvous_ack :: "rendezvous_ack \<Rightarrow> byte list" where
  "encode_rendezvous_ack x = encode_map (rendezvous_ack_entries x)"

definition rendezvous_ack_fields :: "cbor_reader \<Rightarrow> (rendezvous_ack \<times> cbor_reader) result" where
  "rendezvous_ack_fields r =
     and_then (read_field ''target'' ''expected target first'' (read_fixed ''target'' 32) r) (\<lambda>(target, r).
     and_then (read_field ''endpoints'' ''expected endpoints second'' (read_array read_text) r) (\<lambda>(endpoints, r).
     Inr (\<lparr>ra_target = target,
          ra_endpoints = endpoints\<rparr>, r)))"

definition decode_rendezvous_ack :: "byte list \<Rightarrow> rendezvous_ack result" where
  "decode_rendezvous_ack =
     decode_prefix (read_map 2 ''RendezvousAck expected 2 keys'' rendezvous_ack_fields)"

definition wf_rendezvous_ack :: "rendezvous_ack \<Rightarrow> bool" where
  [wf_defs]: "wf_rendezvous_ack x \<longleftrightarrow> wf_fixed 32 (ra_target x) \<and>
     wf_array wf_text (ra_endpoints x)"

lemma rendezvous_ack_codec: "wire_codec encode_rendezvous_ack (read_map 2 msg rendezvous_ack_fields) wf_rendezvous_ack"
  unfolding encode_rendezvous_ack_def [abs_def]
  by (rule map_codecI,
      (auto simp: and_then_eq_Inr literal_key wire_iff rendezvous_ack_fields_def Let_def rendezvous_ack_entries_def wf_rendezvous_ack_def cbor_key_text)[1],
      simp_all add: literal_key wire_write rendezvous_ack_fields_def Let_def rendezvous_ack_entries_def wf_rendezvous_ack_def cbor_key_text)

interpretation rendezvous_ack_msg: lax_message encode_rendezvous_ack decode_rendezvous_ack wf_rendezvous_ack
  unfolding decode_rendezvous_ack_def by (rule lax_messageI) (rule decode_prefix_iff [OF rendezvous_ack_codec])

end
