(* ===== verification/Mailbox.thy ===== *)
theory Mailbox
  imports Prelude "HOL-Library.AList"
begin

text \<open>
  The store-and-forward mailbox, \<open>sidevers-net/src/forward.rs\<close>: one queue of held envelopes per
  recipient with a time to live. The hash map of queues is an association list with distinct
  keys; the reading of the clock is an argument of each operation.
\<close>

section \<open>State and operations\<close>

record held_message =
  hm_envelope :: "byte list"
  hm_stored_at :: u64
  hm_expires_at :: u64

type_synonym mailbox = "(byte list \<times> held_message list) list"

definition MAILBOX_TTL_SECS :: u64 where "MAILBOX_TTL_SECS = 7 * 24 * 60 * 60"

definition unix_now :: "u64 option \<Rightarrow> u64" where
  "unix_now clock = (case clock of Some t \<Rightarrow> t | None \<Rightarrow> 0)"

definition queue_of :: "mailbox \<Rightarrow> byte list \<Rightarrow> held_message list" where
  "queue_of m recipient = (case map_of m recipient of Some q \<Rightarrow> q | None \<Rightarrow> [])"

definition mailbox_store :: "u64 \<Rightarrow> byte list \<Rightarrow> byte list \<Rightarrow> u64 \<Rightarrow> mailbox \<Rightarrow> mailbox" where
  "mailbox_store now recipient env ttl_secs m =
     (let ttl = min ttl_secs MAILBOX_TTL_SECS;
          held = \<lparr>hm_envelope = env, hm_stored_at = now, hm_expires_at = now + ttl\<rparr>
      in AList.update recipient (queue_of m recipient @ [held]) m)"

definition unexpired :: "u64 \<Rightarrow> held_message \<Rightarrow> bool" where
  "unexpired now h \<longleftrightarrow> now < hm_expires_at h"

definition mailbox_drain :: "u64 \<Rightarrow> byte list \<Rightarrow> mailbox \<Rightarrow> held_message list \<times> mailbox" where
  "mailbox_drain now recipient m =
     (filter (unexpired now) (queue_of m recipient), AList.delete recipient m)"

definition mailbox_len_for :: "byte list \<Rightarrow> mailbox \<Rightarrow> nat" where
  "mailbox_len_for recipient m = length (queue_of m recipient)"

definition mailbox_sweep :: "u64 \<Rightarrow> mailbox \<Rightarrow> nat \<times> mailbox" where
  "mailbox_sweep now m =
     (let swept = map (\<lambda>(r, q). (r, filter (unexpired now) q)) m
      in (sum_list (map (\<lambda>(r, q). length q - length (filter (unexpired now) q)) m),
          filter (\<lambda>(r, q). q \<noteq> []) swept))"

section \<open>Histories\<close>

text \<open>What happens to a mailbox, with the clock reading of each operation.\<close>

datatype mail_op = Store "byte list" "byte list" u64 | Drain "byte list" | Sweep

fun mail_step :: "u64 \<times> mail_op \<Rightarrow> mailbox \<Rightarrow> mailbox" where
  "mail_step (t, Store r env ttl_secs) m = mailbox_store t r env ttl_secs m"
| "mail_step (t, Drain r) m = snd (mailbox_drain t r m)"
| "mail_step (t, Sweep) m = snd (mailbox_sweep t m)"

definition mail_run :: "(u64 \<times> mail_op) list \<Rightarrow> mailbox" where
  "mail_run ops = fold mail_step ops []"

text \<open>The reference: what was stored for one recipient since its last drain, in order.\<close>

fun owed :: "byte list \<Rightarrow> (u64 \<times> mail_op) list \<Rightarrow> (u64 \<times> byte list \<times> u64) list" where
  "owed r [] = []"
| "owed r ((t, Store r' env ttl_secs) # ops) =
     (if r' = r \<and> Drain r \<notin> snd ` set ops then (t, env, ttl_secs) # owed r ops else owed r ops)"
| "owed r ((t, Drain r') # ops) = owed r ops"
| "owed r ((t, Sweep) # ops) = owed r ops"

definition held_since :: "u64 \<times> byte list \<times> u64 \<Rightarrow> held_message" where
  "held_since = (\<lambda>(t, env, ttl_secs).
     \<lparr>hm_envelope = env, hm_stored_at = t, hm_expires_at = t + min ttl_secs MAILBOX_TTL_SECS\<rparr>)"

section \<open>Queues under the operations\<close>

lemma owed_snoc:
  "owed r (ops @ [(t, Store r' env ttl_secs)]) =
     owed r ops @ (if r' = r then [(t, env, ttl_secs)] else [])"
  "owed r (ops @ [(t, Drain r')]) = (if r' = r then [] else owed r ops)"
  "owed r (ops @ [(t, Sweep)]) = owed r ops"
proof (induction ops)
  case Nil
  { case 1 show ?case by simp next case 2 show ?case by simp next case 3 show ?case by simp }
next
  case (Cons x ops)
  obtain t' op where x: "x = (t', op)" by force
  { case 1 show ?case using Cons by (cases op) (auto simp: x)
  next case 2 show ?case using Cons by (cases op) (auto simp: x)
  next case 3 show ?case using Cons by (cases op) (auto simp: x) }
qed

lemma queue_store:
  "queue_of (mailbox_store t r env ttl_secs m) r' =
     (if r' = r then queue_of m r @ [held_since (t, env, ttl_secs)] else queue_of m r')"
  by (simp add: mailbox_store_def queue_of_def held_since_def Let_def update_conv')

lemma queue_drain: "queue_of (snd (mailbox_drain t r m)) r' = (if r' = r then [] else queue_of m r')"
  by (simp add: mailbox_drain_def queue_of_def delete_conv')

lemma map_of_swept:
  assumes "distinct (map fst m)"
  shows "queue_of (filter (\<lambda>(r, q). q \<noteq> []) (map (\<lambda>(r, q). (r, filter p q)) m)) r = filter p (queue_of m r)"
  using assms
proof (induction m)
  case Nil
  then show ?case by (simp add: queue_of_def)
next
  case (Cons e m)
  obtain r' q where e: "e = (r', q)" by force
  have none: "map_of (filter (\<lambda>(r, q). q \<noteq> []) (map (\<lambda>(r, q). (r, filter p q)) m)) r' = None"
    using Cons.prems by (force simp: e map_of_eq_None_iff)
  show ?case using Cons none by (auto simp: e queue_of_def)
qed

lemma queue_sweep:
  "distinct (map fst m) \<Longrightarrow> queue_of (snd (mailbox_sweep t m)) r = filter (unexpired t) (queue_of m r)"
  using map_of_swept [of m "unexpired t" r] by (simp add: mailbox_sweep_def Let_def)

lemma distinct_step:
  assumes "distinct (map fst m)"
  shows "distinct (map fst (mail_step op m))"
proof (cases op)
  case (Pair t a)
  show ?thesis
  proof (cases a)
    case Sweep
    have "map fst (map (\<lambda>(r, q). (r, filter (unexpired t) q)) m) = map fst m"
      by (simp add: case_prod_beta comp_def)
    then have "distinct (map fst (map (\<lambda>(r, q). (r, filter (unexpired t) q)) m))" using assms by (simp del: map_map)
    then show ?thesis by (simp add: Pair Sweep mailbox_sweep_def Let_def distinct_map_filter del: map_map)
  qed (use assms in \<open>simp_all add: Pair mailbox_store_def mailbox_drain_def Let_def distinct_update distinct_delete\<close>)
qed

lemma mail_run_snoc: "mail_run (ops @ [x]) = mail_step x (mail_run ops)"
  by (simp add: mail_run_def)

lemma distinct_run: "distinct (map fst (mail_run ops))"
  by (induction ops rule: rev_induct) (simp_all add: mail_run_snoc distinct_step, simp add: mail_run_def)

text \<open>A sweep at or before the time of the reading drops nothing that the reading would return.\<close>

lemma unexpired_mono: "t \<le> now \<Longrightarrow> unexpired now h \<Longrightarrow> unexpired t h"
  by (simp add: unexpired_def)

lemma mailbox_refines:
  assumes "\<forall>(t, op) \<in> set ops. t \<le> now"
  shows "filter (unexpired now) (queue_of (mail_run ops) r) = filter (unexpired now) (map held_since (owed r ops))"
  using assms
proof (induction ops rule: rev_induct)
  case Nil
  then show ?case by (simp add: mail_run_def queue_of_def)
next
  case (snoc x ops)
  obtain t op where x: "x = (t, op)" by force
  have t: "t \<le> now" and IH: "filter (unexpired now) (queue_of (mail_run ops) r) = filter (unexpired now) (map held_since (owed r ops))"
    using snoc by (auto simp: x)
  have "filter (unexpired now) (filter (unexpired t) q) = filter (unexpired now) q" for q
    using unexpired_mono [OF t] by (auto simp: filter_filter intro: filter_cong)
  then show ?case
    using IH by (cases op) (auto simp: mail_run_snoc x queue_store queue_drain queue_sweep [OF distinct_run] owed_snoc)
qed

section \<open>What a recipient receives\<close>

text \<open>A drain returns exactly the envelopes stored for that recipient since its last drain whose
  time to live, capped at seven days, has not passed, in the order in which they were stored;
  sweeps never change what is delivered. The clock only has to not run ahead of the drain.\<close>

lemma mailbox_delivers:
  assumes "\<forall>(t, op) \<in> set ops. t \<le> now"
  shows "fst (mailbox_drain now r (mail_run ops)) =
    filter (unexpired now) (map held_since (owed r ops))"
  using mailbox_refines [OF assms] by (simp add: mailbox_drain_def)

text \<open>A run with a sweep, an expired message, another recipient and an earlier drain.\<close>

definition sample_mail :: "(u64 \<times> mail_op) list" where
  "sample_mail = [(1, Store [1] [10] 100), (2, Drain [1]), (3, Store [1] [11] 5), (3, Store [2] [12] 100),
     (4, Store [1] [13] 100), (20, Sweep), (21, Store [1] [14] 1000000000)]"

lemma mailbox_delivers_witness:
  "map hm_envelope (fst (mailbox_drain 50 [1] (mail_run sample_mail))) = [[13], [14]]"
proof -
  have "\<forall>(t, op) \<in> set sample_mail. t \<le> 50" by (simp add: sample_mail_def)
  from mailbox_delivers [OF this, of "[1]"] show ?thesis
    by (simp add: sample_mail_def held_since_def unexpired_def MAILBOX_TTL_SECS_def)
qed

end
