(* ===== verification/Peers.thy ===== *)
theory Peers
  imports PeerMessages Replay Mailbox
begin

text \<open>
  The peer table, \<open>sidevers-net/src/peers.rs\<close>: a bounded directory of peers, evicting the one
  seen least recently, and the sample that answers a peer query.
\<close>

section \<open>State and operations\<close>

record peer_table =
  tab_peers :: "(byte list \<times> peer_info) list"
  tab_max :: nat

definition DEFAULT_MAX_PEERS :: nat where "DEFAULT_MAX_PEERS = 256"

definition peer_table_new :: "nat \<Rightarrow> peer_table" where
  "peer_table_new m = \<lparr>tab_peers = [], tab_max = m\<rparr>"

definition least_recent :: "(byte list \<times> peer_info) list \<Rightarrow> byte list option" where
  "least_recent ps = find_oldest_in (map (\<lambda>(k, p). (k, pi_last_seen p)) ps)"

definition peer_insert :: "peer_info \<Rightarrow> peer_table \<Rightarrow> peer_table" where
  "peer_insert info t =
     (let ps = (if map_of (tab_peers t) (pi_address info) = None \<and> tab_max t \<le> length (tab_peers t) then
                  (case least_recent (tab_peers t) of
                     Some oldest \<Rightarrow> AList.delete oldest (tab_peers t)
                   | None \<Rightarrow> tab_peers t)
                else tab_peers t)
      in t\<lparr>tab_peers := AList.update (pi_address info) info ps\<rparr>)"

definition peer_touch :: "u64 \<Rightarrow> byte list \<Rightarrow> peer_table \<Rightarrow> peer_table" where
  "peer_touch now address t = (case map_of (tab_peers t) address of
     Some p \<Rightarrow> t\<lparr>tab_peers := AList.update address (p\<lparr>pi_last_seen := now\<rparr>) (tab_peers t)\<rparr>
   | None \<Rightarrow> t)"

definition peer_get :: "byte list \<Rightarrow> peer_table \<Rightarrow> peer_info option" where
  "peer_get address t = map_of (tab_peers t) address"

definition peer_remove :: "byte list \<Rightarrow> peer_table \<Rightarrow> peer_table" where
  "peer_remove address t = t\<lparr>tab_peers := AList.delete address (tab_peers t)\<rparr>"

definition peer_len :: "peer_table \<Rightarrow> nat" where
  "peer_len t = length (tab_peers t)"

definition wanted :: "byte option \<Rightarrow> peer_info \<Rightarrow> bool" where
  "wanted intent_filter p = (case intent_filter of
     Some want \<Rightarrow> want \<in> set (pi_intents p) | None \<Rightarrow> True)"

text \<open>Rust's stable sort by \<open>Reverse(last_seen)\<close>.\<close>

definition peer_sample :: "nat \<Rightarrow> byte option \<Rightarrow> peer_table \<Rightarrow> peer_info list" where
  "peer_sample limit intent_filter t =
     take limit (sort_key (\<lambda>p. - uint (pi_last_seen p))
       (filter (wanted intent_filter) (map snd (tab_peers t))))"

section \<open>The table stays bounded\<close>

definition peers_ok :: "peer_table \<Rightarrow> bool" where
  "peers_ok t \<longleftrightarrow> wf_map (tab_peers t) \<and> length (tab_peers t) \<le> max 1 (tab_max t) \<and>
     (\<forall>(k, p) \<in> set (tab_peers t). pi_address p = k)"

lemma least_recent_in:
  assumes "least_recent ps = Some k"
  shows "k \<in> fst ` set ps"
proof -
  have "k \<in> fst ` set (map (\<lambda>(k, p). (k, pi_last_seen p)) ps)"
    using assms find_oldest_in_keys unfolding least_recent_def by metis
  then show ?thesis by force
qed

lemma least_recent_None: "least_recent ps = None \<longleftrightarrow> ps = []"
  by (simp add: least_recent_def find_oldest_in_def)

lemma least_recent_le:
  assumes "least_recent ps = Some k" "wf_map ps" "map_of ps k = Some old" "(k', p) \<in> set ps"
  shows "pi_last_seen old \<le> pi_last_seen p"
proof -
  let ?es = "map (\<lambda>(k, p). (k, pi_last_seen p)) ps"
  obtain t where t: "oldest_entry ?es = Some (k, t)"
    using assms(1) by (auto simp: least_recent_def find_oldest_in_def)
  have "(k', pi_last_seen p) \<in> set ?es" using assms(4) by force
  from oldest_entry_le [OF t this] have "t \<le> pi_last_seen p" by simp
  moreover have "t = pi_last_seen old"
  proof -
    obtain q where "(k, q) \<in> set ps" "t = pi_last_seen q" using oldest_entry_in [OF t] by auto
    moreover have "(k, old) \<in> set ps" using assms(3) by (rule map_of_SomeD)
    ultimately show ?thesis using assms(2) by (auto simp: wf_map_def dest: eq_key_imp_eq_value)
  qed
  ultimately show ?thesis by simp
qed

lemma length_update: "length (AList.update k v ps) = (if k \<in> fst ` set ps then length ps else Suc (length ps))"
  by (induction ps) auto

lemma set_update_cases: "(k', v') \<in> set (AList.update k v ps) \<Longrightarrow> (k', v') = (k, v) \<or> (k', v') \<in> set ps"
  by (induction ps) (auto split: if_splits)

lemma set_delete_sub: "x \<in> set (AList.delete k ps) \<Longrightarrow> x \<in> set ps"
  by (simp add: AList.delete_eq)

lemma peers_ok_insert:
  assumes "peers_ok t"
  shows "peers_ok (peer_insert info t)"
proof -
  let ?a = "pi_address info"
  define ps where "ps = (if map_of (tab_peers t) ?a = None \<and> tab_max t \<le> length (tab_peers t) then
      (case least_recent (tab_peers t) of Some oldest \<Rightarrow> AList.delete oldest (tab_peers t) | None \<Rightarrow> tab_peers t)
      else tab_peers t)"
  have ins: "peer_insert info t = t\<lparr>tab_peers := AList.update ?a info ps\<rparr>"
    by (simp add: peer_insert_def ps_def Let_def)
  have sub: "set ps \<subseteq> set (tab_peers t)"
    using set_delete_sub by (auto simp: ps_def split: option.splits)
  have wf: "distinct (map fst ps)"
    using assms by (auto simp: ps_def peers_ok_def wf_map_def distinct_delete split: option.splits)
  have len: "?a \<in> fst ` set ps \<and> length ps \<le> max 1 (tab_max t) \<or> Suc (length ps) \<le> max 1 (tab_max t)"
  proof (cases "map_of (tab_peers t) ?a = None")
    case False
    then have "ps = tab_peers t" "?a \<in> fst ` set ps" by (auto simp: ps_def map_of_eq_None_iff)
    then show ?thesis using assms by (simp add: peers_ok_def)
  next
    case True
    show ?thesis
    proof (cases "least_recent (tab_peers t)")
      case None
      then have "tab_peers t = []" by (simp add: least_recent_None)
      then have "length ps = 0" by (auto simp: ps_def split: option.splits)
      then show ?thesis by simp
    next
      case (Some k)
      from delete_shorter [OF least_recent_in [OF Some]] show ?thesis
        using assms True Some by (auto simp: ps_def peers_ok_def)
    qed
  qed
  have "\<forall>(k, p) \<in> set (AList.update ?a info ps). pi_address p = k"
    using set_update_cases sub assms by (fastforce simp: peers_ok_def)
  then show ?thesis
    using wf len by (auto simp: ins peers_ok_def wf_map_def length_update distinct_update)
qed

lemma peers_ok_touch:
  assumes "peers_ok t"
  shows "peers_ok (peer_touch now a t)"
proof (cases "map_of (tab_peers t) a")
  case (Some p)
  have "a \<in> fst ` set (tab_peers t)" "pi_address p = a"
    using Some assms by (force dest: map_of_SomeD simp: peers_ok_def)+
  moreover from this have "\<forall>(k, q) \<in> set (AList.update a (p\<lparr>pi_last_seen := now\<rparr>) (tab_peers t)). pi_address q = k"
    using assms by (auto simp: peers_ok_def dest!: set_update_cases)
  ultimately show ?thesis
    using assms by (simp add: peer_touch_def Some peers_ok_def length_update)
qed (use assms in \<open>simp add: peer_touch_def\<close>)

lemma peers_ok_remove: "peers_ok t \<Longrightarrow> peers_ok (peer_remove a t)"
  using length_delete_le [of a "tab_peers t"] set_delete_sub
  by (fastforce simp: peer_remove_def peers_ok_def wf_map_def distinct_delete)

text \<open>What happens to a table, with clock readings.\<close>

datatype peer_op = Insert peer_info | Touch u64 "byte list" | Remove "byte list"

fun peer_step :: "peer_op \<Rightarrow> peer_table \<Rightarrow> peer_table" where
  "peer_step (Insert info) t = peer_insert info t"
| "peer_step (Touch now a) t = peer_touch now a t"
| "peer_step (Remove a) t = peer_remove a t"

lemma peers_ok_run: "peers_ok t \<Longrightarrow> peers_ok (fold peer_step ops t)"
proof (induction ops arbitrary: t)
  case (Cons op ops)
  then show ?case by (cases op) (simp_all add: peers_ok_insert peers_ok_touch peers_ok_remove)
qed simp

lemma peer_max_run: "tab_max (fold peer_step ops t) = tab_max t"
proof (induction ops arbitrary: t)
  case (Cons op ops)
  have "tab_max (peer_step op t) = tab_max t"
    by (cases op) (simp_all add: peer_insert_def peer_touch_def peer_remove_def Let_def split: option.splits)
  then show ?case using Cons by simp
qed simp

text \<open>A table created with room for at least one peer never holds more peers than it was created
  for, holds no address twice and files every peer under its own address, whatever is
  inserted, touched or removed.\<close>

lemma peer_table_bounded:
  assumes "1 \<le> n"
  shows "peer_len (fold peer_step ops (peer_table_new n)) \<le> n \<and>
    distinct (map fst (tab_peers (fold peer_step ops (peer_table_new n)))) \<and>
    list_all (\<lambda>(k, p). pi_address p = k) (tab_peers (fold peer_step ops (peer_table_new n)))"
proof -
  have "peers_ok (peer_table_new n)" by (simp add: peers_ok_def peer_table_new_def)
  from peers_ok_run [OF this, of ops] show ?thesis
    using assms peer_max_run [of ops "peer_table_new n"]
    by (auto simp: peers_ok_def peer_len_def peer_table_new_def list_all_iff wf_map_def)
qed

text \<open>The freshest peers: a full table of two keeps the two seen most recently.\<close>

definition sample_peer :: "byte \<Rightarrow> u64 \<Rightarrow> peer_info" where
  "sample_peer b t = \<lparr>pi_address = [b], pi_intents = [1, b], pi_endpoints = [], pi_last_seen = t\<rparr>"

lemma peer_table_bounded_witness:
  "peer_len (fold peer_step [Insert (sample_peer 1 5), Insert (sample_peer 2 3), Insert (sample_peer 3 9),
     Touch 10 [1], Remove [3]] (peer_table_new 2)) \<le> 2"
  using peer_table_bounded [of 2 "[Insert (sample_peer 1 5), Insert (sample_peer 2 3), Insert (sample_peer 3 9),
     Touch 10 [1], Remove [3]]"] by simp

section \<open>Insertion and eviction\<close>

lemma peer_get_insert: "peer_get (pi_address info) (peer_insert info t) = Some info"
  by (simp add: peer_get_def peer_insert_def Let_def update_conv')

text \<open>An insertion drops at most one peer; it does so only when a new address meets a full table,
  and the peer it drops was seen no later than any other. Every other peer stays as it was.\<close>

lemma eviction_is_least_recent:
  assumes "peers_ok t" "peer_get a t = Some p" "peer_get a (peer_insert info t) \<noteq> Some p" "a \<noteq> pi_address info"
  shows "peer_get (pi_address info) t = None \<and> tab_max t \<le> peer_len t \<and>
    (\<forall>k q. peer_get k t = Some q \<longrightarrow> pi_last_seen p \<le> pi_last_seen q \<and>
      (k \<noteq> a \<longrightarrow> peer_get k (peer_insert info t) = Some q))"
proof -
  obtain oldest where full: "map_of (tab_peers t) (pi_address info) = None" "tab_max t \<le> length (tab_peers t)"
      and old: "least_recent (tab_peers t) = Some oldest"
      and ins: "peer_insert info t = t\<lparr>tab_peers := AList.update (pi_address info) info (AList.delete oldest (tab_peers t))\<rparr>"
    using assms(2-4) by (auto simp: peer_insert_def peer_get_def Let_def update_conv' split: if_splits option.splits)
  have a: "a = oldest"
    using assms(2-4) by (auto simp: ins peer_get_def update_conv' delete_conv' split: if_splits)
  have "pi_last_seen p \<le> pi_last_seen q" if "map_of (tab_peers t) k = Some q" for k q
    using least_recent_le [OF old] assms(1,2) that by (auto simp: peers_ok_def peer_get_def a dest: map_of_SomeD)
  then show ?thesis
    using full by (auto simp: ins peer_get_def peer_len_def update_conv' delete_conv' a)
qed

lemma eviction_is_least_recent_witness:
  "peer_get [2] (peer_insert (sample_peer 3 9) \<lparr>tab_peers = [([1], sample_peer 1 5), ([2], sample_peer 2 3)], tab_max = 2\<rparr>) = None \<and>
   pi_last_seen (sample_peer 2 3) \<le> pi_last_seen (sample_peer 1 5)"
proof -
  let ?t = "\<lparr>tab_peers = [([1], sample_peer 1 5), ([2], sample_peer 2 3)], tab_max = 2\<rparr>"
  have ok: "peers_ok ?t" by (simp add: peers_ok_def sample_peer_def wf_map_def)
  have g: "peer_get [2] ?t = Some (sample_peer 2 3)" "peer_get [1] ?t = Some (sample_peer 1 5)"
    by (simp_all add: peer_get_def)
  have gone: "peer_get [2] (peer_insert (sample_peer 3 9) ?t) = None"
    by (simp add: peer_get_def peer_insert_def Let_def least_recent_def find_oldest_in_def sample_peer_def)
  then have "peer_get [2] (peer_insert (sample_peer 3 9) ?t) \<noteq> Some (sample_peer 2 3)"
    "[2] \<noteq> pi_address (sample_peer 3 9)"
    by (simp_all add: sample_peer_def)
  from eviction_is_least_recent [OF ok g(1) this] show ?thesis using g(2) gone by blast
qed

section \<open>Samples\<close>

lemma wanted_sorted: "sorted (map (\<lambda>p. - uint (pi_last_seen p))
    (sort_key (\<lambda>p. - uint (pi_last_seen p)) ps))"
  by (rule sorted_sort_key)

lemma take_drop_sorted:
  assumes "sorted (map f xs)" "x \<in> set (take n xs)" "y \<in> set (drop n xs)"
  shows "f x \<le> f y"
proof -
  have "sorted (map f (take n xs) @ map f (drop n xs))" using assms(1) by (simp flip: map_append)
  then show ?thesis using assms(2,3) by (auto simp: sorted_append)
qed

text \<open>A sample holds at most the requested number of peers, only peers of the table that offer the
  wanted intent, freshest first; when it leaves out such a peer it is full, and every peer in
  it was seen at least as recently as the one left out.\<close>

lemma sample_freshest:
  "length (peer_sample limit want t) = min limit (length (filter (wanted want) (map snd (tab_peers t)))) \<and>
   set (peer_sample limit want t) \<subseteq> {p. wanted want p \<and> p \<in> snd ` set (tab_peers t)} \<and>
   sorted (map (\<lambda>p. - uint (pi_last_seen p)) (peer_sample limit want t)) \<and>
   (\<forall>p \<in> snd ` set (tab_peers t). wanted want p \<longrightarrow> p \<in> set (peer_sample limit want t) \<or>
     length (peer_sample limit want t) = limit \<and>
     (\<forall>q \<in> set (peer_sample limit want t). pi_last_seen p \<le> pi_last_seen q))"
proof -
  let ?f = "\<lambda>p. - uint (pi_last_seen p)"
  let ?all = "filter (wanted want) (map snd (tab_peers t))"
  let ?s = "sort_key ?f ?all"
  have all: "set ?s = {p. wanted want p \<and> p \<in> snd ` set (tab_peers t)}" by auto
  have "p \<in> set (take limit ?s) \<or> length (take limit ?s) = limit \<and> (\<forall>q \<in> set (take limit ?s). pi_last_seen p \<le> pi_last_seen q)"
    if "p \<in> set ?s" for p
  proof -
    have "p \<in> set (take limit ?s) \<or> p \<in> set (drop limit ?s)"
      using that by (metis Un_iff append_take_drop_id set_append)
    then show ?thesis
    proof
      assume d: "p \<in> set (drop limit ?s)"
      then have len: "length (take limit ?s) = limit" by (cases "limit \<le> length ?s") auto
      have "?f q \<le> ?f p" if "q \<in> set (take limit ?s)" for q
        by (rule take_drop_sorted [OF wanted_sorted that d])
      then show ?thesis using len by (auto simp: word_le_def)
    qed simp
  qed
  then show ?thesis
    using all set_take_subset [of limit ?s]
    by (auto simp: peer_sample_def sorted_wrt_take take_map [symmetric] min_def)
qed

lemma sample_freshest_witness:
  "map pi_address (peer_sample 2 (Some 1) \<lparr>tab_peers = [([1], sample_peer 1 5), ([2], sample_peer 2 3), ([3], sample_peer 3 9)], tab_max = 9\<rparr>)
     = [[3], [1]] \<and>
   length (peer_sample 2 (Some 1) \<lparr>tab_peers = [([1], sample_peer 1 5), ([2], sample_peer 2 3), ([3], sample_peer 3 9)], tab_max = 9\<rparr>) = 2"
proof -
  let ?t = "\<lparr>tab_peers = [([1], sample_peer 1 5), ([2], sample_peer 2 3), ([3], sample_peer 3 9)], tab_max = 9\<rparr>"
  have "map pi_address (peer_sample 2 (Some 1) ?t) = [[3], [1]]"
    by (simp add: peer_sample_def wanted_def sample_peer_def)
  then show ?thesis using sample_freshest [of 2 "Some 1" ?t] by (simp add: wanted_def sample_peer_def)
qed

end
