(* ===== verification/GossipState.thy ===== *)
theory GossipState
  imports Envelope Replay
begin

text \<open>
  Gossip state, \<open>sidevers-net/src/gossip.rs\<close>, and the propagation policy of
  \<open>gossip_policy.rs\<close>: the publishers a node follows and the broadcasts it has seen, as
  \<open>(from, nonce)\<close> with the second of the first sight.
\<close>

section \<open>State and operations\<close>

record gossip_state =
  gs_subs :: "byte list set"
  gs_dedup :: "(replay_key \<times> u64) list"

definition DEDUP_TTL_SECS :: u64 where "DEDUP_TTL_SECS = 600"
definition MAX_DEDUP_ENTRIES :: nat where "MAX_DEDUP_ENTRIES = 10000"

definition gossip_new :: gossip_state where
  "gossip_new = \<lparr>gs_subs = {}, gs_dedup = []\<rparr>"

definition gossip_subscribe :: "byte list \<Rightarrow> gossip_state \<Rightarrow> gossip_state" where
  "gossip_subscribe publisher g = g\<lparr>gs_subs := insert publisher (gs_subs g)\<rparr>"

definition gossip_unsubscribe :: "byte list \<Rightarrow> gossip_state \<Rightarrow> gossip_state" where
  "gossip_unsubscribe publisher g = g\<lparr>gs_subs := gs_subs g - {publisher}\<rparr>"

definition is_interesting :: "byte list \<Rightarrow> gossip_state \<Rightarrow> bool" where
  "is_interesting publisher g \<longleftrightarrow> publisher \<in> gs_subs g"

text \<open>The entries that survive the sweep of a cache of at least \<open>cap\<close> entries.\<close>

definition dedup_swept :: "nat \<Rightarrow> u64 \<Rightarrow> (replay_key \<times> u64) list \<Rightarrow> (replay_key \<times> u64) list" where
  "dedup_swept cap now es = (if cap \<le> length es
     then filter (\<lambda>(k, ts). saturating_sub now ts < DEDUP_TTL_SECS) es else es)"

definition gossip_observe :: "u64 \<Rightarrow> envelope \<Rightarrow> gossip_state \<Rightarrow> bool \<times> gossip_state" where
  "gossip_observe now env g =
     (let key = (env_from env, env_nonce env);
          es = dedup_swept MAX_DEDUP_ENTRIES now (gs_dedup g)
      in case map_of es key of
           None \<Rightarrow> (True, g\<lparr>gs_dedup := AList.update key now es\<rparr>)
         | Some _ \<Rightarrow> (False, g\<lparr>gs_dedup := es\<rparr>))"

datatype gossip_propagation = Open | ExcludeRefused | RelationshipsOnly

section \<open>Runs\<close>

datatype gossip_op = Observe u64 envelope | Subscribe "byte list" | Unsubscribe "byte list"

fun gossip_step :: "gossip_op \<Rightarrow> gossip_state \<Rightarrow> gossip_state" where
  "gossip_step (Observe now env) g = snd (gossip_observe now env g)"
| "gossip_step (Subscribe p) g = gossip_subscribe p g"
| "gossip_step (Unsubscribe p) g = gossip_unsubscribe p g"

fun op_clock :: "gossip_op \<Rightarrow> u64" where
  "op_clock (Observe now _) = now"
| "op_clock _ = 0"

definition seen_since :: "replay_key \<Rightarrow> u64 \<Rightarrow> gossip_state \<Rightarrow> bool" where
  "seen_since key t g \<longleftrightarrow> wf_map (gs_dedup g) \<and> (\<exists>ts. map_of (gs_dedup g) key = Some ts \<and> t \<le> ts)"

lemma wf_dedup_swept: "wf_map es \<Longrightarrow> wf_map (dedup_swept cap now es)"
  by (simp add: dedup_swept_def)

lemma wf_gossip_step: "wf_map (gs_dedup g) \<Longrightarrow> wf_map (gs_dedup (gossip_step op g))"
  by (cases op) (simp_all add: gossip_observe_def Let_def wf_dedup_swept gossip_subscribe_def gossip_unsubscribe_def
      split: option.splits)

lemma swept_keeps:
  assumes "wf_map es" "map_of es key = Some ts" "t \<le> ts" "saturating_sub now t < DEDUP_TTL_SECS"
  shows "map_of (dedup_swept cap now es) key = Some ts"
proof -
  have "saturating_sub now ts < DEDUP_TTL_SECS"
    using assms(3,4) by (simp add: word_less_nat_alt word_le_nat_alt)
  then show ?thesis using assms(1,2) by (simp add: dedup_swept_def map_of_filter_Some)
qed

lemma seen_step:
  assumes "seen_since key t g" "saturating_sub (op_clock op) t < DEDUP_TTL_SECS"
  shows "seen_since key t (gossip_step op g)"
proof (cases op)
  case (Observe now env)
  obtain ts where wf: "wf_map (gs_dedup g)" and ts: "map_of (gs_dedup g) key = Some ts" "t \<le> ts"
    using assms(1) by (auto simp: seen_since_def)
  have "map_of (dedup_swept MAX_DEDUP_ENTRIES now (gs_dedup g)) key = Some ts"
    using swept_keeps [OF wf ts] assms(2) by (simp add: Observe)
  moreover have "wf_map (gs_dedup (gossip_step op g))" using wf_gossip_step [OF wf] .
  ultimately show ?thesis
    using ts(2) by (auto simp: seen_since_def Observe gossip_observe_def Let_def update_conv' split: option.splits)
qed (use assms in \<open>simp_all add: seen_since_def gossip_subscribe_def gossip_unsubscribe_def\<close>)

lemma seen_run:
  assumes "seen_since key t g" "\<forall>op \<in> set ops. saturating_sub (op_clock op) t < DEDUP_TTL_SECS"
  shows "seen_since key t (fold gossip_step ops g)"
  using assms by (induction ops arbitrary: g) (simp_all add: seen_step)

lemma seen_observed:
  assumes "wf_map (gs_dedup g)" "fst (gossip_observe now env g)"
  shows "seen_since (env_from env, env_nonce env) now (snd (gossip_observe now env g))"
  using assms wf_dedup_swept [OF assms(1)]
  by (auto simp: seen_since_def gossip_observe_def Let_def update_conv' split: option.splits)

lemma wf_gossip_run: "wf_map (gs_dedup g) \<Longrightarrow> wf_map (gs_dedup (fold gossip_step ops g))"
  by (induction ops arbitrary: g) (simp_all add: wf_gossip_step)

text \<open>A broadcast is new at most once in any 600 seconds: once a node has reported a sender and
  nonce as new, it reports no further sight of them as new while less than 600 seconds have
  passed on its clock, however many other broadcasts arrive and whatever is subscribed.\<close>

lemma broadcast_new_once:
  assumes "fst (gossip_observe t env (fold gossip_step before gossip_new))"
    "\<forall>op \<in> set between. saturating_sub (op_clock op) t < DEDUP_TTL_SECS"
    "saturating_sub now t < DEDUP_TTL_SECS"
    "env_from env' = env_from env" "env_nonce env' = env_nonce env"
  shows "\<not> fst (gossip_observe now env'
    (fold gossip_step between (snd (gossip_observe t env (fold gossip_step before gossip_new)))))"
proof -
  let ?g = "fold gossip_step between (snd (gossip_observe t env (fold gossip_step before gossip_new)))"
  have "wf_map (gs_dedup (fold gossip_step before gossip_new))"
    by (rule wf_gossip_run) (simp add: gossip_new_def)
  from seen_run [OF seen_observed [OF this assms(1)] assms(2)]
  obtain ts where "wf_map (gs_dedup ?g)" "map_of (gs_dedup ?g) (env_from env, env_nonce env) = Some ts" "t \<le> ts"
    by (auto simp: seen_since_def)
  from swept_keeps [OF this assms(3), of MAX_DEDUP_ENTRIES] show ?thesis
    using assms(4,5) by (simp add: gossip_observe_def Let_def split: option.splits)
qed

definition sample_broadcast :: envelope where
  "sample_broadcast = \<lparr>env_version = 1, env_type = 0x0065, env_from = replicate 32 1, env_to = None,
     env_timestamp = 5, env_nonce = replicate 16 2, env_payload = [], env_sig = []\<rparr>"

lemma broadcast_new_once_witness:
  "\<not> fst (gossip_observe 700 (sample_broadcast\<lparr>env_payload := [1]\<rparr>)
     (fold gossip_step [Observe 400 (sample_broadcast\<lparr>env_nonce := replicate 16 3\<rparr>), Subscribe []]
       (snd (gossip_observe 101 sample_broadcast (fold gossip_step [Subscribe [7]] gossip_new)))))"
  by (rule broadcast_new_once)
    (simp_all add: gossip_observe_def gossip_new_def gossip_subscribe_def dedup_swept_def MAX_DEDUP_ENTRIES_def
      DEDUP_TTL_SECS_def saturating_sub_def sample_broadcast_def)

section \<open>Below the sweep bound nothing is forgotten\<close>

lemma observe_small:
  assumes "length (gs_dedup g) < MAX_DEDUP_ENTRIES" "map_of (gs_dedup g) (env_from env, env_nonce env) = Some ts"
  shows "gossip_observe now env g = (False, g)"
  using assms by (simp add: gossip_observe_def dedup_swept_def Let_def)

text \<open>A cache that holds fewer than 10 000 entries reports a broadcast it has seen as old at any
  later time: the 600 seconds for which pairs are to be remembered bound nothing until the
  sweep bound is reached.\<close>

lemma dedup_never_expires_small:
  assumes "length (gs_dedup g) < MAX_DEDUP_ENTRIES" "map_of (gs_dedup g) (env_from env, env_nonce env) = Some ts"
  shows "\<not> fst (gossip_observe now env g)"
  using observe_small [OF assms] by simp

lemma dedup_never_expires_small_witness:
  "\<not> fst (gossip_observe 1000000 sample_broadcast (snd (gossip_observe 5 sample_broadcast gossip_new)))"
  by (rule dedup_never_expires_small [where ts = 5])
    (simp_all add: gossip_observe_def gossip_new_def dedup_swept_def MAX_DEDUP_ENTRIES_def)

end
