(* ===== verification/Provenance.thy ===== *)
theory Provenance
  imports Prelude "HOL-Library.AList"
begin

text \<open>
  Publishers of stored objects, \<open>sidevers-net/src/provenance.rs\<close>: for every hash the sides that
  offered the object; a retract drops the object only when no other publisher is left.
\<close>

section \<open>State and operations\<close>

type_synonym publisher_table = "(byte list \<times> byte list set) list"

definition publishers :: "publisher_table \<Rightarrow> byte list \<Rightarrow> byte list set" where
  "publishers t h = (case map_of t h of Some s \<Rightarrow> s | None \<Rightarrow> {})"

definition note_publisher :: "byte list \<Rightarrow> byte list \<Rightarrow> publisher_table \<Rightarrow> publisher_table" where
  "note_publisher h side t = AList.update h (insert side (publishers t h)) t"

definition has_publisher :: "byte list \<Rightarrow> byte list \<Rightarrow> publisher_table \<Rightarrow> bool" where
  "has_publisher h side t = (case map_of t h of Some s \<Rightarrow> side \<in> s | None \<Rightarrow> False)"

definition drop_publisher :: "byte list \<Rightarrow> byte list \<Rightarrow> publisher_table \<Rightarrow> bool \<times> publisher_table" where
  "drop_publisher h side t = (case map_of t h of
     None \<Rightarrow> (False, t)
   | Some s \<Rightarrow> (if s - {side} = {} then (False, AList.delete h t)
                else (True, AList.update h (s - {side}) t)))"

section \<open>The table is a relation between hashes and sides\<close>

definition provenance_ok :: "publisher_table \<Rightarrow> bool" where
  "provenance_ok t \<longleftrightarrow> (\<forall>h s. map_of t h = Some s \<longrightarrow> s \<noteq> {} \<and> finite s)"

lemma has_publisher_iff: "has_publisher h side t \<longleftrightarrow> side \<in> publishers t h"
  by (simp add: has_publisher_def publishers_def split: option.splits)

lemma publishers_note:
  "publishers (note_publisher h side t) h' = (if h' = h then insert side (publishers t h) else publishers t h')"
  by (simp add: note_publisher_def publishers_def update_conv')

lemma publishers_drop:
  "publishers (snd (drop_publisher h side t)) h' = (if h' = h then publishers t h - {side} else publishers t h')"
  by (auto simp: drop_publisher_def publishers_def update_conv' delete_conv' split: option.splits)

lemma drop_publisher_others: "fst (drop_publisher h side t) \<longleftrightarrow> publishers t h - {side} \<noteq> {}"
  by (auto simp: drop_publisher_def publishers_def split: option.splits)

lemma provenance_ok_note: "provenance_ok t \<Longrightarrow> provenance_ok (note_publisher h side t)"
  by (auto simp: provenance_ok_def note_publisher_def publishers_def update_conv' split: option.splits)

lemma provenance_ok_drop: "provenance_ok t \<Longrightarrow> provenance_ok (snd (drop_publisher h side t))"
  by (auto simp: provenance_ok_def drop_publisher_def update_conv' delete_conv' split: option.splits if_splits)

end
