(* ===== verification/Tables.thy ===== *)
theory Tables
  imports Prelude "HOL-Library.AList"
begin

text \<open>
  Tables of an SQLite database, shared by the stores of \<open>sidevers-net/src/side_store.rs\<close> and
  \<open>sidevers-storage/src/object.rs\<close>: an association list from the primary key to the remaining
  columns, in the order in which the rows are held, and the statements the stores run on it.
\<close>

section \<open>Statements\<close>

definition insert_or_ignore :: "'k \<Rightarrow> 'v \<Rightarrow> ('k \<times> 'v) list \<Rightarrow> ('k \<times> 'v) list" where
  "insert_or_ignore k v t = (if map_of t k = None then AList.update k v t else t)"

text \<open>\<open>INSERT ... ON CONFLICT DO UPDATE SET\<close>: \<open>f\<close> sets the listed columns of the present row.\<close>

definition upsert :: "'k \<Rightarrow> 'v \<Rightarrow> ('v \<Rightarrow> 'v) \<Rightarrow> ('k \<times> 'v) list \<Rightarrow> ('k \<times> 'v) list" where
  "upsert k v f t = (case map_of t k of None \<Rightarrow> AList.update k v t | Some old \<Rightarrow> AList.update k (f old) t)"

text \<open>\<open>SELECT ... WHERE\<close> on the first part of the key.\<close>

definition select_of :: "'a \<Rightarrow> (('a \<times> 'b) \<times> 'v) list \<Rightarrow> ('b \<times> 'v) list" where
  "select_of a t = map (\<lambda>((x, b), v). (b, v)) (filter (\<lambda>((x, b), v). x = a) t)"

lemma map_of_insert_or_ignore:
  "map_of (insert_or_ignore k v t) = (if map_of t k = None then (map_of t)(k \<mapsto> v) else map_of t)"
  by (simp add: insert_or_ignore_def update_conv')

lemma map_of_upsert:
  "map_of (upsert k v f t) = (map_of t)(k \<mapsto> (case map_of t k of None \<Rightarrow> v | Some old \<Rightarrow> f old))"
  by (simp add: upsert_def update_conv' split: option.splits)

lemma map_of_select_of: "map_of (select_of a t) b = map_of t (a, b)"
  by (induction t) (auto simp: select_of_def)

end
