(* ===== verification/DeviceMessages.thy ===== *)
theory DeviceMessages
  imports Items Keys
begin

text \<open>
  The multi-device payloads, \<open>sidevers-core/src/messages/device.rs\<close> (types 0x26 to 0x29): the
  pairing request signed by the new device, the state bundle, the revocation and the state
  delta signed by the side, and the bundle's sealed contents.
\<close>

definition PAIRING_NONCE_LEN :: nat where "PAIRING_NONCE_LEN = 16"
definition KEY_NONCE_LEN :: nat where "KEY_NONCE_LEN = NONCE_LEN"
definition STATE_BUNDLE_AAD :: "byte list" where "STATE_BUNDLE_AAD = text_bytes ''sidevers/v1/device-state-bundle''"

section \<open>Pairing request\<close>

record pairing_request =
  pr_side :: "byte list"
  pr_device_pubkey :: "byte list"
  pr_device_x25519_pubkey :: "byte list"
  pr_nonce :: "byte list"
  pr_signature :: "byte list"

definition pairing_request_unsigned :: "byte list \<Rightarrow> byte list \<Rightarrow> byte list \<Rightarrow> byte list \<Rightarrow> byte list" where
  "pairing_request_unsigned side device_pubkey device_x25519_pubkey nonce = encode_map
     [(cbor_key ''side'', cbor_bytes side),
      (cbor_key ''nonce'', cbor_bytes nonce),
      (cbor_key ''device_pubkey'', cbor_bytes device_pubkey),
      (cbor_key ''device_x25519_pubkey'', cbor_bytes device_x25519_pubkey)]"

definition pairing_request_entries :: "pairing_request \<Rightarrow> map_entry list" where
  "pairing_request_entries x =
     [(cbor_key ''side'', cbor_bytes (pr_side x)),
      (cbor_key ''nonce'', cbor_bytes (pr_nonce x)),
      (cbor_key ''signature'', cbor_bytes (pr_signature x)),
      (cbor_key ''device_pubkey'', cbor_bytes (pr_device_pubkey x)),
      (cbor_key ''device_x25519_pubkey'', cbor_bytes (pr_device_x25519_pubkey x))]"

definition pairing_request_to_wire :: "pairing_request \<Rightarrow> byte list" where
  "pairing_request_to_wire x = encode_map (pairing_request_entries x)"

definition pairing_request_sign :: "crypto \<Rightarrow> side_key \<Rightarrow> byte list \<Rightarrow> byte list \<Rightarrow> byte list \<Rightarrow> pairing_request" where
  "pairing_request_sign C k side device_x25519_pubkey nonce =
     (let device_pubkey = public_bytes C k; digest = blake3 C (pairing_request_unsigned side device_pubkey device_x25519_pubkey nonce)
      in \<lparr>pr_side = side,
          pr_device_pubkey = device_pubkey,
          pr_device_x25519_pubkey = device_x25519_pubkey,
          pr_nonce = nonce,
          pr_signature = side_sign C k digest\<rparr>)"

definition pairing_request_tbs :: "pairing_request \<Rightarrow> byte list" where
  "pairing_request_tbs x = pairing_request_unsigned (pr_side x) (pr_device_pubkey x) (pr_device_x25519_pubkey x) (pr_nonce x)"

definition pairing_request_fields :: "cbor_reader \<Rightarrow> (pairing_request \<times> cbor_reader) result" where
  "pairing_request_fields r = (let msg = ''PairingRequest keys not in canonical order'' in
     and_then (read_field ''side'' msg (read_fixed ''side'' 32) r) (\<lambda>(side, r).
     and_then (read_field ''nonce'' msg (read_fixed ''nonce'' PAIRING_NONCE_LEN) r) (\<lambda>(nonce, r).
     and_then (read_field ''signature'' msg (read_fixed ''signature'' SIGNATURE_LEN) r) (\<lambda>(signature, r).
     and_then (read_field ''device_pubkey'' msg (read_fixed ''device_pubkey'' 32) r) (\<lambda>(device_pubkey, r).
     and_then (read_field ''device_x25519_pubkey'' msg (read_fixed ''device_x25519_pubkey'' 32) r) (\<lambda>(device_x25519_pubkey, r).
     Inr (\<lparr>pr_side = side,
          pr_device_pubkey = device_pubkey,
          pr_device_x25519_pubkey = device_x25519_pubkey,
          pr_nonce = nonce,
          pr_signature = signature\<rparr>, r)))))))"

definition pairing_request_from_wire :: "crypto \<Rightarrow> byte list \<Rightarrow> pairing_request result" where
  "pairing_request_from_wire C bs =
     and_then (decode_all ''trailing bytes after PairingRequest''
       (read_map 5 ''PairingRequest expected 5 keys'' pairing_request_fields) bs) (\<lambda>x.
     and_then (check_signature C (pr_device_pubkey x) (pairing_request_tbs x) (pr_signature x)) (\<lambda>_.
     if pairing_request_to_wire x \<noteq> bs then Inl (CborNotCanonical ''PairingRequest bytes are not canonical re-encode'')
     else Inr x))"

definition wf_pairing_request_fields :: "pairing_request \<Rightarrow> bool" where
  [wf_defs]: "wf_pairing_request_fields x \<longleftrightarrow> wf_fixed 32 (pr_side x) \<and>
     wf_fixed 16 (pr_nonce x) \<and>
     wf_fixed 64 (pr_signature x) \<and>
     wf_fixed 32 (pr_device_pubkey x) \<and>
     wf_fixed 32 (pr_device_x25519_pubkey x)"

lemma pairing_request_codec: "wire_codec pairing_request_to_wire (read_map 5 msg pairing_request_fields) wf_pairing_request_fields"
  unfolding pairing_request_to_wire_def [abs_def]
  by (rule map_codecI,
      (auto simp: and_then_eq_Inr literal_key wire_iff pairing_request_fields_def Let_def pairing_request_entries_def wf_pairing_request_fields_def cbor_key_text PAIRING_NONCE_LEN_def KEY_NONCE_LEN_def)[1],
      simp_all add: literal_key wire_write pairing_request_fields_def Let_def pairing_request_entries_def wf_pairing_request_fields_def cbor_key_text PAIRING_NONCE_LEN_def KEY_NONCE_LEN_def)

definition wf_pairing_request :: "crypto \<Rightarrow> pairing_request \<Rightarrow> bool" where
  "wf_pairing_request C x \<longleftrightarrow> wf_pairing_request_fields x \<and> ed_point_ok C (pr_device_pubkey x) \<and>
     ed_verify C (pr_device_pubkey x) (blake3 C (pairing_request_tbs x)) (pr_signature x)"

lemma pairing_request_from_wire_iff:
  "pairing_request_from_wire C bs = Inr x \<longleftrightarrow> wf_pairing_request C x \<and> bs = pairing_request_to_wire x"
  by (auto simp: pairing_request_from_wire_def and_then_eq_Inr decode_all_iff [OF pairing_request_codec] wf_pairing_request_def split: if_splits)

interpretation pairing_request_msg: strict_message pairing_request_to_wire "pairing_request_from_wire C" "wf_pairing_request C"
  by (rule strict_messageI) (rule pairing_request_from_wire_iff)

lemma pairing_request_sign_wf:
  assumes "signature_laws C" "wf_side k"
    and "wf_fixed 32 side" "wf_fixed 16 nonce" "wf_fixed 32 device_x25519_pubkey"
  shows "wf_pairing_request C (pairing_request_sign C k side device_x25519_pubkey nonce)"
  using assms signed_by_side [OF assms(1,2)]
  by (simp add: wf_pairing_request_def pairing_request_sign_def Let_def wf_pairing_request_fields_def pairing_request_tbs_def wf_fixed_def)

section \<open>State bundle\<close>

record state_bundle =
  sb_side :: "byte list"
  sb_recipient_device :: "byte list"
  sb_nonce :: "byte list"
  sb_key_nonce :: "byte list"
  sb_sealed_state :: "byte list"
  sb_signature :: "byte list"

definition state_bundle_unsigned :: "byte list \<Rightarrow> byte list \<Rightarrow> byte list \<Rightarrow> byte list \<Rightarrow> byte list \<Rightarrow> byte list" where
  "state_bundle_unsigned side recipient_device nonce key_nonce sealed_state = encode_map
     [(cbor_key ''side'', cbor_bytes side),
      (cbor_key ''nonce'', cbor_bytes nonce),
      (cbor_key ''key_nonce'', cbor_bytes key_nonce),
      (cbor_key ''sealed_state'', cbor_bytes sealed_state),
      (cbor_key ''recipient_device'', cbor_bytes recipient_device)]"

definition state_bundle_entries :: "state_bundle \<Rightarrow> map_entry list" where
  "state_bundle_entries x =
     [(cbor_key ''side'', cbor_bytes (sb_side x)),
      (cbor_key ''nonce'', cbor_bytes (sb_nonce x)),
      (cbor_key ''key_nonce'', cbor_bytes (sb_key_nonce x)),
      (cbor_key ''signature'', cbor_bytes (sb_signature x)),
      (cbor_key ''sealed_state'', cbor_bytes (sb_sealed_state x)),
      (cbor_key ''recipient_device'', cbor_bytes (sb_recipient_device x))]"

definition state_bundle_to_wire :: "state_bundle \<Rightarrow> byte list" where
  "state_bundle_to_wire x = encode_map (state_bundle_entries x)"

definition state_bundle_sign :: "crypto \<Rightarrow> side_key \<Rightarrow> byte list \<Rightarrow> byte list \<Rightarrow> byte list \<Rightarrow> byte list \<Rightarrow> state_bundle" where
  "state_bundle_sign C k recipient_device nonce key_nonce sealed_state =
     (let side = public_bytes C k; digest = blake3 C (state_bundle_unsigned side recipient_device nonce key_nonce sealed_state)
      in \<lparr>sb_side = side,
          sb_recipient_device = recipient_device,
          sb_nonce = nonce,
          sb_key_nonce = key_nonce,
          sb_sealed_state = sealed_state,
          sb_signature = side_sign C k digest\<rparr>)"

definition state_bundle_tbs :: "state_bundle \<Rightarrow> byte list" where
  "state_bundle_tbs x = state_bundle_unsigned (sb_side x) (sb_recipient_device x) (sb_nonce x) (sb_key_nonce x) (sb_sealed_state x)"

definition state_bundle_fields :: "cbor_reader \<Rightarrow> (state_bundle \<times> cbor_reader) result" where
  "state_bundle_fields r = (let msg = ''StateBundle keys not in canonical order'' in
     and_then (read_field ''side'' msg (read_fixed ''side'' 32) r) (\<lambda>(side, r).
     and_then (read_field ''nonce'' msg (read_fixed ''nonce'' PAIRING_NONCE_LEN) r) (\<lambda>(nonce, r).
     and_then (read_field ''key_nonce'' msg (read_fixed ''key_nonce'' KEY_NONCE_LEN) r) (\<lambda>(key_nonce, r).
     and_then (read_field ''signature'' msg (read_fixed ''signature'' SIGNATURE_LEN) r) (\<lambda>(signature, r).
     and_then (read_field ''sealed_state'' msg read_bytes r) (\<lambda>(sealed_state, r).
     and_then (read_field ''recipient_device'' msg (read_fixed ''recipient_device'' 32) r) (\<lambda>(recipient_device, r).
     Inr (\<lparr>sb_side = side,
          sb_recipient_device = recipient_device,
          sb_nonce = nonce,
          sb_key_nonce = key_nonce,
          sb_sealed_state = sealed_state,
          sb_signature = signature\<rparr>, r))))))))"

definition state_bundle_from_wire :: "crypto \<Rightarrow> byte list \<Rightarrow> state_bundle result" where
  "state_bundle_from_wire C bs =
     and_then (decode_all ''trailing bytes after StateBundle''
       (read_map 6 ''StateBundle expected 6 keys'' state_bundle_fields) bs) (\<lambda>x.
     and_then (check_signature C (sb_side x) (state_bundle_tbs x) (sb_signature x)) (\<lambda>_.
     if state_bundle_to_wire x \<noteq> bs then Inl (CborNotCanonical ''StateBundle bytes are not canonical re-encode'')
     else Inr x))"

definition wf_state_bundle_fields :: "state_bundle \<Rightarrow> bool" where
  [wf_defs]: "wf_state_bundle_fields x \<longleftrightarrow> wf_fixed 32 (sb_side x) \<and>
     wf_fixed 16 (sb_nonce x) \<and>
     wf_fixed 16 (sb_key_nonce x) \<and>
     wf_fixed 64 (sb_signature x) \<and>
     wf_bytes (sb_sealed_state x) \<and>
     wf_fixed 32 (sb_recipient_device x)"

lemma state_bundle_codec: "wire_codec state_bundle_to_wire (read_map 6 msg state_bundle_fields) wf_state_bundle_fields"
  unfolding state_bundle_to_wire_def [abs_def]
  by (rule map_codecI,
      (auto simp: and_then_eq_Inr literal_key wire_iff state_bundle_fields_def Let_def state_bundle_entries_def wf_state_bundle_fields_def cbor_key_text PAIRING_NONCE_LEN_def KEY_NONCE_LEN_def)[1],
      simp_all add: literal_key wire_write state_bundle_fields_def Let_def state_bundle_entries_def wf_state_bundle_fields_def cbor_key_text PAIRING_NONCE_LEN_def KEY_NONCE_LEN_def)

definition wf_state_bundle :: "crypto \<Rightarrow> state_bundle \<Rightarrow> bool" where
  "wf_state_bundle C x \<longleftrightarrow> wf_state_bundle_fields x \<and> ed_point_ok C (sb_side x) \<and>
     ed_verify C (sb_side x) (blake3 C (state_bundle_tbs x)) (sb_signature x)"

lemma state_bundle_from_wire_iff:
  "state_bundle_from_wire C bs = Inr x \<longleftrightarrow> wf_state_bundle C x \<and> bs = state_bundle_to_wire x"
  by (auto simp: state_bundle_from_wire_def and_then_eq_Inr decode_all_iff [OF state_bundle_codec] wf_state_bundle_def split: if_splits)

interpretation state_bundle_msg: strict_message state_bundle_to_wire "state_bundle_from_wire C" "wf_state_bundle C"
  by (rule strict_messageI) (rule state_bundle_from_wire_iff)

lemma state_bundle_sign_wf:
  assumes "signature_laws C" "wf_side k"
    and "wf_fixed 16 nonce" "wf_fixed 16 key_nonce" "wf_bytes sealed_state" "wf_fixed 32 recipient_device"
  shows "wf_state_bundle C (state_bundle_sign C k recipient_device nonce key_nonce sealed_state)"
  using assms signed_by_side [OF assms(1,2)]
  by (simp add: wf_state_bundle_def state_bundle_sign_def Let_def wf_state_bundle_fields_def state_bundle_tbs_def wf_fixed_def)

section \<open>Revocation\<close>

record device_revoke =
  dv_side :: "byte list"
  dv_device_pubkey :: "byte list"
  dv_revoked_at :: u64
  dv_reason :: "string option"
  dv_signature :: "byte list"

definition device_revoke_unsigned :: "byte list \<Rightarrow> byte list \<Rightarrow> u64 \<Rightarrow> string option \<Rightarrow> byte list" where
  "device_revoke_unsigned side device_pubkey revoked_at reason = encode_map
     [(cbor_key ''side'', cbor_bytes side),
      (cbor_key ''reason'', cbor_text_or_null reason),
      (cbor_key ''revoked_at'', cbor_uint revoked_at),
      (cbor_key ''device_pubkey'', cbor_bytes device_pubkey)]"

definition device_revoke_entries :: "device_revoke \<Rightarrow> map_entry list" where
  "device_revoke_entries x =
     [(cbor_key ''side'', cbor_bytes (dv_side x)),
      (cbor_key ''reason'', cbor_text_or_null (dv_reason x)),
      (cbor_key ''signature'', cbor_bytes (dv_signature x)),
      (cbor_key ''revoked_at'', cbor_uint (dv_revoked_at x)),
      (cbor_key ''device_pubkey'', cbor_bytes (dv_device_pubkey x))]"

definition device_revoke_to_wire :: "device_revoke \<Rightarrow> byte list" where
  "device_revoke_to_wire x = encode_map (device_revoke_entries x)"

definition device_revoke_sign :: "crypto \<Rightarrow> side_key \<Rightarrow> byte list \<Rightarrow> u64 \<Rightarrow> string option \<Rightarrow> device_revoke" where
  "device_revoke_sign C k device_pubkey revoked_at reason =
     (let side = public_bytes C k; digest = blake3 C (device_revoke_unsigned side device_pubkey revoked_at reason)
      in \<lparr>dv_side = side,
          dv_device_pubkey = device_pubkey,
          dv_revoked_at = revoked_at,
          dv_reason = reason,
          dv_signature = side_sign C k digest\<rparr>)"

definition device_revoke_tbs :: "device_revoke \<Rightarrow> byte list" where
  "device_revoke_tbs x = device_revoke_unsigned (dv_side x) (dv_device_pubkey x) (dv_revoked_at x) (dv_reason x)"

definition device_revoke_fields :: "cbor_reader \<Rightarrow> (device_revoke \<times> cbor_reader) result" where
  "device_revoke_fields r = (let msg = ''DeviceRevoke keys not in canonical order'' in
     and_then (read_field ''side'' msg (read_fixed ''side'' 32) r) (\<lambda>(side, r).
     and_then (read_field ''reason'' msg (read_optional_text ''missing reason'') r) (\<lambda>(reason, r).
     and_then (read_field ''signature'' msg (read_fixed ''signature'' SIGNATURE_LEN) r) (\<lambda>(signature, r).
     and_then (read_field ''revoked_at'' msg read_u64 r) (\<lambda>(revoked_at, r).
     and_then (read_field ''device_pubkey'' msg (read_fixed ''device_pubkey'' 32) r) (\<lambda>(device_pubkey, r).
     Inr (\<lparr>dv_side = side,
          dv_device_pubkey = device_pubkey,
          dv_revoked_at = revoked_at,
          dv_reason = reason,
          dv_signature = signature\<rparr>, r)))))))"

definition device_revoke_from_wire :: "crypto \<Rightarrow> byte list \<Rightarrow> device_revoke result" where
  "device_revoke_from_wire C bs =
     and_then (decode_all ''trailing bytes after DeviceRevoke''
       (read_map 5 ''DeviceRevoke expected 5 keys'' device_revoke_fields) bs) (\<lambda>x.
     and_then (check_signature C (dv_side x) (device_revoke_tbs x) (dv_signature x)) (\<lambda>_.
     if device_revoke_to_wire x \<noteq> bs then Inl (CborNotCanonical ''DeviceRevoke bytes are not canonical re-encode'')
     else Inr x))"

definition wf_device_revoke_fields :: "device_revoke \<Rightarrow> bool" where
  [wf_defs]: "wf_device_revoke_fields x \<longleftrightarrow> wf_fixed 32 (dv_side x) \<and>
     pred_option wf_text (dv_reason x) \<and>
     wf_fixed 64 (dv_signature x) \<and>
     wf_fixed 32 (dv_device_pubkey x)"

lemma device_revoke_codec: "wire_codec device_revoke_to_wire (read_map 5 msg device_revoke_fields) wf_device_revoke_fields"
  unfolding device_revoke_to_wire_def [abs_def]
  by (rule map_codecI,
      (auto simp: and_then_eq_Inr literal_key wire_iff device_revoke_fields_def Let_def device_revoke_entries_def wf_device_revoke_fields_def cbor_key_text)[1],
      simp_all add: literal_key wire_write device_revoke_fields_def Let_def device_revoke_entries_def wf_device_revoke_fields_def cbor_key_text)

definition wf_device_revoke :: "crypto \<Rightarrow> device_revoke \<Rightarrow> bool" where
  "wf_device_revoke C x \<longleftrightarrow> wf_device_revoke_fields x \<and> ed_point_ok C (dv_side x) \<and>
     ed_verify C (dv_side x) (blake3 C (device_revoke_tbs x)) (dv_signature x)"

lemma device_revoke_from_wire_iff:
  "device_revoke_from_wire C bs = Inr x \<longleftrightarrow> wf_device_revoke C x \<and> bs = device_revoke_to_wire x"
  by (auto simp: device_revoke_from_wire_def and_then_eq_Inr decode_all_iff [OF device_revoke_codec] wf_device_revoke_def split: if_splits)

interpretation device_revoke_msg: strict_message device_revoke_to_wire "device_revoke_from_wire C" "wf_device_revoke C"
  by (rule strict_messageI) (rule device_revoke_from_wire_iff)

lemma device_revoke_sign_wf:
  assumes "signature_laws C" "wf_side k"
    and "pred_option wf_text reason" "wf_fixed 32 device_pubkey"
  shows "wf_device_revoke C (device_revoke_sign C k device_pubkey revoked_at reason)"
  using assms signed_by_side [OF assms(1,2)]
  by (simp add: wf_device_revoke_def device_revoke_sign_def Let_def wf_device_revoke_fields_def device_revoke_tbs_def wf_fixed_def)

section \<open>Sealed contents\<close>

interpretation optional_bytes: wire_codec "cbor_or_null cbor_bytes" "read_optional msg read_bytes" "pred_option wf_bytes"
  by (rule optional_codec [OF bytes_item.wire_codec_axioms bytes_head_form])

interpretation optional_key32: wire_codec "cbor_or_null cbor_bytes" "read_optional msg (read_fixed field 32)"
    "pred_option (wf_fixed 32)"
  by (rule optional_codec [OF key32_item.wire_codec_axioms bytes_head_form])

lemmas optional_bytes_iff [wire_iff] = optional_bytes.dec_iff optional_key32.dec_iff
lemmas optional_bytes_write [wire_write] = optional_bytes.dec_enc optional_key32.dec_enc

record relationship_record =
  rr_address :: "byte list"
  rr_nickname :: "string option"
  rr_introduced_by :: "byte list option"
  rr_capabilities :: "string list"
  rr_notes :: "string option"
  rr_pinned :: bool
  rr_added_at :: u64

definition relationship_entries :: "relationship_record \<Rightarrow> map_entry list" where
  "relationship_entries x =
     [(cbor_key ''notes'', cbor_text_or_null (rr_notes x)),
      (cbor_key ''pinned'', cbor_boolean (rr_pinned x)),
      (cbor_key ''address'', cbor_bytes (rr_address x)),
      (cbor_key ''added_at'', cbor_uint (rr_added_at x)),
      (cbor_key ''nickname'', cbor_text_or_null (rr_nickname x)),
      (cbor_key ''capabilities'', cbor_array cbor_text (rr_capabilities x)),
      (cbor_key ''introduced_by'', cbor_or_null cbor_bytes (rr_introduced_by x))]"

definition encode_relationship :: "relationship_record \<Rightarrow> byte list" where
  "encode_relationship x = encode_map (relationship_entries x)"

definition relationship_fields :: "cbor_reader \<Rightarrow> (relationship_record \<times> cbor_reader) result" where
  "relationship_fields r = (let msg = ''Relationship record keys not in canonical order'' in
     and_then (read_field ''notes'' msg (read_optional_text ''missing notes'') r) (\<lambda>(notes, r).
     and_then (read_field ''pinned'' msg read_bool r) (\<lambda>(pinned, r).
     and_then (read_field ''address'' msg (read_fixed ''address'' 32) r) (\<lambda>(address, r).
     and_then (read_field ''added_at'' msg read_u64 r) (\<lambda>(added_at, r).
     and_then (read_field ''nickname'' msg (read_optional_text ''missing nickname'') r) (\<lambda>(nickname, r).
     and_then (read_field ''capabilities'' msg (read_array read_text) r) (\<lambda>(capabilities, r).
     and_then (read_field ''introduced_by'' msg (read_optional ''missing introduced_by'' (read_fixed ''introduced_by'' 32)) r) (\<lambda>(introduced_by, r).
     Inr (\<lparr>rr_address = address,
          rr_nickname = nickname,
          rr_introduced_by = introduced_by,
          rr_capabilities = capabilities,
          rr_notes = notes,
          rr_pinned = pinned,
          rr_added_at = added_at\<rparr>, r)))))))))"

definition read_relationship :: "cbor_reader \<Rightarrow> (relationship_record \<times> cbor_reader) result" where
  "read_relationship =
     read_map 7 ''Relationship record expected 7 keys'' relationship_fields"

definition wf_relationship :: "relationship_record \<Rightarrow> bool" where
  [wf_defs]: "wf_relationship x \<longleftrightarrow> pred_option wf_text (rr_notes x) \<and>
     wf_fixed 32 (rr_address x) \<and>
     pred_option wf_text (rr_nickname x) \<and>
     wf_array wf_text (rr_capabilities x) \<and>
     pred_option (wf_fixed 32) (rr_introduced_by x)"

lemma relationship_codec: "wire_codec encode_relationship (read_map 7 msg relationship_fields) wf_relationship"
  unfolding encode_relationship_def [abs_def]
  by (rule map_codecI,
      (auto simp: and_then_eq_Inr literal_key wire_iff relationship_fields_def Let_def relationship_entries_def wf_relationship_def cbor_key_text)[1],
      simp_all add: literal_key wire_write relationship_fields_def Let_def relationship_entries_def wf_relationship_def cbor_key_text)

interpretation relationship_item: wire_codec encode_relationship read_relationship wf_relationship
  unfolding read_relationship_def by (rule relationship_codec)

lemmas relationship_iff [wire_iff] = relationship_item.dec_iff
lemmas relationship_write [wire_write] = relationship_item.dec_enc

lemmas relationships_iff [wire_iff] = relationship_item.array_codec [THEN wire_codec_iff]
lemmas relationships_write [wire_write] = relationship_item.array_codec [THEN wire_codec_write]

record state_bundle_inner =
  bi_side_seed :: "byte list"
  bi_profile_wire :: "byte list option"
  bi_relationships :: "relationship_record list"
  bi_retired_sides :: "byte list list"
  bi_lifecycle :: string
  bi_co_holders :: "byte list list"
  bi_bundled_at :: u64

definition bundle_inner_entries :: "state_bundle_inner \<Rightarrow> map_entry list" where
  "bundle_inner_entries x =
     [(cbor_key ''profile'', cbor_or_null cbor_bytes (bi_profile_wire x)),
      (cbor_key ''lifecycle'', cbor_text (bi_lifecycle x)),
      (cbor_key ''side_seed'', cbor_bytes (bi_side_seed x)),
      (cbor_key ''bundled_at'', cbor_uint (bi_bundled_at x)),
      (cbor_key ''co_holders'', cbor_array cbor_bytes (bi_co_holders x)),
      (cbor_key ''relationships'', cbor_array encode_relationship (bi_relationships x)),
      (cbor_key ''retired_sides'', cbor_array cbor_bytes (bi_retired_sides x))]"

definition encode_bundle_inner :: "state_bundle_inner \<Rightarrow> byte list" where
  "encode_bundle_inner x = encode_map (bundle_inner_entries x)"

definition bundle_inner_fields :: "cbor_reader \<Rightarrow> (state_bundle_inner \<times> cbor_reader) result" where
  "bundle_inner_fields r = (let msg = ''StateBundleInner keys not in canonical order'' in
     and_then (read_field ''profile'' msg (read_optional ''missing profile'' read_bytes) r) (\<lambda>(profile_wire, r).
     and_then (read_field ''lifecycle'' msg read_text r) (\<lambda>(lifecycle, r).
     and_then (read_field ''side_seed'' msg (read_fixed ''side_seed'' 32) r) (\<lambda>(side_seed, r).
     and_then (read_field ''bundled_at'' msg read_u64 r) (\<lambda>(bundled_at, r).
     and_then (read_field ''co_holders'' msg (read_array (read_fixed ''bytes array item'' 32)) r) (\<lambda>(co_holders, r).
     and_then (read_field ''relationships'' msg (read_array read_relationship) r) (\<lambda>(relationships, r).
     and_then (read_field ''retired_sides'' msg (read_array (read_fixed ''bytes array item'' 32)) r) (\<lambda>(retired_sides, r).
     Inr (\<lparr>bi_side_seed = side_seed,
          bi_profile_wire = profile_wire,
          bi_relationships = relationships,
          bi_retired_sides = retired_sides,
          bi_lifecycle = lifecycle,
          bi_co_holders = co_holders,
          bi_bundled_at = bundled_at\<rparr>, r)))))))))"

definition decode_bundle_inner :: "byte list \<Rightarrow> state_bundle_inner result" where
  "decode_bundle_inner =
     decode_all ''trailing bytes after StateBundleInner''
       (read_map 7 ''StateBundleInner expected 7 keys'' bundle_inner_fields)"

definition wf_bundle_inner :: "state_bundle_inner \<Rightarrow> bool" where
  [wf_defs]: "wf_bundle_inner x \<longleftrightarrow> pred_option wf_bytes (bi_profile_wire x) \<and>
     wf_text (bi_lifecycle x) \<and>
     wf_fixed 32 (bi_side_seed x) \<and>
     wf_array (wf_fixed 32) (bi_co_holders x) \<and>
     wf_array wf_relationship (bi_relationships x) \<and>
     wf_array (wf_fixed 32) (bi_retired_sides x)"

lemma bundle_inner_codec: "wire_codec encode_bundle_inner (read_map 7 msg bundle_inner_fields) wf_bundle_inner"
  unfolding encode_bundle_inner_def [abs_def]
  by (rule map_codecI,
      (auto simp: and_then_eq_Inr literal_key wire_iff bundle_inner_fields_def Let_def bundle_inner_entries_def wf_bundle_inner_def cbor_key_text)[1],
      simp_all add: literal_key wire_write bundle_inner_fields_def Let_def bundle_inner_entries_def wf_bundle_inner_def cbor_key_text)

interpretation bundle_inner_msg: strict_message encode_bundle_inner decode_bundle_inner wf_bundle_inner
  unfolding decode_bundle_inner_def by (rule strict_messageI) (rule decode_all_iff [OF bundle_inner_codec])

section \<open>State deltas\<close>

datatype delta_op =
    DeltaProfileUpdated "byte list"
  | DeltaProfileCleared
  | DeltaRelationshipUpserted relationship_record
  | DeltaRelationshipRemoved "byte list"
  | DeltaRetiredObserved "byte list"
  | DeltaLifecycleChanged string
  | DeltaCoHolderAdded "byte list" string
  | DeltaCoHolderRemoved "byte list"

fun delta_op_entries :: "delta_op \<Rightarrow> map_entry list" where
  "delta_op_entries (DeltaProfileUpdated b) =
     [(cbor_key ''kind'', cbor_text ''profile_updated''),
      (cbor_key ''profile_wire'', cbor_bytes b)]"
| "delta_op_entries DeltaProfileCleared =
     [(cbor_key ''kind'', cbor_text ''profile_cleared'')]"
| "delta_op_entries (DeltaRelationshipUpserted x) =
     [(cbor_key ''kind'', cbor_text ''relationship_upserted''),
      (cbor_key ''record'', encode_relationship x)]"
| "delta_op_entries (DeltaRelationshipRemoved a) =
     [(cbor_key ''kind'', cbor_text ''relationship_removed''),
      (cbor_key ''address'', cbor_bytes a)]"
| "delta_op_entries (DeltaRetiredObserved a) =
     [(cbor_key ''kind'', cbor_text ''retired_observed''),
      (cbor_key ''address'', cbor_bytes a)]"
| "delta_op_entries (DeltaLifecycleChanged s) =
     [(cbor_key ''kind'', cbor_text ''lifecycle_changed''),
      (cbor_key ''state'', cbor_text s)]"
| "delta_op_entries (DeltaCoHolderAdded k d) =
     [(cbor_key ''kind'', cbor_text ''cohol_added''),
      (cbor_key ''dial_addr'', cbor_text d),
      (cbor_key ''device_pubkey'', cbor_bytes k)]"
| "delta_op_entries (DeltaCoHolderRemoved k) =
     [(cbor_key ''kind'', cbor_text ''cohol_removed''),
      (cbor_key ''device_pubkey'', cbor_bytes k)]"

definition encode_delta_op :: "delta_op \<Rightarrow> byte list" where
  "encode_delta_op x = encode_map (delta_op_entries x)"

definition delta_field :: "string \<Rightarrow> (cbor_reader \<Rightarrow> ('a \<times> cbor_reader) result) \<Rightarrow> cbor_reader \<Rightarrow>
    ('a \<times> cbor_reader) result" where
  "delta_field k dec r = read_field k ''DeltaOp: keys not in canonical order'' dec r"

text \<open>The arm of one kind: the number of keys it expects, then its fields.\<close>

definition delta_arm :: "nat \<Rightarrow> nat \<Rightarrow> string \<Rightarrow> (cbor_reader \<Rightarrow> (delta_op \<times> cbor_reader) result) \<Rightarrow> cbor_reader \<Rightarrow>
    (delta_op \<times> cbor_reader) result" where
  "delta_arm n k msg body r = (if n \<noteq> k then Inl (CborDecode msg) else body r)"

definition delta_args :: "nat \<Rightarrow> string \<Rightarrow> cbor_reader \<Rightarrow> (delta_op \<times> cbor_reader) result" where
  "delta_args n kind r =
    (if kind = ''profile_updated'' then delta_arm n 2 ''profile_updated expects 2 keys'' (\<lambda>r.
         and_then (delta_field ''profile_wire'' read_bytes r) (\<lambda>(b, r). Inr (DeltaProfileUpdated b, r))) r
     else if kind = ''profile_cleared'' then delta_arm n 1 ''profile_cleared expects 1 key'' (\<lambda>r.
         Inr (DeltaProfileCleared, r)) r
     else if kind = ''relationship_upserted'' then delta_arm n 2 ''relationship_upserted expects 2 keys'' (\<lambda>r.
         and_then (delta_field ''record'' read_relationship r) (\<lambda>(x, r). Inr (DeltaRelationshipUpserted x, r))) r
     else if kind = ''relationship_removed'' then delta_arm n 2 ''relationship_removed expects 2 keys'' (\<lambda>r.
         and_then (delta_field ''address'' (read_fixed ''address'' 32) r) (\<lambda>(a, r). Inr (DeltaRelationshipRemoved a, r))) r
     else if kind = ''retired_observed'' then delta_arm n 2 ''retired_observed expects 2 keys'' (\<lambda>r.
         and_then (delta_field ''address'' (read_fixed ''address'' 32) r) (\<lambda>(a, r). Inr (DeltaRetiredObserved a, r))) r
     else if kind = ''lifecycle_changed'' then delta_arm n 2 ''lifecycle_changed expects 2 keys'' (\<lambda>r.
         and_then (delta_field ''state'' read_text r) (\<lambda>(s, r). Inr (DeltaLifecycleChanged s, r))) r
     else if kind = ''cohol_added'' then delta_arm n 3 ''cohol_added expects 3 keys'' (\<lambda>r.
         and_then (delta_field ''dial_addr'' read_text r) (\<lambda>(d, r). and_then (delta_field ''device_pubkey'' (read_fixed ''device_pubkey'' 32) r) (\<lambda>(k, r). Inr (DeltaCoHolderAdded k d, r)))) r
     else if kind = ''cohol_removed'' then delta_arm n 2 ''cohol_removed expects 2 keys'' (\<lambda>r.
         and_then (delta_field ''device_pubkey'' (read_fixed ''device_pubkey'' 32) r) (\<lambda>(k, r). Inr (DeltaCoHolderRemoved k, r))) r
     else Inl (CborDecode ''DeltaOp: unknown kind''))"

definition read_delta_op :: "cbor_reader \<Rightarrow> (delta_op \<times> cbor_reader) result" where
  "read_delta_op r = and_then (read_map_header r) (\<lambda>(n, r).
     if n = 0 then Inl (CborDecode ''empty DeltaOp map'')
     else and_then (read_field ''kind'' ''DeltaOp: first key must be kind'' read_text r) (\<lambda>(kind, r).
     delta_args n kind r))"

fun wf_delta_op :: "delta_op \<Rightarrow> bool" where
  "wf_delta_op (DeltaProfileUpdated b) = wf_bytes b"
| "wf_delta_op DeltaProfileCleared = True"
| "wf_delta_op (DeltaRelationshipUpserted x) = wf_relationship x"
| "wf_delta_op (DeltaRelationshipRemoved a) = wf_fixed 32 a"
| "wf_delta_op (DeltaRetiredObserved a) = wf_fixed 32 a"
| "wf_delta_op (DeltaLifecycleChanged s) = wf_text s"
| "wf_delta_op (DeltaCoHolderAdded k d) \<longleftrightarrow> wf_text d \<and> wf_fixed 32 k"
| "wf_delta_op (DeltaCoHolderRemoved k) = wf_fixed 32 k"

lemma delta_field_iff [wire_iff]:
  "wf_text k \<Longrightarrow> delta_field k dec (rdr pre s) = Inr y \<longleftrightarrow>
     (\<exists>suf. s = cbor_text k @ suf \<and> dec (rdr (pre @ cbor_text k) suf) = Inr y)"
  by (simp add: delta_field_def read_field_iff)

lemma delta_field_write [wire_write]:
  "wf_text k \<Longrightarrow> delta_field k dec (rdr pre (cbor_text k @ suf)) = dec (rdr (pre @ cbor_text k) suf)"
  by (simp add: delta_field_def read_field_write)

lemma delta_arm_iff: "delta_arm n k msg body r = Inr y \<longleftrightarrow> n = k \<and> body r = Inr y"
  by (simp add: delta_arm_def)

lemma delta_args_ok:
  "delta_args n kind (rdr pre s) = Inr (x, r') \<Longrightarrow>
     n = length (delta_op_entries x) \<and> wf_delta_op x \<and> hd (delta_op_entries x) = (cbor_key ''kind'', cbor_text kind) \<and>
     (\<exists>suf. s = map_body (tl (delta_op_entries x)) @ suf \<and> r' = rdr (pre @ map_body (tl (delta_op_entries x))) suf)"
  unfolding delta_args_def
  by (auto simp: and_then_eq_Inr literal_key wire_iff delta_arm_iff cbor_key_text split: if_splits)

lemma delta_entries_kind:
  "hd (delta_op_entries x) = (k, v) \<Longrightarrow> map_body (delta_op_entries x) = k @ v @ map_body (tl (delta_op_entries x))"
  by (cases x) simp_all

interpretation delta_op_item: wire_codec encode_delta_op read_delta_op wf_delta_op
proof (rule wire_codecI)
  fix pre s x r'
  assume "read_delta_op (rdr pre s) = Inr (x, r')"
  then obtain n kind t where h: "s = write_map_header [] n @ cbor_text ''kind'' @ cbor_text kind @ t"
      "delta_args n kind (rdr (pre @ write_map_header [] n @ cbor_text ''kind'' @ cbor_text kind) t) = Inr (x, r')"
    by (auto simp: read_delta_op_def and_then_eq_Inr literal_key wire_iff split: if_splits)
  from delta_args_ok [OF h(2)] obtain suf where "n = length (delta_op_entries x)" "wf_delta_op x"
      "hd (delta_op_entries x) = (cbor_key ''kind'', cbor_text kind)"
      "t = map_body (tl (delta_op_entries x)) @ suf"
      "r' = rdr ((pre @ write_map_header [] n @ cbor_text ''kind'' @ cbor_text kind) @ map_body (tl (delta_op_entries x))) suf"
    by blast
  then show "wf_delta_op x \<and> (\<exists>suf. s = encode_delta_op x @ suf \<and> r' = rdr (pre @ encode_delta_op x) suf)"
    using h(1) by (simp add: encode_delta_op_def encode_map_body delta_entries_kind cbor_key_text)
next
  fix pre suf x
  assume "wf_delta_op x"
  then show "read_delta_op (rdr pre (encode_delta_op x @ suf)) = Inr (x, rdr (pre @ encode_delta_op x) suf)"
    by (cases x) (simp_all add: read_delta_op_def delta_args_def delta_arm_def encode_delta_op_def encode_map_body
        cbor_key_text literal_key wire_write)
qed

lemmas delta_ops_iff [wire_iff] = delta_op_item.array_codec [THEN wire_codec_iff]
lemmas delta_ops_write [wire_write] = delta_op_item.array_codec [THEN wire_codec_write]

record state_delta =
  sd_side :: "byte list"
  sd_ops :: "delta_op list"
  sd_applied_at :: u64
  sd_signature :: "byte list"

definition state_delta_unsigned :: "byte list \<Rightarrow> delta_op list \<Rightarrow> u64 \<Rightarrow> byte list" where
  "state_delta_unsigned side ops applied_at = encode_map
     [(cbor_key ''ops'', cbor_array encode_delta_op ops),
      (cbor_key ''side'', cbor_bytes side),
      (cbor_key ''applied_at'', cbor_uint applied_at)]"

definition state_delta_entries :: "state_delta \<Rightarrow> map_entry list" where
  "state_delta_entries x =
     [(cbor_key ''ops'', cbor_array encode_delta_op (sd_ops x)),
      (cbor_key ''side'', cbor_bytes (sd_side x)),
      (cbor_key ''signature'', cbor_bytes (sd_signature x)),
      (cbor_key ''applied_at'', cbor_uint (sd_applied_at x))]"

definition state_delta_to_wire :: "state_delta \<Rightarrow> byte list" where
  "state_delta_to_wire x = encode_map (state_delta_entries x)"

definition state_delta_sign :: "crypto \<Rightarrow> side_key \<Rightarrow> delta_op list \<Rightarrow> u64 \<Rightarrow> state_delta" where
  "state_delta_sign C k ops applied_at =
     (let side = public_bytes C k; digest = blake3 C (state_delta_unsigned side ops applied_at)
      in \<lparr>sd_side = side,
          sd_ops = ops,
          sd_applied_at = applied_at,
          sd_signature = side_sign C k digest\<rparr>)"

definition state_delta_tbs :: "state_delta \<Rightarrow> byte list" where
  "state_delta_tbs x = state_delta_unsigned (sd_side x) (sd_ops x) (sd_applied_at x)"

definition state_delta_fields :: "cbor_reader \<Rightarrow> (state_delta \<times> cbor_reader) result" where
  "state_delta_fields r = (let msg = ''StateDelta keys not in canonical order'' in
     and_then (read_field ''ops'' msg (read_array read_delta_op) r) (\<lambda>(ops, r).
     and_then (read_field ''side'' msg (read_fixed ''side'' 32) r) (\<lambda>(side, r).
     and_then (read_field ''signature'' msg (read_fixed ''signature'' SIGNATURE_LEN) r) (\<lambda>(signature, r).
     and_then (read_field ''applied_at'' msg read_u64 r) (\<lambda>(applied_at, r).
     Inr (\<lparr>sd_side = side,
          sd_ops = ops,
          sd_applied_at = applied_at,
          sd_signature = signature\<rparr>, r))))))"

definition state_delta_from_wire :: "crypto \<Rightarrow> byte list \<Rightarrow> state_delta result" where
  "state_delta_from_wire C bs =
     and_then (decode_all ''trailing bytes after StateDelta''
       (read_map 4 ''StateDelta expected 4 keys'' state_delta_fields) bs) (\<lambda>x.
     and_then (check_signature C (sd_side x) (state_delta_tbs x) (sd_signature x)) (\<lambda>_.
     if state_delta_to_wire x \<noteq> bs then Inl (CborNotCanonical ''StateDelta bytes are not canonical re-encode'')
     else Inr x))"

definition wf_state_delta_fields :: "state_delta \<Rightarrow> bool" where
  [wf_defs]: "wf_state_delta_fields x \<longleftrightarrow> wf_array wf_delta_op (sd_ops x) \<and>
     wf_fixed 32 (sd_side x) \<and>
     wf_fixed 64 (sd_signature x)"

lemma state_delta_codec: "wire_codec state_delta_to_wire (read_map 4 msg state_delta_fields) wf_state_delta_fields"
  unfolding state_delta_to_wire_def [abs_def]
  by (rule map_codecI,
      (auto simp: and_then_eq_Inr literal_key wire_iff state_delta_fields_def Let_def state_delta_entries_def wf_state_delta_fields_def cbor_key_text)[1],
      simp_all add: literal_key wire_write state_delta_fields_def Let_def state_delta_entries_def wf_state_delta_fields_def cbor_key_text)

definition wf_state_delta :: "crypto \<Rightarrow> state_delta \<Rightarrow> bool" where
  "wf_state_delta C x \<longleftrightarrow> wf_state_delta_fields x \<and> ed_point_ok C (sd_side x) \<and>
     ed_verify C (sd_side x) (blake3 C (state_delta_tbs x)) (sd_signature x)"

lemma state_delta_from_wire_iff:
  "state_delta_from_wire C bs = Inr x \<longleftrightarrow> wf_state_delta C x \<and> bs = state_delta_to_wire x"
  by (auto simp: state_delta_from_wire_def and_then_eq_Inr decode_all_iff [OF state_delta_codec] wf_state_delta_def split: if_splits)

interpretation state_delta_msg: strict_message state_delta_to_wire "state_delta_from_wire C" "wf_state_delta C"
  by (rule strict_messageI) (rule state_delta_from_wire_iff)

lemma state_delta_sign_wf:
  assumes "signature_laws C" "wf_side k"
    and "wf_array wf_delta_op ops"
  shows "wf_state_delta C (state_delta_sign C k ops applied_at)"
  using assms signed_by_side [OF assms(1,2)]
  by (simp add: wf_state_delta_def state_delta_sign_def Let_def wf_state_delta_fields_def state_delta_tbs_def wf_fixed_def)

end
