(* ===== verification/Contacts.thy ===== *)
theory Contacts
  imports DeviceMessages "HOL-Library.AList"
begin

text \<open>
  Contacts and life stages of a side, \<open>sidevers-net/src/relationships.rs\<close>. The table is a
  \<open>BTreeMap\<close>, i.e. the list of its entries with ascending keys; nothing of it goes on the wire.

  The contract of a keyed table, a locale, is shared by the tables of the node: ordered maps,
  hash maps and SQL tables with a primary key. It is interpreted on the first two here and
  carries the proofs about the side's state and its persistent copy.
\<close>

section \<open>Keyed tables\<close>

definition btree_remove :: "'k \<Rightarrow> ('k \<times> 'v) list \<Rightarrow> ('k \<times> 'v) list" where
  "btree_remove k m = filter (\<lambda>(k', v). k' \<noteq> k) m"

datatype ('k, 'v) table_op = Put 'k 'v | Del 'k

locale keyed_table =
  fixes get :: "'t \<Rightarrow> 'k \<Rightarrow> 'v option"
    and put :: "'k \<Rightarrow> 'v \<Rightarrow> 't \<Rightarrow> 't"
    and del :: "'k \<Rightarrow> 't \<Rightarrow> 't"
  assumes get_put: "get (put k v t) = (get t)(k := Some v)"
    and get_del: "get (del k t) = (get t)(k := None)"
begin

lemma get_put_same: "get (put k v t) k = Some v"
  by (simp add: get_put)

lemma put_put: "get (put k v (put k w t)) = get (put k v t)"
  by (simp add: get_put)

lemma del_put: "get (del k (put k v t)) = get (del k t)"
  by (simp add: get_put get_del)

text \<open>Filling a table from a list of rows with distinct keys.\<close>

lemma get_fold_put:
  assumes "distinct (map fst rows)"
  shows "get (fold (\<lambda>(k, v). put k (f k v)) rows t) k = (case map_of rows k of Some v \<Rightarrow> Some (f k v) | None \<Rightarrow> get t k)"
  using assms
proof (induction rows arbitrary: t)
  case (Cons row rows)
  obtain a b where row: "row = (a, b)" by force
  have "map_of rows a = None" using Cons.prems by (simp add: row map_of_eq_None_iff)
  then show ?case using Cons by (simp add: row get_put split: option.split)
qed simp

end

text \<open>Two tables that hold the same entries still do after the same operation on both.\<close>

locale table_mirror = a: keyed_table geta puta dela + b: keyed_table getb putb delb
  for geta :: "'s \<Rightarrow> 'k \<Rightarrow> 'v option" and puta dela
    and getb :: "'t \<Rightarrow> 'k \<Rightarrow> 'v option" and putb delb
begin

lemma mirror_put: "geta s = getb t \<Longrightarrow> geta (puta k v s) = getb (putb k v t)"
  by (simp add: a.get_put b.get_put)

lemma mirror_del: "geta s = getb t \<Longrightarrow> geta (dela k s) = getb (delb k t)"
  by (simp add: a.get_del b.get_del)

end

lemma map_of_btree_insert: "map_of (btree_insert k v m) = (map_of m)(k \<mapsto> v)"
  by (induction k v m rule: btree_insert.induct) (auto simp: fun_eq_iff)

lemma map_of_btree_remove: "map_of (btree_remove k m) = (map_of m)(k := None)"
  by (induction m) (auto simp: btree_remove_def fun_eq_iff)

interpretation btree: keyed_table map_of btree_insert btree_remove
  by unfold_locales (simp_all add: map_of_btree_insert map_of_btree_remove)

interpretation hashmap: keyed_table map_of AList.update AList.delete
  by unfold_locales (simp_all add: update_conv' delete_conv')

interpretation btree_hashmap: table_mirror map_of btree_insert btree_remove map_of AList.update AList.delete
  by unfold_locales

lemma wf_btree_remove: "wf_btree m \<Longrightarrow> wf_btree (btree_remove k m)"
  by (auto simp: wf_btree_def btree_remove_def sorted_map distinct_map_filter intro: sorted_wrt_filter)

section \<open>Relationships\<close>

record side_relationship =
  sr_address :: "byte list"
  sr_nickname :: "string option"
  sr_introduced_by :: "byte list option"
  sr_capabilities :: "string list"
  sr_notes :: "string option"
  sr_pinned :: bool
  sr_added_at :: u64
  sr_peer_listen_addr :: "string option"

type_synonym relationship_table = "(byte list \<times> side_relationship) list"

definition rel_insert :: "side_relationship \<Rightarrow> relationship_table \<Rightarrow> relationship_table" where
  "rel_insert r t = btree_insert (sr_address r) r t"

definition rel_get :: "byte list \<Rightarrow> relationship_table \<Rightarrow> side_relationship option" where
  "rel_get address t = map_of t address"

definition rel_remove :: "byte list \<Rightarrow> relationship_table \<Rightarrow> relationship_table" where
  "rel_remove address t = btree_remove address t"

definition rel_contains :: "byte list \<Rightarrow> relationship_table \<Rightarrow> bool" where
  "rel_contains address t \<longleftrightarrow> map_of t address \<noteq> None"

definition rel_list :: "relationship_table \<Rightarrow> side_relationship list" where
  "rel_list t = map snd t"

definition rel_update :: "byte list \<Rightarrow> (side_relationship \<Rightarrow> side_relationship) \<Rightarrow> relationship_table \<Rightarrow>
    bool \<times> relationship_table" where
  "rel_update address f t = (case map_of t address of
     Some r \<Rightarrow> (True, btree_insert address (f r) t)
   | None \<Rightarrow> (False, t))"

lemma rel_get_insert: "rel_get a (rel_insert r t) = (if a = sr_address r then Some r else rel_get a t)"
  by (simp add: rel_get_def rel_insert_def btree.get_put)

lemma rel_get_remove: "rel_get a (rel_remove b t) = (if a = b then None else rel_get a t)"
  by (simp add: rel_get_def rel_remove_def btree.get_del)

lemma rel_get_update:
  "rel_get a (snd (rel_update b f t)) = (if a = b then map_option f (rel_get b t) else rel_get a t)"
  by (simp add: rel_get_def rel_update_def btree.get_put split: option.splits)

section \<open>Life stages\<close>

datatype side_lifecycle = Created | Active | Dormant | Retired

definition DORMANT_AFTER_SECS :: u64 where "DORMANT_AFTER_SECS = 90 * 24 * 3600"

definition derive_lifecycle :: "u64 option \<Rightarrow> bool \<Rightarrow> u64 \<Rightarrow> side_lifecycle" where
  "derive_lifecycle last_send_at retired now =
     (if retired then Retired
      else (case last_send_at of
              None \<Rightarrow> Created
            | Some ts \<Rightarrow> if saturating_sub now ts < DORMANT_AFTER_SECS then Active else Dormant))"

fun lifecycle_label :: "side_lifecycle \<Rightarrow> string" where
  "lifecycle_label Created = ''Created''"
| "lifecycle_label Active = ''Active''"
| "lifecycle_label Dormant = ''Dormant''"
| "lifecycle_label Retired = ''Retired''"

definition parse_lifecycle :: "string \<Rightarrow> side_lifecycle" where
  "parse_lifecycle s =
     (if s = ''Created'' then Created
      else if s = ''Active'' then Active
      else if s = ''Dormant'' then Dormant
      else if s = ''Retired'' then Retired
      else Created)"

lemma parse_lifecycle_label [simp]: "parse_lifecycle (lifecycle_label s) = s"
  by (cases s) (simp_all add: parse_lifecycle_def)

end
