(* ===== verification/Skip.thy ===== *)
theory Skip
  imports Items
begin

text \<open>
  Items that are stepped over without being interpreted: \<open>skip_value\<close> of
  \<open>messages/direct.rs\<close> and \<open>messages/profile.rs\<close>. The specification is a datatype of the
  items the protocol uses; the skipper is proved to accept exactly their canonical
  encodings up to the nesting bound.
\<close>

definition MAX_CBOR_SKIP_DEPTH :: nat where "MAX_CBOR_SKIP_DEPTH = 32"

section \<open>The skipper\<close>

text \<open>The body of \<open>for _ in 0..n\<close>.\<close>

fun repeat_skip :: "(cbor_reader \<Rightarrow> cbor_reader result) \<Rightarrow> nat \<Rightarrow> cbor_reader \<Rightarrow> cbor_reader result" where
  "repeat_skip skip 0 r = Inr r"
| "repeat_skip skip (Suc n) r = and_then (skip r) (repeat_skip skip n)"

primrec skip_value_inner :: "nat \<Rightarrow> cbor_reader \<Rightarrow> cbor_reader result" where
  "skip_value_inner 0 = (\<lambda>r. Inl (CborDecode ''skip_value depth budget exhausted (deeply nested CBOR)''))"
| "skip_value_inner (Suc depth) = (\<lambda>r. case remaining r of
     [] \<Rightarrow> Inl (CborDecode ''EOF in skip'')
   | first # _ \<Rightarrow>
       (let major = drop_bit 5 first in
        if major = 0 \<or> major = 1 then and_then (read_u64 r) (\<lambda>(_, r). Inr r)
        else if major = 2 then and_then (read_bytes r) (\<lambda>(_, r). Inr r)
        else if major = 3 then and_then (read_text r) (\<lambda>(_, r). Inr r)
        else if major = 4 then and_then (read_array_header r) (\<lambda>(n, r).
          repeat_skip (skip_value_inner depth) n r)
        else if major = 5 then and_then (read_map_header r) (\<lambda>(n, r).
          repeat_skip (\<lambda>r. and_then (skip_value_inner depth r) (skip_value_inner depth)) n r)
        else if major = 7 then and_then (read_bytes_or_null r) (\<lambda>(_, r). Inr r)
        else Inl (CborDecode ''unexpected major'')))"

definition skip_value :: "cbor_reader \<Rightarrow> cbor_reader result" where
  "skip_value = skip_value_inner MAX_CBOR_SKIP_DEPTH"

text \<open>\<open>bytes[start..end]\<close> around a skipped item.\<close>

definition read_raw :: "cbor_reader \<Rightarrow> (byte list \<times> cbor_reader) result" where
  "read_raw r = and_then (skip_value r) (\<lambda>r'. Inr (take (pos r' - pos r) (drop (pos r) (buf r)), r'))"

section \<open>Specification\<close>

datatype cbor_item =
    ItemUint u64
  | ItemBytes "byte list"
  | ItemText string
  | ItemArray "cbor_item list"
  | ItemMap "(cbor_item \<times> cbor_item) list"
  | ItemNull

fun item_bytes :: "cbor_item \<Rightarrow> byte list" where
  "item_bytes (ItemUint n) = cbor_uint n"
| "item_bytes (ItemBytes b) = cbor_bytes b"
| "item_bytes (ItemText t) = cbor_text t"
| "item_bytes (ItemArray xs) = cbor_array item_bytes xs"
| "item_bytes (ItemMap kvs) =
     write_map_header [] (length kvs) @ concat (map (\<lambda>(k, v). item_bytes k @ item_bytes v) kvs)"
| "item_bytes ItemNull = cbor_null"

text \<open>Items within the limits of the decoder, nested fewer than \<open>depth\<close> levels.\<close>

primrec item_ok :: "nat \<Rightarrow> cbor_item \<Rightarrow> bool" where
  "item_ok 0 = (\<lambda>_. False)"
| "item_ok (Suc depth) = (\<lambda>it. case it of
     ItemUint _ \<Rightarrow> True
   | ItemBytes b \<Rightarrow> wf_bytes b
   | ItemText t \<Rightarrow> wf_text t
   | ItemArray xs \<Rightarrow> length xs \<le> MAX_CBOR_ENTRIES \<and> list_all (item_ok depth) xs
   | ItemMap kvs \<Rightarrow> length kvs \<le> MAX_CBOR_ENTRIES \<and>
       list_all (\<lambda>(k, v). item_ok depth k \<and> item_ok depth v) kvs
   | ItemNull \<Rightarrow> True)"

section \<open>Skipping accepts exactly the encodings\<close>

locale skipper =
  fixes enc :: "'a \<Rightarrow> byte list"
    and skip :: "cbor_reader \<Rightarrow> cbor_reader result"
    and ok :: "'a \<Rightarrow> bool"
  assumes skip_iff: "skip (rdr pre s) = Inr r' \<longleftrightarrow>
      (\<exists>x suf. ok x \<and> s = enc x @ suf \<and> r' = rdr (pre @ enc x) suf)"
begin

lemma repeat_skip_iff:
  "repeat_skip skip n (rdr pre s) = Inr r' \<longleftrightarrow>
     (\<exists>xs suf. length xs = n \<and> list_all ok xs \<and> s = concat (map enc xs) @ suf \<and>
        r' = rdr (pre @ concat (map enc xs)) suf)"
proof (induction n arbitrary: pre s)
  case 0
  then show ?case by auto
next
  case (Suc n)
  show ?case (is "_ \<longleftrightarrow> ?R")
  proof
    assume "repeat_skip skip (Suc n) (rdr pre s) = Inr r'"
    then obtain x xs suf where h: "ok x" "length xs = n" "list_all ok xs"
        "s = enc x @ concat (map enc xs) @ suf" "r' = rdr (pre @ enc x @ concat (map enc xs)) suf"
      by (auto simp: and_then_eq_Inr skip_iff Suc.IH)
    show ?R by (rule exI [of _ "x # xs"]) (use h in simp)
  next
    assume ?R
    then obtain x xs suf where h: "ok x" "length xs = n" "list_all ok xs"
        "s = enc x @ concat (map enc xs) @ suf" "r' = rdr (pre @ enc x @ concat (map enc xs)) suf"
      by (auto simp: length_Suc_conv)
    have "skip (rdr pre s) = Inr (rdr (pre @ enc x) (concat (map enc xs) @ suf))"
      using h by (auto simp: skip_iff)
    moreover have "repeat_skip skip n (rdr (pre @ enc x) (concat (map enc xs) @ suf)) = Inr r'"
      unfolding Suc.IH using h by auto
    ultimately show "repeat_skip skip (Suc n) (rdr pre s) = Inr r'" by simp
  qed
qed

lemma pair_skipper:
  "skipper (\<lambda>(k, v). enc k @ enc v) (\<lambda>r. and_then (skip r) skip) (\<lambda>(k, v). ok k \<and> ok v)"
  by unfold_locales (force simp: and_then_eq_Inr skip_iff)

lemma capture_codec:
  "wire_codec (\<lambda>b. b)
     (\<lambda>r. and_then (skip r) (\<lambda>r'. Inr (take (pos r' - pos r) (drop (pos r) (buf r)), r')))
     (\<lambda>b. \<exists>x. ok x \<and> b = enc x)"
  by unfold_locales (force simp: and_then_eq_Inr skip_iff)

end

lemma major_append: "m < 8 \<Longrightarrow> head_bytes m v @ t = b # u \<Longrightarrow> drop_bit 5 b = m"
  using hd_head_bytes [of m v] by (cases "head_bytes m v") auto

lemma major_iffs:
  "cbor_uint n @ t = b # u \<Longrightarrow> drop_bit 5 b = 0"
  "cbor_bytes y @ t = b # u \<Longrightarrow> drop_bit 5 b = 2"
  "cbor_text x @ t = b # u \<Longrightarrow> drop_bit 5 b = 3"
  "write_array_header [] k @ t = b # u \<Longrightarrow> drop_bit 5 b = 4"
  "write_map_header [] k @ t = b # u \<Longrightarrow> drop_bit 5 b = 5"
  "cbor_null @ t = b # u \<Longrightarrow> drop_bit 5 b = 7"
  unfolding cbor_uint_head cbor_bytes_head cbor_text_head array_header_head map_header_head append_assoc
  by (rule major_append, simp, assumption)+ (simp add: cbor_null_def SIMPLE_NULL_def drop_bit_eq_div)

text \<open>The dispatch on the major type reads nothing the item readers would not accept anyway.\<close>

lemma skip_value_inner_iff:
  "skip_value_inner d (rdr pre s) = Inr r' \<longleftrightarrow>
     (\<exists>x suf. item_ok d x \<and> s = item_bytes x @ suf \<and> r' = rdr (pre @ item_bytes x) suf)"
proof (induction d arbitrary: pre s r')
  case 0
  then show ?case by simp
next
  case (Suc d)
  note sk = skipper.intro [of "skip_value_inner d" "item_ok d" item_bytes, OF Suc.IH]
  note loops = skipper.repeat_skip_iff [OF sk] skipper.repeat_skip_iff [OF skipper.pair_skipper [OF sk]]
  show ?case
  proof
    assume l: "skip_value_inner (Suc d) (rdr pre s) = Inr r'"
    then obtain b t where s: "s = b # t" by (cases s) auto
    let ?R = "\<lambda>x. \<exists>suf. item_ok (Suc d) x \<and> s = item_bytes x @ suf \<and> r' = rdr (pre @ item_bytes x) suf"
    from l consider
        (u64) v where "read_u64 (rdr pre s) = Inr (v, r')"
      | (byte_string) v where "read_bytes (rdr pre s) = Inr (v, r')"
      | (string) v where "read_text (rdr pre s) = Inr (v, r')"
      | (array) n r where "read_array_header (rdr pre s) = Inr (n, r)"
          "repeat_skip (skip_value_inner d) n r = Inr r'"
      | (pairs) n r where "read_map_header (rdr pre s) = Inr (n, r)"
          "repeat_skip (\<lambda>r. and_then (skip_value_inner d r) (skip_value_inner d)) n r = Inr r'"
      | (null) v where "read_bytes_or_null (rdr pre s) = Inr (v, r')"
      by (auto simp: s Let_def and_then_eq_Inr split: if_splits)
    then have "\<exists>x. ?R x"
    proof cases
      case u64
      then have "?R (ItemUint v)" by (simp add: read_u64_iff)
      then show ?thesis ..
    next
      case byte_string
      then have "?R (ItemBytes v)" by (simp add: read_bytes_iff)
      then show ?thesis ..
    next
      case string
      then have "?R (ItemText v)" by (simp add: read_text_iff)
      then show ?thesis ..
    next
      case array
      then obtain xs suf where "length xs \<le> MAX_CBOR_ENTRIES" "list_all (item_ok d) xs"
          "s = item_bytes (ItemArray xs) @ suf" "r' = rdr (pre @ item_bytes (ItemArray xs)) suf"
        by (auto simp: read_array_header_iff loops cbor_array_def)
      then have "?R (ItemArray xs)" by auto
      then show ?thesis ..
    next
      case pairs
      then obtain xs suf where "length xs \<le> MAX_CBOR_ENTRIES"
          "list_all (\<lambda>(k, v). item_ok d k \<and> item_ok d v) xs"
          "s = item_bytes (ItemMap xs) @ suf" "r' = rdr (pre @ item_bytes (ItemMap xs)) suf"
        by (auto simp: read_map_header_iff loops)
      then have "?R (ItemMap xs)" by auto
      then show ?thesis ..
    next
      case null
      then have "?R (case v of None \<Rightarrow> ItemNull | Some y \<Rightarrow> ItemBytes y)"
        by (cases v) (auto simp: read_bytes_or_null_iff cbor_bytes_or_null_def wf_bytes_opt_def)
      then show ?thesis ..
    qed
    then show "\<exists>x suf. item_ok (Suc d) x \<and> s = item_bytes x @ suf \<and> r' = rdr (pre @ item_bytes x) suf" by blast
  next
    assume "\<exists>x suf. item_ok (Suc d) x \<and> s = item_bytes x @ suf \<and> r' = rdr (pre @ item_bytes x) suf"
    then obtain x suf where x: "item_ok (Suc d) x" "s = item_bytes x @ suf" "r' = rdr (pre @ item_bytes x) suf"
      by blast
    have "item_bytes x \<noteq> []"
      by (cases x) (simp_all add: cbor_uint_head cbor_text_head cbor_array_def array_header_head map_header_head cbor_null_def)
    then obtain b t where s: "s = b # t" "item_bytes x @ suf = b # t"
      using x(2) by (cases "item_bytes x") auto
    note b = major_iffs [where b = b and u = t]
    show "skip_value_inner (Suc d) (rdr pre s) = Inr r'"
    proof (cases x)
      case (ItemUint n)
      then have "read_u64 (rdr pre s) = Inr (n, r')" using x by (simp add: wire_write)
      then show ?thesis using b(1) [of n suf] ItemUint s by (simp add: Let_def)
    next
      case (ItemBytes y)
      then have "read_bytes (rdr pre s) = Inr (y, r')" using x by (simp add: wire_write)
      then show ?thesis using b(2) [of y suf] ItemBytes s by (simp add: Let_def)
    next
      case (ItemText y)
      then have "read_text (rdr pre s) = Inr (y, r')" using x by (simp add: wire_write)
      then show ?thesis using b(3) [of y suf] ItemText s by (simp add: Let_def)
    next
      case (ItemArray xs)
      let ?h = "write_array_header [] (length xs)"
      let ?r = "rdr (pre @ ?h) (concat (map item_bytes xs) @ suf)"
      have "read_array_header (rdr pre s) = Inr (length xs, ?r)"
        using x ItemArray by (simp add: wire_write cbor_array_def)
      moreover have "repeat_skip (skip_value_inner d) (length xs) ?r = Inr r'"
        using x ItemArray by (auto simp: loops cbor_array_def)
      ultimately show ?thesis using b(4) [of "length xs" "concat (map item_bytes xs) @ suf"] ItemArray s by (simp add: Let_def cbor_array_def)
    next
      case (ItemMap kvs)
      let ?h = "write_map_header [] (length kvs)"
      let ?r = "rdr (pre @ ?h) (concat (map (\<lambda>(k, v). item_bytes k @ item_bytes v) kvs) @ suf)"
      have "read_map_header (rdr pre s) = Inr (length kvs, ?r)"
        using x ItemMap by (simp add: wire_write)
      moreover have "repeat_skip (\<lambda>r. and_then (skip_value_inner d r) (skip_value_inner d)) (length kvs) ?r = Inr r'"
        using x ItemMap by (auto simp: loops)
      ultimately show ?thesis using b(5) [of "length kvs" "concat (map (\<lambda>(k, v). item_bytes k @ item_bytes v) kvs) @ suf"] ItemMap s by (simp add: Let_def)
    next
      case ItemNull
      then have "read_bytes_or_null (rdr pre s) = Inr (None, r')"
        using x by (simp add: read_bytes_or_null_iff cbor_bytes_or_null_def wf_bytes_opt_def)
      then show ?thesis using b(6) [of suf] ItemNull s by (simp add: Let_def)
    qed
  qed
qed

interpretation skip_item: skipper item_bytes "skip_value_inner d" "item_ok d"
  by unfold_locales (rule skip_value_inner_iff)

text \<open>The bytes kept from a skipped item: one encoded item, nothing more.\<close>

definition is_item :: "byte list \<Rightarrow> bool" where
  "is_item b \<longleftrightarrow> skip_value (reader_new b) = Inr (rdr b [])"

lemma is_item_iff: "is_item b \<longleftrightarrow> (\<exists>x. item_ok MAX_CBOR_SKIP_DEPTH x \<and> b = item_bytes x)"
  unfolding is_item_def skip_value_def reader_new_rdr skip_value_inner_iff by (auto simp: rdr_def)

interpretation raw_item: wire_codec "\<lambda>b. b" read_raw is_item
  using skip_item.capture_codec [of MAX_CBOR_SKIP_DEPTH]
  unfolding read_raw_def [abs_def] skip_value_def [symmetric] is_item_iff [abs_def] .

lemmas raw_iff [wire_iff] = raw_item.dec_iff
lemmas raw_write [wire_write] = raw_item.dec_enc


end
