(* ===== verification/SideRecords.thy ===== *)
theory SideRecords
  imports Skip Keys
begin

text \<open>
  Signed declarations a side makes about itself: retirement
  (\<open>messages/retirement.rs\<close>), storage preferences (\<open>messages/storage_prefs.rs\<close>) and the profile
  (\<open>messages/profile.rs\<close>). Each decoder verifies the signature over the record without its
  signature entry and insists on the end of the input.
\<close>

section \<open>Retirement\<close>

record side_retirement =
  rt_side :: "byte list"
  rt_reason :: "string option"
  rt_retired_at :: u64
  rt_signature :: "byte list"

definition retirement_unsigned :: "byte list \<Rightarrow> string option \<Rightarrow> u64 \<Rightarrow> byte list" where
  "retirement_unsigned side reason retired_at = encode_map
     [(cbor_key ''side'', cbor_bytes side),
      (cbor_key ''reason'', cbor_text_or_null reason),
      (cbor_key ''retired_at'', cbor_uint retired_at)]"

definition retirement_entries :: "side_retirement \<Rightarrow> map_entry list" where
  "retirement_entries x =
     [(cbor_key ''side'', cbor_bytes (rt_side x)),
      (cbor_key ''reason'', cbor_text_or_null (rt_reason x)),
      (cbor_key ''signature'', cbor_bytes (rt_signature x)),
      (cbor_key ''retired_at'', cbor_uint (rt_retired_at x))]"

definition retirement_to_wire :: "side_retirement \<Rightarrow> byte list" where
  "retirement_to_wire x = encode_map (retirement_entries x)"

definition retirement_sign :: "crypto \<Rightarrow> side_key \<Rightarrow> string option \<Rightarrow> u64 \<Rightarrow> side_retirement" where
  "retirement_sign C k reason retired_at =
     (let side = public_bytes C k; digest = blake3 C (retirement_unsigned side reason retired_at)
      in \<lparr>rt_side = side,
          rt_reason = reason,
          rt_retired_at = retired_at,
          rt_signature = side_sign C k digest\<rparr>)"

definition retirement_tbs :: "side_retirement \<Rightarrow> byte list" where
  "retirement_tbs x = retirement_unsigned (rt_side x) (rt_reason x) (rt_retired_at x)"

definition retirement_fields :: "cbor_reader \<Rightarrow> (side_retirement \<times> cbor_reader) result" where
  "retirement_fields r = (let msg = ''SideRetirement keys not in canonical order'' in
     and_then (read_field ''side'' msg (read_fixed ''side'' PUBLIC_KEY_LEN) r) (\<lambda>(side, r).
     and_then (read_field ''reason'' msg (read_optional_text ''missing reason'') r) (\<lambda>(reason, r).
     and_then (read_field ''signature'' msg (read_fixed ''signature'' SIGNATURE_LEN) r) (\<lambda>(signature, r).
     and_then (read_field ''retired_at'' msg read_u64 r) (\<lambda>(retired_at, r).
     Inr (\<lparr>rt_side = side,
          rt_reason = reason,
          rt_retired_at = retired_at,
          rt_signature = signature\<rparr>, r))))))"

definition retirement_from_wire :: "crypto \<Rightarrow> byte list \<Rightarrow> side_retirement result" where
  "retirement_from_wire C bs =
     and_then (decode_all ''trailing bytes after SideRetirement''
       (read_map 4 ''SideRetirement expected 4 keys'' retirement_fields) bs) (\<lambda>x.
     and_then (check_signature C (rt_side x) (retirement_tbs x) (rt_signature x)) (\<lambda>_.
     if retirement_to_wire x \<noteq> bs then Inl (CborNotCanonical ''SideRetirement bytes are not canonical re-encode'')
     else Inr x))"

definition wf_retirement_fields :: "side_retirement \<Rightarrow> bool" where
  [wf_defs]: "wf_retirement_fields x \<longleftrightarrow> wf_fixed 32 (rt_side x) \<and>
     pred_option wf_text (rt_reason x) \<and>
     wf_fixed 64 (rt_signature x)"

lemma retirement_codec: "wire_codec retirement_to_wire (read_map 4 msg retirement_fields) wf_retirement_fields"
  unfolding retirement_to_wire_def [abs_def]
  by (rule map_codecI,
      (auto simp: and_then_eq_Inr literal_key wire_iff retirement_fields_def Let_def retirement_entries_def wf_retirement_fields_def cbor_key_text)[1],
      simp_all add: literal_key wire_write retirement_fields_def Let_def retirement_entries_def wf_retirement_fields_def cbor_key_text)

definition wf_retirement :: "crypto \<Rightarrow> side_retirement \<Rightarrow> bool" where
  "wf_retirement C x \<longleftrightarrow> wf_retirement_fields x \<and> ed_point_ok C (rt_side x) \<and>
     ed_verify C (rt_side x) (blake3 C (retirement_tbs x)) (rt_signature x)"

lemma retirement_from_wire_iff:
  "retirement_from_wire C bs = Inr x \<longleftrightarrow> wf_retirement C x \<and> bs = retirement_to_wire x"
  by (auto simp: retirement_from_wire_def and_then_eq_Inr decode_all_iff [OF retirement_codec] wf_retirement_def split: if_splits)

interpretation retirement_msg: strict_message retirement_to_wire "retirement_from_wire C" "wf_retirement C"
  by (rule strict_messageI) (rule retirement_from_wire_iff)

lemma retirement_sign_wf:
  assumes "signature_laws C" "wf_side k"
    and "pred_option wf_text reason"
  shows "wf_retirement C (retirement_sign C k reason retired_at)"
  using assms signed_by_side [OF assms(1,2)]
  by (simp add: wf_retirement_def retirement_sign_def Let_def wf_retirement_fields_def retirement_tbs_def wf_fixed_def)

section \<open>Storage preferences\<close>

record storage_preferences =
  sp_side :: "byte list"
  sp_preferred_providers :: "byte list list"
  sp_max_object_kib :: u64
  sp_retention_hint_secs :: u64
  sp_updated_at :: u64
  sp_signature :: "byte list"

definition storage_prefs_unsigned :: "byte list \<Rightarrow> byte list list \<Rightarrow> u64 \<Rightarrow> u64 \<Rightarrow> u64 \<Rightarrow> byte list" where
  "storage_prefs_unsigned side preferred_providers max_object_kib retention_hint_secs updated_at = encode_map
     [(cbor_key ''side'', cbor_bytes side),
      (cbor_key ''updated_at'', cbor_uint updated_at),
      (cbor_key ''max_object_kib'', cbor_uint max_object_kib),
      (cbor_key ''preferred_providers'', cbor_array cbor_bytes preferred_providers),
      (cbor_key ''retention_hint_secs'', cbor_uint retention_hint_secs)]"

definition storage_prefs_entries :: "storage_preferences \<Rightarrow> map_entry list" where
  "storage_prefs_entries x =
     [(cbor_key ''side'', cbor_bytes (sp_side x)),
      (cbor_key ''signature'', cbor_bytes (sp_signature x)),
      (cbor_key ''updated_at'', cbor_uint (sp_updated_at x)),
      (cbor_key ''max_object_kib'', cbor_uint (sp_max_object_kib x)),
      (cbor_key ''preferred_providers'', cbor_array cbor_bytes (sp_preferred_providers x)),
      (cbor_key ''retention_hint_secs'', cbor_uint (sp_retention_hint_secs x))]"

definition storage_prefs_to_wire :: "storage_preferences \<Rightarrow> byte list" where
  "storage_prefs_to_wire x = encode_map (storage_prefs_entries x)"

definition storage_prefs_sign :: "crypto \<Rightarrow> side_key \<Rightarrow> byte list list \<Rightarrow> u64 \<Rightarrow> u64 \<Rightarrow> u64 \<Rightarrow> storage_preferences" where
  "storage_prefs_sign C k preferred_providers max_object_kib retention_hint_secs updated_at =
     (let side = public_bytes C k; digest = blake3 C (storage_prefs_unsigned side preferred_providers max_object_kib retention_hint_secs updated_at)
      in \<lparr>sp_side = side,
          sp_preferred_providers = preferred_providers,
          sp_max_object_kib = max_object_kib,
          sp_retention_hint_secs = retention_hint_secs,
          sp_updated_at = updated_at,
          sp_signature = side_sign C k digest\<rparr>)"

definition storage_prefs_tbs :: "storage_preferences \<Rightarrow> byte list" where
  "storage_prefs_tbs x = storage_prefs_unsigned (sp_side x) (sp_preferred_providers x) (sp_max_object_kib x) (sp_retention_hint_secs x) (sp_updated_at x)"

definition storage_prefs_fields :: "cbor_reader \<Rightarrow> (storage_preferences \<times> cbor_reader) result" where
  "storage_prefs_fields r = (let msg = ''StoragePreferences keys not in canonical order'' in
     and_then (read_field ''side'' msg (read_fixed ''side'' PUBLIC_KEY_LEN) r) (\<lambda>(side, r).
     and_then (read_field ''signature'' msg (read_fixed ''signature'' SIGNATURE_LEN) r) (\<lambda>(signature, r).
     and_then (read_field ''updated_at'' msg read_u64 r) (\<lambda>(updated_at, r).
     and_then (read_field ''max_object_kib'' msg read_u64 r) (\<lambda>(max_object_kib, r).
     and_then (read_field ''preferred_providers'' msg (read_array (read_fixed ''preferred_providers[]'' 32)) r) (\<lambda>(preferred_providers, r).
     and_then (read_field ''retention_hint_secs'' msg read_u64 r) (\<lambda>(retention_hint_secs, r).
     Inr (\<lparr>sp_side = side,
          sp_preferred_providers = preferred_providers,
          sp_max_object_kib = max_object_kib,
          sp_retention_hint_secs = retention_hint_secs,
          sp_updated_at = updated_at,
          sp_signature = signature\<rparr>, r))))))))"

definition storage_prefs_from_wire :: "crypto \<Rightarrow> byte list \<Rightarrow> storage_preferences result" where
  "storage_prefs_from_wire C bs =
     and_then (decode_all ''trailing bytes after StoragePreferences''
       (read_map 6 ''StoragePreferences expected 6 keys'' storage_prefs_fields) bs) (\<lambda>x.
     and_then (check_signature C (sp_side x) (storage_prefs_tbs x) (sp_signature x)) (\<lambda>_.
     if storage_prefs_to_wire x \<noteq> bs then Inl (CborNotCanonical ''StoragePreferences bytes are not canonical re-encode'')
     else Inr x))"

definition wf_storage_prefs_fields :: "storage_preferences \<Rightarrow> bool" where
  [wf_defs]: "wf_storage_prefs_fields x \<longleftrightarrow> wf_fixed 32 (sp_side x) \<and>
     wf_fixed 64 (sp_signature x) \<and>
     wf_array (wf_fixed 32) (sp_preferred_providers x)"

lemma storage_prefs_codec: "wire_codec storage_prefs_to_wire (read_map 6 msg storage_prefs_fields) wf_storage_prefs_fields"
  unfolding storage_prefs_to_wire_def [abs_def]
  by (rule map_codecI,
      (auto simp: and_then_eq_Inr literal_key wire_iff storage_prefs_fields_def Let_def storage_prefs_entries_def wf_storage_prefs_fields_def cbor_key_text)[1],
      simp_all add: literal_key wire_write storage_prefs_fields_def Let_def storage_prefs_entries_def wf_storage_prefs_fields_def cbor_key_text)

definition wf_storage_prefs :: "crypto \<Rightarrow> storage_preferences \<Rightarrow> bool" where
  "wf_storage_prefs C x \<longleftrightarrow> wf_storage_prefs_fields x \<and> ed_point_ok C (sp_side x) \<and>
     ed_verify C (sp_side x) (blake3 C (storage_prefs_tbs x)) (sp_signature x)"

lemma storage_prefs_from_wire_iff:
  "storage_prefs_from_wire C bs = Inr x \<longleftrightarrow> wf_storage_prefs C x \<and> bs = storage_prefs_to_wire x"
  by (auto simp: storage_prefs_from_wire_def and_then_eq_Inr decode_all_iff [OF storage_prefs_codec] wf_storage_prefs_def split: if_splits)

interpretation storage_prefs_msg: strict_message storage_prefs_to_wire "storage_prefs_from_wire C" "wf_storage_prefs C"
  by (rule strict_messageI) (rule storage_prefs_from_wire_iff)

lemma storage_prefs_sign_wf:
  assumes "signature_laws C" "wf_side k"
    and "wf_array (wf_fixed 32) preferred_providers"
  shows "wf_storage_prefs C (storage_prefs_sign C k preferred_providers max_object_kib retention_hint_secs updated_at)"
  using assms signed_by_side [OF assms(1,2)]
  by (simp add: wf_storage_prefs_def storage_prefs_sign_def Let_def wf_storage_prefs_fields_def storage_prefs_tbs_def wf_fixed_def)

section \<open>Profile\<close>

text \<open>The extension map: values are items the profile does not interpret.\<close>

type_synonym fields_map = "byte list text_map"

definition encode_fields_submap :: "fields_map \<Rightarrow> byte list" where
  "encode_fields_submap = encode_text_map (\<lambda>v. v)"

definition read_optional_fields_map :: "cbor_reader \<Rightarrow> (fields_map option \<times> cbor_reader) result" where
  "read_optional_fields_map =
     read_optional ''missing map-or-null'' (read_text_map read_raw ''fields map not in canonical key order'')"

definition wf_fields_map :: "fields_map \<Rightarrow> bool" where
  "wf_fields_map = wf_text_map is_item"

lemma text_map_head_form: "\<exists>m v t. m < 7 \<and> encode_text_map enc x = head_bytes m v @ t"
  unfolding encode_text_map_def encode_map_body map_header_head by (rule exI [of _ 5]) auto

interpretation fields_item: wire_codec "cbor_or_null encode_fields_submap" read_optional_fields_map
    "pred_option wf_fields_map"
  unfolding encode_fields_submap_def read_optional_fields_map_def wf_fields_map_def
  by (rule optional_codec [OF raw_item.text_map_codec text_map_head_form])

lemmas fields_iff [wire_iff] = fields_item.dec_iff
lemmas fields_write [wire_write] = fields_item.dec_enc

record profile_payload =
  pf_side :: "byte list"
  pf_name :: "string option"
  pf_avatar :: "byte list option"
  pf_bio :: "string option"
  pf_links :: "string list option"
  pf_fields :: "fields_map option"
  pf_capabilities :: "string list"
  pf_updated_at :: u64
  pf_signature :: "byte list"

definition profile_unsigned :: "byte list \<Rightarrow> string option \<Rightarrow> byte list option \<Rightarrow> string option \<Rightarrow> string list option \<Rightarrow> fields_map option \<Rightarrow> string list \<Rightarrow> u64 \<Rightarrow> byte list" where
  "profile_unsigned side name avatar bio links flds capabilities updated_at = encode_map
     [(cbor_key ''bio'', cbor_text_or_null bio),
      (cbor_key ''name'', cbor_text_or_null name),
      (cbor_key ''side'', cbor_bytes side),
      (cbor_key ''links'', cbor_or_null (cbor_array cbor_text) links),
      (cbor_key ''avatar'', cbor_bytes_or_null avatar),
      (cbor_key ''fields'', cbor_or_null encode_fields_submap flds),
      (cbor_key ''updated_at'', cbor_uint updated_at),
      (cbor_key ''capabilities'', cbor_array cbor_text capabilities)]"

definition profile_entries :: "profile_payload \<Rightarrow> map_entry list" where
  "profile_entries x =
     [(cbor_key ''bio'', cbor_text_or_null (pf_bio x)),
      (cbor_key ''name'', cbor_text_or_null (pf_name x)),
      (cbor_key ''side'', cbor_bytes (pf_side x)),
      (cbor_key ''links'', cbor_or_null (cbor_array cbor_text) (pf_links x)),
      (cbor_key ''avatar'', cbor_bytes_or_null (pf_avatar x)),
      (cbor_key ''fields'', cbor_or_null encode_fields_submap (pf_fields x)),
      (cbor_key ''signature'', cbor_bytes (pf_signature x)),
      (cbor_key ''updated_at'', cbor_uint (pf_updated_at x)),
      (cbor_key ''capabilities'', cbor_array cbor_text (pf_capabilities x))]"

definition profile_to_wire :: "profile_payload \<Rightarrow> byte list" where
  "profile_to_wire x = encode_map (profile_entries x)"

definition profile_sign :: "crypto \<Rightarrow> side_key \<Rightarrow> string option \<Rightarrow> byte list option \<Rightarrow> string option \<Rightarrow> string list option \<Rightarrow> fields_map option \<Rightarrow> string list \<Rightarrow> u64 \<Rightarrow> profile_payload" where
  "profile_sign C k name avatar bio links flds capabilities updated_at =
     (let side = public_bytes C k; digest = blake3 C (profile_unsigned side name avatar bio links flds capabilities updated_at)
      in \<lparr>pf_side = side,
          pf_name = name,
          pf_avatar = avatar,
          pf_bio = bio,
          pf_links = links,
          pf_fields = flds,
          pf_capabilities = capabilities,
          pf_updated_at = updated_at,
          pf_signature = side_sign C k digest\<rparr>)"

definition profile_tbs :: "profile_payload \<Rightarrow> byte list" where
  "profile_tbs x = profile_unsigned (pf_side x) (pf_name x) (pf_avatar x) (pf_bio x) (pf_links x) (pf_fields x) (pf_capabilities x) (pf_updated_at x)"

definition profile_fields :: "cbor_reader \<Rightarrow> (profile_payload \<times> cbor_reader) result" where
  "profile_fields r = (let msg = ''Profile keys not in canonical order'' in
     and_then (read_field ''bio'' msg (read_optional_text ''missing text-or-null'') r) (\<lambda>(bio, r).
     and_then (read_field ''name'' msg (read_optional_text ''missing text-or-null'') r) (\<lambda>(name, r).
     and_then (read_field ''side'' msg (read_fixed ''side'' PUBLIC_KEY_LEN) r) (\<lambda>(side, r).
     and_then (read_field ''links'' msg (read_optional ''missing array-or-null'' (read_array read_text)) r) (\<lambda>(links, r).
     and_then (read_field ''avatar'' msg (read_optional_32 ''avatar'') r) (\<lambda>(avatar, r).
     and_then (read_field ''fields'' msg read_optional_fields_map r) (\<lambda>(flds, r).
     and_then (read_field ''signature'' msg (read_fixed ''signature'' SIGNATURE_LEN) r) (\<lambda>(signature, r).
     and_then (read_field ''updated_at'' msg read_u64 r) (\<lambda>(updated_at, r).
     and_then (read_field ''capabilities'' msg (read_text_set ''capabilities array not sorted / has duplicates'') r) (\<lambda>(capabilities, r).
     Inr (\<lparr>pf_side = side,
          pf_name = name,
          pf_avatar = avatar,
          pf_bio = bio,
          pf_links = links,
          pf_fields = flds,
          pf_capabilities = capabilities,
          pf_updated_at = updated_at,
          pf_signature = signature\<rparr>, r)))))))))))"

definition profile_from_wire :: "crypto \<Rightarrow> byte list \<Rightarrow> profile_payload result" where
  "profile_from_wire C bs =
     and_then (decode_all ''trailing bytes after Profile''
       (read_map 9 ''Profile expected 9 keys'' profile_fields) bs) (\<lambda>x.
     and_then (check_signature C (pf_side x) (profile_tbs x) (pf_signature x)) (\<lambda>_.
     if profile_to_wire x \<noteq> bs then Inl (CborNotCanonical ''Profile bytes are not canonical re-encode'')
     else Inr x))"

definition wf_profile_fields :: "profile_payload \<Rightarrow> bool" where
  [wf_defs]: "wf_profile_fields x \<longleftrightarrow> pred_option wf_text (pf_bio x) \<and>
     pred_option wf_text (pf_name x) \<and>
     wf_fixed 32 (pf_side x) \<and>
     pred_option (wf_array wf_text) (pf_links x) \<and>
     pred_option (wf_fixed 32) (pf_avatar x) \<and>
     pred_option wf_fields_map (pf_fields x) \<and>
     wf_fixed 64 (pf_signature x) \<and>
     wf_text_set (pf_capabilities x)"

lemma profile_codec: "wire_codec profile_to_wire (read_map 9 msg profile_fields) wf_profile_fields"
  unfolding profile_to_wire_def [abs_def]
  by (rule map_codecI,
      (auto simp: and_then_eq_Inr literal_key wire_iff profile_fields_def Let_def profile_entries_def wf_profile_fields_def cbor_key_text)[1],
      simp_all add: literal_key wire_write profile_fields_def Let_def profile_entries_def wf_profile_fields_def cbor_key_text)

definition wf_profile :: "crypto \<Rightarrow> profile_payload \<Rightarrow> bool" where
  "wf_profile C x \<longleftrightarrow> wf_profile_fields x \<and> ed_point_ok C (pf_side x) \<and>
     ed_verify C (pf_side x) (blake3 C (profile_tbs x)) (pf_signature x)"

lemma profile_from_wire_iff:
  "profile_from_wire C bs = Inr x \<longleftrightarrow> wf_profile C x \<and> bs = profile_to_wire x"
  by (auto simp: profile_from_wire_def and_then_eq_Inr decode_all_iff [OF profile_codec] wf_profile_def split: if_splits)

interpretation profile_msg: strict_message profile_to_wire "profile_from_wire C" "wf_profile C"
  by (rule strict_messageI) (rule profile_from_wire_iff)

lemma profile_sign_wf:
  assumes "signature_laws C" "wf_side k"
    and "pred_option wf_text bio" "pred_option wf_text name" "pred_option (wf_array wf_text) links" "pred_option (wf_fixed 32) avatar" "pred_option wf_fields_map flds" "wf_text_set capabilities"
  shows "wf_profile C (profile_sign C k name avatar bio links flds capabilities updated_at)"
  using assms signed_by_side [OF assms(1,2)]
  by (simp add: wf_profile_def profile_sign_def Let_def wf_profile_fields_def profile_tbs_def wf_fixed_def)

definition profile_hash :: "crypto \<Rightarrow> profile_payload \<Rightarrow> byte list" where
  "profile_hash C p = blake3 C (profile_to_wire p)"

definition has_capability :: "profile_payload \<Rightarrow> string \<Rightarrow> bool" where
  "has_capability p token \<longleftrightarrow> List.member (pf_capabilities p) token"

end
