(* ===== verification/SideStore.thy ===== *)
theory SideStore
  imports Tables Contacts SideRecords Framing
begin

text \<open>
  The persistent copy of the sides, \<open>sidevers-net/src/side_store.rs\<close>. A table is an association
  list from its primary key to the remaining columns, in the order in which SQLite holds the
  rows; each SQL statement is its effect on that list. A 64-bit column gives back the bits of
  the \<open>u64\<close> it was written from and a flag column the \<open>bool\<close>, so rows hold these types. Failing
  statements are modelled by the callers (\<open>SideState\<close>), which skip the write.
\<close>

section \<open>Rows\<close>

record stored_side =
  ss_address :: "byte list"
  ss_seed :: "byte list"
  ss_label :: "string option"
  ss_created_at :: u64
  ss_lifecycle :: string
  ss_last_send_at :: "u64 option"
  ss_is_self_retired :: bool

record relationship_row =
  row_nickname :: "string option"
  row_introduced_by :: "byte list option"
  row_capabilities :: string
  row_notes :: "string option"
  row_pinned :: bool
  row_added_at :: u64
  row_peer_listen_addr :: "string option"

record verse_membership_record =
  vm_contract_hash :: "byte list"
  vm_membership_token :: "byte list"
  vm_content_key :: "byte list"
  vm_joined_at :: u64
  vm_role :: string
  vm_name :: "string option"
  vm_photo_hash :: "byte list option"
  vm_dial_addr :: "string option"
  vm_verse_seed :: "byte list option"
  vm_contract_wire :: "byte list option"

record side_store =
  st_settings :: "(string \<times> string) list"
  st_sides :: "(byte list \<times> stored_side) list"
  st_profiles :: "(byte list \<times> byte list \<times> u64) list"
  st_retired :: "((byte list \<times> byte list) \<times> u64) list"
  st_relationships :: "((byte list \<times> byte list) \<times> relationship_row) list"
  st_co_holders :: "((byte list \<times> byte list) \<times> u64 \<times> byte list option) list"
  st_revoked :: "((byte list \<times> byte list) \<times> u64) list"
  st_addrs :: "((byte list \<times> byte list) \<times> string \<times> u64) list"
  st_memberships :: "((byte list \<times> byte list) \<times> verse_membership_record) list"

section \<open>Operations\<close>

definition get_setting :: "string \<Rightarrow> side_store \<Rightarrow> string option" where
  "get_setting key st = map_of (st_settings st) key"

definition set_setting :: "string \<Rightarrow> string \<Rightarrow> side_store \<Rightarrow> side_store" where
  "set_setting key v st = st\<lparr>st_settings := upsert key v (\<lambda>_. v) (st_settings st)\<rparr>"

definition upsert_side :: "stored_side \<Rightarrow> side_store \<Rightarrow> side_store" where
  "upsert_side s st = st\<lparr>st_sides := upsert (ss_address s) s
     (\<lambda>old. old\<lparr>ss_label := ss_label s, ss_lifecycle := ss_lifecycle s,
                ss_last_send_at := ss_last_send_at s, ss_is_self_retired := ss_is_self_retired s\<rparr>) (st_sides st)\<rparr>"

definition load_side :: "byte list \<Rightarrow> side_store \<Rightarrow> stored_side option" where
  "load_side address st = map_of (st_sides st) address"

definition list_sides :: "side_store \<Rightarrow> stored_side list" where
  "list_sides st = map snd (st_sides st)"

definition upsert_profile :: "byte list \<Rightarrow> profile_payload \<Rightarrow> side_store \<Rightarrow> side_store" where
  "upsert_profile side p st = (let row = (profile_to_wire p, pf_updated_at p) in
     st\<lparr>st_profiles := upsert side row (\<lambda>_. row) (st_profiles st)\<rparr>)"

definition load_profile :: "crypto \<Rightarrow> byte list \<Rightarrow> side_store \<Rightarrow> profile_payload option net_result" where
  "load_profile C side st = (case map_of (st_profiles st) side of
     None \<Rightarrow> Inr None
   | Some (wire, _) \<Rightarrow> and_then (core (profile_from_wire C wire)) (\<lambda>p. Inr (Some p)))"

definition delete_profile :: "byte list \<Rightarrow> side_store \<Rightarrow> side_store" where
  "delete_profile side st = st\<lparr>st_profiles := AList.delete side (st_profiles st)\<rparr>"

definition add_retired_seen :: "byte list \<Rightarrow> byte list \<Rightarrow> u64 \<Rightarrow> side_store \<Rightarrow> side_store" where
  "add_retired_seen observer retired observed_at st =
     st\<lparr>st_retired := insert_or_ignore (observer, retired) observed_at (st_retired st)\<rparr>"

definition list_retired_seen :: "byte list \<Rightarrow> side_store \<Rightarrow> byte list list" where
  "list_retired_seen observer st = map fst (select_of observer (st_retired st))"

text \<open>Capability tokens share one text column, separated by newlines.\<close>

definition CAP_SEP :: char where "CAP_SEP = CHR 0x0A"

fun store_encode_capabilities :: "string list \<Rightarrow> string" where
  "store_encode_capabilities [] = []"
| "store_encode_capabilities [c] = c"
| "store_encode_capabilities (c # cs) = c @ CAP_SEP # store_encode_capabilities cs"

fun split_on :: "char \<Rightarrow> string \<Rightarrow> string list" where
  "split_on sep [] = [[]]"
| "split_on sep (c # cs) = (if c = sep then [] # split_on sep cs
     else (case split_on sep cs of [] \<Rightarrow> [[c]] | p # ps \<Rightarrow> (c # p) # ps))"

definition store_decode_capabilities :: "string \<Rightarrow> string list" where
  "store_decode_capabilities s = (if s = [] then [] else fold set_insert (split_on CAP_SEP s) [])"

definition relationship_to_row :: "side_relationship \<Rightarrow> relationship_row" where
  "relationship_to_row r = \<lparr>row_nickname = sr_nickname r, row_introduced_by = sr_introduced_by r,
     row_capabilities = store_encode_capabilities (sr_capabilities r), row_notes = sr_notes r,
     row_pinned = sr_pinned r, row_added_at = sr_added_at r, row_peer_listen_addr = sr_peer_listen_addr r\<rparr>"

definition relationship_of_row :: "byte list \<Rightarrow> relationship_row \<Rightarrow> side_relationship" where
  "relationship_of_row peer row = \<lparr>sr_address = peer, sr_nickname = row_nickname row,
     sr_introduced_by = row_introduced_by row,
     sr_capabilities = store_decode_capabilities (row_capabilities row), sr_notes = row_notes row,
     sr_pinned = row_pinned row, sr_added_at = row_added_at row, sr_peer_listen_addr = row_peer_listen_addr row\<rparr>"

text \<open>The update leaves \<open>added_at\<close> of a present row alone.\<close>

definition upsert_relationship :: "byte list \<Rightarrow> side_relationship \<Rightarrow> side_store \<Rightarrow> side_store" where
  "upsert_relationship side r st = (let row = relationship_to_row r in
     st\<lparr>st_relationships := upsert (side, sr_address r) row
       (\<lambda>old. row\<lparr>row_added_at := row_added_at old\<rparr>) (st_relationships st)\<rparr>)"

definition delete_relationship :: "byte list \<Rightarrow> byte list \<Rightarrow> side_store \<Rightarrow> side_store" where
  "delete_relationship side peer st = st\<lparr>st_relationships := AList.delete (side, peer) (st_relationships st)\<rparr>"

definition list_relationships :: "byte list \<Rightarrow> side_store \<Rightarrow> side_relationship list" where
  "list_relationships side st =
     map (\<lambda>(peer, row). relationship_of_row peer row) (select_of side (st_relationships st))"

definition store_add_co_holder :: "byte list \<Rightarrow> byte list \<Rightarrow> u64 \<Rightarrow> byte list option \<Rightarrow> side_store \<Rightarrow> side_store" where
  "store_add_co_holder side dev added_at added_by st =
     st\<lparr>st_co_holders := AList.update (side, dev) (added_at, added_by) (st_co_holders st)\<rparr>"

definition store_remove_co_holder :: "byte list \<Rightarrow> byte list \<Rightarrow> side_store \<Rightarrow> side_store" where
  "store_remove_co_holder side dev st = st\<lparr>st_co_holders := AList.delete (side, dev) (st_co_holders st)\<rparr>"

definition store_list_co_holders :: "byte list \<Rightarrow> side_store \<Rightarrow> (byte list \<times> u64 \<times> byte list option) list" where
  "store_list_co_holders side st = select_of side (st_co_holders st)"

definition store_add_revoked_device :: "byte list \<Rightarrow> byte list \<Rightarrow> u64 \<Rightarrow> side_store \<Rightarrow> side_store" where
  "store_add_revoked_device side dev revoked_at st =
     st\<lparr>st_revoked := insert_or_ignore (side, dev) revoked_at (st_revoked st)\<rparr>"

definition store_list_revoked_devices :: "byte list \<Rightarrow> side_store \<Rightarrow> byte list list" where
  "store_list_revoked_devices side st = map fst (select_of side (st_revoked st))"

definition upsert_co_holder_addr :: "byte list \<Rightarrow> byte list \<Rightarrow> string \<Rightarrow> u64 \<Rightarrow> side_store \<Rightarrow> side_store" where
  "upsert_co_holder_addr side dev dial_addr updated_at st = (let row = (dial_addr, updated_at) in
     st\<lparr>st_addrs := upsert (side, dev) row (\<lambda>_. row) (st_addrs st)\<rparr>)"

definition remove_co_holder_addr :: "byte list \<Rightarrow> byte list \<Rightarrow> side_store \<Rightarrow> side_store" where
  "remove_co_holder_addr side dev st = st\<lparr>st_addrs := AList.delete (side, dev) (st_addrs st)\<rparr>"

definition store_list_co_holder_addrs :: "byte list \<Rightarrow> side_store \<Rightarrow> (byte list \<times> string) list" where
  "store_list_co_holder_addrs side st = map (\<lambda>(dev, dial, _). (dev, dial)) (select_of side (st_addrs st))"

text \<open>An update of a membership keeps the first \<open>joined_at\<close>; the listing sorts by it, read as \<open>i64\<close>.\<close>

definition upsert_verse_membership :: "byte list \<Rightarrow> byte list \<Rightarrow> verse_membership_record \<Rightarrow> side_store \<Rightarrow> side_store" where
  "upsert_verse_membership side verse m st = st\<lparr>st_memberships := upsert (side, verse) m
     (\<lambda>old. m\<lparr>vm_joined_at := vm_joined_at old\<rparr>) (st_memberships st)\<rparr>"

definition delete_verse_membership :: "byte list \<Rightarrow> byte list \<Rightarrow> side_store \<Rightarrow> side_store" where
  "delete_verse_membership side verse st = st\<lparr>st_memberships := AList.delete (side, verse) (st_memberships st)\<rparr>"

definition list_all_verse_memberships :: "side_store \<Rightarrow> ((byte list \<times> byte list) \<times> verse_membership_record) list" where
  "list_all_verse_memberships st = sort_key (\<lambda>(_, m). sint (vm_joined_at m)) (st_memberships st)"

definition get_verse_membership :: "byte list \<Rightarrow> byte list \<Rightarrow> side_store \<Rightarrow> verse_membership_record option" where
  "get_verse_membership side verse st = map_of (st_memberships st) (side, verse)"

section \<open>Capability column\<close>

lemma split_on_append:
  "c \<notin> set s \<Longrightarrow> split_on c (s @ c # t) = s # split_on c t"
  by (induction s) auto

lemma split_on_plain: "c \<notin> set s \<Longrightarrow> split_on c s = [s]"
  by (induction s) auto

lemma split_encoded:
  assumes "\<forall>c \<in> set cs. CAP_SEP \<notin> set c" "cs \<noteq> []"
  shows "split_on CAP_SEP (store_encode_capabilities cs) = cs"
  using assms by (induction cs rule: store_encode_capabilities.induct) (simp_all add: split_on_append split_on_plain)

lemma encoded_empty: "store_encode_capabilities cs = [] \<longleftrightarrow> cs = [] \<or> cs = [[]]"
  by (cases cs rule: store_encode_capabilities.cases) auto

section \<open>Schema migrations\<close>

text \<open>
  A statement of \<open>run_migrations\<close> is a schema batch (1 to 5) or the write of the version row.
  Batch 4 is an \<open>ALTER TABLE ADD COLUMN\<close>, which SQLite refuses when the column exists; the
  others are \<open>CREATE TABLE IF NOT EXISTS\<close>. Each statement commits on its own.
\<close>

definition SCHEMA_VERSION :: int where "SCHEMA_VERSION = 5"

datatype schema_step = Batch nat | SetVersion int

record schema =
  sc_version :: "int option"
  sc_batches :: "nat list"

fun pending_batches :: "int option \<Rightarrow> nat list" where
  "pending_batches None = [1, 2, 3, 4, 5]"
| "pending_batches (Some v) =
     (if v < 2 then [2, 3, 4, 5]
      else if v < 3 then [3, 4, 5]
      else if v < 4 then [4, 5]
      else if v < 5 then [5]
      else [])"

definition migration_steps :: "int option \<Rightarrow> schema_step list" where
  "migration_steps current = (if pending_batches current = [] then []
     else map Batch (pending_batches current) @ [SetVersion SCHEMA_VERSION])"

fun run_schema_step :: "schema_step \<Rightarrow> schema \<Rightarrow> schema net_result" where
  "run_schema_step (Batch n) d =
     (if n = 4 \<and> 4 \<in> set (sc_batches d) then Inl (NetSqlite ''duplicate column name: peer_listen_addr'')
      else Inr (d\<lparr>sc_batches := List.insert n (sc_batches d)\<rparr>))"
| "run_schema_step (SetVersion v) d = Inr (d\<lparr>sc_version := Some v\<rparr>)"

fun run_schema_steps :: "schema_step list \<Rightarrow> schema \<Rightarrow> schema net_result" where
  "run_schema_steps [] d = Inr d"
| "run_schema_steps (s # ss) d = and_then (run_schema_step s d) (run_schema_steps ss)"

definition run_migrations :: "schema \<Rightarrow> schema net_result" where
  "run_migrations d = run_schema_steps (migration_steps (sc_version d)) d"

definition schema_at :: "nat \<Rightarrow> schema" where
  "schema_at v = \<lparr>sc_version = Some (int v), sc_batches = rev [1..<Suc v]\<rparr>"

text \<open>Opening a database of any earlier schema version, or a new one, ends at version 5 with all
  five schema batches applied; a database that is already current stays as it is.\<close>

lemma migrations_reach_current:
  "run_migrations \<lparr>sc_version = None, sc_batches = []\<rparr> = Inr (schema_at 5) \<and>
   (\<forall>v \<in> {1, 2, 3, 4, 5}. run_migrations (schema_at v) = Inr (schema_at 5))"
  by (simp add: run_migrations_def migration_steps_def schema_at_def SCHEMA_VERSION_def upt_rec)

lemma migrations_reach_current_witness: "run_migrations (schema_at 2) = Inr (schema_at 5)"
  using migrations_reach_current by simp

text \<open>A migration that is interrupted between batch 4 and the write of the version row leaves a
  database that no later opening accepts: batch 4 is repeated and refused.\<close>

lemma interrupted_migration_is_stuck:
  assumes "run_schema_steps (take n (migration_steps v)) \<lparr>sc_version = v, sc_batches = bs\<rparr> = Inr d"
    "Batch 4 \<in> set (take n (migration_steps v))" "n < length (migration_steps v)"
  shows "run_migrations d = Inl (NetSqlite ''duplicate column name: peer_listen_addr'')"
proof -
  have s: "migration_steps v = map Batch (pending_batches v) @ [SetVersion SCHEMA_VERSION]"
    using assms(3) by (simp add: migration_steps_def split: if_splits)
  have run: "sc_version d = sc_version e \<and> set (sc_batches d) = set (sc_batches e) \<union> set ns"
    if "run_schema_steps (map Batch ns) e = Inr d" for ns e
    using that by (induction ns arbitrary: e) (auto simp: and_then_eq_Inr split: if_splits)
  have t: "take n (migration_steps v) = map Batch (take n (pending_batches v))"
    using assms(3) by (simp add: s take_map)
  have d: "sc_version d = v" "4 \<in> set (sc_batches d)" "4 \<in> set (pending_batches v)"
    using run [of "take n (pending_batches v)"] assms(1,2) in_set_takeD unfolding t by fastforce+
  then show ?thesis
    by (cases v) (auto simp: run_migrations_def migration_steps_def split: if_splits)
qed

lemma interrupted_migration_is_stuck_witness:
  "run_migrations \<lparr>sc_version = Some 3, sc_batches = [4, 3, 2, 1]\<rparr> =
     Inl (NetSqlite ''duplicate column name: peer_listen_addr'')"
  by (rule interrupted_migration_is_stuck [where v = "Some 3" and n = 1 and bs = "[3, 2, 1]"])
    (simp_all add: SCHEMA_VERSION_def migration_steps_def)

end
