(* ===== verification/SideState.thy ===== *)
theory SideState
  imports SideStore
begin

text \<open>
  One hosted side, \<open>sidevers-net/src/side.rs\<close>: profile, retired sides it has seen, contacts, life
  stage, co-holder devices, pending pairings, and the write-through copy in \<open>SideStore\<close>. Every
  mutator takes the clock reading and, per statement, whether the write succeeded: the code
  logs a failed write and goes on. Hash maps are association lists, hash sets are sets.
\<close>

section \<open>State\<close>

definition PAIRING_TTL_SECS :: u64 where "PAIRING_TTL_SECS = 90"

record co_holder_record =
  ch_device_pubkey :: "byte list"
  ch_added_at :: u64
  ch_added_by :: "byte list option"

record side_state =
  sd_address :: "byte list"
  sd_label :: "string option"
  sd_created_at :: u64
  sd_key :: side_key
  sd_profile :: "profile_payload option"
  sd_retired_seen :: "byte list set"
  sd_relationships :: relationship_table
  sd_lifecycle :: side_lifecycle
  sd_last_send_at :: "u64 option"
  sd_self_retired :: bool
  sd_co_holders :: "(byte list \<times> co_holder_record) list"
  sd_revoked :: "byte list set"
  sd_pending :: "(byte list \<times> u64) list"
  sd_addrs :: "(byte list \<times> string) list"
  sd_store :: side_store

definition now_or_log_zero :: "u64 option \<Rightarrow> u64" where
  "now_or_log_zero clock = (case clock of Some t \<Rightarrow> t | None \<Rightarrow> 0)"

definition load_or_create :: "crypto \<Rightarrow> side_key \<Rightarrow> string option \<Rightarrow> u64 \<Rightarrow> bool \<Rightarrow> side_store \<Rightarrow> side_state net_result" where
  "load_or_create C k lbl now ok st = (let address = public_bytes C k in
     case load_side address st of
       Some s \<Rightarrow> and_then (load_profile C address st) (\<lambda>profile.
         Inr \<lparr>sd_address = address, sd_label = ss_label s, sd_created_at = ss_created_at s, sd_key = k,
              sd_profile = profile, sd_retired_seen = set (list_retired_seen address st),
              sd_relationships = fold rel_insert (list_relationships address st) [],
              sd_lifecycle = parse_lifecycle (ss_lifecycle s), sd_last_send_at = ss_last_send_at s,
              sd_self_retired = ss_is_self_retired s,
              sd_co_holders = fold (\<lambda>(dev, t, by) m. AList.update dev
                  \<lparr>ch_device_pubkey = dev, ch_added_at = t, ch_added_by = by\<rparr> m) (store_list_co_holders address st) [],
              sd_revoked = set (store_list_revoked_devices address st), sd_pending = [],
              sd_addrs = fold (\<lambda>(dev, addr) m. AList.update dev addr m) (store_list_co_holder_addrs address st) [],
              sd_store = st\<rparr>)
     | None \<Rightarrow>
         if \<not> ok then Inl (NetSqlite ''upsert_side'')
         else Inr \<lparr>sd_address = address, sd_label = lbl, sd_created_at = now, sd_key = k, sd_profile = None,
              sd_retired_seen = {}, sd_relationships = [], sd_lifecycle = Created, sd_last_send_at = None,
              sd_self_retired = False, sd_co_holders = [], sd_revoked = {}, sd_pending = [], sd_addrs = [],
              sd_store = upsert_side \<lparr>ss_address = address, ss_seed = seed k, ss_label = lbl, ss_created_at = now,
                ss_lifecycle = ''Created'', ss_last_send_at = None, ss_is_self_retired = False\<rparr> st\<rparr>)"

section \<open>Operations\<close>

text \<open>A write that fails is skipped.\<close>

definition persist :: "bool \<Rightarrow> (side_store \<Rightarrow> side_store) \<Rightarrow> side_state \<Rightarrow> side_state" where
  "persist ok f s = (if ok then s\<lparr>sd_store := f (sd_store s)\<rparr> else s)"

definition set_profile :: "bool \<Rightarrow> profile_payload \<Rightarrow> side_state \<Rightarrow> side_state" where
  "set_profile ok p s = (persist ok (upsert_profile (sd_address s) p) s)\<lparr>sd_profile := Some p\<rparr>"

definition mark_retired_seen :: "bool \<Rightarrow> u64 \<Rightarrow> byte list \<Rightarrow> side_state \<Rightarrow> side_state" where
  "mark_retired_seen ok now retired s =
     (persist ok (add_retired_seen (sd_address s) retired now) s)
       \<lparr>sd_retired_seen := insert retired (sd_retired_seen s)\<rparr>"

definition is_retired_seen :: "byte list \<Rightarrow> side_state \<Rightarrow> bool" where
  "is_retired_seen addr s \<longleftrightarrow> addr \<in> sd_retired_seen s"

definition add_relationship :: "bool \<Rightarrow> side_relationship \<Rightarrow> side_state \<Rightarrow> side_state" where
  "add_relationship ok r s = (persist ok (upsert_relationship (sd_address s) r) s)
     \<lparr>sd_relationships := rel_insert r (sd_relationships s)\<rparr>"

definition remove_relationship :: "bool \<Rightarrow> byte list \<Rightarrow> side_state \<Rightarrow> side_state" where
  "remove_relationship ok addr s = (persist ok (delete_relationship (sd_address s) addr) s)
     \<lparr>sd_relationships := rel_remove addr (sd_relationships s)\<rparr>"

definition update_relationship :: "bool \<Rightarrow> byte list \<Rightarrow> (side_relationship \<Rightarrow> side_relationship) \<Rightarrow> side_state \<Rightarrow>
    side_relationship option \<times> side_state" where
  "update_relationship ok addr f s = (case rel_get addr (sd_relationships s) of
     None \<Rightarrow> (None, s)
   | Some before \<Rightarrow>
       (let (changed, t) = rel_update addr f (sd_relationships s); s' = s\<lparr>sd_relationships := t\<rparr> in
        (Some before,
         if changed then
           (case rel_get addr (sd_relationships s') of
              Some upd \<Rightarrow> persist ok (upsert_relationship (sd_address s) upd) s'
            | None \<Rightarrow> s')
         else s')))"

text \<open>The row of the side itself; its three persisting functions write the same row.\<close>

definition persist_side_row :: "bool \<Rightarrow> side_state \<Rightarrow> side_state" where
  "persist_side_row ok s = persist ok (upsert_side
     \<lparr>ss_address = sd_address s, ss_seed = seed (sd_key s), ss_label = sd_label s, ss_created_at = sd_created_at s,
      ss_lifecycle = lifecycle_label (sd_lifecycle s), ss_last_send_at = sd_last_send_at s,
      ss_is_self_retired = sd_self_retired s\<rparr>) s"

definition set_lifecycle :: "bool \<Rightarrow> side_lifecycle \<Rightarrow> side_state \<Rightarrow> side_state" where
  "set_lifecycle ok st s = persist_side_row ok (s\<lparr>sd_lifecycle := st\<rparr>)"

definition refresh_lifecycle :: "bool \<Rightarrow> u64 \<Rightarrow> side_state \<Rightarrow> side_state" where
  "refresh_lifecycle ok now s =
     (if sd_lifecycle s = Retired then s
      else set_lifecycle ok (derive_lifecycle (sd_last_send_at s) False now) s)"

definition touch_send :: "bool \<Rightarrow> u64 \<Rightarrow> side_state \<Rightarrow> side_state" where
  "touch_send ok now s = persist_side_row ok (s\<lparr>sd_last_send_at := Some now,
     sd_lifecycle := (if sd_lifecycle s = Created then Active else sd_lifecycle s)\<rparr>)"

definition set_self_retired :: "(nat \<Rightarrow> bool) \<Rightarrow> side_state \<Rightarrow> side_state" where
  "set_self_retired io s =
     persist_side_row (io 1) (set_lifecycle (io 0) Retired (s\<lparr>sd_self_retired := True\<rparr>))"

definition add_co_holder :: "bool \<Rightarrow> u64 \<Rightarrow> byte list \<Rightarrow> byte list option \<Rightarrow> side_state \<Rightarrow> side_state" where
  "add_co_holder ok now dev by s = (persist ok (store_add_co_holder (sd_address s) dev now by) s)
     \<lparr>sd_co_holders := AList.update dev \<lparr>ch_device_pubkey = dev, ch_added_at = now, ch_added_by = by\<rparr>
        (sd_co_holders s)\<rparr>"

definition remove_co_holder :: "bool \<Rightarrow> byte list \<Rightarrow> side_state \<Rightarrow> side_state" where
  "remove_co_holder ok dev s = (persist ok (store_remove_co_holder (sd_address s) dev) s)
     \<lparr>sd_co_holders := AList.delete dev (sd_co_holders s)\<rparr>"

definition list_co_holders :: "side_state \<Rightarrow> co_holder_record list" where
  "list_co_holders s = map snd (sd_co_holders s)"

definition add_revoked_device :: "bool \<Rightarrow> u64 \<Rightarrow> byte list \<Rightarrow> side_state \<Rightarrow> side_state" where
  "add_revoked_device ok now dev s = (persist ok (store_add_revoked_device (sd_address s) dev now) s)
     \<lparr>sd_revoked := insert dev (sd_revoked s)\<rparr>"

definition is_device_revoked :: "byte list \<Rightarrow> side_state \<Rightarrow> bool" where
  "is_device_revoked dev s \<longleftrightarrow> dev \<in> sd_revoked s"

definition add_pending_pairing :: "u64 \<Rightarrow> byte list \<Rightarrow> side_state \<Rightarrow> side_state" where
  "add_pending_pairing now nonce s = s\<lparr>sd_pending := AList.update nonce now (sd_pending s)\<rparr>"

definition take_pending_pairing :: "u64 \<Rightarrow> byte list \<Rightarrow> side_state \<Rightarrow> u64 option \<times> side_state" where
  "take_pending_pairing now nonce s =
     (let g = filter (\<lambda>(_, issued_at). saturating_sub now issued_at < PAIRING_TTL_SECS) (sd_pending s)
      in (map_of g nonce, s\<lparr>sd_pending := AList.delete nonce g\<rparr>))"

definition record_co_holder_addr :: "bool \<Rightarrow> u64 \<Rightarrow> byte list \<Rightarrow> string \<Rightarrow> side_state \<Rightarrow> side_state" where
  "record_co_holder_addr ok now dev dial_addr s =
     (persist ok (upsert_co_holder_addr (sd_address s) dev dial_addr now) s)
       \<lparr>sd_addrs := AList.update dev dial_addr (sd_addrs s)\<rparr>"

definition co_holder_addr :: "byte list \<Rightarrow> side_state \<Rightarrow> string option" where
  "co_holder_addr dev s = map_of (sd_addrs s) dev"

section \<open>Deltas from co-holders\<close>

definition relationship_from_record :: "relationship_record \<Rightarrow> side_relationship" where
  "relationship_from_record rec = \<lparr>sr_address = rr_address rec, sr_nickname = rr_nickname rec,
     sr_introduced_by = rr_introduced_by rec, sr_capabilities = fold set_insert (rr_capabilities rec) [],
     sr_notes = rr_notes rec, sr_pinned = rr_pinned rec, sr_added_at = rr_added_at rec,
     sr_peer_listen_addr = None\<rparr>"

text \<open>\<open>clk\<close> and \<open>io\<close> give the clock readings and write outcomes in the order of the calls.\<close>

fun apply_delta :: "crypto \<Rightarrow> (nat \<Rightarrow> u64) \<Rightarrow> (nat \<Rightarrow> bool) \<Rightarrow> delta_op \<Rightarrow> side_state \<Rightarrow> side_state" where
  "apply_delta C clk io (DeltaProfileUpdated wire) s = (case profile_from_wire C wire of
     Inl _ \<Rightarrow> s
   | Inr p \<Rightarrow>
       if (case sd_profile s of Some cur \<Rightarrow> pf_updated_at cur \<le> pf_updated_at p | None \<Rightarrow> True)
       then set_profile (io 0) p s else s)"
| "apply_delta C clk io DeltaProfileCleared s =
     persist (io 0) (delete_profile (sd_address s)) (s\<lparr>sd_profile := None\<rparr>)"
| "apply_delta C clk io (DeltaRelationshipUpserted rec) s =
     (let rel = relationship_from_record rec in
      if (case rel_get (rr_address rec) (sd_relationships s) of
            Some e \<Rightarrow> sr_added_at e \<le> sr_added_at rel | None \<Rightarrow> True)
      then add_relationship (io 0) rel s else s)"
| "apply_delta C clk io (DeltaRelationshipRemoved address) s = remove_relationship (io 0) address s"
| "apply_delta C clk io (DeltaRetiredObserved address) s = mark_retired_seen (io 0) (clk 0) address s"
| "apply_delta C clk io (DeltaLifecycleChanged state) s =
     (if sd_self_retired s then s
      else set_lifecycle (io 0)
        (if state = ''Active'' then Active else if state = ''Dormant'' then Dormant
         else if state = ''Retired'' then Retired else Created) s)"
| "apply_delta C clk io (DeltaCoHolderAdded dev dial_addr) s =
     (if dev = sd_address s then s
      else if dev \<in> sd_revoked s then s
      else record_co_holder_addr (io 1) (clk 1) dev dial_addr (add_co_holder (io 0) (clk 0) dev None s))"
| "apply_delta C clk io (DeltaCoHolderRemoved dev) s =
     (let s = add_revoked_device (io 1) (clk 0) dev (remove_co_holder (io 0) dev s);
          s = s\<lparr>sd_addrs := AList.delete dev (sd_addrs s)\<rparr>
      in persist (io 2) (remove_co_holder_addr (sd_address s) dev) s)"

lemma persist_fields [simp]:
  "sd_address (persist ok f s) = sd_address s" "sd_label (persist ok f s) = sd_label s"
  "sd_created_at (persist ok f s) = sd_created_at s" "sd_key (persist ok f s) = sd_key s"
  "sd_profile (persist ok f s) = sd_profile s" "sd_retired_seen (persist ok f s) = sd_retired_seen s"
  "sd_relationships (persist ok f s) = sd_relationships s" "sd_lifecycle (persist ok f s) = sd_lifecycle s"
  "sd_last_send_at (persist ok f s) = sd_last_send_at s" "sd_self_retired (persist ok f s) = sd_self_retired s"
  "sd_co_holders (persist ok f s) = sd_co_holders s" "sd_revoked (persist ok f s) = sd_revoked s"
  "sd_pending (persist ok f s) = sd_pending s" "sd_addrs (persist ok f s) = sd_addrs s"
  "sd_store (persist ok f s) = (if ok then f (sd_store s) else sd_store s)"
  by (simp_all add: persist_def)

lemmas side_ops = set_profile_def mark_retired_seen_def add_relationship_def remove_relationship_def
  persist_side_row_def set_lifecycle_def refresh_lifecycle_def touch_send_def set_self_retired_def
  add_co_holder_def remove_co_holder_def add_revoked_device_def record_co_holder_addr_def
  add_pending_pairing_def take_pending_pairing_def

end
