(* ===== verification/SideSafety.thy ===== *)
theory SideSafety
  imports SideState
begin

text \<open>
  What the state of a side guarantees: revocation of a co-holder device, last-write-wins
  for profiles, retirement, pairing nonces, and that a restart restores what was written.
\<close>

section \<open>Runs of deltas\<close>

text \<open>Each delta of a run with its clock readings and write outcomes.\<close>

definition apply_deltas :: "crypto \<Rightarrow> ((nat \<Rightarrow> u64) \<times> (nat \<Rightarrow> bool) \<times> delta_op) list \<Rightarrow> side_state \<Rightarrow> side_state" where
  "apply_deltas C ds s = fold (\<lambda>(clk, io, op). apply_delta C clk io op) ds s"

lemma apply_deltas_simps [simp]:
  "apply_deltas C [] s = s"
  "apply_deltas C ((clk, io, op) # ds) s = apply_deltas C ds (apply_delta C clk io op s)"
  by (simp_all add: apply_deltas_def)

section \<open>Revocation\<close>

definition locked_out :: "byte list \<Rightarrow> side_state \<Rightarrow> bool" where
  "locked_out dev s \<longleftrightarrow> dev \<in> sd_revoked s \<and> map_of (sd_co_holders s) dev = None \<and> map_of (sd_addrs s) dev = None"

lemma locked_out_delta: "locked_out dev s \<Longrightarrow> locked_out dev (apply_delta C clk io op s)"
  by (cases op) (auto simp: locked_out_def side_ops Let_def update_conv' delete_conv' split: sum.splits option.splits)

lemma locked_out_deltas: "locked_out dev s \<Longrightarrow> locked_out dev (apply_deltas C ds s)"
  by (induction ds arbitrary: s) (auto simp: locked_out_delta)

lemma removed_locked_out: "locked_out dev (apply_delta C clk io (DeltaCoHolderRemoved dev) s)"
  by (simp add: locked_out_def side_ops Let_def delete_conv')

text \<open>C25: Once a delta has removed a co-holder device, no sequence of further deltas makes it a
  co-holder again or gives it a dial address, whatever other co-holders send and whichever
  writes fail; the device stays revoked.\<close>

theorem removed_device_stays_out:
  "dev \<in> sd_revoked (apply_deltas C ((clk, io, DeltaCoHolderRemoved dev) # ds) s) \<and>
   dev \<notin> fst ` set (sd_co_holders (apply_deltas C ((clk, io, DeltaCoHolderRemoved dev) # ds) s)) \<and>
   co_holder_addr dev (apply_deltas C ((clk, io, DeltaCoHolderRemoved dev) # ds) s) = None"
  using locked_out_deltas [OF removed_locked_out]
  by (simp add: locked_out_def co_holder_addr_def map_of_eq_None_iff)

section \<open>Profiles\<close>

definition profile_time :: "side_state \<Rightarrow> u64 option" where
  "profile_time s = map_option pf_updated_at (sd_profile s)"

definition offered_profiles :: "crypto \<Rightarrow> ((nat \<Rightarrow> u64) \<times> (nat \<Rightarrow> bool) \<times> delta_op) list \<Rightarrow> profile_payload set" where
  "offered_profiles C ds = {p. \<exists>clk io wire. (clk, io, DeltaProfileUpdated wire) \<in> set ds \<and> profile_from_wire C wire = Inr p}"

lemma profile_delta:
  "sd_profile (apply_delta C clk io op s) =
     (case op of
        DeltaProfileUpdated wire \<Rightarrow> (case profile_from_wire C wire of
            Inl _ \<Rightarrow> sd_profile s
          | Inr p \<Rightarrow> if (case sd_profile s of Some cur \<Rightarrow> pf_updated_at cur \<le> pf_updated_at p | None \<Rightarrow> True)
                     then Some p else sd_profile s)
      | DeltaProfileCleared \<Rightarrow> None
      | _ \<Rightarrow> sd_profile s)"
  by (cases op) (auto simp: side_ops Let_def split: sum.splits option.splits)

lemma profile_offer:
  assumes "profile_from_wire C wire = Inr p"
  shows "\<exists>p'. sd_profile (apply_delta C clk io (DeltaProfileUpdated wire) s) = Some p' \<and> (p' = p \<or> sd_profile s = Some p') \<and>
    pf_updated_at p \<le> pf_updated_at p' \<and> (\<forall>q. sd_profile s = Some q \<longrightarrow> pf_updated_at q \<le> pf_updated_at p')"
  using assms by (cases "sd_profile s") (auto simp: side_ops)

lemma profile_lww:
  assumes "DeltaProfileCleared \<notin> (\<lambda>(_, _, op). op) ` set ds"
  shows "sd_profile (apply_deltas C ds s) = sd_profile s \<and> offered_profiles C ds = {} \<or>
    (\<exists>p. sd_profile (apply_deltas C ds s) = Some p \<and> (sd_profile s = Some p \<or> p \<in> offered_profiles C ds) \<and>
       (\<forall>q. sd_profile s = Some q \<or> q \<in> offered_profiles C ds \<longrightarrow> pf_updated_at q \<le> pf_updated_at p))"
  using assms
proof (induction ds arbitrary: s)
  case Nil
  then show ?case by (simp add: offered_profiles_def)
next
  case (Cons d ds)
  obtain clk io op where d: "d = (clk, io, op)" by (cases d)
  let ?s = "apply_delta C clk io op s"
  have noclear: "op \<noteq> DeltaProfileCleared" using Cons.prems by (force simp: d)
  have IH: "sd_profile (apply_deltas C ds ?s) = sd_profile ?s \<and> offered_profiles C ds = {} \<or>
    (\<exists>p. sd_profile (apply_deltas C ds ?s) = Some p \<and> (sd_profile ?s = Some p \<or> p \<in> offered_profiles C ds) \<and>
       (\<forall>q. sd_profile ?s = Some q \<or> q \<in> offered_profiles C ds \<longrightarrow> pf_updated_at q \<le> pf_updated_at p))"
    using Cons by auto
  show ?case
  proof (cases "\<exists>wire p. op = DeltaProfileUpdated wire \<and> profile_from_wire C wire = Inr p")
    case False
    then have "sd_profile ?s = sd_profile s" "offered_profiles C ((clk, io, op) # ds) = offered_profiles C ds"
      using noclear by (auto simp: profile_delta offered_profiles_def d split: delta_op.splits sum.splits)
    then show ?thesis using IH by (simp add: d)
  next
    case True
    then obtain wire p where op: "op = DeltaProfileUpdated wire" "profile_from_wire C wire = Inr p" by blast
    have off: "offered_profiles C ((clk, io, op) # ds) = insert p (offered_profiles C ds)"
      using op by (auto simp: offered_profiles_def d)
    obtain p' where p': "sd_profile ?s = Some p'" "p' = p \<or> sd_profile s = Some p'"
        "pf_updated_at p \<le> pf_updated_at p'" "\<forall>q. sd_profile s = Some q \<longrightarrow> pf_updated_at q \<le> pf_updated_at p'"
      using profile_offer [OF op(2), of clk io s] unfolding op(1) by blast
    from IH show ?thesis
    proof
      assume "sd_profile (apply_deltas C ds ?s) = sd_profile ?s \<and> offered_profiles C ds = {}"
      then show ?thesis using p' by (auto simp: d off)
    next
      assume "\<exists>p. sd_profile (apply_deltas C ds ?s) = Some p \<and> (sd_profile ?s = Some p \<or> p \<in> offered_profiles C ds) \<and>
       (\<forall>q. sd_profile ?s = Some q \<or> q \<in> offered_profiles C ds \<longrightarrow> pf_updated_at q \<le> pf_updated_at p)"
      then obtain r where r: "sd_profile (apply_deltas C ds ?s) = Some r" "sd_profile ?s = Some r \<or> r \<in> offered_profiles C ds"
          "\<forall>q. sd_profile ?s = Some q \<or> q \<in> offered_profiles C ds \<longrightarrow> pf_updated_at q \<le> pf_updated_at r" by blast
      have "pf_updated_at p' \<le> pf_updated_at r" using r(3) p'(1) by blast
      then show ?thesis using r p' by (intro disjI2 exI [of _ r]) (auto simp: d off)
    qed
  qed
qed


section \<open>Retirement\<close>

lemma self_retired_delta:
  "sd_self_retired s \<Longrightarrow> sd_self_retired (apply_delta C clk io op s) \<and> sd_lifecycle (apply_delta C clk io op s) = sd_lifecycle s"
  by (cases op) (auto simp: side_ops Let_def split: sum.splits option.splits)

lemma self_retired_deltas:
  "sd_self_retired s \<Longrightarrow> sd_self_retired (apply_deltas C ds s) \<and> sd_lifecycle (apply_deltas C ds s) = sd_lifecycle s"
proof (induction ds arbitrary: s)
  case (Cons d ds)
  then show ?case using self_retired_delta by (cases d) (metis apply_deltas_simps(2))
qed simp

text \<open>A side that published its own retirement stays retired: no deltas from co-holders, no
  refresh and no send move it to another life stage.\<close>

lemma own_retirement_is_final:
  "sd_lifecycle (touch_send ok1 t1 (refresh_lifecycle ok2 t2 (apply_deltas C ds (set_self_retired io s)))) = Retired"
proof -
  have "sd_self_retired (set_self_retired io s)" "sd_lifecycle (set_self_retired io s) = Retired"
    by (simp_all add: side_ops)
  from self_retired_deltas [OF this(1), of C ds] this(2) show ?thesis by (simp add: side_ops)
qed

text \<open>A retirement learned from a co-holder is not final, although the code calls it sticky: on a
  side that did not retire itself a later \<open>Active\<close> delta undoes a \<open>Retired\<close> one.\<close>

lemma learned_retirement_is_undone:
  assumes "\<not> sd_self_retired s"
  shows "sd_lifecycle (apply_deltas C [(clk1, io1, DeltaLifecycleChanged ''Retired'')] s) = Retired \<and>
    sd_lifecycle (apply_deltas C [(clk1, io1, DeltaLifecycleChanged ''Retired''), (clk2, io2, DeltaLifecycleChanged ''Active'')] s) = Active"
  using assms by (simp add: side_ops)

section \<open>Pairing nonces\<close>

text \<open>A pairing nonce is honoured once, and only within 90 seconds of being issued: taking it
  gives the second it was issued at, less than 90 seconds ago, and a second take finds nothing.\<close>

lemma pairing_nonce_single_use:
  assumes "fst (take_pending_pairing now nonce s) = Some issued_at"
  shows "(nonce, issued_at) \<in> set (sd_pending s) \<and> saturating_sub now issued_at < PAIRING_TTL_SECS \<and>
    fst (take_pending_pairing later nonce (snd (take_pending_pairing now nonce s))) = None"
proof -
  let ?g = "\<lambda>t m. filter (\<lambda>(_, issued_at). saturating_sub t issued_at < PAIRING_TTL_SECS) m"
  have "(nonce, issued_at) \<in> set (?g now (sd_pending s))"
    using assms by (auto simp: take_pending_pairing_def Let_def dest: map_of_SomeD)
  moreover have "map_of (?g later (AList.delete nonce (?g now (sd_pending s)))) nonce = None"
    by (auto simp: map_of_eq_None_iff AList.delete_eq)
  ultimately show ?thesis by (simp add: take_pending_pairing_def Let_def)
qed


section \<open>Examples\<close>

definition sample_profile :: "u64 \<Rightarrow> profile_payload" where
  "sample_profile t = profile_sign sample_crypto \<lparr>seed = replicate 32 7, label = []\<rparr> (Some ''ann'') None None None None [] t"

lemma sample_profile_wf: "wf_profile sample_crypto (sample_profile t)"
  unfolding sample_profile_def
  by (rule profile_sign_wf [OF sample_signature_laws])
    (simp_all add: wf_side_def wf_text_def wf_text_set_def wf_array_def MAX_CBOR_ENTRIES_def literal_key)

lemma profile_time_sample: "pf_updated_at (sample_profile t) = t"
  by (simp add: sample_profile_def profile_sign_def Let_def)

definition sample_side :: side_state where
  "sample_side = \<lparr>sd_address = [9], sd_label = None, sd_created_at = 0, sd_key = \<lparr>seed = [9], label = []\<rparr>,
     sd_profile = None, sd_retired_seen = {}, sd_relationships = [], sd_lifecycle = Active, sd_last_send_at = None,
     sd_self_retired = False, sd_co_holders = [], sd_revoked = {}, sd_pending = [([1], 100)], sd_addrs = [],
     sd_store = \<lparr>st_settings = [], st_sides = [], st_profiles = [], st_retired = [], st_relationships = [],
       st_co_holders = [], st_revoked = [], st_addrs = [], st_memberships = []\<rparr>\<rparr>"


lemma learned_retirement_is_undone_witness:
  "sd_lifecycle (apply_deltas sample_crypto [(\<lambda>_. 0, \<lambda>_. True, DeltaLifecycleChanged ''Retired''),
     (\<lambda>_. 0, \<lambda>_. True, DeltaLifecycleChanged ''Active'')] sample_side) = Active"
proof -
  have "\<not> sd_self_retired sample_side" by (simp add: sample_side_def)
  from learned_retirement_is_undone [OF this] show ?thesis by blast
qed

lemma pairing_nonce_single_use_witness:
  "fst (take_pending_pairing 150 [1] sample_side) = Some 100 \<and>
   fst (take_pending_pairing 150 [1] (snd (take_pending_pairing 150 [1] sample_side))) = None"
proof -
  have "fst (take_pending_pairing 150 [1] sample_side) = Some 100"
    by (simp add: take_pending_pairing_def Let_def sample_side_def saturating_sub_def PAIRING_TTL_SECS_def)
  from pairing_nonce_single_use [OF this] this show ?thesis by blast
qed

end
