(* ===== verification/SideRestart.thy ===== *)
theory SideRestart
  imports SideSafety
begin

text \<open>
  The persistent copy of a side is enough to rebuild it: a simulation between the state in
  memory and the tables of \<open>SideStore\<close>, kept by every mutator while writes succeed, and what
  \<open>load_or_create\<close> makes of the tables.
\<close>

section \<open>The simulation\<close>

definition contact_row :: "side_relationship \<Rightarrow> relationship_row \<Rightarrow> bool" where
  "contact_row r row \<longleftrightarrow> (\<exists>t. row = (relationship_to_row r)\<lparr>row_added_at := t\<rparr>)"

definition mirrors :: "('k \<Rightarrow> 'v option) \<Rightarrow> ('k \<Rightarrow> 'w option) \<Rightarrow> ('v \<Rightarrow> 'w \<Rightarrow> bool) \<Rightarrow> bool" where
  "mirrors mem disk R \<longleftrightarrow> (\<forall>k. rel_option R (mem k) (disk k))"

definition side_row :: "side_state \<Rightarrow> stored_side" where
  "side_row s = \<lparr>ss_address = sd_address s, ss_seed = seed (sd_key s), ss_label = sd_label s,
     ss_created_at = sd_created_at s, ss_lifecycle = lifecycle_label (sd_lifecycle s),
     ss_last_send_at = sd_last_send_at s, ss_is_self_retired = sd_self_retired s\<rparr>"

definition mirrored :: "crypto \<Rightarrow> side_state \<Rightarrow> bool" where
  "mirrored C s \<longleftrightarrow> (let a = sd_address s; st = sd_store s in
     public_bytes C (sd_key s) = a \<and>
     map_of (st_sides st) a = Some (side_row s) \<and>
     rel_option (\<lambda>p row. row = (profile_to_wire p, pf_updated_at p) \<and> wf_profile C p) (sd_profile s) (map_of (st_profiles st) a) \<and>
     (\<forall>x. x \<in> sd_retired_seen s \<longleftrightarrow> map_of (st_retired st) (a, x) \<noteq> None) \<and>
     (\<forall>x. x \<in> sd_revoked s \<longleftrightarrow> map_of (st_revoked st) (a, x) \<noteq> None) \<and>
     mirrors (map_of (sd_relationships s)) (\<lambda>k. map_of (st_relationships st) (a, k)) (\<lambda>r row. contact_row r row) \<and>
     (\<forall>k r. map_of (sd_relationships s) k = Some r \<longrightarrow> sr_address r = k) \<and>
     mirrors (map_of (sd_co_holders s)) (\<lambda>k. map_of (st_co_holders st) (a, k))
       (\<lambda>c row. row = (ch_added_at c, ch_added_by c)) \<and>
     (\<forall>k c. map_of (sd_co_holders s) k = Some c \<longrightarrow> ch_device_pubkey c = k) \<and>
     mirrors (map_of (sd_addrs s)) (\<lambda>k. map_of (st_addrs st) (a, k)) (\<lambda>addr row. fst row = addr) \<and>
     wf_map (st_relationships st) \<and> wf_map (st_co_holders st) \<and> wf_map (st_addrs st))"

lemma wf_map_upsert [simp]: "wf_map t \<Longrightarrow> wf_map (upsert k v f t)"
  by (simp add: upsert_def split: option.split)

text \<open>Writing the same key in memory and on disk keeps the copies equal; other keys of the shared
  tables are not touched.\<close>

lemma mirrors_put:
  "mirrors mem disk R \<Longrightarrow> R v w \<Longrightarrow> mirrors (mem(k \<mapsto> v)) (\<lambda>k'. if k' = k then Some w else disk k') R"
  by (simp add: mirrors_def)

lemma mirrors_del:
  "mirrors mem disk R \<Longrightarrow> mirrors (mem(k := None)) (\<lambda>k'. if k' = k then None else disk k') R"
  by (simp add: mirrors_def)

lemma contact_row_upsert:
  "contact_row r (case old of None \<Rightarrow> relationship_to_row r
     | Some row \<Rightarrow> (relationship_to_row r)\<lparr>row_added_at := row_added_at row\<rparr>)"
proof -
  have "relationship_to_row r = (relationship_to_row r)\<lparr>row_added_at := sr_added_at r\<rparr>"
    by (simp add: relationship_to_row_def)
  then show ?thesis unfolding contact_row_def by (cases old) auto
qed

section \<open>The mutators\<close>

text \<open>What happens to a side: its mutators with the clock readings they take, all writes succeeding.\<close>

datatype side_op =
    SetProfile profile_payload
  | MarkRetired u64 "byte list"
  | AddContact side_relationship
  | RemoveContact "byte list"
  | SetLifecycle side_lifecycle
  | RefreshLifecycle u64
  | TouchSend u64
  | RetireSelf
  | AddCoHolder u64 "byte list" "byte list option"
  | RemoveCoHolder "byte list"
  | RevokeDevice u64 "byte list"
  | RecordAddr u64 "byte list" string
  | IssuePairing u64 "byte list"
  | TakePairing u64 "byte list"
  | ApplyDelta "nat \<Rightarrow> u64" delta_op

fun side_step :: "crypto \<Rightarrow> side_op \<Rightarrow> side_state \<Rightarrow> side_state" where
  "side_step C (SetProfile p) s = set_profile True p s"
| "side_step C (MarkRetired t a) s = mark_retired_seen True t a s"
| "side_step C (AddContact r) s = add_relationship True r s"
| "side_step C (RemoveContact a) s = remove_relationship True a s"
| "side_step C (SetLifecycle l) s = set_lifecycle True l s"
| "side_step C (RefreshLifecycle t) s = refresh_lifecycle True t s"
| "side_step C (TouchSend t) s = touch_send True t s"
| "side_step C RetireSelf s = set_self_retired (\<lambda>_. True) s"
| "side_step C (AddCoHolder t d by) s = add_co_holder True t d by s"
| "side_step C (RemoveCoHolder d) s = remove_co_holder True d s"
| "side_step C (RevokeDevice t d) s = add_revoked_device True t d s"
| "side_step C (RecordAddr t d addr) s = record_co_holder_addr True t d addr s"
| "side_step C (IssuePairing t n) s = add_pending_pairing t n s"
| "side_step C (TakePairing t n) s = snd (take_pending_pairing t n s)"
| "side_step C (ApplyDelta clk op) s = apply_delta C clk (\<lambda>_. True) op s"

lemma mirrored_set_profile: "mirrored C s \<Longrightarrow> wf_profile C p \<Longrightarrow> mirrored C (set_profile True p s)"
  by (simp add: mirrored_def Let_def set_profile_def upsert_profile_def map_of_upsert side_row_def split: option.split)

lemma mirrored_clear_profile:
  "mirrored C s \<Longrightarrow> mirrored C (persist True (delete_profile (sd_address s)) (s\<lparr>sd_profile := None\<rparr>))"
  by (simp add: mirrored_def Let_def delete_profile_def delete_conv' side_row_def)

lemma mirrored_mark: "mirrored C s \<Longrightarrow> mirrored C (mark_retired_seen True t a s)"
  by (auto simp: mirrored_def Let_def mark_retired_seen_def add_retired_seen_def map_of_insert_or_ignore side_row_def)

lemma mirrored_revoke: "mirrored C s \<Longrightarrow> mirrored C (add_revoked_device True t d s)"
  by (auto simp: mirrored_def Let_def add_revoked_device_def store_add_revoked_device_def map_of_insert_or_ignore side_row_def)

lemma mirrored_add: "mirrored C s \<Longrightarrow> mirrored C (add_relationship True r s)"
  by (simp add: mirrored_def Let_def add_relationship_def upsert_relationship_def rel_insert_def map_of_upsert
      map_of_btree_insert mirrors_put contact_row_upsert side_row_def)

lemma mirrored_remove: "mirrored C s \<Longrightarrow> mirrored C (remove_relationship True a s)"
  by (simp add: mirrored_def Let_def remove_relationship_def delete_relationship_def rel_remove_def
      map_of_btree_remove delete_conv' mirrors_del side_row_def)

lemma mirrored_set_lifecycle: "mirrored C s \<Longrightarrow> mirrored C (set_lifecycle True l s)"
  by (simp add: mirrored_def Let_def set_lifecycle_def persist_side_row_def upsert_side_def map_of_upsert side_row_def)

lemma mirrored_touch: "mirrored C s \<Longrightarrow> mirrored C (touch_send True t s)"
  by (simp add: mirrored_def Let_def touch_send_def persist_side_row_def upsert_side_def map_of_upsert side_row_def)

lemma mirrored_retire: "mirrored C s \<Longrightarrow> mirrored C (set_self_retired (\<lambda>_. True) s)"
  by (simp add: mirrored_def Let_def set_self_retired_def set_lifecycle_def persist_side_row_def upsert_side_def
      map_of_upsert side_row_def)

lemma mirrored_add_co_holder: "mirrored C s \<Longrightarrow> mirrored C (add_co_holder True t d by s)"
  by (simp add: mirrored_def Let_def add_co_holder_def store_add_co_holder_def update_conv' mirrors_put side_row_def)

lemma mirrored_remove_co_holder: "mirrored C s \<Longrightarrow> mirrored C (remove_co_holder True d s)"
  by (simp add: mirrored_def Let_def remove_co_holder_def store_remove_co_holder_def delete_conv' mirrors_del side_row_def)

lemma mirrored_record: "mirrored C s \<Longrightarrow> mirrored C (record_co_holder_addr True t d addr s)"
  by (simp add: mirrored_def Let_def record_co_holder_addr_def upsert_co_holder_addr_def map_of_upsert update_conv'
      mirrors_put side_row_def split: option.split)

lemma mirrored_drop_addr: "mirrored C s \<Longrightarrow>
    mirrored C (persist True (remove_co_holder_addr (sd_address s) d) (s\<lparr>sd_addrs := AList.delete d (sd_addrs s)\<rparr>))"
  by (simp add: mirrored_def Let_def remove_co_holder_addr_def delete_conv' mirrors_del side_row_def)

lemma mirrored_pending: "mirrored C s \<Longrightarrow> mirrored C (s\<lparr>sd_pending := m\<rparr>)"
  by (simp add: mirrored_def side_row_def)

lemmas mirrored_intros = mirrored_set_profile mirrored_clear_profile mirrored_mark mirrored_revoke mirrored_add
  mirrored_remove mirrored_set_lifecycle mirrored_touch mirrored_retire mirrored_add_co_holder
  mirrored_remove_co_holder mirrored_record mirrored_pending

lemma mirrored_delta:
  assumes "mirrored C s"
  shows "mirrored C (apply_delta C clk (\<lambda>_. True) op s)"
proof (cases op)
  case (DeltaProfileUpdated wire)
  show ?thesis
  proof (cases "profile_from_wire C wire")
    case (Inr p)
    then have "wf_profile C p" by (simp add: profile_from_wire_iff)
    then show ?thesis using assms by (simp add: DeltaProfileUpdated Inr mirrored_intros)
  qed (use assms in \<open>simp add: DeltaProfileUpdated\<close>)
next
  case (DeltaCoHolderRemoved dev)
  have "mirrored C (add_revoked_device True (clk 0) dev (remove_co_holder True dev s))"
    using assms by (simp add: mirrored_intros)
  from mirrored_drop_addr [OF this, of dev] show ?thesis by (simp add: DeltaCoHolderRemoved Let_def)
qed (use assms in \<open>simp_all add: mirrored_intros Let_def\<close>)

lemma mirrored_step:
  assumes "mirrored C s" "\<And>p. op = SetProfile p \<Longrightarrow> wf_profile C p"
  shows "mirrored C (side_step C op s)"
  using assms
  by (cases op) (simp_all add: mirrored_intros mirrored_delta refresh_lifecycle_def add_pending_pairing_def
      take_pending_pairing_def Let_def)

lemma mirrored_run:
  assumes "mirrored C s" "\<And>p. SetProfile p \<in> set ops \<Longrightarrow> wf_profile C p"
  shows "mirrored C (fold (side_step C) ops s)"
  using assms by (induction ops arbitrary: s) (simp_all add: mirrored_step)

section \<open>Loading\<close>

lemma select_of_Cons:
  "select_of a (((x, b), v) # t) = (if x = a then (b, v) # select_of a t else select_of a t)"
  by (simp add: select_of_def)

lemma distinct_select: "wf_map t \<Longrightarrow> distinct (map fst (select_of a t))"
proof (induction t)
  case (Cons e t)
  obtain x b v where e: "e = ((x, b), v)" by (metis surj_pair)
  have "b \<notin> fst ` set (select_of x t)" using Cons.prems by (force simp: select_of_def wf_map_def e)
  then show ?case using Cons by (auto simp: e wf_map_def select_of_Cons)
qed (simp add: select_of_def)

lemma set_select: "x \<in> set (map fst (select_of a t)) \<longleftrightarrow> map_of t (a, x) \<noteq> None"
  unfolding map_of_select_of [symmetric] by (simp add: map_of_eq_None_iff)

lemma rel_load:
  assumes "wf_map t"
  shows "map_of (fold rel_insert (map (\<lambda>(peer, row). relationship_of_row peer row) (select_of a t)) []) k =
    map_option (relationship_of_row k) (map_of t (a, k))"
proof -
  have "fold rel_insert (map (\<lambda>(peer, row). relationship_of_row peer row) xs) m =
      fold (\<lambda>(k, v). btree_insert k (relationship_of_row k v)) xs m" for xs m
    by (induction xs arbitrary: m) (auto simp: rel_insert_def relationship_of_row_def)
  then show ?thesis
    using btree.get_fold_put [OF distinct_select [OF assms], of relationship_of_row a "[]" k]
    by (simp add: map_of_select_of split: option.split)
qed

lemma co_holder_load:
  assumes "wf_map t"
  shows "map_of (fold (\<lambda>(dev, t, by) m. AList.update dev
      \<lparr>ch_device_pubkey = dev, ch_added_at = t, ch_added_by = by\<rparr> m) (select_of a t) []) k =
    map_option (\<lambda>(t, by). \<lparr>ch_device_pubkey = k, ch_added_at = t, ch_added_by = by\<rparr>) (map_of t (a, k))"
  using hashmap.get_fold_put [OF distinct_select [OF assms],
      of "\<lambda>k (t, by). \<lparr>ch_device_pubkey = k, ch_added_at = t, ch_added_by = by\<rparr>" a "[]" k]
  by (simp add: map_of_select_of case_prod_unfold split: option.split)

lemma addr_load:
  fixes t :: "((byte list \<times> byte list) \<times> string \<times> u64) list"
  assumes "wf_map t"
  shows "map_of (fold (\<lambda>(dev, addr) m. AList.update dev addr m)
      (map (\<lambda>(dev, dial, _). (dev, dial)) (select_of a t)) []) k = map_option fst (map_of t (a, k))"
proof -
  have "fold (\<lambda>(dev, addr) m. AList.update dev addr m) (map (\<lambda>(dev, dial, _). (dev, dial)) xs) m =
      fold (\<lambda>(k, v). AList.update k (fst v)) xs m" for xs :: "(byte list \<times> string \<times> u64) list" and m
    by (induction xs arbitrary: m) auto
  then show ?thesis
    using hashmap.get_fold_put [OF distinct_select [OF assms], of "\<lambda>k. fst" a "[]" k]
    by (simp add: map_of_select_of split: option.split)
qed

text \<open>What a restart gives back of a contact: the capabilities go through one text column, and the
  time of the first insertion stays on disk.\<close>

definition reloaded :: "side_relationship \<Rightarrow> side_relationship \<Rightarrow> bool" where
  "reloaded r r' \<longleftrightarrow> (\<exists>t. r' = r\<lparr>sr_added_at := t,
     sr_capabilities := store_decode_capabilities (store_encode_capabilities (sr_capabilities r))\<rparr>)"

lemma reloaded_row: "contact_row r row \<Longrightarrow> sr_address r = k \<Longrightarrow> reloaded r (relationship_of_row k row)"
  by (cases r) (auto simp: contact_row_def reloaded_def relationship_of_row_def relationship_to_row_def)

definition restored :: "side_state \<Rightarrow> side_state \<Rightarrow> bool" where
  "restored s s' \<longleftrightarrow>
     sd_address s' = sd_address s \<and> sd_label s' = sd_label s \<and> sd_created_at s' = sd_created_at s \<and>
     sd_profile s' = sd_profile s \<and> sd_retired_seen s' = sd_retired_seen s \<and>
     sd_lifecycle s' = sd_lifecycle s \<and> sd_last_send_at s' = sd_last_send_at s \<and>
     sd_self_retired s' = sd_self_retired s \<and> sd_revoked s' = sd_revoked s \<and>
     map_of (sd_co_holders s') = map_of (sd_co_holders s) \<and> map_of (sd_addrs s') = map_of (sd_addrs s) \<and>
     (\<forall>a. rel_option reloaded (rel_get a (sd_relationships s)) (rel_get a (sd_relationships s')))"

lemma load_mirrored:
  assumes m: "mirrored C s"
  shows "\<exists>s'. load_or_create C (sd_key s) lbl now ok (sd_store s) = Inr s' \<and> restored s s' \<and> sd_pending s' = []"
proof -
  let ?a = "sd_address s" and ?st = "sd_store s"
  have key: "public_bytes C (sd_key s) = ?a" and row: "load_side ?a ?st = Some (side_row s)"
    and wf: "wf_map (st_relationships ?st)" "wf_map (st_co_holders ?st)" "wf_map (st_addrs ?st)"
    using m by (simp_all add: mirrored_def Let_def load_side_def)
  have prof: "load_profile C ?a ?st = Inr (sd_profile s)"
  proof (cases "sd_profile s")
    case None
    then show ?thesis using m by (simp add: mirrored_def Let_def load_profile_def)
  next
    case (Some p)
    then have "map_of (st_profiles ?st) ?a = Some (profile_to_wire p, pf_updated_at p)" "wf_profile C p"
      using m by (auto simp: mirrored_def Let_def option_rel_Some1)
    then show ?thesis by (simp add: load_profile_def profile_from_wire_iff [THEN iffD2] Some)
  qed
  define s' where "s' = projr (load_or_create C (sd_key s) lbl now ok ?st)"
  have s': "load_or_create C (sd_key s) lbl now ok ?st = Inr s'"
    by (simp add: s'_def load_or_create_def key row prof Let_def)
  have co: "map_of (sd_co_holders s') k = map_of (sd_co_holders s) k" for k
  proof -
    have "rel_option (\<lambda>c row. row = (ch_added_at c, ch_added_by c)) (map_of (sd_co_holders s) k) (map_of (st_co_holders ?st) (?a, k))"
      and "\<And>c. map_of (sd_co_holders s) k = Some c \<Longrightarrow> ch_device_pubkey c = k"
      using m by (simp_all add: mirrored_def Let_def mirrors_def)
    then show ?thesis
      by (cases "map_of (sd_co_holders s) k")
        (auto simp: s'_def load_or_create_def key row prof Let_def store_list_co_holders_def co_holder_load [OF wf(2)] option_rel_Some1)
  qed
  have ad: "map_of (sd_addrs s') k = map_of (sd_addrs s) k" for k
  proof -
    have "rel_option (\<lambda>addr row. fst row = addr) (map_of (sd_addrs s) k) (map_of (st_addrs ?st) (?a, k))"
      using m by (simp add: mirrored_def Let_def mirrors_def)
    then show ?thesis
      by (cases "map_of (sd_addrs s) k")
        (auto simp: s'_def load_or_create_def key row prof Let_def store_list_co_holder_addrs_def addr_load [OF wf(3)] option_rel_Some1)
  qed
  have re: "rel_option reloaded (rel_get k (sd_relationships s)) (rel_get k (sd_relationships s'))" for k
  proof -
    have "rel_option contact_row (map_of (sd_relationships s) k) (map_of (st_relationships ?st) (?a, k))"
      and "\<And>r. map_of (sd_relationships s) k = Some r \<Longrightarrow> sr_address r = k"
      using m by (simp_all add: mirrored_def Let_def mirrors_def)
    moreover have "rel_get k (sd_relationships s') = map_option (relationship_of_row k) (map_of (st_relationships ?st) (?a, k))"
      by (simp add: s'_def load_or_create_def key row prof Let_def rel_get_def list_relationships_def rel_load [OF wf(1)])
    ultimately show ?thesis
      by (cases "map_of (sd_relationships s) k")
        (auto simp: rel_get_def option_rel_Some1 reloaded_row)
  qed
  have "sd_retired_seen s' = set (map fst (select_of ?a (st_retired ?st)))"
    "sd_revoked s' = set (map fst (select_of ?a (st_revoked ?st)))"
    by (simp_all add: s'_def load_or_create_def key row prof Let_def list_retired_seen_def store_list_revoked_devices_def)
  moreover have "x \<in> sd_retired_seen s \<longleftrightarrow> map_of (st_retired ?st) (?a, x) \<noteq> None"
    "x \<in> sd_revoked s \<longleftrightarrow> map_of (st_revoked ?st) (?a, x) \<noteq> None" for x
    using m unfolding mirrored_def Let_def by blast+
  ultimately have "sd_retired_seen s' = sd_retired_seen s" "sd_revoked s' = sd_revoked s"
    unfolding set_eq_iff set_select by simp_all
  moreover have "sd_address s' = ?a" "sd_label s' = sd_label s" "sd_created_at s' = sd_created_at s" "sd_profile s' = sd_profile s"
    "sd_lifecycle s' = sd_lifecycle s" "sd_last_send_at s' = sd_last_send_at s" "sd_self_retired s' = sd_self_retired s" "sd_pending s' = []"
    by (simp_all add: s'_def load_or_create_def key row prof Let_def side_row_def)
  ultimately show ?thesis using s' co ad re by (auto simp: restored_def fun_eq_iff)
qed


section \<open>Restarts\<close>

definition store_empty :: side_store where
  "store_empty = \<lparr>st_settings = [], st_sides = [], st_profiles = [], st_retired = [], st_relationships = [],
     st_co_holders = [], st_revoked = [], st_addrs = [], st_memberships = []\<rparr>"

lemma mirrored_fresh:
  assumes "load_or_create C k lbl now True store_empty = Inr s"
  shows "mirrored C s \<and> sd_key s = k \<and> sd_relationships s = [] \<and> \<not> sd_self_retired s"
  using assms
  by (auto simp: load_or_create_def Let_def load_side_def store_empty_def mirrored_def mirrors_def upsert_side_def
      map_of_upsert side_row_def)

lemma key_step: "sd_key (side_step C op s) = sd_key s"
proof (cases op)
  case (ApplyDelta clk d)
  then show ?thesis by (cases d) (auto simp: side_ops Let_def split: sum.splits option.splits)
qed (simp_all add: side_ops Let_def)

lemma key_run: "sd_key (fold (side_step C) ops s) = sd_key s"
  by (induction ops arbitrary: s) (simp_all add: key_step)


definition restart_key :: side_key where
  "restart_key = \<lparr>seed = replicate 32 7, label = ''work''\<rparr>"


lemma set_insert_fold:
  assumes "sorted_wrt (<) (acc @ cs)"
  shows "fold set_insert cs acc = acc @ cs"
  using assms
proof (induction cs arbitrary: acc)
  case (Cons c cs)
  have "\<forall>y \<in> set acc. y < c" using Cons.prems by (simp add: sorted_wrt_append)
  then have "set_insert c acc = acc @ [c]" by (rule set_insert_last)
  then show ?case using Cons.IH [of "acc @ [c]"] Cons.prems by simp
qed simp

text \<open>Capability sets survive the text column when no token holds a newline and the set is not
  the one with just the empty token: the stored column gives back the same sorted set.\<close>

lemma capabilities_column_roundtrip:
  assumes "sorted_wrt (<) cs" "\<forall>c \<in> set cs. CAP_SEP \<notin> set c" "cs \<noteq> [[]]"
  shows "store_decode_capabilities (store_encode_capabilities cs) = cs"
proof (cases "cs = []")
  case False
  then show ?thesis
    using split_encoded [OF assms(2) False] set_insert_fold [of "[]" cs] assms(1,3) encoded_empty [of cs]
    by (simp add: store_decode_capabilities_def)
qed (simp add: store_decode_capabilities_def)

lemma capabilities_column_roundtrip_witness:
  "store_decode_capabilities (store_encode_capabilities [''direct-message'', ''gossip-relay'']) = [''direct-message'', ''gossip-relay'']"
  by (rule capabilities_column_roundtrip) (simp_all add: CAP_SEP_def less_char_def)

section \<open>A restart revives old contact updates\<close>

lemma added_time:
  assumes "load_or_create C k lbl now True store_empty = Inr s" "rr_address r2 = rr_address r1" "rr_added_at r1 \<le> rr_added_at r2"
    and s2_def: "s2 = apply_delta C clk2 (\<lambda>_. True) (DeltaRelationshipUpserted r2) (apply_delta C clk1 (\<lambda>_. True) (DeltaRelationshipUpserted r1) s)"
  shows "rel_get (rr_address r1) (sd_relationships s2) = Some (relationship_from_record r2) \<and>
    map_of (st_relationships (sd_store s2)) (sd_address s, rr_address r1) =
      Some ((relationship_to_row (relationship_from_record r2))\<lparr>row_added_at := rr_added_at r1\<rparr>) \<and>
    mirrored C s2 \<and> sd_key s2 = k \<and> sd_address s2 = sd_address s"
proof -
  have m: "mirrored C s" "sd_key s = k" "sd_relationships s = []" using mirrored_fresh [OF assms(1)] by simp_all
  have "map_of (st_relationships (sd_store s)) = Map.empty"
    using assms(1) by (auto simp: load_or_create_def Let_def load_side_def store_empty_def upsert_side_def)
  moreover have "mirrored C s2" unfolding s2_def by (intro mirrored_delta m(1))
  ultimately show ?thesis
    using m assms(2,3)
    by (simp add: s2_def add_relationship_def rel_get_def rel_insert_def relationship_from_record_def
        upsert_relationship_def map_of_upsert relationship_to_row_def Let_def)
qed

text \<open>A restart makes a side forget how recent its contacts are: after two updates of a contact, a
  third one that is older than the second is ignored, but after a restart the same update
  replaces the second, because the database keeps the time of the first.\<close>

lemma restart_revives_old_update:
  assumes "load_or_create C k lbl now True store_empty = Inr s"
    and "rr_address r2 = rr_address r1" "rr_address r3 = rr_address r1"
    and "rr_added_at r1 \<le> rr_added_at r3" "rr_added_at r3 < rr_added_at r2"
    and "s2 = apply_delta C clk2 (\<lambda>_. True) (DeltaRelationshipUpserted r2) (apply_delta C clk1 (\<lambda>_. True) (DeltaRelationshipUpserted r1) s)"
    and "load_or_create C k lbl' now' ok (sd_store s2) = Inr s'"
  shows "rel_get (rr_address r1) (sd_relationships (apply_delta C clk3 io (DeltaRelationshipUpserted r3) s2)) =
      Some (relationship_from_record r2) \<and>
    rel_get (rr_address r1) (sd_relationships (apply_delta C clk3 io (DeltaRelationshipUpserted r3) s')) =
      Some (relationship_from_record r3)"
proof -
  have le: "rr_added_at r1 \<le> rr_added_at r2" using assms(4,5) by simp
  note t = added_time [OF assms(1,2) le assms(6)]
  have "\<exists>t. rel_get (rr_address r1) (sd_relationships s') = Some t \<and> sr_added_at t = rr_added_at r1"
  proof -
    have key: "public_bytes C k = sd_address s2" and row: "load_side (sd_address s2) (sd_store s2) = Some (side_row s2)"
      and wf: "wf_map (st_relationships (sd_store s2))"
      using t by (auto simp: mirrored_def Let_def load_side_def)
    have "sd_relationships s' = fold rel_insert (list_relationships (sd_address s2) (sd_store s2)) []"
      using assms(7) by (auto simp: load_or_create_def key row Let_def and_then_eq_Inr)
    then have "rel_get (rr_address r1) (sd_relationships s') = map_option (relationship_of_row (rr_address r1))
        (map_of (st_relationships (sd_store s2)) (sd_address s2, rr_address r1))"
      by (simp add: rel_get_def list_relationships_def rel_load [OF wf])
    then show ?thesis using t by (simp add: relationship_of_row_def)
  qed
  then show ?thesis
    using t assms(3-5) by (auto simp: relationship_from_record_def add_relationship_def rel_get_insert Let_def)
qed


definition contact_record :: "u64 \<Rightarrow> string \<Rightarrow> relationship_record" where
  "contact_record t name = \<lparr>rr_address = [5], rr_nickname = Some name, rr_introduced_by = None,
     rr_capabilities = [], rr_notes = None, rr_pinned = False, rr_added_at = t\<rparr>"

lemma restart_revives_old_update_witness:
  "\<exists>s2 s'. load_or_create sample_crypto restart_key None 9 True (sd_store s2) = Inr s' \<and>
     rel_get [5] (sd_relationships (apply_delta sample_crypto (\<lambda>_. 0) (\<lambda>_. True)
       (DeltaRelationshipUpserted (contact_record 20 ''old'')) s2)) = Some (relationship_from_record (contact_record 30 ''new'')) \<and>
     rel_get [5] (sd_relationships (apply_delta sample_crypto (\<lambda>_. 0) (\<lambda>_. True)
       (DeltaRelationshipUpserted (contact_record 20 ''old'')) s')) = Some (relationship_from_record (contact_record 20 ''old''))"
proof -
  obtain s where s: "load_or_create sample_crypto restart_key None 1 True store_empty = Inr s"
    by (simp add: load_or_create_def load_side_def store_empty_def Let_def)
  define s2 where "s2 = apply_delta sample_crypto (\<lambda>_. 0) (\<lambda>_. True) (DeltaRelationshipUpserted (contact_record 30 ''new''))
    (apply_delta sample_crypto (\<lambda>_. 0) (\<lambda>_. True) (DeltaRelationshipUpserted (contact_record 10 ''first'')) s)"
  have "mirrored sample_crypto s2" "sd_key s2 = restart_key"
    using added_time [OF s _ _ s2_def] by (simp_all add: contact_record_def)
  from load_mirrored [OF this(1), of None 9 True] this(2)
  obtain s' where s': "load_or_create sample_crypto restart_key None 9 True (sd_store s2) = Inr s'" by auto
  from restart_revives_old_update [OF s _ _ _ _ s2_def s', of "contact_record 20 ''old''" "\<lambda>_. 0" "\<lambda>_. True"]
  show ?thesis by (intro exI [of _ s2] exI [of _ s'] conjI s') (simp_all add: contact_record_def)
qed

end
