(* ===== verification/Linkage.thy ===== *)
theory Linkage
  imports Codec Keys
begin

text \<open>
  Linkage proofs, \<open>sidevers-core/src/linkage.rs\<close>: a record naming two sides and signed by
  both. The decoder accepts exactly the encodings of proofs whose two signatures verify.
\<close>

definition LINKAGE_NONCE_LEN :: nat where "LINKAGE_NONCE_LEN = 16"

record linkage_proof =
  lp_side_a :: "byte list"
  lp_side_b :: "byte list"
  lp_issued_at :: u64
  lp_nonce :: "byte list"
  lp_sig_a :: "byte list"
  lp_sig_b :: "byte list"

definition linkage_unsigned_entries :: "byte list \<Rightarrow> byte list \<Rightarrow> byte list \<Rightarrow> u64 \<Rightarrow> map_entry list" where
  "linkage_unsigned_entries nonce side_a side_b issued_at =
     [(cbor_key ''nonce'', cbor_bytes nonce),
      (cbor_key ''side_a'', cbor_bytes side_a),
      (cbor_key ''side_b'', cbor_bytes side_b),
      (cbor_key ''issued_at'', cbor_uint issued_at)]"

definition linkage_unsigned :: "byte list \<Rightarrow> byte list \<Rightarrow> byte list \<Rightarrow> u64 \<Rightarrow> byte list" where
  "linkage_unsigned nonce side_a side_b issued_at =
     encode_map (linkage_unsigned_entries nonce side_a side_b issued_at)"

definition linkage_sign_with :: "crypto \<Rightarrow> side_key \<Rightarrow> side_key \<Rightarrow> u64 \<Rightarrow> byte list \<Rightarrow> linkage_proof" where
  "linkage_sign_with C a b issued_at nonce =
     (let a_pk = public_bytes C a; b_pk = public_bytes C b;
          digest = blake3 C (linkage_unsigned nonce a_pk b_pk issued_at)
      in \<lparr>lp_side_a = a_pk, lp_side_b = b_pk, lp_issued_at = issued_at, lp_nonce = nonce,
          lp_sig_a = side_sign C a digest, lp_sig_b = side_sign C b digest\<rparr>)"

definition linkage_entries :: "linkage_proof \<Rightarrow> map_entry list" where
  "linkage_entries p =
     [(cbor_key ''nonce'', cbor_bytes (lp_nonce p)),
      (cbor_key ''sig_a'', cbor_bytes (lp_sig_a p)),
      (cbor_key ''sig_b'', cbor_bytes (lp_sig_b p)),
      (cbor_key ''side_a'', cbor_bytes (lp_side_a p)),
      (cbor_key ''side_b'', cbor_bytes (lp_side_b p)),
      (cbor_key ''issued_at'', cbor_uint (lp_issued_at p))]"

definition linkage_to_wire :: "linkage_proof \<Rightarrow> byte list" where
  "linkage_to_wire p = encode_map (linkage_entries p)"

definition linkage_fields :: "cbor_reader \<Rightarrow> (linkage_proof \<times> cbor_reader) result" where
  "linkage_fields r = (let msg = ''LinkageProof keys not in canonical order'' in
     and_then (read_field ''nonce'' msg (read_fixed ''nonce'' LINKAGE_NONCE_LEN) r) (\<lambda>(nonce, r).
     and_then (read_field ''sig_a'' msg (read_fixed ''sig_a'' SIGNATURE_LEN) r) (\<lambda>(sig_a, r).
     and_then (read_field ''sig_b'' msg (read_fixed ''sig_b'' SIGNATURE_LEN) r) (\<lambda>(sig_b, r).
     and_then (read_field ''side_a'' msg (read_fixed ''side_a'' PUBLIC_KEY_LEN) r) (\<lambda>(side_a, r).
     and_then (read_field ''side_b'' msg (read_fixed ''side_b'' PUBLIC_KEY_LEN) r) (\<lambda>(side_b, r).
     and_then (read_field ''issued_at'' msg read_u64 r) (\<lambda>(issued_at, r).
     Inr (\<lparr>lp_side_a = side_a, lp_side_b = side_b, lp_issued_at = issued_at, lp_nonce = nonce,
          lp_sig_a = sig_a, lp_sig_b = sig_b\<rparr>, r))))))))"

definition linkage_tbs :: "linkage_proof \<Rightarrow> byte list" where
  "linkage_tbs p = linkage_unsigned (lp_nonce p) (lp_side_a p) (lp_side_b p) (lp_issued_at p)"

definition linkage_from_wire :: "crypto \<Rightarrow> byte list \<Rightarrow> linkage_proof result" where
  "linkage_from_wire C bs =
     and_then (decode_all ''trailing bytes after LinkageProof''
       (read_map 6 ''LinkageProof expected 6 keys'' linkage_fields) bs) (\<lambda>p.
     and_then (check_signature C (lp_side_a p) (linkage_tbs p) (lp_sig_a p)) (\<lambda>_.
     and_then (check_signature C (lp_side_b p) (linkage_tbs p) (lp_sig_b p)) (\<lambda>_.
     if linkage_to_wire p \<noteq> bs then Inl (CborNotCanonical ''LinkageProof bytes are not canonical re-encode'')
     else Inr p)))"

section \<open>The decoder\<close>

definition wf_linkage_fields :: "linkage_proof \<Rightarrow> bool" where
  [wf_defs]: "wf_linkage_fields p \<longleftrightarrow> wf_fixed 16 (lp_nonce p) \<and> wf_fixed 64 (lp_sig_a p) \<and>
     wf_fixed 64 (lp_sig_b p) \<and> wf_fixed 32 (lp_side_a p) \<and> wf_fixed 32 (lp_side_b p)"

definition wf_linkage :: "crypto \<Rightarrow> linkage_proof \<Rightarrow> bool" where
  "wf_linkage C p \<longleftrightarrow> wf_linkage_fields p \<and>
     ed_point_ok C (lp_side_a p) \<and> ed_verify C (lp_side_a p) (blake3 C (linkage_tbs p)) (lp_sig_a p) \<and>
     ed_point_ok C (lp_side_b p) \<and> ed_verify C (lp_side_b p) (blake3 C (linkage_tbs p)) (lp_sig_b p)"

lemma linkage_map_codec: "wire_codec linkage_to_wire (read_map 6 msg linkage_fields) wf_linkage_fields"
  unfolding linkage_to_wire_def [abs_def]
  by (rule map_codecI,
      (auto simp: and_then_eq_Inr literal_key wire_iff linkage_fields_def Let_def linkage_entries_def wf_linkage_fields_def
        LINKAGE_NONCE_LEN_def cbor_key_text)[1],
      simp_all add: literal_key wire_write linkage_fields_def Let_def linkage_entries_def wf_linkage_fields_def
        LINKAGE_NONCE_LEN_def cbor_key_text)

lemma linkage_from_wire_iff:
  "linkage_from_wire C bs = Inr p \<longleftrightarrow> wf_linkage C p \<and> bs = linkage_to_wire p"
  by (auto simp: linkage_from_wire_def and_then_eq_Inr decode_all_iff [OF linkage_map_codec] wf_linkage_def
      split: if_splits)

interpretation linkage_msg: strict_message linkage_to_wire "linkage_from_wire C" "wf_linkage C"
  by (rule strict_messageI) (rule linkage_from_wire_iff)

lemma linkage_sign_wf:
  assumes "signature_laws C" "wf_side a" "wf_side b" "length nonce = 16"
  shows "wf_linkage C (linkage_sign_with C a b ts nonce)"
  using assms signed_by_side [OF assms(1,2)] signed_by_side [OF assms(1,3)]
  by (simp add: wf_linkage_def linkage_sign_with_def Let_def wf_linkage_fields_def linkage_tbs_def wf_fixed_def)

section \<open>Properties\<close>

text \<open>The linkage decoder accepts a byte string iff it is the canonical encoding of a proof
  whose two signatures verify, each under its own side's key and over the same body.\<close>
lemma linkage_exact:
  "linkage_from_wire C bs = Inr p \<longleftrightarrow> bs = linkage_to_wire p \<and> wf_linkage_fields p \<and>
     ed_point_ok C (lp_side_a p) \<and> ed_verify C (lp_side_a p) (blake3 C (linkage_tbs p)) (lp_sig_a p) \<and>
     ed_point_ok C (lp_side_b p) \<and> ed_verify C (lp_side_b p) (blake3 C (linkage_tbs p)) (lp_sig_b p)"
  by (auto simp: linkage_from_wire_iff wf_linkage_def)

text \<open>A proof signed by two sides is accepted by everybody.\<close>
lemma linkage_sign_accepted:
  assumes "signature_laws C" "length (seed a) = 32" "length (seed b) = 32" "length nonce = 16"
  shows "linkage_from_wire C (linkage_to_wire (linkage_sign_with C a b ts nonce)) =
    Inr (linkage_sign_with C a b ts nonce)"
  using linkage_sign_wf [OF assms(1), of a b nonce ts] assms(2-4)
  by (simp add: linkage_from_wire_iff wf_side_def)

lemma linkage_sign_accepted_witness:
  "linkage_from_wire sample_crypto (linkage_to_wire (linkage_sign_with sample_crypto
       \<lparr>seed = replicate 32 1, label = ''a''\<rparr> \<lparr>seed = replicate 32 2, label = ''b''\<rparr> 9 (replicate 16 0))) =
     Inr (linkage_sign_with sample_crypto \<lparr>seed = replicate 32 1, label = ''a''\<rparr>
       \<lparr>seed = replicate 32 2, label = ''b''\<rparr> 9 (replicate 16 0))"
  by (rule linkage_sign_accepted [OF sample_signature_laws]) simp_all

end
