(* ===== verification/QrCodes.thy ===== *)
theory QrCodes
  imports DeviceMessages
begin

text \<open>
  The three QR codes of \<open>messages/device.rs\<close>: pairing, contact card and group invite, with the
  inline base32 codec they share. The bit buffers of the codec are 32-bit words, as in the
  source. A text is its UTF-8 bytes: a character outside the alphabet is refused whether it is
  looked up whole or byte by byte.
\<close>

unbundle bit_operations_syntax

section \<open>Base32\<close>

definition BASE32_ALPHABET :: string where
  "BASE32_ALPHABET = ''abcdefghijklmnopqrstuvwxyz234567''"

fun position :: "'a \<Rightarrow> 'a list \<Rightarrow> nat option" where
  "position x [] = None"
| "position x (y # ys) = (if y = x then Some 0 else map_option Suc (position x ys))"

text \<open>The inner \<open>while bits >= 5\<close>.\<close>

fun emit_symbols :: "u32 \<Rightarrow> nat \<Rightarrow> string \<times> nat" where
  "emit_symbols buffer bits =
     (if 5 \<le> bits then
        (let bits = bits - 5; idx = unat (drop_bit bits buffer AND 0x1F);
             (s, rest) = emit_symbols buffer bits
         in ((BASE32_ALPHABET ! idx) # s, rest))
      else ([], bits))"

declare emit_symbols.simps [simp del]

fun base32_encode_loop :: "byte list \<Rightarrow> u32 \<Rightarrow> nat \<Rightarrow> string" where
  "base32_encode_loop [] buffer bits =
     (if 0 < bits then [BASE32_ALPHABET ! unat (push_bit (5 - bits) buffer AND 0x1F)] else [])"
| "base32_encode_loop (b # bs) buffer bits =
     (let buffer = push_bit 8 buffer OR ucast b; (s, bits) = emit_symbols buffer (bits + 8)
      in s @ base32_encode_loop bs buffer bits)"

definition base32_encode :: "byte list \<Rightarrow> string" where
  "base32_encode input = base32_encode_loop input 0 0"

fun base32_decode_loop :: "string \<Rightarrow> u32 \<Rightarrow> nat \<Rightarrow> byte list \<Rightarrow> byte list option" where
  "base32_decode_loop [] buffer bits out = Some out"
| "base32_decode_loop (c # cs) buffer bits out = (case position c BASE32_ALPHABET of
     None \<Rightarrow> None
   | Some idx \<Rightarrow>
       (let buffer = push_bit 5 buffer OR word_of_nat idx; bits = bits + 5 in
        if 8 \<le> bits then
          (let bits = bits - 8 in
           base32_decode_loop cs (buffer AND (push_bit bits 1 - 1)) bits (out @ [ucast (drop_bit bits buffer)]))
        else base32_decode_loop cs buffer bits out))"

definition base32_decode :: "string \<Rightarrow> byte list option" where
  "base32_decode input = base32_decode_loop input 0 0 []"

subsection \<open>Bit strings\<close>

text \<open>The low \<open>k\<close> bits of a word, most significant first.\<close>

primrec low_bits :: "nat \<Rightarrow> 'a::len word \<Rightarrow> bool list" where
  "low_bits 0 w = []"
| "low_bits (Suc k) w = bit w k # low_bits k w"

lemma length_low_bits [simp]: "length (low_bits k w) = k"
  by (induction k) auto

lemma low_bits_cong: "(\<And>i. i < k \<Longrightarrow> bit v i = bit w i) \<Longrightarrow> low_bits k v = low_bits k w"
  by (induction k) auto

lemma low_bits_eq_iff: "low_bits k v = low_bits k w \<longleftrightarrow> (\<forall>i < k. bit v i = bit w i)"
  by (induction k) (auto simp: less_Suc_eq)

lemma low_bits_split: "low_bits (k + m) w = low_bits k (drop_bit m w) @ low_bits m w"
  by (induction k) (auto simp: bit_simps add.commute)

lemma low_bits_append:
  assumes "k + m \<le> 32" "\<And>i. m \<le> i \<Longrightarrow> \<not> bit v i"
  shows "low_bits (k + m) (push_bit m buffer OR v) = low_bits k (buffer :: u32) @ low_bits m (v :: u32)"
proof -
  have "low_bits k (drop_bit m (push_bit m buffer OR v)) = low_bits k buffer"
    using assms by (intro low_bits_cong) (auto simp: bit_simps)
  moreover have "low_bits m (push_bit m buffer OR v) = low_bits m v"
    by (intro low_bits_cong) (auto simp: bit_simps)
  ultimately show ?thesis by (simp add: low_bits_split)
qed

lemma low_bits_mask: "low_bits k (w AND (push_bit k 1 - 1)) = low_bits k (w :: u32)"
proof -
  have "push_bit k 1 - 1 = (mask k :: u32)" by (simp add: mask_eq_decr_exp push_bit_eq_mult)
  then show ?thesis by (intro low_bits_cong) (auto simp: bit_simps dest: bit_imp_le_length)
qed

lemma low_bits_byte_inj: "low_bits 8 a = low_bits 8 b \<Longrightarrow> a = (b :: byte)"
  by (rule bit_word_eqI) (simp add: low_bits_eq_iff)

lemma low_bits_ucast_byte: "low_bits 8 (ucast (w :: u32) :: byte) = low_bits 8 w"
  by (intro low_bits_cong) (simp add: bit_simps)

lemma low_bits_byte_ucast: "low_bits 8 (ucast b :: u32) = low_bits 8 (b :: byte)"
  by (intro low_bits_cong) (simp add: bit_simps)

subsection \<open>Symbols\<close>

lemma position_nth: "distinct xs \<Longrightarrow> i < length xs \<Longrightarrow> position (xs ! i) xs = Some i"
proof (induction xs arbitrary: i)
  case Nil
  then show ?case by simp
next
  case (Cons x xs)
  then show ?case by (cases i) auto
qed

lemma alphabet: "distinct BASE32_ALPHABET" "length BASE32_ALPHABET = 32"
  by (simp_all add: BASE32_ALPHABET_def)

lemma symbol_index: "i < 32 \<Longrightarrow> position (BASE32_ALPHABET ! i) BASE32_ALPHABET = Some i"
  using alphabet by (simp add: position_nth)

text \<open>The bits a list of symbol indices stands for.\<close>

definition symbol_bits :: "nat list \<Rightarrow> bool list" where
  "symbol_bits syms = concat (map (\<lambda>i. low_bits 5 (word_of_nat i :: u32)) syms)"

definition byte_bits :: "byte list \<Rightarrow> bool list" where
  "byte_bits bs = concat (map (low_bits 8) bs)"

lemma symbol_bits_simps [simp]:
  "symbol_bits [] = []" "symbol_bits (i # syms) = low_bits 5 (word_of_nat i :: u32) @ symbol_bits syms"
  "symbol_bits (syms @ js) = symbol_bits syms @ symbol_bits js"
  by (simp_all add: symbol_bits_def)

lemma byte_bits_simps [simp]: "byte_bits [] = []" "byte_bits (b # bs) = low_bits 8 b @ byte_bits bs"
  by (simp_all add: byte_bits_def)

lemma mask_index:
  fixes w :: u32
  shows "unat (w AND 0x1F) < 32" "low_bits 5 (word_of_nat (unat (w AND 0x1F)) :: u32) = low_bits 5 w"
proof -
  have m: "(0x1F :: u32) = mask 5" by (simp add: mask_eq_exp_minus_1)
  have "unat (w AND 0x1F) = unat w mod 2 ^ 5"
    unfolding m by (simp add: take_bit_eq_mod unat_mod flip: take_bit_eq_mask)
  then show "unat (w AND 0x1F) < 32" by simp
  have "low_bits 5 (w AND 0x1F) = low_bits 5 w"
    unfolding m by (intro low_bits_cong) (simp add: bit_simps)
  then show "low_bits 5 (word_of_nat (unat (w AND 0x1F)) :: u32) = low_bits 5 w" by simp
qed

lemma emit_symbols_bits:
  "\<exists>syms. fst (emit_symbols buffer n) = map ((!) BASE32_ALPHABET) syms \<and> (\<forall>i \<in> set syms. i < 32) \<and>
     snd (emit_symbols buffer n) < 5 \<and>
     low_bits n buffer = symbol_bits syms @ low_bits (snd (emit_symbols buffer n)) buffer"
proof (induction n rule: less_induct)
  case (less n)
  show ?case
  proof (cases "5 \<le> n")
    case True
    let ?i = "unat (drop_bit (n - 5) buffer AND 0x1F)"
    from True less [of "n - 5"] obtain syms where h: "fst (emit_symbols buffer (n - 5)) = map ((!) BASE32_ALPHABET) syms"
      "\<forall>i \<in> set syms. i < 32" "snd (emit_symbols buffer (n - 5)) < 5"
      "low_bits (n - 5) buffer = symbol_bits syms @ low_bits (snd (emit_symbols buffer (n - 5))) buffer"
      by auto
    have e: "emit_symbols buffer n = (BASE32_ALPHABET ! ?i # fst (emit_symbols buffer (n - 5)),
        snd (emit_symbols buffer (n - 5)))"
      using True by (simp add: emit_symbols.simps [of buffer n] Let_def split_beta)
    have "low_bits n buffer = low_bits 5 (drop_bit (n - 5) buffer) @ low_bits (n - 5) buffer"
      using True low_bits_split [of 5 "n - 5" buffer] by simp
    then show ?thesis
      using h mask_index [of "drop_bit (n - 5) buffer"] unfolding e
      by (intro exI [of _ "?i # syms"]) simp
  next
    case False
    then have "emit_symbols buffer n = ([], n)" by (simp add: emit_symbols.simps [of buffer n])
    then show ?thesis using False by (intro exI [of _ "[]"]) simp
  qed
qed

subsection \<open>Encoding and decoding\<close>

lemma encode_loop_bits:
  "n < 5 \<Longrightarrow> \<exists>syms z. base32_encode_loop bs buffer n = map ((!) BASE32_ALPHABET) syms \<and> (\<forall>i \<in> set syms. i < 32) \<and>
     symbol_bits syms = low_bits n buffer @ byte_bits bs @ z \<and> length z < 5"
proof (induction bs arbitrary: buffer n)
  case Nil
  show ?case
  proof (cases "0 < n")
    case True
    let ?w = "push_bit (5 - n) buffer"
    have "low_bits 5 ?w = low_bits n (drop_bit (5 - n) ?w) @ low_bits (5 - n) ?w"
      using Nil low_bits_split [of n "5 - n" ?w] by simp
    moreover have "low_bits n (drop_bit (5 - n) ?w) = low_bits n buffer"
      using Nil by (intro low_bits_cong) (auto simp: bit_simps)
    ultimately show ?thesis
      using True Nil mask_index [of ?w]
      by (intro exI [of _ "[unat (?w AND 0x1F)]"] exI [of _ "low_bits (5 - n) ?w"]) simp
  next
    case False
    then show ?thesis by (intro exI [of _ "[]"]) simp
  qed
next
  case (Cons b bs)
  let ?buf = "push_bit 8 buffer OR ucast b"
  let ?e = "emit_symbols ?buf (n + 8)"
  obtain syms where i: "fst ?e = map ((!) BASE32_ALPHABET) syms" "\<forall>i \<in> set syms. i < 32" "snd ?e < 5"
      "low_bits (n + 8) ?buf = symbol_bits syms @ low_bits (snd ?e) ?buf"
    using emit_symbols_bits [of ?buf "n + 8"] by blast
  obtain js z where j: "base32_encode_loop bs ?buf (snd ?e) = map ((!) BASE32_ALPHABET) js" "\<forall>i \<in> set js. i < 32"
      "symbol_bits js = low_bits (snd ?e) ?buf @ byte_bits bs @ z" "length z < 5"
    using Cons.IH [OF i(3), of ?buf] by blast
  have "low_bits (n + 8) ?buf = low_bits n buffer @ low_bits 8 b"
    using Cons.prems by (subst low_bits_append) (auto simp: bit_simps low_bits_byte_ucast dest: bit_imp_le_length)
  then have "symbol_bits (syms @ js) = low_bits n buffer @ byte_bits (b # bs) @ z"
    using i(4) j(3) by simp
  then show ?case using i j
    by (intro exI [of _ "syms @ js"] exI [of _ z]) (auto simp: Let_def split_beta)
qed

lemma decode_loop_bits:
  "d < 8 \<Longrightarrow> \<forall>i \<in> set syms. i < 32 \<Longrightarrow> low_bits d buffer @ symbol_bits syms = byte_bits bs @ rest \<Longrightarrow>
   length rest < 8 \<Longrightarrow> base32_decode_loop (map ((!) BASE32_ALPHABET) syms) buffer d out = Some (out @ bs)"
proof (induction syms arbitrary: buffer d out bs)
  case Nil
  then have "length (byte_bits bs @ rest) < 8" by (metis append_Nil2 length_low_bits symbol_bits_simps(1))
  then show ?case by (cases bs) simp_all
next
  case (Cons i syms)
  let ?buf = "push_bit 5 buffer OR word_of_nat i :: u32"
  have i: "i < 32" using Cons.prems(2) by simp
  have "\<not> bit (word_of_nat i :: u32) k" if "5 \<le> k" for k
  proof -
    have "i < 2 ^ k" using i power_increasing [OF that, of "2 :: nat"] by simp
    then have "\<not> bit i k" by (simp add: bit_iff_odd)
    then show ?thesis by (simp add: bit_simps)
  qed
  then have b: "low_bits (d + 5) ?buf = low_bits d buffer @ low_bits 5 (word_of_nat i :: u32)"
    using Cons.prems(1) by (intro low_bits_append) auto
  then have eq: "low_bits (d + 5) ?buf @ symbol_bits syms = byte_bits bs @ rest"
    using Cons.prems(3) by simp
  show ?case
  proof (cases "8 \<le> d + 5")
    case False
    then have "base32_decode_loop (map ((!) BASE32_ALPHABET) syms) ?buf (d + 5) out = Some (out @ bs)"
      using Cons.IH [of "d + 5" ?buf bs] eq Cons.prems by simp
    then show ?thesis using False i by (simp add: symbol_index Let_def)
  next
    case True
    then have len: "8 \<le> length (byte_bits bs @ rest)" using arg_cong [OF eq, of length] by simp
    then obtain c cs where bs: "bs = c # cs" using Cons.prems(4) by (cases bs) auto
    have sp: "low_bits (d + 5) ?buf = low_bits 8 (drop_bit (d - 3) ?buf) @ low_bits (d - 3) ?buf"
    proof -
      have "d + 5 = 8 + (d - 3)" using True by simp
      then show ?thesis by (simp only: low_bits_split)
    qed
    then have "low_bits 8 c = low_bits 8 (drop_bit (d - 3) ?buf)"
        and r: "low_bits (d - 3) ?buf @ symbol_bits syms = byte_bits cs @ rest"
      using eq bs by simp_all
    then have c: "ucast (drop_bit (d - 3) ?buf) = c"
      by (intro low_bits_byte_inj) (simp only: low_bits_ucast_byte)
    have "base32_decode_loop (map ((!) BASE32_ALPHABET) syms) (?buf AND (push_bit (d - 3) 1 - 1)) (d - 3) (out @ [c]) =
        Some ((out @ [c]) @ cs)"
      using Cons.prems r by (intro Cons.IH) (simp_all only: low_bits_mask, simp_all)
    moreover have "d + 5 - 8 = d - 3" by simp
    ultimately show ?thesis using True i c bs
      by (simp add: symbol_index Let_def)
  qed
qed

lemma base32_decode_encode: "base32_decode (base32_encode bs) = Some bs"
proof -
  obtain syms z where "base32_encode_loop bs 0 0 = map ((!) BASE32_ALPHABET) syms" "\<forall>i \<in> set syms. i < 32"
      "symbol_bits syms = byte_bits bs @ z" "length z < 5"
    using encode_loop_bits [of 0 bs 0] by auto
  then show ?thesis
    using decode_loop_bits [of 0 syms 0 bs z "[]"] by (simp add: base32_encode_def base32_decode_def)
qed

section \<open>Length-prefixed texts\<close>

lemma char_byte_comp [simp]: "byte_of_char \<circ> char_of_byte = id" "char_of_byte \<circ> byte_of_char = id"
  by (simp_all add: fun_eq_iff)

text \<open>A \<open>u16\<close> big-endian length (the cast \<open>as u16\<close> wraps) and the bytes of the text.\<close>

definition lp_string :: "string \<Rightarrow> byte list" where
  "lp_string s = be_bytes 2 (length s) @ text_bytes s"

text \<open>\<open>u16::from_be_bytes([bytes[p], bytes[p + 1]])\<close>.\<close>

definition u16_at :: "byte list \<Rightarrow> nat \<Rightarrow> nat" where
  "u16_at bytes p = be_val (take 2 (drop p bytes))"

lemma u16_at_bound: "u16_at bytes p < 65536"
proof -
  have "u16_at bytes p < 256 ^ length (take 2 (drop p bytes))" unfolding u16_at_def by (rule be_val_bound)
  also have "\<dots> \<le> 256 ^ 2" by (rule power_increasing) simp_all
  finally show ?thesis by simp
qed

definition read_lp_string :: "byte list \<Rightarrow> nat \<Rightarrow> nat \<Rightarrow> string \<Rightarrow> (string \<times> nat) result" where
  "read_lp_string bytes p max_len field =
     (if length bytes < p + 2 then Inl (CborDecode (field @ '': missing length''))
      else (let len = u16_at bytes p; start = p + 2; stop = start + len in
        if length bytes < stop then Inl (CborDecode (field @ '': truncated body''))
        else if max_len < len then Inl (CborDecode (field @ '': oversized''))
        else (let slice = take len (drop start bytes) in
          if utf8_valid slice then Inr (bytes_text slice, stop)
          else Inl (CborDecode (field @ '': not utf-8'')))))"

definition wf_lp :: "nat \<Rightarrow> string \<Rightarrow> bool" where
  "wf_lp max_len s \<longleftrightarrow> length s \<le> max_len \<and> utf8_valid (text_bytes s)"

lemma read_lp_string_iff:
  assumes "max_len < 65536"
  shows "read_lp_string (pre @ s) (length pre) max_len field = Inr (t, p) \<longleftrightarrow>
    wf_lp max_len t \<and> (\<exists>suf. s = lp_string t @ suf \<and> p = length (pre @ lp_string t))" (is "?L \<longleftrightarrow> ?R")
proof
  assume ?L
  then have h: "2 \<le> length s" "2 + be_val (take 2 s) \<le> length s" "be_val (take 2 s) \<le> max_len"
      "utf8_valid (take (be_val (take 2 s)) (drop 2 s))" "t = bytes_text (take (be_val (take 2 s)) (drop 2 s))"
      "p = length pre + 2 + be_val (take 2 s)"
    by (simp_all add: read_lp_string_def u16_at_def Let_def split: if_splits)
  have l: "length t = be_val (take 2 s)" using h(2,5) by simp
  have "take 2 s = be_bytes 2 (length t)"
    using be_bytes_be_val [of "take 2 s"] h(1) l by simp
  moreover have "take (be_val (take 2 s)) (drop 2 s) = text_bytes t" using h(5) by (simp add:)
  moreover have "s = take 2 s @ take (be_val (take 2 s)) (drop 2 s) @ drop (be_val (take 2 s)) (drop 2 s)"
    by (metis append_take_drop_id)
  ultimately have "s = lp_string t @ drop (be_val (take 2 s)) (drop 2 s)"
    by (simp add: lp_string_def)
  then show ?R using h l by (auto simp: wf_lp_def lp_string_def)
next
  assume ?R
  then obtain suf where r: "wf_lp max_len t" "s = lp_string t @ suf" "p = length (pre @ lp_string t)" by blast
  have "be_val (be_bytes 2 (length t)) = length t"
    using r(1) assms by (simp add: be_val_be_bytes wf_lp_def)
  then show ?L using r by (simp add: read_lp_string_def u16_at_def lp_string_def wf_lp_def Let_def)
qed

definition strip_prefix :: "string \<Rightarrow> string \<Rightarrow> string option" where
  "strip_prefix p s = (if take (length p) s = p then Some (drop (length p) s) else None)"

lemma strip_prefix_append [simp]: "strip_prefix p (p @ s) = Some s"
  by (simp add: strip_prefix_def)

text \<open>What the three parsers share: the scheme, the base32 payload and its version byte.\<close>

definition qr_payload :: "string \<Rightarrow> string \<Rightarrow> byte \<Rightarrow> string \<Rightarrow> byte list result" where
  "qr_payload scheme name version s = (case strip_prefix scheme s of
     None \<Rightarrow> Inl (CborDecode (name @ '': missing scheme prefix''))
   | Some rest \<Rightarrow> (case base32_decode rest of
       None \<Rightarrow> Inl (CborDecode (name @ '': bad base32''))
     | Some bytes \<Rightarrow>
         if bytes = [] \<or> bytes ! 0 \<noteq> version then Inl (CborDecode (name @ '': bad version''))
         else Inr bytes))"

lemma qr_payload_encode:
  "qr_payload scheme name v (scheme @ base32_encode (v # bs)) = Inr (v # bs)"
  by (simp add: qr_payload_def base32_decode_encode)

lemma qr_payload_version: "qr_payload scheme name v s = Inr bytes \<Longrightarrow> \<exists>bs. bytes = v # bs"
  by (cases bytes) (auto simp: qr_payload_def split: option.splits if_splits)

section \<open>Pairing code\<close>

record pairing_qr =
  qp_side :: "byte list"
  qp_nonce :: "byte list"
  qp_dial_addr :: string

definition QR_VERSION :: byte where "QR_VERSION = 1"
definition QR_SCHEME_PREFIX :: string where "QR_SCHEME_PREFIX = ''sidevers-pair:1:''"

definition encode_pairing_qr :: "pairing_qr \<Rightarrow> string" where
  "encode_pairing_qr q = QR_SCHEME_PREFIX @
     base32_encode ([QR_VERSION] @ qp_side q @ qp_nonce q @ lp_string (qp_dial_addr q))"

definition pairing_from_bytes :: "byte list \<Rightarrow> pairing_qr result" where
  "pairing_from_bytes bytes =
     (if length bytes < 1 + 32 + PAIRING_NONCE_LEN + 2 then Inl (CborDecode ''pairing QR: truncated'')
      else (let side = take 32 (drop 1 bytes); nonce = take PAIRING_NONCE_LEN (drop 33 bytes);
               len_pos = 33 + PAIRING_NONCE_LEN; addr_len = u16_at bytes len_pos;
               addr_start = len_pos + 2; addr = drop addr_start bytes in
       if length bytes \<noteq> addr_start + addr_len then Inl (CborDecode ''pairing QR: addr length mismatch'')
       else if \<not> utf8_valid addr then Inl (CborDecode ''pairing QR: addr not utf-8'')
       else Inr \<lparr>qp_side = side, qp_nonce = nonce, qp_dial_addr = bytes_text addr\<rparr>))"

definition parse_pairing_qr :: "string \<Rightarrow> pairing_qr result" where
  "parse_pairing_qr s =
     and_then (qr_payload QR_SCHEME_PREFIX ''pairing QR'' QR_VERSION s) pairing_from_bytes"

definition wf_pairing_qr :: "pairing_qr \<Rightarrow> bool" where
  "wf_pairing_qr q \<longleftrightarrow> length (qp_side q) = 32 \<and> length (qp_nonce q) = PAIRING_NONCE_LEN \<and>
     length (qp_dial_addr q) < 65536 \<and> utf8_valid (text_bytes (qp_dial_addr q))"

section \<open>Contact card\<close>

record contact_card =
  cc_side :: "byte list"
  cc_dial_addr :: string
  cc_display_name :: "string option"
  cc_side_label :: "string option"

definition CONTACT_QR_VERSION :: byte where "CONTACT_QR_VERSION = 1"
definition CONTACT_QR_SCHEME_PREFIX :: string where "CONTACT_QR_SCHEME_PREFIX = ''sidevers-contact:1:''"
definition CONTACT_DISPLAY_NAME_MAX :: nat where "CONTACT_DISPLAY_NAME_MAX = 512"
definition CONTACT_SIDE_LABEL_MAX :: nat where "CONTACT_SIDE_LABEL_MAX = 64"
definition CONTACT_DIAL_ADDR_MAX :: nat where "CONTACT_DIAL_ADDR_MAX = 256"

definition unwrap_or_empty :: "string option \<Rightarrow> string" where
  "unwrap_or_empty x = (case x of Some s \<Rightarrow> s | None \<Rightarrow> [])"

definition nonempty :: "string \<Rightarrow> string option" where
  "nonempty s = (if s = [] then None else Some s)"

definition encode_contact_card :: "contact_card \<Rightarrow> string" where
  "encode_contact_card c = CONTACT_QR_SCHEME_PREFIX @
     base32_encode ([CONTACT_QR_VERSION] @ cc_side c @ lp_string (unwrap_or_empty (cc_display_name c)) @
       lp_string (unwrap_or_empty (cc_side_label c)) @ lp_string (cc_dial_addr c))"

definition parse_contact_card :: "string \<Rightarrow> contact_card result" where
  "parse_contact_card s =
     and_then (qr_payload CONTACT_QR_SCHEME_PREFIX ''contact QR'' CONTACT_QR_VERSION s) (\<lambda>bytes.
     if length bytes < 1 + 32 + 6 then Inl (CborDecode ''contact QR: truncated'')
     else (let side = take 32 (drop 1 bytes) in
       and_then (read_lp_string bytes 33 CONTACT_DISPLAY_NAME_MAX ''contact QR: display_name'') (\<lambda>(display_name, p).
       and_then (read_lp_string bytes p CONTACT_SIDE_LABEL_MAX ''contact QR: side_label'') (\<lambda>(side_label, p).
       and_then (read_lp_string bytes p CONTACT_DIAL_ADDR_MAX ''contact QR: dial_addr'') (\<lambda>(dial_addr, p).
       if dial_addr = [] then Inl (CborDecode ''contact QR: empty dial_addr'')
       else if p \<noteq> length bytes then Inl (CborDecode ''contact QR: trailing bytes'')
       else Inr \<lparr>cc_side = side, cc_dial_addr = dial_addr, cc_display_name = nonempty display_name,
                 cc_side_label = nonempty side_label\<rparr>)))))"

definition wf_contact_card :: "contact_card \<Rightarrow> bool" where
  "wf_contact_card c \<longleftrightarrow> length (cc_side c) = 32 \<and> cc_dial_addr c \<noteq> [] \<and> wf_lp CONTACT_DIAL_ADDR_MAX (cc_dial_addr c) \<and>
     pred_option (\<lambda>s. s \<noteq> [] \<and> wf_lp CONTACT_DISPLAY_NAME_MAX s) (cc_display_name c) \<and>
     pred_option (\<lambda>s. s \<noteq> [] \<and> wf_lp CONTACT_SIDE_LABEL_MAX s) (cc_side_label c)"

section \<open>Group invite\<close>

record group_invite =
  gi_verse :: "byte list"
  gi_contract_hash :: "byte list"
  gi_dial_addr :: string
  gi_name :: "string option"
  gi_photo_hash :: "byte list option"

definition GROUP_QR_VERSION :: byte where "GROUP_QR_VERSION = 1"
definition GROUP_QR_SCHEME_PREFIX :: string where "GROUP_QR_SCHEME_PREFIX = ''sidevers-group:1:''"
definition GROUP_NAME_MAX :: nat where "GROUP_NAME_MAX = 256"
definition GROUP_DIAL_ADDR_MAX :: nat where "GROUP_DIAL_ADDR_MAX = 256"

definition photo_bytes :: "byte list option \<Rightarrow> byte list" where
  "photo_bytes x = (case x of Some h \<Rightarrow> 1 # h | None \<Rightarrow> [0])"

definition encode_group_invite :: "group_invite \<Rightarrow> string" where
  "encode_group_invite g = GROUP_QR_SCHEME_PREFIX @
     base32_encode ([GROUP_QR_VERSION] @ gi_verse g @ gi_contract_hash g @ lp_string (gi_dial_addr g) @
       lp_string (unwrap_or_empty (gi_name g)) @ photo_bytes (gi_photo_hash g))"

definition read_photo :: "byte list \<Rightarrow> nat \<Rightarrow> (byte list option \<times> nat) result" where
  "read_photo bytes p =
     (if length bytes \<le> p then Inl (CborDecode ''group QR: missing photo flag'')
      else (let photo_flag = bytes ! p; p = p + 1 in
        if photo_flag = 0 then Inr (None, p)
        else if photo_flag = 1 then
          (if length bytes < p + 32 then Inl (CborDecode ''group QR: photo_hash truncated'')
           else Inr (Some (take 32 (drop p bytes)), p + 32))
        else Inl (CborDecode ''group QR: bad photo flag'')))"

definition parse_group_invite :: "string \<Rightarrow> group_invite result" where
  "parse_group_invite s =
     and_then (qr_payload GROUP_QR_SCHEME_PREFIX ''group QR'' GROUP_QR_VERSION s) (\<lambda>bytes.
     if length bytes < 1 + 32 + 32 + 2 + 2 + 1 then Inl (CborDecode ''group QR: truncated'')
     else (let verse = take 32 (drop 1 bytes); contract_hash = take 32 (drop 33 bytes) in
       and_then (read_lp_string bytes 65 GROUP_DIAL_ADDR_MAX ''group QR: dial_addr'') (\<lambda>(dial_addr, p).
       if dial_addr = [] then Inl (CborDecode ''group QR: empty dial_addr'')
       else and_then (read_lp_string bytes p GROUP_NAME_MAX ''group QR: name'') (\<lambda>(name, p).
       and_then (read_photo bytes p) (\<lambda>(photo_hash, p).
       if p \<noteq> length bytes then Inl (CborDecode ''group QR: trailing bytes'')
       else Inr \<lparr>gi_verse = verse, gi_contract_hash = contract_hash, gi_dial_addr = dial_addr,
                 gi_name = nonempty name, gi_photo_hash = photo_hash\<rparr>)))))"

definition wf_group_invite :: "group_invite \<Rightarrow> bool" where
  "wf_group_invite g \<longleftrightarrow> length (gi_verse g) = 32 \<and> length (gi_contract_hash g) = 32 \<and>
     gi_dial_addr g \<noteq> [] \<and> wf_lp GROUP_DIAL_ADDR_MAX (gi_dial_addr g) \<and>
     pred_option (\<lambda>s. s \<noteq> [] \<and> wf_lp GROUP_NAME_MAX s) (gi_name g) \<and>
     pred_option (\<lambda>h. length h = 32) (gi_photo_hash g)"

section \<open>Round trips\<close>

lemmas qr_consts = QR_VERSION_def CONTACT_QR_VERSION_def GROUP_QR_VERSION_def PAIRING_NONCE_LEN_def
  CONTACT_DISPLAY_NAME_MAX_def CONTACT_SIDE_LABEL_MAX_def CONTACT_DIAL_ADDR_MAX_def
  GROUP_NAME_MAX_def GROUP_DIAL_ADDR_MAX_def

lemma lp_length: "length (lp_string s) = 2 + length s"
  by (simp add: lp_string_def)

lemma nonempty_unwrap: "pred_option (\<lambda>s. s \<noteq> [] \<and> P s) x \<Longrightarrow> nonempty (unwrap_or_empty x) = x"
  by (cases x) (simp_all add: nonempty_def unwrap_or_empty_def)

lemma unwrap_nonempty [simp]: "unwrap_or_empty (nonempty s) = s"
  by (simp add: nonempty_def unwrap_or_empty_def)

lemma wf_unwrap: "pred_option (\<lambda>s. s \<noteq> [] \<and> wf_lp n s) x \<Longrightarrow> wf_lp n (unwrap_or_empty x)"
  by (cases x) (simp_all add: unwrap_or_empty_def wf_lp_def)

text \<open>The payload of a code as its parser sees it, without the text layer.\<close>

lemma pairing_round:
  assumes "wf_pairing_qr q"
  shows "parse_pairing_qr (encode_pairing_qr q) = Inr q"
proof -
  have "be_val (be_bytes 2 (length (qp_dial_addr q))) = length (qp_dial_addr q)"
    using assms by (simp add: be_val_be_bytes wf_pairing_qr_def)
  then show ?thesis
    using assms
    by (simp add: parse_pairing_qr_def pairing_from_bytes_def u16_at_def encode_pairing_qr_def qr_payload_encode wf_pairing_qr_def lp_string_def
        qr_consts Let_def)
qed

lemma read_lp_written:
  "max_len < 65536 \<Longrightarrow> wf_lp max_len t \<Longrightarrow> n = length pre \<Longrightarrow>
   read_lp_string (pre @ lp_string t @ suf) n max_len field = Inr (t, n + length (lp_string t))"
  by (simp add: read_lp_string_iff)

lemma contact_round:
  assumes "wf_contact_card c"
  shows "parse_contact_card (encode_contact_card c) = Inr c"
proof -
  let ?d = "unwrap_or_empty (cc_display_name c)" and ?l = "unwrap_or_empty (cc_side_label c)"
  let ?b = "CONTACT_QR_VERSION # cc_side c @ lp_string ?d @ lp_string ?l @ lp_string (cc_dial_addr c)"
  note wf = assms [unfolded wf_contact_card_def]
  have "read_lp_string ?b 33 CONTACT_DISPLAY_NAME_MAX f = Inr (?d, 35 + length ?d)" for f
    using read_lp_written [of CONTACT_DISPLAY_NAME_MAX ?d 33 "CONTACT_QR_VERSION # cc_side c"] wf
    by (simp add: wf_unwrap qr_consts lp_length)
  moreover have "read_lp_string ?b (35 + length ?d) CONTACT_SIDE_LABEL_MAX f = Inr (?l, 37 + length ?d + length ?l)" for f
    using read_lp_written [of CONTACT_SIDE_LABEL_MAX ?l "35 + length ?d" "CONTACT_QR_VERSION # cc_side c @ lp_string ?d"] wf
    by (simp add: wf_unwrap qr_consts lp_length)
  moreover have "read_lp_string ?b (37 + length ?d + length ?l) CONTACT_DIAL_ADDR_MAX f =
      Inr (cc_dial_addr c, 39 + length ?d + length ?l + length (cc_dial_addr c))" for f
    using read_lp_written [of CONTACT_DIAL_ADDR_MAX "cc_dial_addr c" "37 + length ?d + length ?l"
        "CONTACT_QR_VERSION # cc_side c @ lp_string ?d @ lp_string ?l" "[]"] wf
    by (simp add: wf_unwrap qr_consts lp_length)
  moreover have "length ?b = 39 + length ?d + length ?l + length (cc_dial_addr c)"
    using wf by (simp add: lp_length)
  moreover have "take 32 (drop 1 ?b) = cc_side c" using wf by simp
  moreover have "nonempty ?d = cc_display_name c" "nonempty ?l = cc_side_label c"
    using wf by (blast intro: nonempty_unwrap)+
  ultimately show ?thesis
    using wf unfolding parse_contact_card_def encode_contact_card_def append_Cons append_Nil qr_payload_encode
    by (simp add: Let_def lp_length)
qed

lemma read_photo_written:
  "pred_option (\<lambda>h. length h = 32) x \<Longrightarrow> n = length pre \<Longrightarrow>
   read_photo (pre @ photo_bytes x) n = Inr (x, length (pre @ photo_bytes x))"
  by (cases x) (simp_all add: read_photo_def photo_bytes_def Let_def nth_append)

lemma group_round:
  assumes "wf_group_invite g"
  shows "parse_group_invite (encode_group_invite g) = Inr g"
proof -
  let ?n = "unwrap_or_empty (gi_name g)" and ?h = "GROUP_QR_VERSION # gi_verse g @ gi_contract_hash g"
  let ?b = "?h @ lp_string (gi_dial_addr g) @ lp_string ?n @ photo_bytes (gi_photo_hash g)"
  let ?p = "67 + length (gi_dial_addr g)"
  note wf = assms [unfolded wf_group_invite_def]
  have "read_lp_string ?b 65 GROUP_DIAL_ADDR_MAX f = Inr (gi_dial_addr g, ?p)" for f
    using read_lp_written [of GROUP_DIAL_ADDR_MAX "gi_dial_addr g" 65 ?h] wf
    by (simp add: qr_consts lp_length)
  moreover have "read_lp_string ?b ?p GROUP_NAME_MAX f = Inr (?n, ?p + 2 + length ?n)" for f
    using read_lp_written [of GROUP_NAME_MAX ?n ?p "?h @ lp_string (gi_dial_addr g)"] wf
    by (simp add: wf_unwrap qr_consts lp_length)
  moreover have "read_photo ?b (?p + 2 + length ?n) = Inr (gi_photo_hash g, length ?b)"
    using read_photo_written [of "gi_photo_hash g" "?p + 2 + length ?n" "?h @ lp_string (gi_dial_addr g) @ lp_string ?n"] wf
    by (simp add: lp_length)
  moreover have "nonempty ?n = gi_name g" using wf by (blast intro: nonempty_unwrap)
  moreover have "70 \<le> length ?b" using wf by (cases "gi_photo_hash g") (simp_all add: lp_length photo_bytes_def)
  moreover have "take 32 (drop 1 ?b) = gi_verse g" "take 32 (drop 33 ?b) = gi_contract_hash g" using wf by simp_all
  ultimately show ?thesis
    using wf unfolding parse_group_invite_def encode_group_invite_def append_Cons append_Nil qr_payload_encode
    by (simp add: Let_def)
qed

text \<open>What a parser returns is within the limits its encoder assumes.\<close>

lemma read_lp_wf:
  "read_lp_string bytes p max_len f = Inr (t, p') \<Longrightarrow> wf_lp max_len t"
  by (auto simp: read_lp_string_def wf_lp_def Let_def split: if_splits)

lemma wf_nonempty: "wf_lp n s \<Longrightarrow> pred_option (\<lambda>s. s \<noteq> [] \<and> wf_lp n s) (nonempty s)"
  by (simp add: nonempty_def)

lemma parse_pairing_wf: "parse_pairing_qr s = Inr q \<Longrightarrow> wf_pairing_qr q"
proof -
  assume "parse_pairing_qr s = Inr q"
  then obtain bytes where q: "pairing_from_bytes bytes = Inr q"
    by (auto simp: parse_pairing_qr_def and_then_eq_Inr)
  then show ?thesis
    using u16_at_bound [of bytes 49]
    by (auto simp: pairing_from_bytes_def wf_pairing_qr_def Let_def PAIRING_NONCE_LEN_def split: if_splits)
qed

lemma parse_contact_wf: "parse_contact_card s = Inr c \<Longrightarrow> wf_contact_card c"
  by (auto simp: parse_contact_card_def and_then_eq_Inr Let_def wf_contact_card_def split: if_splits
      intro: read_lp_wf wf_nonempty [OF read_lp_wf])

lemma parse_group_wf: "parse_group_invite s = Inr g \<Longrightarrow> wf_group_invite g"
  by (auto simp: parse_group_invite_def read_photo_def and_then_eq_Inr Let_def wf_group_invite_def split: if_splits
      intro: read_lp_wf wf_nonempty [OF read_lp_wf])

text \<open>C36: What the parsers of pairing, contact and group codes return is exactly what the encoders can
  carry: whatever text is scanned, a parsed code has its fixed lengths, valid UTF-8 and its length
  limits, and conversely every value within these limits comes back unchanged from its own code.\<close>

theorem scanned_codes_are_typed:
  "((\<exists>s. parse_pairing_qr s = Inr q) \<longleftrightarrow> wf_pairing_qr q) \<and>
   (wf_pairing_qr q \<longleftrightarrow> parse_pairing_qr (encode_pairing_qr q) = Inr q) \<and>
   ((\<exists>s. parse_contact_card s = Inr c) \<longleftrightarrow> wf_contact_card c) \<and>
   (wf_contact_card c \<longleftrightarrow> parse_contact_card (encode_contact_card c) = Inr c) \<and>
   ((\<exists>s. parse_group_invite s = Inr g) \<longleftrightarrow> wf_group_invite g) \<and>
   (wf_group_invite g \<longleftrightarrow> parse_group_invite (encode_group_invite g) = Inr g)"
  by (intro conjI; blast intro: pairing_round parse_pairing_wf contact_round parse_contact_wf group_round parse_group_wf)

end
