(* ===== verification/DirectService.thy ===== *)
theory DirectService
  imports SideSafety Gate Linkage QrCodes
begin

text \<open>
  The direct service of \<open>sidevers-net/src/node.rs\<close>: \<open>serve_direct\<close> with its handlers, the
  functions a peer uses to talk to it, device pairing and revocation, and the operations of
  the node that change a side. A handler takes the clock, the outcomes of its draws of
  randomness (\<open>rnd\<close>) and of its database writes (\<open>io\<close>, in the order of the writes); it returns
  the node, what it hands to the application or sends back, and the error that ends the
  session, if any. The warning of \<open>check_retirement\<close> is only logged and has no definition.
\<close>

section \<open>State\<close>

record direct_node =
  dn_side :: side_key
  dn_state :: side_state
  dn_gate :: gate
  dn_dm_received :: u64
  dn_linkage_received :: u64

datatype direct_out =
    DmReceived envelope "byte list"
  | ProfileReceived envelope profile_payload
  | LinkageReceived envelope linkage_proof
  | Response envelope

type_synonym direct_result = "direct_node \<times> direct_out list \<times> net_error option"

definition with_state :: "(side_state \<Rightarrow> side_state) \<Rightarrow> direct_node \<Rightarrow> direct_node" where
  "with_state f n = n\<lparr>dn_state := f (dn_state n)\<rparr>"

section \<open>Capabilities\<close>

definition CAP_DIRECT_MESSAGE :: string where "CAP_DIRECT_MESSAGE = ''direct-message''"
definition CAP_STORAGE_HOST :: string where "CAP_STORAGE_HOST = ''storage-host''"
definition CAP_GOSSIP_RELAY :: string where "CAP_GOSSIP_RELAY = ''gossip-relay''"

definition capability_allows :: "side_state \<Rightarrow> byte list \<Rightarrow> string \<Rightarrow> bool" where
  "capability_allows s sender token = (case rel_get sender (sd_relationships s) of
     Some r \<Rightarrow> token \<in> set (sr_capabilities r)
   | None \<Rightarrow> (case sd_profile s of
         Some p \<Rightarrow> has_capability p token
       | None \<Rightarrow> token = CAP_DIRECT_MESSAGE \<or> token = CAP_STORAGE_HOST \<or> token = CAP_GOSSIP_RELAY))"

section \<open>Handlers\<close>

text \<open>A response is signed and framed; either failure ends the session.\<close>

definition respond :: "crypto \<Rightarrow> direct_node \<Rightarrow> envelope \<Rightarrow> message_type \<Rightarrow> byte list \<Rightarrow> u64 option \<Rightarrow>
    byte list option \<Rightarrow> envelope net_result" where
  "respond C n env mt payload clock rnd =
     and_then (core (sign_response C (dn_side n) (env_from env) mt payload clock rnd)) (\<lambda>resp.
     and_then (send_envelope resp) (\<lambda>_. Inr resp))"

definition handle_direct_message :: "crypto \<Rightarrow> envelope \<Rightarrow> direct_node \<Rightarrow> direct_result" where
  "handle_direct_message C env n =
     (if \<not> capability_allows (dn_state n) (env_from env) CAP_DIRECT_MESSAGE then (n, [], None)
      else (case open_payload C (env_payload env) (dn_side n) (env_from env) (env_nonce env) [] of
          Inl _ \<Rightarrow> (n, [], None)
        | Inr plaintext \<Rightarrow> (n\<lparr>dn_dm_received := dn_dm_received n + 1\<rparr>, [DmReceived env plaintext], None)))"

definition handle_profile_fetch :: "crypto \<Rightarrow> u64 option \<Rightarrow> (nat \<Rightarrow> byte list option) \<Rightarrow> envelope \<Rightarrow> direct_node \<Rightarrow> direct_result" where
  "handle_profile_fetch C clock rnd env n =
     (if length (env_payload env) \<noteq> 32 then (n, [], None)
      else if env_payload env \<noteq> public_bytes C (dn_side n) then (n, [], None)
      else (case sd_profile (dn_state n) of
          None \<Rightarrow> (n, [], None)
        | Some p \<Rightarrow> (case respond C n env PROFILE_DELIVER (profile_to_wire p) clock (rnd 0) of
              Inl e \<Rightarrow> (n, [], Some e)
            | Inr resp \<Rightarrow> (n, [Response resp], None))))"

definition handle_profile_deliver :: "crypto \<Rightarrow> envelope \<Rightarrow> direct_node \<Rightarrow> direct_result" where
  "handle_profile_deliver C env n = (case profile_from_wire C (env_payload env) of
     Inl _ \<Rightarrow> (n, [], None)
   | Inr p \<Rightarrow> if pf_side p \<noteq> env_from env then (n, [], None) else (n, [ProfileReceived env p], None))"

definition handle_retirement :: "crypto \<Rightarrow> u64 \<Rightarrow> (nat \<Rightarrow> bool) \<Rightarrow> envelope \<Rightarrow> direct_node \<Rightarrow> direct_result" where
  "handle_retirement C now io env n = (case retirement_from_wire C (env_payload env) of
     Inl _ \<Rightarrow> (n, [], None)
   | Inr r \<Rightarrow> if rt_side r \<noteq> env_from env then (n, [], None)
       else (with_state (mark_retired_seen (io 0) now (rt_side r)) n, [], None))"

definition handle_linkage :: "crypto \<Rightarrow> envelope \<Rightarrow> direct_node \<Rightarrow> direct_result" where
  "handle_linkage C env n = (case linkage_from_wire C (env_payload env) of
     Inl _ \<Rightarrow> (n, [], None)
   | Inr p \<Rightarrow> if env_from env \<noteq> lp_side_a p \<and> env_from env \<noteq> lp_side_b p then (n, [], None)
       else (n\<lparr>dn_linkage_received := dn_linkage_received n + 1\<rparr>, [LinkageReceived env p], None))"

definition bundle_record :: "side_relationship \<Rightarrow> relationship_record" where
  "bundle_record r = \<lparr>rr_address = sr_address r, rr_nickname = sr_nickname r, rr_introduced_by = sr_introduced_by r,
     rr_capabilities = sort (sr_capabilities r), rr_notes = sr_notes r, rr_pinned = sr_pinned r, rr_added_at = sr_added_at r\<rparr>"

text \<open>The retired sides come from the database, whose failure fails the bundle; the rest from memory.\<close>

definition build_state_bundle_inner :: "crypto \<Rightarrow> bool \<Rightarrow> u64 \<Rightarrow> direct_node \<Rightarrow> state_bundle_inner net_result" where
  "build_state_bundle_inner C ok now n = (let s = dn_state n in
     if \<not> ok then Inl (NetSqlite ''list_retired_seen'')
     else Inr \<lparr>bi_side_seed = seed (dn_side n), bi_profile_wire = map_option profile_to_wire (sd_profile s),
       bi_relationships = sort_key rr_address (map bundle_record (rel_list (sd_relationships s))),
       bi_retired_sides = sort (list_retired_seen (public_bytes C (dn_side n)) (sd_store s)),
       bi_lifecycle = lifecycle_label (sd_lifecycle s),
       bi_co_holders = sort (map ch_device_pubkey (list_co_holders s)), bi_bundled_at = now\<rparr>)"

text \<open>The nonce is taken before anything else can fail; the device becomes a co-holder last.\<close>

definition handle_pairing_request :: "crypto \<Rightarrow> u64 option \<Rightarrow> (nat \<Rightarrow> byte list option) \<Rightarrow> (nat \<Rightarrow> bool) \<Rightarrow>
    envelope \<Rightarrow> direct_node \<Rightarrow> direct_result" where
  "handle_pairing_request C clock rnd io env n = (case pairing_request_from_wire C (env_payload env) of
     Inl _ \<Rightarrow> (n, [], None)
   | Inr req \<Rightarrow>
     if pr_side req \<noteq> public_bytes C (dn_side n) then (n, [], None)
     else (let (taken, s) = take_pending_pairing (now_or_log_zero clock) (pr_nonce req) (dn_state n);
               n = n\<lparr>dn_state := s\<rparr> in
     case taken of None \<Rightarrow> (n, [], None) | Some _ \<Rightarrow>
     (case build_state_bundle_inner C (io 0) (now_or_log_zero clock) n of Inl _ \<Rightarrow> (n, [], None) | Inr inner \<Rightarrow>
     (case fill_random (rnd 0) of Inl _ \<Rightarrow> (n, [], None) | Inr key_nonce \<Rightarrow>
     (case seal C (encode_bundle_inner inner) (dn_side n) (pr_device_x25519_pubkey req) key_nonce STATE_BUNDLE_AAD of
        Inl _ \<Rightarrow> (n, [], None)
      | Inr sealed \<Rightarrow>
        let bundle = state_bundle_sign C (dn_side n) (pr_device_pubkey req) (pr_nonce req) key_nonce sealed in
        (case respond C n env DEVICE_STATE_BUNDLE (state_bundle_to_wire bundle) clock (rnd 1) of
           Inl e \<Rightarrow> (n, [], Some e)
         | Inr resp \<Rightarrow>
             (with_state (add_co_holder (io 1) (now_or_log_zero clock) (pr_device_pubkey req)
                (Some (public_bytes C (dn_side n)))) n, [Response resp], None)))))))"

definition handle_device_revoke :: "crypto \<Rightarrow> u64 \<Rightarrow> (nat \<Rightarrow> bool) \<Rightarrow> envelope \<Rightarrow> direct_node \<Rightarrow> direct_result" where
  "handle_device_revoke C now io env n = (case device_revoke_from_wire C (env_payload env) of
     Inl _ \<Rightarrow> (n, [], None)
   | Inr r \<Rightarrow> if dv_side r \<noteq> public_bytes C (dn_side n) then (n, [], None)
       else (with_state (\<lambda>s. remove_co_holder (io 1) (dv_device_pubkey r)
               (add_revoked_device (io 0) now (dv_device_pubkey r) s)) n, [], None))"

text \<open>Operation \<open>i\<close> of the delta takes its write outcomes from \<open>io\<close> at \<open>3 i\<close>.\<close>

fun apply_ops :: "crypto \<Rightarrow> (nat \<Rightarrow> u64) \<Rightarrow> (nat \<Rightarrow> bool) \<Rightarrow> nat \<Rightarrow> delta_op list \<Rightarrow> side_state \<Rightarrow> side_state" where
  "apply_ops C clk io i [] s = s"
| "apply_ops C clk io i (op # ops) s =
     apply_ops C clk io (Suc i) ops (apply_delta C clk (\<lambda>j. io (3 * i + j)) op s)"

definition handle_state_delta :: "crypto \<Rightarrow> u64 \<Rightarrow> (nat \<Rightarrow> bool) \<Rightarrow> envelope \<Rightarrow> direct_node \<Rightarrow> direct_result" where
  "handle_state_delta C now io env n = (case state_delta_from_wire C (env_payload env) of
     Inl _ \<Rightarrow> (n, [], None)
   | Inr d \<Rightarrow> if sd_side d \<noteq> public_bytes C (dn_side n) then (n, [], None)
       else (with_state (apply_ops C (\<lambda>_. now) io 0 (sd_ops d)) n, [], None))"

definition dispatch_direct :: "crypto \<Rightarrow> u64 option \<Rightarrow> (nat \<Rightarrow> byte list option) \<Rightarrow> (nat \<Rightarrow> bool) \<Rightarrow>
    envelope \<Rightarrow> direct_node \<Rightarrow> direct_result" where
  "dispatch_direct C clock rnd io env n = (let now = now_or_log_zero clock; t = env_type env in
     if t = DIRECT_MESSAGE then handle_direct_message C env n
     else if t = PROFILE_FETCH then handle_profile_fetch C clock rnd env n
     else if t = PROFILE_DELIVER then handle_profile_deliver C env n
     else if t = SIDE_RETIREMENT then handle_retirement C now io env n
     else if t = LINKAGE_PUBLISH then handle_linkage C env n
     else if t = DEVICE_PAIRING_REQUEST then handle_pairing_request C clock rnd io env n
     else if t = DEVICE_REVOKE then handle_device_revoke C now io env n
     else if t = DEVICE_STATE_BUNDLE then (n, [], None)
     else if t = STATE_DELTA then handle_state_delta C now io env n
     else (n, [], None))"

text \<open>One round of the loop of \<open>serve_direct\<close>: the gate, then the handler.\<close>

definition serve_direct :: "crypto \<Rightarrow> u64 option \<Rightarrow> (nat \<Rightarrow> byte list option) \<Rightarrow> (nat \<Rightarrow> bool) \<Rightarrow>
    envelope \<Rightarrow> direct_node \<Rightarrow> direct_result" where
  "serve_direct C clock rnd io env n = (let (ok, g) = admit clock env (dn_gate n); n = n\<lparr>dn_gate := g\<rparr> in
     if \<not> ok then (n, [], None) else dispatch_direct C clock rnd io env n)"

section \<open>The other end\<close>

definition send_dm :: "crypto \<Rightarrow> session \<Rightarrow> side_key \<Rightarrow> byte list \<Rightarrow> u64 option \<Rightarrow> byte list option \<Rightarrow> (envelope \<times> byte list) net_result" where
  "send_dm C ses side plaintext clock rnd =
     and_then (core (fill_random rnd)) (\<lambda>nonce.
     and_then (core (seal C plaintext side (ses_peer_side ses) nonce [])) (\<lambda>ciphertext.
     and_then (core (now_unix_seconds clock)) (\<lambda>ts.
     let env = sign_with C DIRECT_MESSAGE side (Some (ses_peer_side ses)) ciphertext ts nonce in
     and_then (open_and_send ses env) (\<lambda>frame. Inr (env, frame)))))"

definition publish_linkage_proof :: "crypto \<Rightarrow> session \<Rightarrow> side_key \<Rightarrow> linkage_proof \<Rightarrow> u64 option \<Rightarrow> byte list option \<Rightarrow>
    (envelope \<times> byte list) net_result" where
  "publish_linkage_proof C ses side p clock rnd = send_signed C ses side LINKAGE_PUBLISH (linkage_to_wire p) clock rnd"

definition announce_retirement :: "crypto \<Rightarrow> session \<Rightarrow> side_key \<Rightarrow> side_retirement \<Rightarrow> u64 option \<Rightarrow> byte list option \<Rightarrow>
    (envelope \<times> byte list) net_result" where
  "announce_retirement C ses side r clock rnd = send_signed C ses side SIDE_RETIREMENT (retirement_to_wire r) clock rnd"

definition profile_query :: "crypto \<Rightarrow> session \<Rightarrow> side_key \<Rightarrow> byte list \<Rightarrow> u64 option \<Rightarrow> byte list option \<Rightarrow>
    (envelope \<times> byte list) net_result" where
  "profile_query C ses side target clock rnd = send_signed C ses side PROFILE_FETCH target clock rnd"

text \<open>What \<open>fetch_profile\<close> makes of the response.\<close>

definition fetch_profile :: "crypto \<Rightarrow> byte list \<Rightarrow> envelope \<Rightarrow> profile_payload net_result" where
  "fetch_profile C target resp =
     (if env_type resp \<noteq> PROFILE_DELIVER then Inl (NetInvariant ''expected PROFILE_DELIVER'')
      else and_then (core (profile_from_wire C (env_payload resp))) (\<lambda>p.
        if pf_side p \<noteq> target then Inl (NetInvariant ''PROFILE_DELIVER: profile.side != target'')
        else if pf_side p \<noteq> env_from resp then Inl (NetInvariant ''PROFILE_DELIVER: profile.side != env.from'')
        else Inr p))"

section \<open>Pairing, from the new device\<close>

definition generate_pairing_qr :: "crypto \<Rightarrow> string \<Rightarrow> u64 option \<Rightarrow> byte list option \<Rightarrow> direct_node \<Rightarrow>
    (pairing_qr \<times> direct_node) net_result" where
  "generate_pairing_qr C listen clock rnd n =
     and_then (core (fill_random rnd)) (\<lambda>nonce.
     Inr (\<lparr>qp_side = sd_address (dn_state n), qp_nonce = nonce, qp_dial_addr = listen\<rparr>,
          with_state (add_pending_pairing (now_or_log_zero clock) nonce) n))"

definition pairing_query :: "crypto \<Rightarrow> session \<Rightarrow> side_key \<Rightarrow> pairing_qr \<Rightarrow> u64 option \<Rightarrow> byte list option \<Rightarrow>
    (envelope \<times> byte list) net_result" where
  "pairing_query C ses device qr clock rnd =
     (let req = pairing_request_sign C device (qp_side qr) (public_bytes C device) (qp_nonce qr) in
      and_then (core (sign_fresh C device (Some (qp_side qr)) DEVICE_PAIRING_REQUEST (pairing_request_to_wire req)
        clock rnd)) (\<lambda>env.
      and_then (open_and_send ses env) (\<lambda>frame. Inr (env, frame))))"

text \<open>Steps 4 to 7 of \<open>accept_pairing\<close>: the bundle is bound to the code, to the device and to the nonce,
  and its seed must give the side's public key.\<close>

definition open_pairing_bundle :: "crypto \<Rightarrow> side_key \<Rightarrow> pairing_qr \<Rightarrow> envelope \<Rightarrow> (side_key \<times> state_bundle_inner) net_result" where
  "open_pairing_bundle C device qr resp =
     (if env_type resp \<noteq> DEVICE_STATE_BUNDLE then Inl (NetInvariant ''accept_pairing: expected DEVICE_STATE_BUNDLE'')
      else and_then (core (state_bundle_from_wire C (env_payload resp))) (\<lambda>b.
      if sb_side b \<noteq> qp_side qr then Inl (NetInvariant ''accept_pairing: bundle.side != qr.side'')
      else if sb_recipient_device b \<noteq> public_bytes C device then Inl (NetInvariant ''accept_pairing: recipient mismatch'')
      else if sb_nonce b \<noteq> qp_nonce qr then Inl (NetInvariant ''accept_pairing: nonce mismatch'')
      else and_then (core (open_payload C (sb_sealed_state b) device (qp_side qr) (sb_key_nonce b) STATE_BUNDLE_AAD)) (\<lambda>bytes.
      and_then (core (decode_bundle_inner bytes)) (\<lambda>inner.
      let k = \<lparr>seed = bi_side_seed inner, label = ''joined''\<rparr> in
      if public_bytes C k \<noteq> qp_side qr then Inl (NetInvariant ''accept_pairing: bundle seed produces wrong pubkey'')
      else Inr (k, inner)))))"

text \<open>Step 9: the state of the bundle is replayed into the freshly installed side.\<close>

definition replay_bundle :: "crypto \<Rightarrow> byte list \<Rightarrow> pairing_qr \<Rightarrow> u64 \<Rightarrow> state_bundle_inner \<Rightarrow> side_state \<Rightarrow> side_state net_result" where
  "replay_bundle C device_pubkey qr now inner s =
     and_then (case bi_profile_wire inner of None \<Rightarrow> Inr s
       | Some wire \<Rightarrow> and_then (core (profile_from_wire C wire)) (\<lambda>p. Inr (set_profile True p s))) (\<lambda>s.
     let s = fold (\<lambda>rec. add_relationship True (relationship_from_record rec)) (bi_relationships inner) s;
         s = fold (mark_retired_seen True now) (bi_retired_sides inner) s;
         s = fold (\<lambda>dev s. if dev = device_pubkey then s else add_co_holder True now dev None s) (bi_co_holders inner) s;
         s = set_lifecycle True (parse_lifecycle (bi_lifecycle inner)) s;
         s = record_co_holder_addr True now (qp_side qr) (qp_dial_addr qr) s
     in Inr (add_co_holder True now (qp_side qr) (Some device_pubkey) s))"

section \<open>Operations of the node on its side\<close>

definition revoke_co_holder :: "crypto \<Rightarrow> u64 option \<Rightarrow> (nat \<Rightarrow> bool) \<Rightarrow> byte list \<Rightarrow> string option \<Rightarrow> direct_node \<Rightarrow>
    (device_revoke \<times> direct_node) net_result" where
  "revoke_co_holder C clock io dev reason n =
     and_then (core (now_unix_seconds clock)) (\<lambda>now.
     Inr (device_revoke_sign C (dn_side n) dev now reason,
       with_state (\<lambda>s. remove_co_holder (io 1) dev (add_revoked_device (io 0) now dev s)) n))"

definition publish_retirement :: "crypto \<Rightarrow> u64 option \<Rightarrow> (nat \<Rightarrow> bool) \<Rightarrow> string option \<Rightarrow> direct_node \<Rightarrow>
    (side_retirement \<times> direct_node) net_result" where
  "publish_retirement C clock io reason n =
     and_then (core (now_unix_seconds clock)) (\<lambda>now.
     Inr (retirement_sign C (dn_side n) reason now, with_state (set_self_retired io) n))"

definition retire_side :: "crypto \<Rightarrow> u64 option \<Rightarrow> bool \<Rightarrow> string option \<Rightarrow> direct_node \<Rightarrow> (side_retirement \<times> direct_node) net_result" where
  "retire_side C clock ok reason n =
     and_then (core (now_unix_seconds clock)) (\<lambda>now.
     Inr (retirement_sign C (dn_side n) reason now, with_state (set_lifecycle ok Retired) n))"

text \<open>The devices a delta is pushed to, each with its dial address, and the payload they get.\<close>

definition push_delta_to_co_holders :: "crypto \<Rightarrow> u64 option \<Rightarrow> delta_op list \<Rightarrow> direct_node \<Rightarrow>
    (byte list \<times> string \<times> byte list) list" where
  "push_delta_to_co_holders C clock ops n = (case clock of
     None \<Rightarrow> []
   | Some now \<Rightarrow> map (\<lambda>(dev, addr). (dev, addr, state_delta_to_wire (state_delta_sign C (dn_side n) ops now)))
       (sd_addrs (dn_state n)))"

definition node_send_dm :: "crypto \<Rightarrow> session \<Rightarrow> bool \<Rightarrow> byte list \<Rightarrow> u64 option \<Rightarrow> byte list option \<Rightarrow> direct_node \<Rightarrow>
    ((envelope \<times> byte list) \<times> direct_node) net_result" where
  "node_send_dm C ses ok plaintext clock rnd n =
     and_then (send_dm C ses (dn_side n) plaintext clock rnd) (\<lambda>sent.
     Inr (sent, with_state (touch_send ok (now_or_log_zero clock)) n))"

definition set_local_profile :: "crypto \<Rightarrow> u64 option \<Rightarrow> bool \<Rightarrow> profile_payload \<Rightarrow> direct_node \<Rightarrow>
    (byte list \<times> string \<times> byte list) list \<times> direct_node" where
  "set_local_profile C clock ok p n = (let n' = with_state (set_profile ok p) n in
     (push_delta_to_co_holders C clock [DeltaProfileUpdated (profile_to_wire p)] n', n'))"

definition node_add_relationship :: "crypto \<Rightarrow> u64 option \<Rightarrow> bool \<Rightarrow> side_relationship \<Rightarrow> direct_node \<Rightarrow>
    (byte list \<times> string \<times> byte list) list \<times> direct_node" where
  "node_add_relationship C clock ok r n = (let n' = with_state (add_relationship ok r) n in
     (push_delta_to_co_holders C clock [DeltaRelationshipUpserted (bundle_record r)] n', n'))"

definition node_remove_relationship :: "crypto \<Rightarrow> u64 option \<Rightarrow> bool \<Rightarrow> byte list \<Rightarrow> direct_node \<Rightarrow>
    (byte list \<times> string \<times> byte list) list \<times> direct_node" where
  "node_remove_relationship C clock ok a n = (let n' = with_state (remove_relationship ok a) n in
     (push_delta_to_co_holders C clock [DeltaRelationshipRemoved a] n', n'))"

end
