(* ===== verification/DirectSafety.thy ===== *)
theory DirectSafety
  imports DirectService
begin

text \<open>
  What the direct service guarantees: who can hand a message to the application, who can
  change the state of a side, delivery from end to end, device pairing and its revocation.
\<close>

section \<open>Which handler runs\<close>

lemmas direct_types = DIRECT_MESSAGE_def PROFILE_FETCH_def PROFILE_DELIVER_def SIDE_RETIREMENT_def
  DEVICE_PAIRING_REQUEST_def DEVICE_STATE_BUNDLE_def DEVICE_REVOKE_def STATE_DELTA_def LINKAGE_PUBLISH_def

lemma serve_direct_admitted:
  assumes "admit clock env (dn_gate n) = (True, g)"
  shows "serve_direct C clock rnd io env n = dispatch_direct C clock rnd io env (n\<lparr>dn_gate := g\<rparr>)"
  using assms by (simp add: serve_direct_def Let_def)

lemma serve_direct_cases:
  assumes "serve_direct C clock rnd io env n = (n', outs, err)"
  obtains "dn_state n' = dn_state n" "dn_side n' = dn_side n" "outs = []" "err = None"
  | g where "admit clock env (dn_gate n) = (True, g)"
      "dispatch_direct C clock rnd io env (n\<lparr>dn_gate := g\<rparr>) = (n', outs, err)"
  using assms by (auto simp: serve_direct_def Let_def split: if_splits prod.splits)


lemmas direct_handlers = handle_direct_message_def handle_profile_fetch_def handle_profile_deliver_def
  handle_retirement_def handle_linkage_def handle_device_revoke_def handle_state_delta_def with_state_def

section \<open>Who reaches the application\<close>

lemma dispatch_dm:
  assumes "dispatch_direct C clock rnd io env n = (n', outs, err)" "DmReceived e plaintext \<in> set outs"
  shows "e = env \<and> env_type env = DIRECT_MESSAGE \<and> capability_allows (dn_state n) (env_from env) CAP_DIRECT_MESSAGE \<and>
    open_payload C (env_payload env) (dn_side n) (env_from env) (env_nonce env) [] = Inr plaintext"
  using assms
  by (auto simp: dispatch_direct_def Let_def direct_handlers handle_pairing_request_def split: if_splits sum.splits option.splits prod.splits)

text \<open>C22: A direct message reaches the application only if the envelope passed the gate, the policy of
  the side lets its sender send direct messages, and the payload decrypts, as a message of that
  sender to this side, to exactly the plaintext handed on.\<close>

theorem dm_needs_permission:
  assumes "serve_direct C clock rnd io env n = (n', outs, err)" "DmReceived e plaintext \<in> set outs"
  shows "e = env \<and> env_type env = DIRECT_MESSAGE \<and> fst (admit clock env (dn_gate n)) \<and>
    capability_allows (dn_state n) (env_from env) CAP_DIRECT_MESSAGE \<and>
    open_payload C (env_payload env) (dn_side n) (env_from env) (env_nonce env) [] = Inr plaintext"
  using assms(1)
proof (cases rule: serve_direct_cases)
  case 1
  then show ?thesis using assms(2) by simp
next
  case (2 g)
  from dispatch_dm [OF 2(2) assms(2)] 2(1) show ?thesis by simp
qed

text \<open>The three tiers of the policy: a contact may do exactly what its own entry lists, so an empty
  entry blocks it whatever the profile says; a stranger may do what the profile lists; without
  a profile strangers may send direct messages and use storage and gossip, nothing else.\<close>

lemma policy_tiers:
  "(rel_get a (sd_relationships s) = Some r \<longrightarrow> (capability_allows s a tok \<longleftrightarrow> tok \<in> set (sr_capabilities r))) \<and>
   (rel_get a (sd_relationships s) = None \<longrightarrow> sd_profile s = Some p \<longrightarrow>
      (capability_allows s a tok \<longleftrightarrow> has_capability p tok)) \<and>
   (rel_get a (sd_relationships s) = None \<longrightarrow> sd_profile s = None \<longrightarrow>
      (capability_allows s a tok \<longleftrightarrow> tok \<in> {CAP_DIRECT_MESSAGE, CAP_STORAGE_HOST, CAP_GOSSIP_RELAY}))"
  by (auto simp: capability_allows_def)

section \<open>Delivery\<close>

lemma accepts_direct: "category t = CatDirect \<Longrightarrow> accepts IntentDirect t"
  by (simp add: accepts_def)

text \<open>C23: A direct message arrives: what \<open>send_dm\<close> writes for a plaintext below 64 kB is read by the
  other end of the session as one envelope, and if the recipient's gate admits it and its policy
  lets the sender write, the application gets exactly that plaintext and the message is counted.\<close>

theorem dm_delivered:
  assumes "laws C" "wf_side k" "wf_side (dn_side n)" "length nonce = 16" "length plaintext < 2 ^ 16"
    and "ses_peer_side ses = public_bytes C (dn_side n)" "ses_intent ses = IntentDirect" "ses_intent ses' = IntentDirect"
    and "send_dm C ses k plaintext (Some ts) (Some nonce) = Inr (env, frame)"
    and "admit clock env (dn_gate n) = (True, g)"
    and "capability_allows (dn_state n) (public_bytes C k) CAP_DIRECT_MESSAGE"
  shows "accept_one C ses' (frame @ rest) = Inr (env, rest) \<and>
    serve_direct C clock rnd io env n =
      (n\<lparr>dn_gate := g, dn_dm_received := dn_dm_received n + 1\<rparr>, [DmReceived env plaintext], None)"
proof -
  obtain ct where ct: "seal C plaintext k (public_bytes C (dn_side n)) nonce [] = Inr ct" "length ct = length plaintext + 16"
      "open_payload C ct (dn_side n) (public_bytes C k) nonce [] = Inr plaintext"
    using seal_open [of C k "dn_side n" nonce plaintext "[]"] assms(1-5) by (auto simp: laws_def)
  have env: "env = sign_with C DIRECT_MESSAGE k (Some (public_bytes C (dn_side n))) ct ts nonce"
    and frame: "open_and_send ses env = Inr frame"
    using assms(4,6,9) ct(1) by (auto simp: send_dm_def fill_random_def now_unix_seconds_def and_then_eq_Inr Let_def)
  have "wf_envelope C env"
    unfolding env using assms(1-5) ct(2) signed_by_side(1) [of C "dn_side n"]
    by (intro sign_with_wf) (simp_all add: laws_def wf_bytes_def wf_fixed_def)
  then have "accept_one C ses' (frame @ rest) = Inr (env, rest)"
    using open_accept [of ses ses'] frame assms(7,8) by simp
  moreover have "dispatch_direct C clock rnd io env (n\<lparr>dn_gate := g\<rparr>) =
      (n\<lparr>dn_gate := g, dn_dm_received := dn_dm_received n + 1\<rparr>, [DmReceived env plaintext], None)"
    using ct(3) assms(11) by (simp add: dispatch_direct_def handle_direct_message_def env Let_def)
  ultimately show ?thesis using serve_direct_admitted [OF assms(10)] by simp
qed


section \<open>Who changes the state of the side\<close>

text \<open>What a delta can do to the devices and retired sides a side knows.\<close>

lemma delta_co_holders:
  assumes "d \<in> fst ` set (sd_co_holders (apply_delta C clk io op s))"
  shows "d \<in> fst ` set (sd_co_holders s) \<or> (\<exists>addr. op = DeltaCoHolderAdded d addr)"
proof -
  have map: "x \<in> fst ` set m \<longleftrightarrow> map_of m x \<noteq> None" for x and m :: "(byte list \<times> co_holder_record) list"
    by (simp add: map_of_eq_None_iff)
  show ?thesis
    using assms unfolding map
    by (cases op) (auto simp: side_ops Let_def update_conv' delete_conv' split: sum.splits option.splits if_splits)
qed

lemma delta_retired_seen:
  assumes "a \<in> sd_retired_seen (apply_delta C clk io op s)"
  shows "a \<in> sd_retired_seen s \<or> op = DeltaRetiredObserved a"
  using assms by (cases op) (auto simp: side_ops Let_def split: sum.splits option.splits if_splits)

lemma ops_co_holders:
  "d \<in> fst ` set (sd_co_holders (apply_ops C clk io i ops s)) \<Longrightarrow>
   d \<in> fst ` set (sd_co_holders s) \<or> (\<exists>addr. DeltaCoHolderAdded d addr \<in> set ops)"
proof (induction ops arbitrary: i s)
  case (Cons op ops)
  have "d \<in> fst ` set (sd_co_holders (apply_delta C clk (\<lambda>j. io (3 * i + j)) op s)) \<or> (\<exists>addr. DeltaCoHolderAdded d addr \<in> set ops)"
    by (rule Cons.IH) (use Cons.prems in simp)
  then show ?case using delta_co_holders [of d C clk "\<lambda>j. io (3 * i + j)" op s] by auto
qed simp

lemma ops_retired_seen:
  "a \<in> sd_retired_seen (apply_ops C clk io i ops s) \<Longrightarrow>
   a \<in> sd_retired_seen s \<or> DeltaRetiredObserved a \<in> set ops"
proof (induction ops arbitrary: i s)
  case (Cons op ops)
  have "a \<in> sd_retired_seen (apply_delta C clk (\<lambda>j. io (3 * i + j)) op s) \<or> DeltaRetiredObserved a \<in> set ops"
    by (rule Cons.IH) (use Cons.prems in simp)
  then show ?case using delta_retired_seen [of a C clk "\<lambda>j. io (3 * i + j)" op s] by auto
qed simp

lemma take_pending_state:
  assumes "take_pending_pairing now nonce s = (taken, s')"
  shows "\<exists>m. s' = s\<lparr>sd_pending := m\<rparr>"
    and "taken = Some t \<Longrightarrow> (nonce, t) \<in> set (sd_pending s) \<and> saturating_sub now t < PAIRING_TTL_SECS"
  using assms pairing_nonce_single_use [of now nonce s t]
  by (auto simp: take_pending_pairing_def Let_def)

text \<open>The outcomes of a pairing request: only the pending nonces change, or the device is added.\<close>

lemma pairing_request_cases:
  assumes "handle_pairing_request C clock rnd io env n = (n', outs, err)"
  obtains m where "dn_state n' = (dn_state n)\<lparr>sd_pending := m\<rparr>" "dn_side n' = dn_side n"
  | req t m where "pairing_request_from_wire C (env_payload env) = Inr req" "pr_side req = public_bytes C (dn_side n)"
      "(pr_nonce req, t) \<in> set (sd_pending (dn_state n))" "saturating_sub (now_or_log_zero clock) t < PAIRING_TTL_SECS"
      "dn_state n' = add_co_holder (io 1) (now_or_log_zero clock) (pr_device_pubkey req) (Some (public_bytes C (dn_side n)))
         ((dn_state n)\<lparr>sd_pending := m\<rparr>)"
      "dn_side n' = dn_side n"
proof (cases "pairing_request_from_wire C (env_payload env)")
  case (Inl e)
  then show ?thesis using assms that(1) [of "sd_pending (dn_state n)"] by (simp add: handle_pairing_request_def)
next
  case (Inr req)
  obtain taken s where t: "take_pending_pairing (now_or_log_zero clock) (pr_nonce req) (dn_state n) = (taken, s)" by force
  obtain m where m: "s = (dn_state n)\<lparr>sd_pending := m\<rparr>" using take_pending_state(1) [OF t] by blast
  let ?n = "n\<lparr>dn_state := s\<rparr>"
  show ?thesis
  proof (cases "pr_side req = public_bytes C (dn_side n)")
    case False
    then show ?thesis using assms Inr that(1) [of "sd_pending (dn_state n)"] by (simp add: handle_pairing_request_def)
  next
    case side: True
    show ?thesis
    proof (cases "dn_state n' = s \<and> dn_side n' = dn_side n")
      case True
      then show ?thesis using that(1) [of m] m by simp
    next
      case False
      then obtain t' where "taken = Some t'" using assms Inr side t by (cases taken) (auto simp: handle_pairing_request_def Let_def)
      moreover have "dn_side n' = dn_side n \<and> dn_state n' = add_co_holder (io 1) (now_or_log_zero clock) (pr_device_pubkey req)
          (Some (public_bytes C (dn_side n))) s"
        using assms Inr side t False \<open>taken = Some t'\<close>
        by (auto simp: handle_pairing_request_def Let_def with_state_def split: sum.splits)
      ultimately show ?thesis using that(2) [OF Inr side, of t' m] take_pending_state(2) [OF t] m by blast
    qed
  qed
qed



section \<open>Pairing from end to end\<close>

lemma update_filter_keep:
  "P (k, v) \<Longrightarrow> map_of (filter P (AList.update k v m)) k = Some v"
  by (induction m) auto

lemma state_bundle_length:
  assumes "length (sb_side b) = 32" "length (sb_recipient_device b) = 32" "length (sb_nonce b) = 16"
    "length (sb_key_nonce b) = 16" "length (sb_signature b) = 64"
  shows "length (state_bundle_to_wire b) \<le> 400 + length (sb_sealed_state b)"
proof -
  note item_lengths(2) [of "sb_side b"] item_lengths(2) [of "sb_recipient_device b"] item_lengths(2) [of "sb_nonce b"]
    item_lengths(2) [of "sb_key_nonce b"] item_lengths(2) [of "sb_signature b"] item_lengths(2) [of "sb_sealed_state b"]
    item_lengths(3) [of "''side''"] item_lengths(3) [of "''nonce''"] item_lengths(3) [of "''key_nonce''"]
    item_lengths(3) [of "''signature''"] item_lengths(3) [of "''sealed_state''"] item_lengths(3) [of "''recipient_device''"]
    item_lengths(4) [of "length (state_bundle_entries b)"]
  then show ?thesis
    using assms by (simp add: state_bundle_to_wire_def encode_map_body state_bundle_entries_def cbor_key_text)
qed

lemma pairing_request_ok:
  assumes "pairing_request_from_wire C (env_payload env) = Inr req" "pr_side req = public_bytes C (dn_side n)"
    and "take_pending_pairing now (pr_nonce req) (dn_state n) = (Some t, s)"
    and "build_state_bundle_inner C (io 0) now (n\<lparr>dn_state := s\<rparr>) = Inr inner" "fill_random (rnd 0) = Inr key_nonce"
    and "seal C (encode_bundle_inner inner) (dn_side n) (pr_device_x25519_pubkey req) key_nonce STATE_BUNDLE_AAD = Inr sealed"
    and "respond C (n\<lparr>dn_state := s\<rparr>) env DEVICE_STATE_BUNDLE (state_bundle_to_wire
        (state_bundle_sign C (dn_side n) (pr_device_pubkey req) (pr_nonce req) key_nonce sealed)) (Some now) (rnd 1) = Inr resp"
  shows "handle_pairing_request C (Some now) rnd io env n =
    (n\<lparr>dn_state := add_co_holder (io 1) now (pr_device_pubkey req) (Some (public_bytes C (dn_side n))) s\<rparr>, [Response resp], None)"
  using assms by (simp add: handle_pairing_request_def with_state_def now_or_log_zero_def Let_def)


section \<open>Revocation and retirement, from the node\<close>

text \<open>A revoked device keeps receiving the side's updates: revoking a co-holder removes it from the
  list of co-holders but not its dial address, and deltas go to every address on file.\<close>

lemma revoked_device_still_gets_deltas:
  assumes "co_holder_addr dev (dn_state n) = Some addr"
    and "revoke_co_holder C (Some now) io dev reason n = Inr (rc, n')"
  shows "is_device_revoked dev (dn_state n') \<and> dev \<notin> fst ` set (sd_co_holders (dn_state n')) \<and>
    (dev, addr, state_delta_to_wire (state_delta_sign C (dn_side n') ops later)) \<in>
      set (push_delta_to_co_holders C (Some later) ops n')"
proof -
  have "(dev, addr) \<in> set (sd_addrs (dn_state n))" using assms(1) by (auto simp: co_holder_addr_def dest: map_of_SomeD)
  then show ?thesis
    using assms(2)
    by (force simp: revoke_co_holder_def and_then_eq_Inr now_unix_seconds_def with_state_def is_device_revoked_def
        add_revoked_device_def remove_co_holder_def push_delta_to_co_holders_def AList.delete_eq)
qed

text \<open>Retiring a side through \<open>retire_side\<close> is not final, unlike \<open>publish_retirement\<close>: it leaves the
  retirement flag unset, so a later delta from a co-holder makes the side active again.\<close>

lemma retire_side_is_undone:
  assumes "\<not> sd_self_retired (dn_state n)" "retire_side C (Some now) ok reason n = Inr (rc, n')"
  shows "sd_lifecycle (dn_state n') = Retired \<and>
    sd_lifecycle (apply_delta C clk io (DeltaLifecycleChanged ''Active'') (dn_state n')) = Active"
  using assms by (auto simp: retire_side_def and_then_eq_Inr now_unix_seconds_def with_state_def set_lifecycle_def persist_side_row_def)


section \<open>Examples\<close>

definition owner_key :: side_key where "owner_key = \<lparr>seed = replicate 32 1, label = ''owner''\<rparr>"
definition friend_key :: side_key where "friend_key = \<lparr>seed = replicate 32 2, label = ''friend''\<rparr>"

definition owner_node :: direct_node where
  "owner_node = \<lparr>dn_side = owner_key, dn_state = sample_side\<lparr>sd_address := replicate 32 1, sd_key := owner_key,
       sd_addrs := [(replicate 32 2, ''127.0.0.1:9'')]\<rparr>,
     dn_gate = gate_new, dn_dm_received = 0, dn_linkage_received = 0\<rparr>"

definition owner_session :: session where
  "owner_session = \<lparr>ses_key = [], ses_peer_side = replicate 32 1, ses_intent = IntentDirect, ses_peer_capabilities = []\<rparr>"

lemma example_keys: "wf_side owner_key" "wf_side friend_key"
  by (simp_all add: wf_side_def owner_key_def friend_key_def)

lemma example_public: "public_bytes sample_crypto owner_key = replicate 32 1" "public_bytes sample_crypto friend_key = replicate 32 2"
  by (simp_all add: sample_public owner_key_def friend_key_def)

lemma example_dm:
  obtains env frame where "send_dm sample_crypto owner_session friend_key [4, 2] (Some 500) (Some (replicate 16 7)) = Inr (env, frame)"
proof -
  obtain ct where ct: "seal sample_crypto [4, 2] friend_key (replicate 32 1) (replicate 16 7) [] = Inr ct" "length ct = 18"
    using seal_open [of sample_crypto friend_key owner_key "replicate 16 7" "[4, 2]" "[]"] sample_laws_all example_keys
    by (auto simp: laws_def example_public)
  let ?env = "sign_with sample_crypto DIRECT_MESSAGE friend_key (Some (replicate 32 1)) ct 500 (replicate 16 7)"
  have "wf_envelope sample_crypto ?env"
    using ct(2) by (intro sign_with_wf [OF sample_signature_laws example_keys(2)]) (simp_all add: wf_fixed_def wf_bytes_def)
  then have "length (to_wire_bytes ?env) \<le> 65536"
    using wire_length [of ?env] ct(2) by (simp add: wf_envelope_def)
  then have "send_dm sample_crypto owner_session friend_key [4, 2] (Some 500) (Some (replicate 16 7)) =
      Inr (?env, be_bytes 4 (length (to_wire_bytes ?env)) @ to_wire_bytes ?env)"
    using ct(1) by (simp add: send_dm_def fill_random_def now_unix_seconds_def owner_session_def open_and_send_def
        accepts_def category_def DIRECT_MESSAGE_def send_envelope_def Let_def)
  then show ?thesis by (rule that)
qed

definition contact_entry :: "string list \<Rightarrow> relationship_record" where
  "contact_entry caps = \<lparr>rr_address = [5], rr_nickname = None, rr_introduced_by = None,
     rr_capabilities = caps, rr_notes = None, rr_pinned = False, rr_added_at = 1\<rparr>"

lemma example_served:
  "\<exists>env frame n. send_dm sample_crypto owner_session friend_key [4, 2] (Some 500) (Some (replicate 16 7)) = Inr (env, frame) \<and>
     serve_direct sample_crypto (Some 501) (\<lambda>_. None) (\<lambda>_. True) env owner_node = (n, [DmReceived env [4, 2]], None)"
proof -
  obtain ct where ct: "seal sample_crypto [4, 2] friend_key (replicate 32 1) (replicate 16 7) [] = Inr ct"
      "open_payload sample_crypto ct owner_key (replicate 32 2) (replicate 16 7) [] = Inr [4, 2]"
    using seal_open [of sample_crypto friend_key owner_key "replicate 16 7" "[4, 2]" "[]"] sample_laws_all example_keys
    by (auto simp: laws_def example_public)
  obtain env frame where s: "send_dm sample_crypto owner_session friend_key [4, 2] (Some 500) (Some (replicate 16 7)) = Inr (env, frame)"
    by (rule example_dm)
  then have env: "env = sign_with sample_crypto DIRECT_MESSAGE friend_key (Some (replicate 32 1)) ct 500 (replicate 16 7)"
    using ct(1) by (auto simp: send_dm_def fill_random_def now_unix_seconds_def and_then_eq_Inr owner_session_def Let_def)
  then obtain g where g: "admit (Some 501) env (dn_gate owner_node) = (True, g)"
    by (auto simp: owner_node_def abs_diff_def SOFT_MAX_SKEW_SECS_def intro: fresh_gate_admits [of env 501])
  have "serve_direct sample_crypto (Some 501) (\<lambda>_. None) (\<lambda>_. True) env owner_node =
      (owner_node\<lparr>dn_gate := g, dn_dm_received := 1\<rparr>, [DmReceived env [4, 2]], None)"
    using ct(2) unfolding serve_direct_admitted [OF g]
    by (simp add: dispatch_direct_def handle_direct_message_def env example_public owner_node_def capability_allows_def
        sample_side_def CAP_DIRECT_MESSAGE_def rel_get_def Let_def)
  then show ?thesis using s by blast
qed

theorem dm_delivered_witness:
  "\<exists>env frame n. send_dm sample_crypto owner_session friend_key [4, 2] (Some 500) (Some (replicate 16 7)) = Inr (env, frame) \<and>
     accept_one sample_crypto owner_session (frame @ [9]) = Inr (env, [9]) \<and>
     serve_direct sample_crypto (Some 501) (\<lambda>_. None) (\<lambda>_. True) env owner_node = (n, [DmReceived env [4, 2]], None)"
proof -
  obtain env frame where s: "send_dm sample_crypto owner_session friend_key [4, 2] (Some 500) (Some (replicate 16 7)) = Inr (env, frame)"
    by (rule example_dm)
  then have "env_timestamp env = 500" by (auto simp: send_dm_def fill_random_def now_unix_seconds_def and_then_eq_Inr Let_def)
  then obtain g where g: "admit (Some 501) env (dn_gate owner_node) = (True, g)"
    by (auto simp: owner_node_def abs_diff_def SOFT_MAX_SKEW_SECS_def intro: fresh_gate_admits [of env 501])
  from dm_delivered [OF sample_laws_all example_keys(2) _ _ _ _ _ _ s g, of owner_session "[9]" "\<lambda>_. None" "\<lambda>_. True"]
  show ?thesis using s
    by (auto simp: owner_node_def owner_session_def example_keys example_public capability_allows_def sample_side_def
        CAP_DIRECT_MESSAGE_def rel_get_def)
qed

theorem dm_needs_permission_witness:
  "\<exists>env frame n. send_dm sample_crypto owner_session friend_key [4, 2] (Some 500) (Some (replicate 16 7)) = Inr (env, frame) \<and>
     serve_direct sample_crypto (Some 501) (\<lambda>_. None) (\<lambda>_. True) env owner_node = (n, [DmReceived env [4, 2]], None) \<and>
     capability_allows (dn_state owner_node) (env_from env) CAP_DIRECT_MESSAGE"
proof -
  obtain env frame n where e: "send_dm sample_crypto owner_session friend_key [4, 2] (Some 500) (Some (replicate 16 7)) = Inr (env, frame)"
      "serve_direct sample_crypto (Some 501) (\<lambda>_. None) (\<lambda>_. True) env owner_node = (n, [DmReceived env [4, 2]], None)"
    using example_served by blast
  from dm_needs_permission [OF e(2), of env "[4, 2]"] e show ?thesis by auto
qed

lemma policy_tiers_witness:
  "\<not> capability_allows (sample_side\<lparr>sd_relationships := [([5], relationship_from_record (contact_entry []))],
     sd_profile := Some (sample_profile 3)\<rparr>) [5] CAP_DIRECT_MESSAGE \<and>
   capability_allows sample_side [5] CAP_GOSSIP_RELAY"
proof -
  let ?s = "sample_side\<lparr>sd_relationships := [([5], relationship_from_record (contact_entry []))],
     sd_profile := Some (sample_profile 3)\<rparr>"
  have "rel_get [5] (sd_relationships ?s) = Some (relationship_from_record (contact_entry []))" by (simp add: rel_get_def)
  moreover have "rel_get [5] (sd_relationships sample_side) = None" "sd_profile sample_side = None"
    by (simp_all add: rel_get_def sample_side_def)
  ultimately show ?thesis
    using policy_tiers [of "[5]" ?s "relationship_from_record (contact_entry [])" CAP_DIRECT_MESSAGE]
      policy_tiers [of "[5]" sample_side _ CAP_GOSSIP_RELAY] by (simp add: relationship_from_record_def contact_entry_def)
qed


definition example_delta :: state_delta where
  "example_delta = state_delta_sign sample_crypto owner_key [DeltaCoHolderAdded (replicate 32 3) ''10.0.0.3:1''] 500"

lemma example_delta_wf: "wf_state_delta sample_crypto example_delta"
  unfolding example_delta_def
  by (rule state_delta_sign_wf [OF sample_signature_laws example_keys(1)])
    (simp add: wf_array_def wf_fixed_def wf_text_def MAX_CBOR_ENTRIES_def literal_key)

lemma example_delta_parses: "state_delta_from_wire sample_crypto (state_delta_to_wire example_delta) = Inr example_delta"
  by (simp add: state_delta_from_wire_iff example_delta_wf)



lemma revoked_device_still_gets_deltas_witness:
  "\<exists>rc n'. revoke_co_holder sample_crypto (Some 501) (\<lambda>_. True) (replicate 32 2) None owner_node = Inr (rc, n') \<and>
     (replicate 32 2, ''127.0.0.1:9'', state_delta_to_wire (state_delta_sign sample_crypto (dn_side n') [DeltaProfileCleared] 502)) \<in>
       set (push_delta_to_co_holders sample_crypto (Some 502) [DeltaProfileCleared] n')"
proof -
  have a: "co_holder_addr (replicate 32 2) (dn_state owner_node) = Some ''127.0.0.1:9''" by (simp add: co_holder_addr_def owner_node_def)
  obtain rc n' where r: "revoke_co_holder sample_crypto (Some 501) (\<lambda>_. True) (replicate 32 2) None owner_node = Inr (rc, n')"
    by (simp add: revoke_co_holder_def now_unix_seconds_def)
  from revoked_device_still_gets_deltas [OF a r] r show ?thesis by blast
qed

lemma retire_side_is_undone_witness:
  "\<exists>rc n'. retire_side sample_crypto (Some 501) True None owner_node = Inr (rc, n') \<and>
     sd_lifecycle (apply_delta sample_crypto (\<lambda>_. 502) (\<lambda>_. True) (DeltaLifecycleChanged ''Active'') (dn_state n')) = Active"
proof -
  have a: "\<not> sd_self_retired (dn_state owner_node)" by (simp add: owner_node_def sample_side_def)
  obtain rc n' where r: "retire_side sample_crypto (Some 501) True None owner_node = Inr (rc, n')"
    by (simp add: retire_side_def now_unix_seconds_def)
  from retire_side_is_undone [OF a r] r show ?thesis by blast
qed

end
