(* ===== verification/PublicMessages.thy ===== *)
theory PublicMessages
  imports Items Keys
begin

text \<open>
  The public-layer payloads, \<open>sidevers-core/src/messages/public.rs\<close> (types 0x60 to 0x66). The two
  composites carry signed records as byte strings and verify each while decoding. All
  decoders insist on the end of the input.
\<close>

section \<open>Handles\<close>

record handle_resolve =
  hr_handle_local :: string
  hr_domain :: string

definition handle_resolve_entries :: "handle_resolve \<Rightarrow> map_entry list" where
  "handle_resolve_entries x =
     [(cbor_key ''domain'', cbor_text (hr_domain x)),
      (cbor_key ''handle_local'', cbor_text (hr_handle_local x))]"

definition encode_handle_resolve :: "handle_resolve \<Rightarrow> byte list" where
  "encode_handle_resolve x = encode_map (handle_resolve_entries x)"

definition handle_resolve_fields :: "cbor_reader \<Rightarrow> (handle_resolve \<times> cbor_reader) result" where
  "handle_resolve_fields r =
     and_then (read_field ''domain'' ''HandleResolve: expected domain first'' read_text r) (\<lambda>(domain, r).
     and_then (read_field ''handle_local'' ''HandleResolve: expected handle_local second'' read_text r) (\<lambda>(handle_local, r).
     Inr (\<lparr>hr_handle_local = handle_local,
          hr_domain = domain\<rparr>, r)))"

definition decode_handle_resolve :: "byte list \<Rightarrow> handle_resolve result" where
  "decode_handle_resolve =
     decode_all ''trailing bytes after HandleResolve''
       (read_map 2 ''HandleResolve expected 2 keys'' handle_resolve_fields)"

definition wf_handle_resolve :: "handle_resolve \<Rightarrow> bool" where
  [wf_defs]: "wf_handle_resolve x \<longleftrightarrow> wf_text (hr_domain x) \<and>
     wf_text (hr_handle_local x)"

lemma handle_resolve_codec: "wire_codec encode_handle_resolve (read_map 2 msg handle_resolve_fields) wf_handle_resolve"
  unfolding encode_handle_resolve_def [abs_def]
  by (rule map_codecI,
      (auto simp: and_then_eq_Inr literal_key wire_iff handle_resolve_fields_def Let_def handle_resolve_entries_def wf_handle_resolve_def cbor_key_text)[1],
      simp_all add: literal_key wire_write handle_resolve_fields_def Let_def handle_resolve_entries_def wf_handle_resolve_def cbor_key_text)

interpretation handle_resolve_msg: strict_message encode_handle_resolve decode_handle_resolve wf_handle_resolve
  unfolding decode_handle_resolve_def by (rule strict_messageI) (rule decode_all_iff [OF handle_resolve_codec])

record handle_attest =
  ha_side :: "byte list"
  ha_handle_local :: string
  ha_domain :: string
  ha_issued_at :: u64
  ha_signature :: "byte list"

definition handle_attest_unsigned :: "byte list \<Rightarrow> string \<Rightarrow> string \<Rightarrow> u64 \<Rightarrow> byte list" where
  "handle_attest_unsigned side handle_local domain issued_at = encode_map
     [(cbor_key ''side'', cbor_bytes side),
      (cbor_key ''domain'', cbor_text domain),
      (cbor_key ''issued_at'', cbor_uint issued_at),
      (cbor_key ''handle_local'', cbor_text handle_local)]"

definition handle_attest_entries :: "handle_attest \<Rightarrow> map_entry list" where
  "handle_attest_entries x =
     [(cbor_key ''side'', cbor_bytes (ha_side x)),
      (cbor_key ''domain'', cbor_text (ha_domain x)),
      (cbor_key ''issued_at'', cbor_uint (ha_issued_at x)),
      (cbor_key ''signature'', cbor_bytes (ha_signature x)),
      (cbor_key ''handle_local'', cbor_text (ha_handle_local x))]"

definition handle_attest_to_wire :: "handle_attest \<Rightarrow> byte list" where
  "handle_attest_to_wire x = encode_map (handle_attest_entries x)"

definition handle_attest_sign :: "crypto \<Rightarrow> side_key \<Rightarrow> string \<Rightarrow> string \<Rightarrow> u64 \<Rightarrow> handle_attest" where
  "handle_attest_sign C k handle_local domain issued_at =
     (let side = public_bytes C k; digest = blake3 C (handle_attest_unsigned side handle_local domain issued_at)
      in \<lparr>ha_side = side,
          ha_handle_local = handle_local,
          ha_domain = domain,
          ha_issued_at = issued_at,
          ha_signature = side_sign C k digest\<rparr>)"

definition handle_attest_tbs :: "handle_attest \<Rightarrow> byte list" where
  "handle_attest_tbs x = handle_attest_unsigned (ha_side x) (ha_handle_local x) (ha_domain x) (ha_issued_at x)"

definition handle_attest_fields :: "cbor_reader \<Rightarrow> (handle_attest \<times> cbor_reader) result" where
  "handle_attest_fields r = (let msg = ''HandleAttest keys not in canonical order'' in
     and_then (read_field ''side'' msg (read_fixed ''side'' PUBLIC_KEY_LEN) r) (\<lambda>(side, r).
     and_then (read_field ''domain'' msg read_text r) (\<lambda>(domain, r).
     and_then (read_field ''issued_at'' msg read_u64 r) (\<lambda>(issued_at, r).
     and_then (read_field ''signature'' msg (read_fixed ''signature'' SIGNATURE_LEN) r) (\<lambda>(signature, r).
     and_then (read_field ''handle_local'' msg read_text r) (\<lambda>(handle_local, r).
     Inr (\<lparr>ha_side = side,
          ha_handle_local = handle_local,
          ha_domain = domain,
          ha_issued_at = issued_at,
          ha_signature = signature\<rparr>, r)))))))"

definition handle_attest_from_wire :: "crypto \<Rightarrow> byte list \<Rightarrow> handle_attest result" where
  "handle_attest_from_wire C bs =
     and_then (decode_all ''trailing bytes after HandleAttest''
       (read_map 5 ''HandleAttest expected 5 keys'' handle_attest_fields) bs) (\<lambda>x.
     and_then (check_signature C (ha_side x) (handle_attest_tbs x) (ha_signature x)) (\<lambda>_.
     if handle_attest_to_wire x \<noteq> bs then Inl (CborNotCanonical ''HandleAttest bytes are not canonical re-encode'')
     else Inr x))"

definition wf_handle_attest_fields :: "handle_attest \<Rightarrow> bool" where
  [wf_defs]: "wf_handle_attest_fields x \<longleftrightarrow> wf_fixed 32 (ha_side x) \<and>
     wf_text (ha_domain x) \<and>
     wf_fixed 64 (ha_signature x) \<and>
     wf_text (ha_handle_local x)"

lemma handle_attest_codec: "wire_codec handle_attest_to_wire (read_map 5 msg handle_attest_fields) wf_handle_attest_fields"
  unfolding handle_attest_to_wire_def [abs_def]
  by (rule map_codecI,
      (auto simp: and_then_eq_Inr literal_key wire_iff handle_attest_fields_def Let_def handle_attest_entries_def wf_handle_attest_fields_def cbor_key_text)[1],
      simp_all add: literal_key wire_write handle_attest_fields_def Let_def handle_attest_entries_def wf_handle_attest_fields_def cbor_key_text)

definition wf_handle_attest :: "crypto \<Rightarrow> handle_attest \<Rightarrow> bool" where
  "wf_handle_attest C x \<longleftrightarrow> wf_handle_attest_fields x \<and> ed_point_ok C (ha_side x) \<and>
     ed_verify C (ha_side x) (blake3 C (handle_attest_tbs x)) (ha_signature x)"

lemma handle_attest_from_wire_iff:
  "handle_attest_from_wire C bs = Inr x \<longleftrightarrow> wf_handle_attest C x \<and> bs = handle_attest_to_wire x"
  by (auto simp: handle_attest_from_wire_def and_then_eq_Inr decode_all_iff [OF handle_attest_codec] wf_handle_attest_def split: if_splits)

interpretation handle_attest_msg: strict_message handle_attest_to_wire "handle_attest_from_wire C" "wf_handle_attest C"
  by (rule strict_messageI) (rule handle_attest_from_wire_iff)

lemma handle_attest_sign_wf:
  assumes "signature_laws C" "wf_side k"
    and "wf_text domain" "wf_text handle_local"
  shows "wf_handle_attest C (handle_attest_sign C k handle_local domain issued_at)"
  using assms signed_by_side [OF assms(1,2)]
  by (simp add: wf_handle_attest_def handle_attest_sign_def Let_def wf_handle_attest_fields_def handle_attest_tbs_def wf_fixed_def)

definition handle_display :: "handle_attest \<Rightarrow> string" where
  "handle_display x = ha_handle_local x @ ''@'' @ ha_domain x"

section \<open>Pages\<close>

record page_publish =
  pg_side :: "byte list"
  pg_slug :: string
  pg_mime :: string
  pg_content :: "byte list"
  pg_published_at :: u64
  pg_signature :: "byte list"

definition page_unsigned :: "byte list \<Rightarrow> string \<Rightarrow> string \<Rightarrow> byte list \<Rightarrow> u64 \<Rightarrow> byte list" where
  "page_unsigned side slug mime content published_at = encode_map
     [(cbor_key ''mime'', cbor_text mime),
      (cbor_key ''side'', cbor_bytes side),
      (cbor_key ''slug'', cbor_text slug),
      (cbor_key ''content'', cbor_bytes content),
      (cbor_key ''published_at'', cbor_uint published_at)]"

definition page_entries :: "page_publish \<Rightarrow> map_entry list" where
  "page_entries x =
     [(cbor_key ''mime'', cbor_text (pg_mime x)),
      (cbor_key ''side'', cbor_bytes (pg_side x)),
      (cbor_key ''slug'', cbor_text (pg_slug x)),
      (cbor_key ''content'', cbor_bytes (pg_content x)),
      (cbor_key ''signature'', cbor_bytes (pg_signature x)),
      (cbor_key ''published_at'', cbor_uint (pg_published_at x))]"

definition page_to_wire :: "page_publish \<Rightarrow> byte list" where
  "page_to_wire x = encode_map (page_entries x)"

definition page_sign :: "crypto \<Rightarrow> side_key \<Rightarrow> string \<Rightarrow> string \<Rightarrow> byte list \<Rightarrow> u64 \<Rightarrow> page_publish" where
  "page_sign C k slug mime content published_at =
     (let side = public_bytes C k; digest = blake3 C (page_unsigned side slug mime content published_at)
      in \<lparr>pg_side = side,
          pg_slug = slug,
          pg_mime = mime,
          pg_content = content,
          pg_published_at = published_at,
          pg_signature = side_sign C k digest\<rparr>)"

definition page_tbs :: "page_publish \<Rightarrow> byte list" where
  "page_tbs x = page_unsigned (pg_side x) (pg_slug x) (pg_mime x) (pg_content x) (pg_published_at x)"

definition page_fields :: "cbor_reader \<Rightarrow> (page_publish \<times> cbor_reader) result" where
  "page_fields r = (let msg = ''PagePublish keys not in canonical order'' in
     and_then (read_field ''mime'' msg read_text r) (\<lambda>(mime, r).
     and_then (read_field ''side'' msg (read_fixed ''side'' PUBLIC_KEY_LEN) r) (\<lambda>(side, r).
     and_then (read_field ''slug'' msg read_text r) (\<lambda>(slug, r).
     and_then (read_field ''content'' msg read_bytes r) (\<lambda>(content, r).
     and_then (read_field ''signature'' msg (read_fixed ''signature'' SIGNATURE_LEN) r) (\<lambda>(signature, r).
     and_then (read_field ''published_at'' msg read_u64 r) (\<lambda>(published_at, r).
     Inr (\<lparr>pg_side = side,
          pg_slug = slug,
          pg_mime = mime,
          pg_content = content,
          pg_published_at = published_at,
          pg_signature = signature\<rparr>, r))))))))"

definition page_from_wire :: "crypto \<Rightarrow> byte list \<Rightarrow> page_publish result" where
  "page_from_wire C bs =
     and_then (decode_all ''trailing bytes after PagePublish''
       (read_map 6 ''PagePublish expected 6 keys'' page_fields) bs) (\<lambda>x.
     and_then (check_signature C (pg_side x) (page_tbs x) (pg_signature x)) (\<lambda>_.
     if page_to_wire x \<noteq> bs then Inl (CborNotCanonical ''PagePublish bytes are not canonical re-encode'')
     else Inr x))"

definition wf_page_fields :: "page_publish \<Rightarrow> bool" where
  [wf_defs]: "wf_page_fields x \<longleftrightarrow> wf_text (pg_mime x) \<and>
     wf_fixed 32 (pg_side x) \<and>
     wf_text (pg_slug x) \<and>
     wf_bytes (pg_content x) \<and>
     wf_fixed 64 (pg_signature x)"

lemma page_codec: "wire_codec page_to_wire (read_map 6 msg page_fields) wf_page_fields"
  unfolding page_to_wire_def [abs_def]
  by (rule map_codecI,
      (auto simp: and_then_eq_Inr literal_key wire_iff page_fields_def Let_def page_entries_def wf_page_fields_def cbor_key_text)[1],
      simp_all add: literal_key wire_write page_fields_def Let_def page_entries_def wf_page_fields_def cbor_key_text)

definition wf_page :: "crypto \<Rightarrow> page_publish \<Rightarrow> bool" where
  "wf_page C x \<longleftrightarrow> wf_page_fields x \<and> ed_point_ok C (pg_side x) \<and>
     ed_verify C (pg_side x) (blake3 C (page_tbs x)) (pg_signature x)"

lemma page_from_wire_iff:
  "page_from_wire C bs = Inr x \<longleftrightarrow> wf_page C x \<and> bs = page_to_wire x"
  by (auto simp: page_from_wire_def and_then_eq_Inr decode_all_iff [OF page_codec] wf_page_def split: if_splits)

interpretation page_msg: strict_message page_to_wire "page_from_wire C" "wf_page C"
  by (rule strict_messageI) (rule page_from_wire_iff)

lemma page_sign_wf:
  assumes "signature_laws C" "wf_side k"
    and "wf_text mime" "wf_text slug" "wf_bytes content"
  shows "wf_page C (page_sign C k slug mime content published_at)"
  using assms signed_by_side [OF assms(1,2)]
  by (simp add: wf_page_def page_sign_def Let_def wf_page_fields_def page_tbs_def wf_fixed_def)

record page_fetch =
  pq_side :: "byte list"
  pq_slug :: string

definition page_fetch_entries :: "page_fetch \<Rightarrow> map_entry list" where
  "page_fetch_entries x =
     [(cbor_key ''side'', cbor_bytes (pq_side x)),
      (cbor_key ''slug'', cbor_text (pq_slug x))]"

definition encode_page_fetch :: "page_fetch \<Rightarrow> byte list" where
  "encode_page_fetch x = encode_map (page_fetch_entries x)"

definition page_fetch_fields :: "cbor_reader \<Rightarrow> (page_fetch \<times> cbor_reader) result" where
  "page_fetch_fields r =
     and_then (read_field ''side'' ''PageFetch expects side first'' (read_fixed ''side'' PUBLIC_KEY_LEN) r) (\<lambda>(side, r).
     and_then (read_field ''slug'' ''PageFetch expects slug second'' read_text r) (\<lambda>(slug, r).
     Inr (\<lparr>pq_side = side,
          pq_slug = slug\<rparr>, r)))"

definition decode_page_fetch :: "byte list \<Rightarrow> page_fetch result" where
  "decode_page_fetch =
     decode_all ''trailing bytes after PageFetch''
       (read_map 2 ''PageFetch expected 2 keys'' page_fetch_fields)"

definition wf_page_fetch :: "page_fetch \<Rightarrow> bool" where
  [wf_defs]: "wf_page_fetch x \<longleftrightarrow> wf_fixed 32 (pq_side x) \<and>
     wf_text (pq_slug x)"

lemma page_fetch_codec: "wire_codec encode_page_fetch (read_map 2 msg page_fetch_fields) wf_page_fetch"
  unfolding encode_page_fetch_def [abs_def]
  by (rule map_codecI,
      (auto simp: and_then_eq_Inr literal_key wire_iff page_fetch_fields_def Let_def page_fetch_entries_def wf_page_fetch_def cbor_key_text)[1],
      simp_all add: literal_key wire_write page_fetch_fields_def Let_def page_fetch_entries_def wf_page_fetch_def cbor_key_text)

interpretation page_fetch_msg: strict_message encode_page_fetch decode_page_fetch wf_page_fetch
  unfolding decode_page_fetch_def by (rule strict_messageI) (rule decode_all_iff [OF page_fetch_codec])

record page_deliver = pd_page :: page_publish

definition page_deliver_entries :: "page_deliver \<Rightarrow> map_entry list" where
  "page_deliver_entries x = [(cbor_key ''page'', cbor_bytes (page_to_wire (pd_page x)))]"

definition encode_page_deliver :: "page_deliver \<Rightarrow> byte list" where
  "encode_page_deliver x = encode_map (page_deliver_entries x)"

definition page_deliver_fields :: "crypto \<Rightarrow> cbor_reader \<Rightarrow> (page_deliver \<times> cbor_reader) result" where
  "page_deliver_fields C r =
     and_then (read_field ''page'' ''PageDeliver expects page'' (read_wrapped (page_from_wire C)) r) (\<lambda>(page, r).
     Inr (\<lparr>pd_page = page\<rparr>, r))"

definition decode_page_deliver :: "crypto \<Rightarrow> byte list \<Rightarrow> page_deliver result" where
  "decode_page_deliver C =
     decode_all ''trailing bytes after PageDeliver''
       (read_map 1 ''PageDeliver expected 1 key'' (page_deliver_fields C))"

definition wf_page_deliver :: "crypto \<Rightarrow> page_deliver \<Rightarrow> bool" where
  "wf_page_deliver C x \<longleftrightarrow> wf_page C (pd_page x) \<and> wf_bytes (page_to_wire (pd_page x))"

lemma page_deliver_codec:
  "wire_codec encode_page_deliver (read_map 1 msg (page_deliver_fields C)) (wf_page_deliver C)"
  unfolding encode_page_deliver_def [abs_def]
  by (rule map_codecI,
      (auto simp: and_then_eq_Inr literal_key wire_iff page_deliver_fields_def page_deliver_entries_def
        wf_page_deliver_def cbor_key_text read_wrapped_iff [OF page_from_wire_iff])[1],
      simp_all add: literal_key wire_write page_deliver_fields_def page_deliver_entries_def
        wf_page_deliver_def cbor_key_text read_wrapped_write [OF page_from_wire_iff])

interpretation page_deliver_msg: strict_message encode_page_deliver "decode_page_deliver C" "wf_page_deliver C"
  unfolding decode_page_deliver_def by (rule strict_messageI) (rule decode_all_iff [OF page_deliver_codec])

section \<open>Announcements\<close>

record announcement =
  an_side :: "byte list"
  an_body :: string
  an_created_at :: u64
  an_signature :: "byte list"

definition announcement_unsigned :: "byte list \<Rightarrow> string \<Rightarrow> u64 \<Rightarrow> byte list" where
  "announcement_unsigned side body created_at = encode_map
     [(cbor_key ''body'', cbor_text body),
      (cbor_key ''side'', cbor_bytes side),
      (cbor_key ''created_at'', cbor_uint created_at)]"

definition announcement_entries :: "announcement \<Rightarrow> map_entry list" where
  "announcement_entries x =
     [(cbor_key ''body'', cbor_text (an_body x)),
      (cbor_key ''side'', cbor_bytes (an_side x)),
      (cbor_key ''signature'', cbor_bytes (an_signature x)),
      (cbor_key ''created_at'', cbor_uint (an_created_at x))]"

definition announcement_to_wire :: "announcement \<Rightarrow> byte list" where
  "announcement_to_wire x = encode_map (announcement_entries x)"

definition announcement_sign :: "crypto \<Rightarrow> side_key \<Rightarrow> string \<Rightarrow> u64 \<Rightarrow> announcement" where
  "announcement_sign C k body created_at =
     (let side = public_bytes C k; digest = blake3 C (announcement_unsigned side body created_at)
      in \<lparr>an_side = side,
          an_body = body,
          an_created_at = created_at,
          an_signature = side_sign C k digest\<rparr>)"

definition announcement_tbs :: "announcement \<Rightarrow> byte list" where
  "announcement_tbs x = announcement_unsigned (an_side x) (an_body x) (an_created_at x)"

definition announcement_fields :: "cbor_reader \<Rightarrow> (announcement \<times> cbor_reader) result" where
  "announcement_fields r = (let msg = ''Announcement keys not in canonical order'' in
     and_then (read_field ''body'' msg read_text r) (\<lambda>(body, r).
     and_then (read_field ''side'' msg (read_fixed ''side'' PUBLIC_KEY_LEN) r) (\<lambda>(side, r).
     and_then (read_field ''signature'' msg (read_fixed ''signature'' SIGNATURE_LEN) r) (\<lambda>(signature, r).
     and_then (read_field ''created_at'' msg read_u64 r) (\<lambda>(created_at, r).
     Inr (\<lparr>an_side = side,
          an_body = body,
          an_created_at = created_at,
          an_signature = signature\<rparr>, r))))))"

definition announcement_from_wire :: "crypto \<Rightarrow> byte list \<Rightarrow> announcement result" where
  "announcement_from_wire C bs =
     and_then (decode_all ''trailing bytes after Announcement''
       (read_map 4 ''Announcement expected 4 keys'' announcement_fields) bs) (\<lambda>x.
     and_then (check_signature C (an_side x) (announcement_tbs x) (an_signature x)) (\<lambda>_.
     if announcement_to_wire x \<noteq> bs then Inl (CborNotCanonical ''Announcement bytes are not canonical re-encode'')
     else Inr x))"

definition wf_announcement_fields :: "announcement \<Rightarrow> bool" where
  [wf_defs]: "wf_announcement_fields x \<longleftrightarrow> wf_text (an_body x) \<and>
     wf_fixed 32 (an_side x) \<and>
     wf_fixed 64 (an_signature x)"

lemma announcement_codec: "wire_codec announcement_to_wire (read_map 4 msg announcement_fields) wf_announcement_fields"
  unfolding announcement_to_wire_def [abs_def]
  by (rule map_codecI,
      (auto simp: and_then_eq_Inr literal_key wire_iff announcement_fields_def Let_def announcement_entries_def wf_announcement_fields_def cbor_key_text)[1],
      simp_all add: literal_key wire_write announcement_fields_def Let_def announcement_entries_def wf_announcement_fields_def cbor_key_text)

definition wf_announcement :: "crypto \<Rightarrow> announcement \<Rightarrow> bool" where
  "wf_announcement C x \<longleftrightarrow> wf_announcement_fields x \<and> ed_point_ok C (an_side x) \<and>
     ed_verify C (an_side x) (blake3 C (announcement_tbs x)) (an_signature x)"

lemma announcement_from_wire_iff:
  "announcement_from_wire C bs = Inr x \<longleftrightarrow> wf_announcement C x \<and> bs = announcement_to_wire x"
  by (auto simp: announcement_from_wire_def and_then_eq_Inr decode_all_iff [OF announcement_codec] wf_announcement_def split: if_splits)

interpretation announcement_msg: strict_message announcement_to_wire "announcement_from_wire C" "wf_announcement C"
  by (rule strict_messageI) (rule announcement_from_wire_iff)

lemma announcement_sign_wf:
  assumes "signature_laws C" "wf_side k"
    and "wf_text body"
  shows "wf_announcement C (announcement_sign C k body created_at)"
  using assms signed_by_side [OF assms(1,2)]
  by (simp add: wf_announcement_def announcement_sign_def Let_def wf_announcement_fields_def announcement_tbs_def wf_fixed_def)

section \<open>Directory entries\<close>

record directory_entry =
  de_side :: "byte list"
  de_handle :: string
  de_attestations :: "handle_attest list"

definition directory_entry_entries :: "directory_entry \<Rightarrow> map_entry list" where
  "directory_entry_entries x =
     [(cbor_key ''side'', cbor_bytes (de_side x)),
      (cbor_key ''handle'', cbor_text (de_handle x)),
      (cbor_key ''attestations'', cbor_array (\<lambda>a. cbor_bytes (handle_attest_to_wire a)) (de_attestations x))]"

definition encode_directory_entry :: "directory_entry \<Rightarrow> byte list" where
  "encode_directory_entry x = encode_map (directory_entry_entries x)"

definition directory_entry_fields :: "crypto \<Rightarrow> cbor_reader \<Rightarrow> (directory_entry \<times> cbor_reader) result" where
  "directory_entry_fields C r =
     and_then (read_field ''side'' ''DirectoryEntry expects side first'' (read_fixed ''side'' PUBLIC_KEY_LEN) r) (\<lambda>(side, r).
     and_then (read_field ''handle'' ''DirectoryEntry expects handle second'' read_text r) (\<lambda>(handle, r).
     and_then (read_field ''attestations'' ''DirectoryEntry expects attestations third''
       (read_array (read_wrapped (handle_attest_from_wire C))) r) (\<lambda>(attestations, r).
     Inr (\<lparr>de_side = side, de_handle = handle, de_attestations = attestations\<rparr>, r))))"

definition decode_directory_entry :: "crypto \<Rightarrow> byte list \<Rightarrow> directory_entry result" where
  "decode_directory_entry C =
     decode_all ''trailing bytes after DirectoryEntry''
       (read_map 3 ''DirectoryEntry expected 3 keys'' (directory_entry_fields C))"

definition wf_directory_entry :: "crypto \<Rightarrow> directory_entry \<Rightarrow> bool" where
  "wf_directory_entry C x \<longleftrightarrow> wf_fixed 32 (de_side x) \<and> wf_text (de_handle x) \<and>
     wf_array (\<lambda>a. wf_handle_attest C a \<and> wf_bytes (handle_attest_to_wire a)) (de_attestations x)"

lemmas attestation_item = read_wrapped_codec [OF handle_attest_from_wire_iff]
lemmas attestations_codec = wire_codec.array_codec [OF attestation_item]

lemma directory_entry_codec:
  "wire_codec encode_directory_entry (read_map 3 msg (directory_entry_fields C)) (wf_directory_entry C)"
  unfolding encode_directory_entry_def [abs_def]
  by (rule map_codecI,
      (auto simp: and_then_eq_Inr literal_key wire_iff directory_entry_fields_def directory_entry_entries_def
        wf_directory_entry_def cbor_key_text attestations_codec [THEN wire_codec_iff])[1],
      simp_all add: literal_key wire_write directory_entry_fields_def directory_entry_entries_def
        wf_directory_entry_def cbor_key_text attestations_codec [THEN wire_codec_write])

interpretation directory_entry_msg: strict_message encode_directory_entry "decode_directory_entry C"
    "wf_directory_entry C"
  unfolding decode_directory_entry_def
  by (rule strict_messageI) (rule decode_all_iff [OF directory_entry_codec])

end
