(* ===== verification/DirectMessages.thy ===== *)
theory DirectMessages
  imports Skip
begin

text \<open>
  The direct message payloads, \<open>sidevers-core/src/messages/direct.rs\<close> (types 0x20 to 0x22).
  A message body is a text or the uninterpreted bytes of a storage reference; unknown kinds
  and states are kept as texts.
\<close>

section \<open>Open enumerations\<close>

text \<open>A text on the wire that \<open>parse\<close> turns into a variant.\<close>

definition read_parsed :: "(string \<Rightarrow> 'a) \<Rightarrow> cbor_reader \<Rightarrow> ('a \<times> cbor_reader) result" where
  "read_parsed parse r = and_then (read_text r) (\<lambda>(s, r). Inr (parse s, r))"

lemma read_parsed_codec:
  assumes "\<And>s. as_str (parse s) = s"
  shows "wire_codec (\<lambda>k. cbor_text (as_str k)) (read_parsed parse)
    (\<lambda>k. wf_text (as_str k) \<and> parse (as_str k) = k)"
  by unfold_locales (auto simp: read_parsed_def and_then_eq_Inr read_text_iff assms)

datatype direct_kind = KindText | KindImage | KindVoice | KindFile | KindOther string

fun direct_kind_as_str :: "direct_kind \<Rightarrow> string" where
  "direct_kind_as_str KindText = ''text''"
| "direct_kind_as_str KindImage = ''image''"
| "direct_kind_as_str KindVoice = ''voice''"
| "direct_kind_as_str KindFile = ''file''"
| "direct_kind_as_str (KindOther s) = s"

definition direct_kind_parse :: "string \<Rightarrow> direct_kind" where
  "direct_kind_parse s =
     (if s = ''text'' then KindText
      else if s = ''image'' then KindImage
      else if s = ''voice'' then KindVoice
      else if s = ''file'' then KindFile
      else KindOther s)"

lemma direct_kind_as_str_parse [simp]: "direct_kind_as_str (direct_kind_parse s) = s"
  by (simp add: direct_kind_parse_def)

interpretation direct_kind_item: wire_codec "\<lambda>k. cbor_text (direct_kind_as_str k)" "read_parsed direct_kind_parse"
    "\<lambda>k. wf_text (direct_kind_as_str k) \<and> direct_kind_parse (direct_kind_as_str k) = k"
  by (rule read_parsed_codec) simp

lemmas direct_kind_iff [wire_iff] = direct_kind_item.dec_iff
lemmas direct_kind_write [wire_write] = direct_kind_item.dec_enc

datatype receipt_status = StatusDelivered | StatusRead | StatusOther string

fun receipt_status_as_str :: "receipt_status \<Rightarrow> string" where
  "receipt_status_as_str StatusDelivered = ''delivered''"
| "receipt_status_as_str StatusRead = ''read''"
| "receipt_status_as_str (StatusOther s) = s"

definition receipt_status_parse :: "string \<Rightarrow> receipt_status" where
  "receipt_status_parse s =
     (if s = ''delivered'' then StatusDelivered
      else if s = ''read'' then StatusRead
      else StatusOther s)"

lemma receipt_status_as_str_parse [simp]: "receipt_status_as_str (receipt_status_parse s) = s"
  by (simp add: receipt_status_parse_def)

interpretation receipt_status_item: wire_codec "\<lambda>k. cbor_text (receipt_status_as_str k)" "read_parsed receipt_status_parse"
    "\<lambda>k. wf_text (receipt_status_as_str k) \<and> receipt_status_parse (receipt_status_as_str k) = k"
  by (rule read_parsed_codec) simp

lemmas receipt_status_iff [wire_iff] = receipt_status_item.dec_iff
lemmas receipt_status_write [wire_write] = receipt_status_item.dec_enc

datatype typing_state = TypingStarted | TypingStopped | TypingOther string

fun typing_state_as_str :: "typing_state \<Rightarrow> string" where
  "typing_state_as_str TypingStarted = ''started''"
| "typing_state_as_str TypingStopped = ''stopped''"
| "typing_state_as_str (TypingOther s) = s"

definition typing_state_parse :: "string \<Rightarrow> typing_state" where
  "typing_state_parse s =
     (if s = ''started'' then TypingStarted
      else if s = ''stopped'' then TypingStopped
      else TypingOther s)"

lemma typing_state_as_str_parse [simp]: "typing_state_as_str (typing_state_parse s) = s"
  by (simp add: typing_state_parse_def)

interpretation typing_state_item: wire_codec "\<lambda>k. cbor_text (typing_state_as_str k)" "read_parsed typing_state_parse"
    "\<lambda>k. wf_text (typing_state_as_str k) \<and> typing_state_parse (typing_state_as_str k) = k"
  by (rule read_parsed_codec) simp

lemmas typing_state_iff [wire_iff] = typing_state_item.dec_iff
lemmas typing_state_write [wire_write] = typing_state_item.dec_enc

section \<open>The body\<close>

datatype direct_body = BodyText string | BodyReference "byte list"

definition cbor_body :: "direct_body \<Rightarrow> byte list" where
  "cbor_body b = (case b of BodyText s \<Rightarrow> cbor_text s | BodyReference bs \<Rightarrow> bs)"

definition read_body :: "cbor_reader \<Rightarrow> (direct_body \<times> cbor_reader) result" where
  "read_body r = (case remaining r of
     [] \<Rightarrow> Inl (CborDecode ''missing body'')
   | peek # _ \<Rightarrow>
       (let major = drop_bit 5 peek in
        if major = 3 then and_then (read_text r) (\<lambda>(t, r). Inr (BodyText t, r))
        else if major = 5 then and_then (read_raw r) (\<lambda>(b, r). Inr (BodyReference b, r))
        else Inl (CborDecode ''DirectMessage body major type unexpected'')))"

fun wf_body :: "direct_body \<Rightarrow> bool" where
  "wf_body (BodyText t) = wf_text t"
| "wf_body (BodyReference bs) = (is_item bs \<and> drop_bit 5 (hd bs) = 5)"

lemma item_nonempty: "is_item bs \<Longrightarrow> bs \<noteq> []"
  by (auto simp: is_item_def skip_value_def MAX_CBOR_SKIP_DEPTH_def numeral_eq_Suc reader_new_rdr)

interpretation body_item: wire_codec cbor_body read_body wf_body
proof (rule wire_codecI)
  fix pre s x r'
  assume "read_body (rdr pre s) = Inr (x, r')"
  then consider
      t where "x = BodyText t" "read_text (rdr pre s) = Inr (t, r')"
    | b where "x = BodyReference b" "read_raw (rdr pre s) = Inr (b, r')" "drop_bit 5 (hd s) = 5"
    by (auto simp: read_body_def Let_def and_then_eq_Inr split: list.splits if_splits)
  then show "wf_body x \<and> (\<exists>suf. s = cbor_body x @ suf \<and> r' = rdr (pre @ cbor_body x) suf)"
  proof cases
    case 1
    then show ?thesis by (auto simp: read_text_iff cbor_body_def)
  next
    case 2
    then show ?thesis using item_nonempty [of b] by (auto simp: raw_iff cbor_body_def)
  qed
next
  fix pre suf x
  assume wf: "wf_body x"
  show "read_body (rdr pre (cbor_body x @ suf)) = Inr (x, rdr (pre @ cbor_body x) suf)"
  proof (cases x)
    case (BodyText t)
    obtain b u where b: "cbor_text t @ suf = b # u"
      by (cases "cbor_text t @ suf") (simp_all add: cbor_text_head)
    then show ?thesis
      using BodyText wf wire_write(1) read_text_write [of t pre suf] major_iffs(3) [OF b]
      by (simp add: cbor_body_def read_body_def)
  next
    case (BodyReference bs)
    then obtain b u where b: "bs = b # u" "drop_bit 5 b = 5"
      using wf item_nonempty [of bs] by (cases bs) auto
    then show ?thesis
      using BodyReference wf raw_write [of bs pre suf] by (simp add: cbor_body_def read_body_def)
  qed
qed

lemmas body_iff [wire_iff] = body_item.dec_iff
lemmas body_write [wire_write] = body_item.dec_enc

section \<open>Payloads\<close>

record direct_message =
  dm_kind :: direct_kind
  dm_body :: direct_body
  dm_reply_to :: "byte list option"
  dm_thread :: "byte list option"

definition direct_message_entries :: "direct_message \<Rightarrow> map_entry list" where
  "direct_message_entries x =
     [(cbor_key ''body'', cbor_body (dm_body x)),
      (cbor_key ''kind'', cbor_text (direct_kind_as_str (dm_kind x))),
      (cbor_key ''thread'', cbor_bytes_or_null (dm_thread x)),
      (cbor_key ''reply_to'', cbor_bytes_or_null (dm_reply_to x))]"

definition encode_direct_message :: "direct_message \<Rightarrow> byte list" where
  "encode_direct_message x = encode_map (direct_message_entries x)"

definition direct_message_fields :: "cbor_reader \<Rightarrow> (direct_message \<times> cbor_reader) result" where
  "direct_message_fields r = (let msg = ''DirectMessage keys not in canonical order'' in
     and_then (read_field ''body'' msg read_body r) (\<lambda>(body, r).
     and_then (read_field ''kind'' msg (read_parsed direct_kind_parse) r) (\<lambda>(kind, r).
     and_then (read_field ''thread'' msg (read_optional_32 ''thread'') r) (\<lambda>(thread, r).
     and_then (read_field ''reply_to'' msg (read_optional_32 ''reply_to'') r) (\<lambda>(reply_to, r).
     Inr (\<lparr>dm_kind = kind,
          dm_body = body,
          dm_reply_to = reply_to,
          dm_thread = thread\<rparr>, r))))))"

definition decode_direct_message :: "byte list \<Rightarrow> direct_message result" where
  "decode_direct_message =
     decode_all ''trailing bytes after DirectMessage''
       (read_map 4 ''DirectMessage expected 4 keys'' direct_message_fields)"

definition wf_direct_message :: "direct_message \<Rightarrow> bool" where
  [wf_defs]: "wf_direct_message x \<longleftrightarrow> wf_body (dm_body x) \<and>
     wf_text (direct_kind_as_str (dm_kind x)) \<and> direct_kind_parse (direct_kind_as_str (dm_kind x)) = dm_kind x \<and>
     pred_option (wf_fixed 32) (dm_thread x) \<and>
     pred_option (wf_fixed 32) (dm_reply_to x)"

lemma direct_message_codec: "wire_codec encode_direct_message (read_map 4 msg direct_message_fields) wf_direct_message"
  unfolding encode_direct_message_def [abs_def]
  by (rule map_codecI,
      (auto simp: and_then_eq_Inr literal_key wire_iff direct_message_fields_def Let_def direct_message_entries_def wf_direct_message_def cbor_key_text)[1],
      simp_all add: literal_key wire_write direct_message_fields_def Let_def direct_message_entries_def wf_direct_message_def cbor_key_text)

interpretation direct_message_msg: strict_message encode_direct_message decode_direct_message wf_direct_message
  unfolding decode_direct_message_def by (rule strict_messageI) (rule decode_all_iff [OF direct_message_codec])

record direct_receipt =
  dr_message_ref :: "byte list"
  dr_status :: receipt_status

definition direct_receipt_entries :: "direct_receipt \<Rightarrow> map_entry list" where
  "direct_receipt_entries x =
     [(cbor_key ''ref'', cbor_bytes (dr_message_ref x)),
      (cbor_key ''status'', cbor_text (receipt_status_as_str (dr_status x)))]"

definition encode_direct_receipt :: "direct_receipt \<Rightarrow> byte list" where
  "encode_direct_receipt x = encode_map (direct_receipt_entries x)"

definition direct_receipt_fields :: "cbor_reader \<Rightarrow> (direct_receipt \<times> cbor_reader) result" where
  "direct_receipt_fields r =
     and_then (read_field ''ref'' ''DirectReceipt expects ref first'' (read_fixed ''ref'' 32) r) (\<lambda>(message_ref, r).
     and_then (read_field ''status'' ''DirectReceipt expects status second'' (read_parsed receipt_status_parse) r) (\<lambda>(status, r).
     Inr (\<lparr>dr_message_ref = message_ref,
          dr_status = status\<rparr>, r)))"

definition decode_direct_receipt :: "byte list \<Rightarrow> direct_receipt result" where
  "decode_direct_receipt =
     decode_all ''trailing bytes after DirectReceipt''
       (read_map 2 ''DirectReceipt expected 2 keys'' direct_receipt_fields)"

definition wf_direct_receipt :: "direct_receipt \<Rightarrow> bool" where
  [wf_defs]: "wf_direct_receipt x \<longleftrightarrow> wf_fixed 32 (dr_message_ref x) \<and>
     wf_text (receipt_status_as_str (dr_status x)) \<and> receipt_status_parse (receipt_status_as_str (dr_status x)) = dr_status x"

lemma direct_receipt_codec: "wire_codec encode_direct_receipt (read_map 2 msg direct_receipt_fields) wf_direct_receipt"
  unfolding encode_direct_receipt_def [abs_def]
  by (rule map_codecI,
      (auto simp: and_then_eq_Inr literal_key wire_iff direct_receipt_fields_def Let_def direct_receipt_entries_def wf_direct_receipt_def cbor_key_text)[1],
      simp_all add: literal_key wire_write direct_receipt_fields_def Let_def direct_receipt_entries_def wf_direct_receipt_def cbor_key_text)

interpretation direct_receipt_msg: strict_message encode_direct_receipt decode_direct_receipt wf_direct_receipt
  unfolding decode_direct_receipt_def by (rule strict_messageI) (rule decode_all_iff [OF direct_receipt_codec])

record direct_typing =
  dt_state :: typing_state

definition direct_typing_entries :: "direct_typing \<Rightarrow> map_entry list" where
  "direct_typing_entries x =
     [(cbor_key ''state'', cbor_text (typing_state_as_str (dt_state x)))]"

definition encode_direct_typing :: "direct_typing \<Rightarrow> byte list" where
  "encode_direct_typing x = encode_map (direct_typing_entries x)"

definition direct_typing_fields :: "cbor_reader \<Rightarrow> (direct_typing \<times> cbor_reader) result" where
  "direct_typing_fields r =
     and_then (read_field ''state'' ''DirectTyping expects state'' (read_parsed typing_state_parse) r) (\<lambda>(state, r).
     Inr (\<lparr>dt_state = state\<rparr>, r))"

definition decode_direct_typing :: "byte list \<Rightarrow> direct_typing result" where
  "decode_direct_typing =
     decode_all ''trailing bytes after DirectTyping''
       (read_map 1 ''DirectTyping expected 1 key'' direct_typing_fields)"

definition wf_direct_typing :: "direct_typing \<Rightarrow> bool" where
  [wf_defs]: "wf_direct_typing x \<longleftrightarrow> wf_text (typing_state_as_str (dt_state x)) \<and> typing_state_parse (typing_state_as_str (dt_state x)) = dt_state x"

lemma direct_typing_codec: "wire_codec encode_direct_typing (read_map 1 msg direct_typing_fields) wf_direct_typing"
  unfolding encode_direct_typing_def [abs_def]
  by (rule map_codecI,
      (auto simp: and_then_eq_Inr literal_key wire_iff direct_typing_fields_def Let_def direct_typing_entries_def wf_direct_typing_def cbor_key_text)[1],
      simp_all add: literal_key wire_write direct_typing_fields_def Let_def direct_typing_entries_def wf_direct_typing_def cbor_key_text)

interpretation direct_typing_msg: strict_message encode_direct_typing decode_direct_typing wf_direct_typing
  unfolding decode_direct_typing_def by (rule strict_messageI) (rule decode_all_iff [OF direct_typing_codec])

end
