(* ===== verification/References.thy ===== *)
theory References
  imports Items
begin

text \<open>
  References to content-addressed objects, \<open>sidevers-storage/src/reference.rs\<close>. A reference
  carries references to the objects it depends on, so its codec is recursive; the depth
  counter of \<open>decode_inner\<close> is the number of levels the reader may still enter. The decoder
  ignores bytes after the reference.
\<close>

definition ADDRESS_LEN :: nat where "ADDRESS_LEN = 32"
definition DEFAULT_DEP_DEPTH_LIMIT :: nat where "DEFAULT_DEP_DEPTH_LIMIT = 64"

datatype reference = Reference (rf_hash: "byte list") (rf_size: u64) (rf_mime: string)
  (rf_hints: "byte list list") (rf_deps: "reference list")

definition reference_new :: "byte list \<Rightarrow> u64 \<Rightarrow> string \<Rightarrow> reference" where
  "reference_new hash sz mime = Reference hash sz mime [] []"

section \<open>Encoding\<close>

fun encode_reference :: "reference \<Rightarrow> byte list" where
  "encode_reference (Reference hash sz mime hints deps) = encode_map
     [(cbor_text ''deps'', cbor_array encode_reference deps),
      (cbor_text ''hash'', cbor_bytes hash),
      (cbor_text ''size'', cbor_uint sz),
      (cbor_text ''type'', cbor_text mime),
      (cbor_text ''hints'', cbor_array cbor_bytes hints)]"

definition reference_entries :: "reference \<Rightarrow> map_entry list" where
  "reference_entries x =
     [(cbor_text ''deps'', cbor_array encode_reference (rf_deps x)),
      (cbor_text ''hash'', cbor_bytes (rf_hash x)),
      (cbor_text ''size'', cbor_uint (rf_size x)),
      (cbor_text ''type'', cbor_text (rf_mime x)),
      (cbor_text ''hints'', cbor_array cbor_bytes (rf_hints x))]"

lemma encode_reference_entries: "encode_reference x = encode_map (reference_entries x)"
  by (cases x) (simp add: reference_entries_def)

section \<open>Decoding\<close>

definition reference_fields :: "(cbor_reader \<Rightarrow> (reference \<times> cbor_reader) result) \<Rightarrow> cbor_reader \<Rightarrow>
    (reference \<times> cbor_reader) result" where
  "reference_fields dep r = (let msg = ''Reference keys not in canonical order'' in
     and_then (read_field ''deps'' msg (read_array dep) r) (\<lambda>(deps, r).
     and_then (read_field ''hash'' msg (read_fixed ''hash'' ADDRESS_LEN) r) (\<lambda>(hash, r).
     and_then (read_field ''size'' msg read_u64 r) (\<lambda>(sz, r).
     and_then (read_field ''type'' msg read_text r) (\<lambda>(mime, r).
     and_then (read_field ''hints'' msg (read_array (read_fixed ''hint'' 32)) r) (\<lambda>(hints, r).
     Inr (Reference hash sz mime hints deps, r)))))))"

primrec read_reference :: "nat \<Rightarrow> cbor_reader \<Rightarrow> (reference \<times> cbor_reader) result" where
  "read_reference 0 = (\<lambda>r. Inl (Invariant ''reference depth limit exceeded''))"
| "read_reference (Suc levels) =
     read_map 5 ''Reference expected 5 keys'' (reference_fields (read_reference levels))"

definition decode_reference :: "byte list \<Rightarrow> reference result" where
  "decode_reference = decode_prefix (read_reference (Suc DEFAULT_DEP_DEPTH_LIMIT))"

section \<open>What the decoder accepts\<close>

primrec wf_reference :: "nat \<Rightarrow> reference \<Rightarrow> bool" where
  "wf_reference 0 x \<longleftrightarrow> False"
| "wf_reference (Suc levels) x \<longleftrightarrow> wf_fixed 32 (rf_hash x) \<and> wf_text (rf_mime x) \<and>
     wf_array (wf_fixed 32) (rf_hints x) \<and> wf_array (wf_reference levels) (rf_deps x)"

text \<open>The number of references on the longest path of dependencies.\<close>

fun depth :: "reference \<Rightarrow> nat" where
  "depth (Reference hash sz mime hints deps) = Suc (fold max (map depth deps) 0)"

lemma reference_codec: "wire_codec encode_reference (read_reference levels) (wf_reference levels)"
proof (induction levels)
  case 0
  show ?case by unfold_locales simp
next
  case (Suc levels)
  note deps = wire_codec.array_codec [OF Suc]
  have "wire_codec (\<lambda>x. encode_map (reference_entries x))
      (read_map 5 ''Reference expected 5 keys'' (reference_fields (read_reference levels))) (wf_reference (Suc levels))"
  proof (rule map_codecI)
    fix pre s x r'
    assume "reference_fields (read_reference levels) (rdr pre s) = Inr (x, r')"
    then show "wf_reference (Suc levels) x \<and>
        (\<exists>suf. s = map_body (reference_entries x) @ suf \<and> r' = rdr (pre @ map_body (reference_entries x)) suf)"
      by (auto simp: reference_fields_def Let_def and_then_eq_Inr literal_key wire_iff reference_entries_def
          ADDRESS_LEN_def wire_codec_iff [OF deps])
  next
    fix pre suf x
    assume "wf_reference (Suc levels) x"
    then show "reference_fields (read_reference levels) (rdr pre (map_body (reference_entries x) @ suf)) =
        Inr (x, rdr (pre @ map_body (reference_entries x)) suf)"
      by (cases x) (simp add: reference_fields_def Let_def literal_key wire_write reference_entries_def
          ADDRESS_LEN_def wire_codec_write [OF deps])
  qed (simp_all add: reference_entries_def)
  then show ?case by (simp add: encode_reference_entries [abs_def] del: wf_reference.simps)
qed

interpretation reference_msg: lax_message encode_reference decode_reference "wf_reference 65"
  unfolding decode_reference_def DEFAULT_DEP_DEPTH_LIMIT_def
  by (rule lax_messageI) (simp add: decode_prefix_iff [OF reference_codec] del: wf_reference.simps read_reference.simps)

lemma fold_max_le: "fold max xs m \<le> n \<longleftrightarrow> m \<le> n \<and> (\<forall>x \<in> set xs. x \<le> (n::nat))"
  by (induction xs arbitrary: m) auto

text \<open>The shape of a reference is checked at every level, whatever the depth allowed.\<close>

fun wf_references :: "reference \<Rightarrow> bool" where
  "wf_references (Reference hash sz mime hints deps) \<longleftrightarrow> wf_fixed 32 hash \<and> wf_text mime \<and>
     wf_array (wf_fixed 32) hints \<and> length deps \<le> MAX_CBOR_ENTRIES \<and> list_all wf_references deps"

lemma wf_reference_depth: "wf_reference levels x \<longleftrightarrow> wf_references x \<and> depth x \<le> levels"
proof (induction levels arbitrary: x)
  case 0
  then show ?case by (cases x) simp
next
  case (Suc levels)
  show ?case
    by (cases x) (auto simp: Suc.IH wf_array_def list_all_iff fold_max_le)
qed

text \<open>The reference decoder accepts exactly the canonical encodings of references of at most 65
  levels whose hashes and hints are 32 bytes and whose texts and arrays are within the limits of
  the codec, followed by anything; nested deeper it refuses. What it returns is the reference
  that was encoded.\<close>

lemma reference_exact:
  "decode_reference bs = Inr x \<longleftrightarrow> wf_references x \<and> depth x \<le> 65 \<and> (\<exists>t. bs = encode_reference x @ t)"
  unfolding reference_msg.decode_iff_prefix wf_reference_depth by auto

end
