(* ===== verification/Objects.thy ===== *)
theory Objects
  imports Tables Keys References
begin

text \<open>
  The content-addressed object store, \<open>sidevers-storage/src/object.rs\<close> over the table of
  \<open>db.rs\<close>. Small objects live in their row, larger ones in a file named by the hash, so the
  files are a map from hashes. The clock and the outcomes of file and database operations are
  arguments; a write that fails may leave the file as it was or with any contents. Queries of
  the table are taken to succeed, except where a caller handles their failure (\<open>has\<close>).
\<close>

section \<open>State\<close>

definition INLINE_MAX :: nat where "INLINE_MAX = 4096"
definition DEFAULT_MAX_BYTES :: u64 where "DEFAULT_MAX_BYTES = 0"

text \<open>The error of a hash check prints a digest or says what is missing or how long it is.\<close>

datatype mismatch = Digest "byte list" | Missing string | Length nat

datatype store_error =
    StIo
  | StSqlite
  | StHashMismatch mismatch mismatch
  | StRangeOutOfBounds u64 u64 u64
  | StCore error
  | StCapacityOverflow

type_synonym 'a store_result = "store_error + 'a"

record object_row =
  ob_size :: u64
  ob_inline :: "byte list option"
  ob_pinned :: bool
  ob_added_at :: u64
  ob_last_accessed :: u64

record object_store =
  os_rows :: "(byte list \<times> object_row) list"
  os_files :: "byte list \<rightharpoonup> byte list"
  os_max_bytes :: u64

definition object_store_new :: object_store where
  "object_store_new = \<lparr>os_rows = [], os_files = Map.empty, os_max_bytes = DEFAULT_MAX_BYTES\<rparr>"

datatype write_outcome = Written | WriteFailed "byte list option"

section \<open>Operations\<close>

definition set_max_bytes :: "u64 \<Rightarrow> object_store \<Rightarrow> object_store" where
  "set_max_bytes m s = s\<lparr>os_max_bytes := m\<rparr>"

definition put_object :: "crypto \<Rightarrow> u64 \<Rightarrow> write_outcome \<Rightarrow> bool \<Rightarrow> byte list \<Rightarrow> object_store \<Rightarrow>
    byte list store_result \<times> object_store" where
  "put_object C now w sql bytes s = (let hash = blake3 C bytes;
       row = (\<lambda>inline. \<lparr>ob_size = word_of_nat (length bytes), ob_inline = inline, ob_pinned = False,
                      ob_added_at = now, ob_last_accessed = now\<rparr>);
       index = (\<lambda>inline s. if \<not> sql then (Inl StSqlite, s)
                 else (Inr hash, s\<lparr>os_rows := insert_or_ignore hash (row inline) (os_rows s)\<rparr>)) in
     if length bytes \<le> INLINE_MAX then index (Some bytes) s
     else (case w of
         WriteFailed None \<Rightarrow> (Inl StIo, s)
       | WriteFailed (Some left) \<Rightarrow> (Inl StIo, s\<lparr>os_files := (os_files s)(hash \<mapsto> left)\<rparr>)
       | Written \<Rightarrow> index None (s\<lparr>os_files := (os_files s)(hash \<mapsto> bytes)\<rparr>)))"

definition has_object :: "bool \<Rightarrow> byte list \<Rightarrow> object_store \<Rightarrow> bool store_result" where
  "has_object sql hash s = (if \<not> sql then Inl StSqlite else Inr (map_of (os_rows s) hash \<noteq> None))"

definition object_size :: "byte list \<Rightarrow> object_store \<Rightarrow> u64 option" where
  "object_size hash s = map_option ob_size (map_of (os_rows s) hash)"

definition verify_hash :: "crypto \<Rightarrow> byte list \<Rightarrow> byte list \<Rightarrow> unit store_result" where
  "verify_hash C bytes expected =
     (if blake3 C bytes = expected then Inr ()
      else Inl (StHashMismatch (Digest expected) (Digest (blake3 C bytes))))"

definition update_row :: "byte list \<Rightarrow> (object_row \<Rightarrow> object_row) \<Rightarrow> object_store \<Rightarrow> object_store" where
  "update_row hash f s = (case map_of (os_rows s) hash of
     None \<Rightarrow> s | Some r \<Rightarrow> s\<lparr>os_rows := AList.update hash (f r) (os_rows s)\<rparr>)"

definition touch_last_accessed :: "u64 \<Rightarrow> byte list \<Rightarrow> object_store \<Rightarrow> object_store" where
  "touch_last_accessed now hash s = update_row hash (\<lambda>r. r\<lparr>ob_last_accessed := now\<rparr>) s"

text \<open>What the row or the file holds for a hash; the object is missing, unreadable or found.\<close>

definition stored_bytes :: "byte list \<Rightarrow> object_store \<Rightarrow> byte list option store_result" where
  "stored_bytes hash s = (case map_of (os_rows s) hash of
     None \<Rightarrow> Inr None
   | Some r \<Rightarrow> (case ob_inline r of
         Some b \<Rightarrow> Inr (Some b)
       | None \<Rightarrow> (case os_files s hash of None \<Rightarrow> Inl StIo | Some b \<Rightarrow> Inr (Some b))))"

definition get_object :: "crypto \<Rightarrow> u64 \<Rightarrow> bool \<Rightarrow> byte list \<Rightarrow> object_store \<Rightarrow> byte list option store_result \<times> object_store" where
  "get_object C now sql hash s = (case stored_bytes hash s of
     Inl e \<Rightarrow> (Inl e, s)
   | Inr None \<Rightarrow> (Inr None, s)
   | Inr (Some bytes) \<Rightarrow> (case verify_hash C bytes hash of
         Inl e \<Rightarrow> (Inl e, s)
       | Inr _ \<Rightarrow> if \<not> sql then (Inl StSqlite, s) else (Inr (Some bytes), touch_last_accessed now hash s)))"

definition get_range :: "crypto \<Rightarrow> u64 \<Rightarrow> bool \<Rightarrow> byte list \<Rightarrow> u64 \<Rightarrow> u64 \<Rightarrow> object_store \<Rightarrow>
    byte list option store_result \<times> object_store" where
  "get_range C now sql hash lo hi s = (case get_object C now sql hash s of
     (Inl e, s) \<Rightarrow> (Inl e, s)
   | (Inr None, s) \<Rightarrow> (Inr None, s)
   | (Inr (Some whole), s) \<Rightarrow> let sz = word_of_nat (length whole) in
       if hi < lo \<or> sz < hi then (Inl (StRangeOutOfBounds lo hi sz), s)
       else (Inr (Some (take (unat hi - unat lo) (drop (unat lo) whole))), s))"

definition pin_object :: "bool \<Rightarrow> byte list \<Rightarrow> object_store \<Rightarrow> unit store_result \<times> object_store" where
  "pin_object sql hash s =
     (if \<not> sql then (Inl StSqlite, s) else (Inr (), update_row hash (\<lambda>r. r\<lparr>ob_pinned := True\<rparr>) s))"

definition unpin_object :: "bool \<Rightarrow> byte list \<Rightarrow> object_store \<Rightarrow> unit store_result \<times> object_store" where
  "unpin_object sql hash s =
     (if \<not> sql then (Inl StSqlite, s) else (Inr (), update_row hash (\<lambda>r. r\<lparr>ob_pinned := False\<rparr>) s))"

section \<open>Eviction\<close>

text \<open>SQLite's \<open>SUM\<close> of 64-bit integers fails when it overflows, and the failure reads as 0.\<close>

definition total_bytes :: "object_store \<Rightarrow> u64" where
  "total_bytes s = (let t = \<Sum>(h, r) \<leftarrow> os_rows s. unat (ob_size r) in if t < 2 ^ 63 then word_of_nat t else 0)"

text \<open>The outcome of removing the file only matters for the file: the row goes in any case.\<close>

definition evict_one :: "bool \<Rightarrow> bool \<Rightarrow> byte list \<Rightarrow> object_store \<Rightarrow> unit store_result \<times> object_store" where
  "evict_one rm sql hash s = (let s = (if rm then s\<lparr>os_files := (os_files s)(hash := None)\<rparr> else s) in
     if \<not> sql then (Inl StSqlite, s) else (Inr (), s\<lparr>os_rows := AList.delete hash (os_rows s)\<rparr>))"

text \<open>Oldest access first and, among those, oldest insertion first.\<close>

definition eviction_candidates :: "object_store \<Rightarrow> (byte list \<times> u64) list" where
  "eviction_candidates s = map (\<lambda>(h, r). (h, ob_size r))
     (sort_key (\<lambda>(h, r). ob_last_accessed r) (sort_key (\<lambda>(h, r). ob_added_at r)
       (filter (\<lambda>(h, r). \<not> ob_pinned r \<and> length h = ADDRESS_LEN) (os_rows s))))"

fun evict_loop :: "(nat \<Rightarrow> bool \<times> bool) \<Rightarrow> nat \<Rightarrow> (byte list \<times> u64) list \<Rightarrow> u64 \<Rightarrow> nat \<Rightarrow> u64 \<Rightarrow> object_store \<Rightarrow>
    (nat \<times> u64) store_result \<times> object_store" where
  "evict_loop io i [] to_drop count bytes s = (Inr (count, bytes), s)"
| "evict_loop io i ((hash, sz) # cs) to_drop count bytes s =
     (if to_drop = 0 then (Inr (count, bytes), s)
      else (case evict_one (fst (io i)) (snd (io i)) hash s of
          (Inl e, s) \<Rightarrow> (Inl e, s)
        | (Inr _, s) \<Rightarrow> evict_loop io (Suc i) cs (saturating_sub to_drop sz) (Suc count) (bytes + sz) s))"

definition evict_to_budget :: "(nat \<Rightarrow> bool \<times> bool) \<Rightarrow> object_store \<Rightarrow> (nat \<times> u64) store_result \<times> object_store" where
  "evict_to_budget io s = (let budget = os_max_bytes s in
     if budget = 0 then (Inr (0, 0), s)
     else let total = total_bytes s in
       if total \<le> budget then (Inr (0, 0), s)
       else evict_loop io 0 (eviction_candidates s) (saturating_sub total budget) 0 0 s)"

section \<open>Lookups after each operation\<close>

lemma map_of_update_row [simp]:
  "map_of (os_rows (update_row hash f s)) h = (if h = hash then map_option f (map_of (os_rows s) h) else map_of (os_rows s) h)"
  by (auto simp: update_row_def update_conv' split: option.split)

lemma files_update_row [simp]: "os_files (update_row hash f s) = os_files s"
  by (simp add: update_row_def split: option.split)

lemma stored_bytes_update_row:
  "(\<And>r. ob_inline (f r) = ob_inline r) \<Longrightarrow> stored_bytes h (update_row hash f s) = stored_bytes h s"
  by (auto simp: stored_bytes_def split: option.split)

lemma stored_bytes_touch [simp]: "stored_bytes h (touch_last_accessed now hash s) = stored_bytes h s"
  by (simp add: touch_last_accessed_def stored_bytes_update_row)

lemma verify_hash_iff [simp]: "verify_hash C bytes h = Inr u \<longleftrightarrow> blake3 C bytes = h"
  by (simp add: verify_hash_def)

lemma get_object_iff:
  "get_object C now sql hash s = (Inr (Some bytes), s') \<longleftrightarrow>
     stored_bytes hash s = Inr (Some bytes) \<and> blake3 C bytes = hash \<and> sql \<and> s' = touch_last_accessed now hash s"
  by (auto simp: get_object_def verify_hash_def split: sum.splits option.splits if_splits)

lemma get_object_stored [simp]: "stored_bytes h (snd (get_object C now sql hash s)) = stored_bytes h s"
  by (simp add: get_object_def split: sum.split option.split)

lemma get_object_none: "get_object C now sql hash s = (Inr None, s') \<longleftrightarrow> stored_bytes hash s = Inr None \<and> s' = s"
  by (auto simp: get_object_def split: sum.splits option.splits if_splits)

text \<open>
  The rows describe objects of \<open>U\<close>, the byte strings ever put: each row has the hash and the
  size of one of them, and its bytes if it is small. Files may hold anything.
\<close>

definition row_of :: "crypto \<Rightarrow> byte list \<Rightarrow> byte list \<Rightarrow> object_row \<Rightarrow> bool" where
  "row_of C b h r \<longleftrightarrow> blake3 C b = h \<and> ob_size r = word_of_nat (length b) \<and>
     ob_inline r = (if length b \<le> INLINE_MAX then Some b else None)"

definition rows_ok :: "crypto \<Rightarrow> byte list set \<Rightarrow> object_store \<Rightarrow> bool" where
  "rows_ok C U s \<longleftrightarrow> (\<forall>h r. map_of (os_rows s) h = Some r \<longrightarrow> (\<exists>b \<in> U. row_of C b h r))"

lemma rows_ok_new: "rows_ok C U object_store_new"
  by (simp add: rows_ok_def object_store_new_def)

lemma rows_ok_put: "rows_ok C U s \<Longrightarrow> bytes \<in> U \<Longrightarrow> rows_ok C U (snd (put_object C now w sql bytes s))"
  by (auto simp: rows_ok_def put_object_def Let_def map_of_insert_or_ignore row_of_def
      split: write_outcome.split option.split if_splits)

lemma rows_ok_update_row:
  assumes "\<And>r. ob_inline (f r) = ob_inline r \<and> ob_size (f r) = ob_size r" "rows_ok C U s"
  shows "rows_ok C U (update_row hash f s)"
proof -
  have "row_of C b h (f r) = row_of C b h r" for b h r using assms(1) by (simp add: row_of_def)
  then show ?thesis using assms(2) by (auto simp: rows_ok_def split: if_splits)
qed

lemma rows_ok_touch: "rows_ok C U s \<Longrightarrow> rows_ok C U (touch_last_accessed now hash s)"
  by (simp add: touch_last_accessed_def rows_ok_update_row)

lemma rows_ok_get: "rows_ok C U s \<Longrightarrow> rows_ok C U (snd (get_object C now sql hash s))"
  by (simp add: get_object_def rows_ok_touch split: sum.split option.split)

lemma rows_ok_evict: "rows_ok C U s \<Longrightarrow> rows_ok C U (snd (evict_one rm sql hash s))"
  by (simp add: rows_ok_def evict_one_def Let_def delete_conv')

section \<open>What was stored is found\<close>

definition holds :: "crypto \<Rightarrow> byte list \<Rightarrow> object_store \<Rightarrow> bool" where
  "holds C b s \<longleftrightarrow> stored_bytes (blake3 C b) s = Inr (Some b)"

lemma holds_touch [simp]: "holds C b (touch_last_accessed now hash s) = holds C b s"
  by (simp add: holds_def)

lemma holds_get: "holds C b s \<Longrightarrow> get_object C now True (blake3 C b) s = (Inr (Some b), touch_last_accessed now (blake3 C b) s)"
  by (simp add: holds_def get_object_iff)

lemma put_object_ok:
  "fst (put_object C now w sql bytes s) = Inr h \<longleftrightarrow> h = blake3 C bytes \<and> sql \<and> (length bytes \<le> INLINE_MAX \<or> w = Written)"
  by (auto simp: put_object_def Let_def split: write_outcome.split option.split)

lemma row_of_unique:
  assumes "rows_ok C U s" "inj_on (blake3 C) U" "b \<in> U" "map_of (os_rows s) (blake3 C b) = Some r"
  shows "ob_inline r = (if length b \<le> INLINE_MAX then Some b else None)"
  using assms by (auto simp: rows_ok_def row_of_def inj_on_def) metis+

lemma put_holds:
  assumes "put_object C now w sql bytes s = (Inr h, s')" "rows_ok C U s" "inj_on (blake3 C) U" "bytes \<in> U"
  shows "holds C bytes s'"
  using assms(1) row_of_unique [OF assms(2,3,4)]
  by (auto simp: put_object_def Let_def holds_def stored_bytes_def map_of_insert_or_ignore
      split: write_outcome.splits option.splits if_splits)

lemma put_keeps:
  assumes "holds C b s" "b \<in> U" "bytes \<in> U" "inj_on (blake3 C) U" "\<And>left. w \<noteq> WriteFailed (Some left)"
  shows "holds C b (snd (put_object C now w sql bytes s))"
proof -
  obtain r where r: "map_of (os_rows s) (blake3 C b) = Some r"
      "ob_inline r = Some b \<or> ob_inline r = None \<and> os_files s (blake3 C b) = Some b"
    using assms(1) by (auto simp: holds_def stored_bytes_def split: option.splits)
  have w: "w = Written \<or> w = WriteFailed None" using assms(5) by (metis option.exhaust write_outcome.exhaust)
  show ?thesis
  proof (cases "bytes = b")
    case True
    then show ?thesis using r w
      by (auto simp: put_object_def Let_def holds_def stored_bytes_def map_of_insert_or_ignore)
  next
    case False
    then have "blake3 C bytes \<noteq> blake3 C b" using assms(2-4) by (auto dest: inj_onD)
    then show ?thesis using r w
      by (auto simp: put_object_def Let_def holds_def stored_bytes_def map_of_insert_or_ignore)
  qed
qed

section \<open>Eviction fits the budget\<close>

definition stored_size :: "object_store \<Rightarrow> nat" where
  "stored_size s = (\<Sum>(h, r) \<leftarrow> os_rows s. unat (ob_size r))"

lemma total_bytes_unat: "stored_size s < 2 ^ 63 \<Longrightarrow> unat (total_bytes s) = stored_size s"
  by (simp add: total_bytes_def stored_size_def Let_def unat_of_nat)

lemma rows_evict: "os_rows (snd (evict_one rm True h s)) = filter (\<lambda>(k, r). k \<noteq> h) (os_rows s)"
  by (auto simp: evict_one_def Let_def AList.delete_eq case_prod_beta' intro: filter_cong)

lemma size_without:
  assumes "distinct (map fst t)" "map_of t h = Some r"
  shows "(\<Sum>(k, r) \<leftarrow> t. f r) = f r + (\<Sum>(k, r) \<leftarrow> filter (\<lambda>(k, r). k \<noteq> h) t. f r :: nat)"
  using assms
proof (induction t)
  case (Cons x t)
  have "filter (\<lambda>(k, r). k \<noteq> h) t = t" if "fst x = h"
  proof (rule filter_True, clarify)
    fix r assume "(h, r) \<in> set t"
    then have "h \<in> set (map fst t)" by force
    then show False using that Cons.prems(1) by auto
  qed
  then show ?case using Cons by (cases x) (auto split: if_splits dest: map_of_SomeD)
qed simp

text \<open>
  The loop removes a prefix of the candidates: it goes on while the budget is exceeded and
  stops when it is met or no candidate is left.
\<close>

lemma evict_loop_prefix:
  assumes "\<And>j. snd (io j)" "distinct (map fst (os_rows s))" "distinct (map fst cs)"
    and "\<forall>(h, z) \<in> set cs. \<exists>r. map_of (os_rows s) h = Some r \<and> ob_size r = z"
    and "unat to_drop = stored_size s - budget"
    and "evict_loop io i cs to_drop n b s = (res, s')"
  shows "\<exists>k \<le> length cs. (\<exists>b'. res = Inr (n + k, b')) \<and>
     os_rows s' = filter (\<lambda>(h, r). h \<notin> set (map fst (take k cs))) (os_rows s) \<and>
     k + length (os_rows s') = length (os_rows s) \<and>
     (k = length cs \<or> stored_size s' \<le> budget) \<and>
     stored_size s = stored_size s' + (\<Sum>(h, z) \<leftarrow> take k cs. unat z) \<and>
     (\<forall>j < k. budget < stored_size s - (\<Sum>(h, z) \<leftarrow> take j cs. unat z))"
  using assms(2-)
proof (induction cs arbitrary: i to_drop n b s)
  case Nil
  then show ?case by auto
next
  case (Cons c cs)
  obtain h z where c: "c = (h, z)" by fastforce
  show ?case
  proof (cases "to_drop = 0")
    case True
    then show ?thesis using Cons.prems c by (auto intro!: exI [of _ "0 :: nat"])
  next
    case False
    let ?s = "snd (evict_one (fst (io i)) True h s)"
    have over: "budget < stored_size s" using False Cons.prems(4) by (simp add: unat_eq_zero flip: unat_gt_0)
    obtain r where r: "map_of (os_rows s) h = Some r" "ob_size r = z" using Cons.prems(3) c by auto
    have "stored_size s = unat z + stored_size ?s"
      using size_without [OF Cons.prems(1) r(1), of "\<lambda>r. unat (ob_size r)"] r(2) by (simp add: stored_size_def rows_evict)
    then have size: "stored_size ?s = stored_size s - unat z" and sz: "stored_size s = unat z + stored_size ?s" by simp_all
    have len: "length (os_rows s) = Suc (length (os_rows ?s))"
      using size_without [OF Cons.prems(1) r(1), of "\<lambda>_. 1"] by (simp add: rows_evict sum_list_triv case_prod_beta')
    have "evict_loop io (Suc i) cs (saturating_sub to_drop z) (Suc n) (b + z) ?s = (res, s')"
      using Cons.prems(5) False c assms(1) [of i] by (simp add: evict_one_def Let_def)
    moreover have "\<forall>(h', z') \<in> set cs. \<exists>r. map_of (os_rows ?s) h' = Some r \<and> ob_size r = z'"
    proof (intro ballI, clarify)
      fix h' z' assume "(h', z') \<in> set cs"
      then have "h' \<noteq> h" "\<exists>r. map_of (os_rows s) h' = Some r \<and> ob_size r = z'" using Cons.prems(2,3) c by force+
      then show "\<exists>r. map_of (os_rows ?s) h' = Some r \<and> ob_size r = z'"
        by (simp add: evict_one_def Let_def delete_conv')
    qed
    moreover have "unat (saturating_sub to_drop z) = stored_size ?s - budget"
      using Cons.prems(4) size by (simp add: unat_saturating_sub)
    moreover have "distinct (map fst (os_rows ?s))" using Cons.prems(1) by (simp add: evict_one_def Let_def distinct_delete)
    moreover have "distinct (map fst cs)" using Cons.prems(2) by simp
    ultimately obtain k b' where k: "k \<le> length cs" "res = Inr (Suc n + k, b')"
        "os_rows s' = filter (\<lambda>(h, r). h \<notin> set (map fst (take k cs))) (os_rows ?s)"
        "k + length (os_rows s') = length (os_rows ?s)" "k = length cs \<or> stored_size s' \<le> budget"
        "stored_size ?s = stored_size s' + (\<Sum>(h, z) \<leftarrow> take k cs. unat z)"
        "\<forall>j < k. budget < stored_size ?s - (\<Sum>(h, z) \<leftarrow> take j cs. unat z)"
      using Cons.IH [of ?s "saturating_sub to_drop z" "Suc i" "Suc n" "b + z"] by blast
    have "\<forall>j < Suc k. budget < stored_size s - (\<Sum>(h, z) \<leftarrow> take j (c # cs). unat z)"
    proof (intro allI impI)
      fix j assume "j < Suc k"
      then show "budget < stored_size s - (\<Sum>(h, z) \<leftarrow> take j (c # cs). unat z)"
        using k(7) over size c by (cases j) auto
    qed
    moreover have "os_rows s' = filter (\<lambda>(h, r). h \<notin> set (map fst (take (Suc k) (c # cs)))) (os_rows s)"
      using k(3) c by (auto simp: rows_evict intro!: filter_cong)
    ultimately show ?thesis using k(1,2,4,5,6) sz len c by (intro exI [of _ "Suc k"]) simp
  qed
qed

lemma sorted_lex:
  fixes f g :: "'a \<Rightarrow> 'k::linorder"
  shows "sorted_wrt (\<lambda>x y. f x < f y \<or> f x = f y \<and> g x \<le> g y) (sort_key f (sort_key g xs))"
proof -
  have "sorted_wrt (\<lambda>x y. f x < f y \<or> f x = f y \<and> g x \<le> g y) (insort_key f x ys)"
    if "sorted_wrt (\<lambda>x y. f x < f y \<or> f x = f y \<and> g x \<le> g y) ys" "\<forall>y \<in> set ys. g x \<le> g y" for x ys
    using that by (induction ys) (auto simp: set_insort_key not_le intro: order.strict_trans1)
  moreover have "set (foldr (insort_key f) ys []) = set ys" for ys
    by (induction ys) (simp_all add: set_insort_key)
  ultimately have "sorted_wrt (\<lambda>x y. f x < f y \<or> f x = f y \<and> g x \<le> g y) (foldr (insort_key f) ys [])"
    if "sorted_wrt (\<lambda>x y. g x \<le> g y) ys" for ys
    using that by (induction ys) auto
  moreover have "sorted_wrt (\<lambda>x y. g x \<le> g y) (sort_key g xs)"
    using sorted_sort_key [of g xs] by (simp add: sorted_wrt_map)
  ultimately show ?thesis by (simp add: sort_key_def)
qed

abbreviation staler :: "object_row \<Rightarrow> object_row \<Rightarrow> bool" where
  "staler r q \<equiv> ob_last_accessed r < ob_last_accessed q \<or>
     ob_last_accessed r = ob_last_accessed q \<and> ob_added_at r \<le> ob_added_at q"

lemma candidates_set:
  assumes "distinct (map fst (os_rows s))" "\<forall>(h, r) \<in> set (os_rows s). length h = 32"
  shows "(h, z) \<in> set (eviction_candidates s) \<longleftrightarrow> (\<exists>r. map_of (os_rows s) h = Some r \<and> \<not> ob_pinned r \<and> ob_size r = z)"
    and "distinct (map fst (eviction_candidates s))"
proof -
  show "(h, z) \<in> set (eviction_candidates s) \<longleftrightarrow> (\<exists>r. map_of (os_rows s) h = Some r \<and> \<not> ob_pinned r \<and> ob_size r = z)"
    using assms by (auto simp: eviction_candidates_def ADDRESS_LEN_def image_iff)
  let ?f = "filter (\<lambda>(h, r). \<not> ob_pinned r \<and> length h = ADDRESS_LEN) (os_rows s)"
  have "distinct ?f" using assms(1) by (simp add: distinct_map)
  moreover have "inj_on fst (set ?f)" using assms(1) by (auto simp: distinct_map intro: inj_on_subset)
  ultimately show "distinct (map fst (eviction_candidates s))"
    by (simp add: eviction_candidates_def distinct_map case_prod_beta' comp_def inj_on_def)
qed

lemma candidates_order:
  assumes "distinct (map fst (os_rows s))" "\<forall>(h, r) \<in> set (os_rows s). length h = 32"
    and "h \<in> set (map fst (take k (eviction_candidates s)))" "h' \<in> set (map fst (drop k (eviction_candidates s)))"
    and "map_of (os_rows s) h = Some r" "map_of (os_rows s) h' = Some q"
  shows "staler r q"
proof -
  let ?xs = "sort_key (\<lambda>(h, r). ob_last_accessed r) (sort_key (\<lambda>(h, r). ob_added_at r)
       (filter (\<lambda>(h, r). \<not> ob_pinned r \<and> length h = ADDRESS_LEN) (os_rows s)))"
  have "\<exists>r'. (h, r') \<in> set (take k ?xs)" "\<exists>q'. (h', q') \<in> set (drop k ?xs)"
    using assms(3,4) by (auto simp: eviction_candidates_def take_map drop_map)
  then obtain r' q' where rq: "(h, r') \<in> set (take k ?xs)" "(h', q') \<in> set (drop k ?xs)" by blast
  have "(h, r') \<in> set ?xs" "(h', q') \<in> set ?xs" using rq by (meson in_set_takeD in_set_dropD)+
  then have "r' = r" "q' = q" using assms(1,5,6) by (auto simp: eq_key_imp_eq_value)
  moreover have "sorted_wrt (\<lambda>x y. staler (snd x) (snd y)) (take k ?xs @ drop k ?xs)"
    using sorted_lex [of "\<lambda>(h, r). ob_last_accessed r" "\<lambda>(h, r). ob_added_at r"] by (simp add: case_prod_beta')
  ultimately show ?thesis using rq unfolding sorted_wrt_append by fastforce
qed

lemma map_of_without: "map_of (filter (\<lambda>(h, r). h \<notin> S) t) h = (if h \<in> S then None else map_of t h)"
  by (induction t) auto

lemma evict_to_budget_prefix:
  assumes "distinct (map fst (os_rows s))" "\<forall>(h, r) \<in> set (os_rows s). length h = 32" "stored_size s < 2 ^ 63"
    and "\<And>j. snd (io j)" "os_max_bytes s \<noteq> 0" "evict_to_budget io s = (res, s')"
  obtains k b where "k \<le> length (eviction_candidates s)" "res = Inr (k, b)"
    "k + length (os_rows s') = length (os_rows s)"
    "\<And>h. map_of (os_rows s') h =
      (if h \<in> set (map fst (take k (eviction_candidates s))) then None else map_of (os_rows s) h)"
    "k = length (eviction_candidates s) \<or> stored_size s' \<le> unat (os_max_bytes s)"
    "stored_size s = stored_size s' + (\<Sum>(h, z) \<leftarrow> take k (eviction_candidates s). unat z)"
    "\<forall>j < k. unat (os_max_bytes s) < stored_size s - (\<Sum>(h, z) \<leftarrow> take j (eviction_candidates s). unat z)"
proof -
  have total: "unat (total_bytes s) = stored_size s" by (rule total_bytes_unat [OF assms(3)])
  show ?thesis
  proof (cases "total_bytes s \<le> os_max_bytes s")
    case True
    then show ?thesis using assms(5,6) total that [of 0]
      by (auto simp: evict_to_budget_def Let_def word_le_nat_alt)
  next
    case False
    then have run: "evict_loop io 0 (eviction_candidates s) (saturating_sub (total_bytes s) (os_max_bytes s)) 0 0 s = (res, s')"
      using assms(5,6) by (simp add: evict_to_budget_def Let_def)
    have "\<forall>(h, z) \<in> set (eviction_candidates s). \<exists>r. map_of (os_rows s) h = Some r \<and> ob_size r = z"
      using candidates_set(1) [OF assms(1,2)] by auto
    from evict_loop_prefix [OF assms(4,1) candidates_set(2) [OF assms(1,2)] this _ run, of "unat (os_max_bytes s)"]
    show ?thesis using total that by (auto simp: map_of_without)
  qed
qed

text \<open>C33: Eviction meets the budget and harms nothing else: it changes no row it keeps, never drops a
  pinned object, and afterwards either the total is within the budget or only pinned objects
  are left. It drops the least recently accessed objects first (among equals the oldest), and no
  more than needed: without the last one dropped the budget would still be exceeded. All this
  also when the removal of a file fails.\<close>

theorem eviction_fits_budget:
  assumes "distinct (map fst (os_rows s))" "\<forall>(h, r) \<in> set (os_rows s). length h = 32" "stored_size s < 2 ^ 63"
    and "\<And>j. snd (io j)" "os_max_bytes s \<noteq> 0" "evict_to_budget io s = (res, s')"
  shows "\<exists>n b. res = Inr (n, b) \<and> n + length (os_rows s') = length (os_rows s) \<and>
    (stored_size s' \<le> unat (os_max_bytes s) \<or> (\<forall>h q. map_of (os_rows s') h = Some q \<longrightarrow> ob_pinned q)) \<and>
    (\<forall>h q. map_of (os_rows s') h = Some q \<longrightarrow> map_of (os_rows s) h = Some q) \<and>
    (\<forall>h r. map_of (os_rows s) h = Some r \<longrightarrow> map_of (os_rows s') h = None \<longrightarrow> \<not> ob_pinned r \<and>
      (\<forall>h' q. map_of (os_rows s') h' = Some q \<longrightarrow> ob_pinned q \<or> staler r q)) \<and>
    (n \<noteq> 0 \<longrightarrow> (\<exists>h r. map_of (os_rows s) h = Some r \<and> map_of (os_rows s') h = None \<and>
      unat (os_max_bytes s) < stored_size s' + unat (ob_size r)))"
proof -
  let ?B = "unat (os_max_bytes s)" and ?cs = "eviction_candidates s"
  note cand = candidates_set [OF assms(1,2)]
  obtain k b where k: "k \<le> length ?cs" "res = Inr (k, b)" "k + length (os_rows s') = length (os_rows s)"
      "\<And>h. map_of (os_rows s') h = (if h \<in> set (map fst (take k ?cs)) then None else map_of (os_rows s) h)"
      "k = length ?cs \<or> stored_size s' \<le> ?B" "stored_size s = stored_size s' + (\<Sum>(h, z) \<leftarrow> take k ?cs. unat z)"
      "\<forall>j < k. ?B < stored_size s - (\<Sum>(h, z) \<leftarrow> take j ?cs. unat z)"
    by (rule evict_to_budget_prefix [OF assms(1-3) _ assms(5,6)], rule assms(4)) (rule that)
  note look = k(4)
  have gone: "h \<in> set (map fst (take k ?cs))" "\<not> ob_pinned r"
    if "map_of (os_rows s) h = Some r" "map_of (os_rows s') h = None" for h r
  proof -
    show h: "h \<in> set (map fst (take k ?cs))" using that look by (auto split: if_splits)
    then obtain z where "(h, z) \<in> set ?cs" by (auto dest: in_set_takeD)
    then show "\<not> ob_pinned r" using cand(1) that(1) by auto
  qed
  have kept: "ob_pinned q \<or> h \<in> set (map fst (drop k ?cs))" if "map_of (os_rows s') h = Some q" for h q
  proof -
    have q: "map_of (os_rows s) h = Some q" "h \<notin> set (map fst (take k ?cs))" using that look by (auto split: if_splits)
    then have "\<not> ob_pinned q \<Longrightarrow> h \<in> set (map fst (take k ?cs @ drop k ?cs))" using cand(1) by (force simp: image_iff)
    then show ?thesis using q(2) unfolding map_append set_append by blast
  qed
  have order: "ob_pinned q \<or> staler r q" if "map_of (os_rows s) h = Some r" "map_of (os_rows s') h = None"
      "map_of (os_rows s') h' = Some q" for h r h' q
    using candidates_order [OF assms(1,2) gone(1) [OF that(1,2)] _ that(1)] kept [OF that(3)] that(3) look
    by (auto split: if_splits)
  have fits: "stored_size s' \<le> ?B \<or> (\<forall>h q. map_of (os_rows s') h = Some q \<longrightarrow> ob_pinned q)"
    using k(5) kept by auto
  have needed: "\<exists>h r. map_of (os_rows s) h = Some r \<and> map_of (os_rows s') h = None \<and> ?B < stored_size s' + unat (ob_size r)"
    if "k \<noteq> 0"
  proof -
    from that obtain j where j: "k = Suc j" by (cases k) auto
    obtain h z where hz: "?cs ! j = (h, z)" by fastforce
    then have "(h, z) \<in> set ?cs" "(h, z) \<in> set (take k ?cs)" using k(1) j by (metis Suc_le_eq nth_mem, simp add: take_Suc_conv_app_nth)
then obtain r where "map_of (os_rows s) h = Some r" "ob_size r = z" using cand(1) by auto
    moreover have "map_of (os_rows s') h = None" using \<open>(h, z) \<in> set (take k ?cs)\<close> look by (force simp: image_iff)
    moreover have "?B < stored_size s' + unat z"
      using k(1,6) k(7) [rule_format, of j] j hz by (simp add: take_Suc_conv_app_nth)
    ultimately show ?thesis by blast
  qed
  show ?thesis
    using k(2,3) fits gone(2) order needed look by (auto split: if_splits)
qed

definition sample_objects :: object_store where
  "sample_objects = \<lparr>os_rows = [(replicate 32 1, \<lparr>ob_size = 100, ob_inline = None, ob_pinned = False, ob_added_at = 5, ob_last_accessed = 7\<rparr>),
     (replicate 32 2, \<lparr>ob_size = 100, ob_inline = None, ob_pinned = True, ob_added_at = 4, ob_last_accessed = 4\<rparr>),
     (replicate 32 3, \<lparr>ob_size = 100, ob_inline = None, ob_pinned = False, ob_added_at = 5, ob_last_accessed = 6\<rparr>)],
     os_files = Map.empty, os_max_bytes = 250\<rparr>"

theorem eviction_fits_budget_witness:
  "\<exists>s'. evict_to_budget (\<lambda>_. (False, True)) sample_objects = (Inr (1, 100), s') \<and> stored_size s' \<le> 250 \<and>
     map_of (os_rows s') (replicate 32 3) = None \<and> map_of (os_rows s') (replicate 32 1) \<noteq> None"
proof -
  obtain s' where s': "evict_to_budget (\<lambda>_. (False, True)) sample_objects = (Inr (1, 100), s')"
      "map_of (os_rows s') (replicate 32 3) = None" "map_of (os_rows s') (replicate 32 1) \<noteq> None"
    by (simp add: evict_to_budget_def sample_objects_def total_bytes_def eviction_candidates_def ADDRESS_LEN_def
        sort_key_def evict_one_def saturating_sub_def Let_def)
  have d: "distinct (map fst (os_rows sample_objects))" "\<forall>(h, r) \<in> set (os_rows sample_objects). length h = 32"
      "stored_size sample_objects < 2 ^ 63" "os_max_bytes sample_objects \<noteq> 0" "unat (os_max_bytes sample_objects) = 250"
    by (simp_all add: sample_objects_def stored_size_def)
  from eviction_fits_budget [of sample_objects "\<lambda>_. (False, True)", OF d(1-3) _ d(4) s'(1)]
  have fit: "stored_size s' \<le> 250 \<or> (\<forall>h q. map_of (os_rows s') h = Some q \<longrightarrow> ob_pinned q)"
    and sub: "\<forall>h q. map_of (os_rows s') h = Some q \<longrightarrow> map_of (os_rows sample_objects) h = Some q"
    unfolding d(5) by auto
  obtain q where q: "map_of (os_rows s') (replicate 32 1) = Some q" using s'(3) by auto
  with sub have "map_of (os_rows sample_objects) (replicate 32 1) = Some q" by blast
  then have "\<not> ob_pinned q" by (auto simp: sample_objects_def)
  then show ?thesis using fit q s' by blast
qed

end
