(* ===== verification/Chunks.thy ===== *)
theory Chunks
  imports Objects
begin

text \<open>
  Large objects, \<open>sidevers-storage/src/chunking.rs\<close>: a blob above 256 KiB is stored as chunks
  and a manifest of their hashes; the reference to it carries a reference per chunk. Every
  call of the store has its own clock reading and outcomes, by its position in the sequence.
\<close>

definition CHUNK_MAX :: nat where "CHUNK_MAX = 256 * 1024"
definition MANIFEST_MIME :: string where "MANIFEST_MIME = ''application/sidevers.chunk-manifest+cbor''"
definition CHUNK_MIME :: string where "CHUNK_MIME = ''application/sidevers.chunk+binary''"
definition SINGLE_MIME :: string where "SINGLE_MIME = ''application/octet-stream''"

section \<open>Manifests\<close>

definition manifest_entries :: "u64 \<times> byte list list \<Rightarrow> map_entry list" where
  "manifest_entries m =
     [(cbor_text ''chunks'', cbor_array cbor_bytes (snd m)),
      (cbor_text ''total_size'', cbor_uint (fst m))]"

definition encode_manifest :: "u64 \<times> byte list list \<Rightarrow> byte list" where
  "encode_manifest m = encode_map (manifest_entries m)"

definition manifest_fields :: "cbor_reader \<Rightarrow> ((u64 \<times> byte list list) \<times> cbor_reader) result" where
  "manifest_fields r = (let msg = ''chunk manifest: key order'' in
     and_then (read_field ''chunks'' msg (read_array (read_fixed ''chunk.hash'' 32)) r) (\<lambda>(hashes, r).
     and_then (read_field ''total_size'' msg read_u64 r) (\<lambda>(total, r). Inr ((total, hashes), r))))"

definition decode_manifest :: "byte list \<Rightarrow> (u64 \<times> byte list list) result" where
  "decode_manifest = decode_all ''trailing bytes after manifest''
     (read_map 2 ''chunk manifest expected 2 keys'' manifest_fields)"

definition wf_manifest :: "u64 \<times> byte list list \<Rightarrow> bool" where
  "wf_manifest m \<longleftrightarrow> wf_array (wf_fixed 32) (snd m)"

lemma manifest_codec: "wire_codec encode_manifest (read_map 2 msg manifest_fields) wf_manifest"
  unfolding encode_manifest_def [abs_def]
  by (rule map_codecI,
      (auto simp: and_then_eq_Inr literal_key wire_iff manifest_fields_def Let_def manifest_entries_def wf_manifest_def)[1],
      simp_all add: literal_key wire_write manifest_fields_def Let_def manifest_entries_def wf_manifest_def)

interpretation manifest: strict_message encode_manifest decode_manifest wf_manifest
  unfolding decode_manifest_def by (rule strict_messageI) (rule decode_all_iff [OF manifest_codec])

section \<open>Splitting\<close>

function chunks :: "nat \<Rightarrow> 'a list \<Rightarrow> 'a list list" where
  "chunks n xs = (if xs = [] \<or> n = 0 then [] else take n xs # chunks n (drop n xs))"
  by pat_completeness auto
termination by (relation "measure (\<lambda>(n, xs). length xs)") auto

declare chunks.simps [simp del]

lemma concat_chunks: "0 < n \<Longrightarrow> concat (chunks n xs) = xs"
  by (induction n xs rule: chunks.induct) (subst chunks.simps, simp)

lemma chunks_sizes: "c \<in> set (chunks n xs) \<Longrightarrow> length c \<le> n \<and> c \<noteq> []"
proof (induction n xs rule: chunks.induct)
  case (1 n xs)
  then show ?case by (subst (asm) chunks.simps) (auto split: if_splits)
qed

lemma chunks_count: "0 < n \<Longrightarrow> length xs \<le> n * m \<Longrightarrow> length (chunks n xs) \<le> m"
proof (induction n xs arbitrary: m rule: chunks.induct)
  case (1 n xs)
  show ?case
  proof (cases "xs = []")
    case True
    then show ?thesis by (simp add: chunks.simps)
  next
    case False
    then obtain m' where m: "m = Suc m'" using "1.prems" by (cases m) auto
    then have "length (chunks n (drop n xs)) \<le> m'" using "1.prems" False by (intro "1.IH") auto
    then show ?thesis using False m by (subst chunks.simps) simp
  qed
qed

section \<open>Storing and reassembling\<close>

text \<open>The chunks are stored in order; call \<open>i\<close> has the clock \<open>clk i\<close> and the outcomes \<open>w i\<close> and \<open>sql i\<close>.\<close>

fun put_pieces :: "crypto \<Rightarrow> (nat \<Rightarrow> u64) \<Rightarrow> (nat \<Rightarrow> write_outcome) \<Rightarrow> (nat \<Rightarrow> bool) \<Rightarrow> nat \<Rightarrow> byte list list \<Rightarrow> object_store \<Rightarrow>
    reference list store_result \<times> object_store" where
  "put_pieces C clk w sql i [] s = (Inr [], s)"
| "put_pieces C clk w sql i (c # cs) s = (case put_object C (clk i) (w i) (sql i) c s of
     (Inl e, s) \<Rightarrow> (Inl e, s)
   | (Inr h, s) \<Rightarrow> (case put_pieces C clk w sql (Suc i) cs s of
         (Inl e, s) \<Rightarrow> (Inl e, s)
       | (Inr refs, s) \<Rightarrow> (Inr (reference_new h (word_of_nat (length c)) CHUNK_MIME # refs), s)))"

definition put_chunked :: "crypto \<Rightarrow> (nat \<Rightarrow> u64) \<Rightarrow> (nat \<Rightarrow> write_outcome) \<Rightarrow> (nat \<Rightarrow> bool) \<Rightarrow> byte list \<Rightarrow> object_store \<Rightarrow>
    reference store_result \<times> object_store" where
  "put_chunked C clk w sql bytes s = (let total_size = word_of_nat (length bytes) in
     if length bytes \<le> CHUNK_MAX then
       (case put_object C (clk 0) (w 0) (sql 0) bytes s of
          (Inl e, s) \<Rightarrow> (Inl e, s)
        | (Inr h, s) \<Rightarrow> (Inr (reference_new h total_size SINGLE_MIME), s))
     else let pieces = chunks CHUNK_MAX bytes; n = length pieces in
       (case put_pieces C clk w sql 0 pieces s of
          (Inl e, s) \<Rightarrow> (Inl e, s)
        | (Inr refs, s) \<Rightarrow>
            (case put_object C (clk n) (w n) (sql n) (encode_manifest (total_size, map rf_hash refs)) s of
               (Inl e, s) \<Rightarrow> (Inl e, s)
             | (Inr h, s) \<Rightarrow> (Inr (Reference h total_size MANIFEST_MIME [] refs), s))))"

definition get_or_missing :: "crypto \<Rightarrow> u64 \<Rightarrow> bool \<Rightarrow> string \<Rightarrow> byte list \<Rightarrow> object_store \<Rightarrow> byte list store_result \<times> object_store" where
  "get_or_missing C now sql what h s = (case get_object C now sql h s of
     (Inl e, s) \<Rightarrow> (Inl e, s)
   | (Inr None, s) \<Rightarrow> (Inl (StHashMismatch (Digest h) (Missing what)), s)
   | (Inr (Some b), s) \<Rightarrow> (Inr b, s))"

fun get_pieces :: "crypto \<Rightarrow> (nat \<Rightarrow> u64) \<Rightarrow> (nat \<Rightarrow> bool) \<Rightarrow> nat \<Rightarrow> byte list list \<Rightarrow> byte list \<Rightarrow> object_store \<Rightarrow>
    byte list store_result \<times> object_store" where
  "get_pieces C clk sql i [] out s = (Inr out, s)"
| "get_pieces C clk sql i (h # hs) out s = (case get_or_missing C (clk i) (sql i) ''(missing chunk)'' h s of
     (Inl e, s) \<Rightarrow> (Inl e, s)
   | (Inr piece, s) \<Rightarrow> get_pieces C clk sql (Suc i) hs (out @ piece) s)"

text \<open>
  \<open>Vec::with_capacity\<close> panics on a capacity above \<open>isize::MAX\<close>; the declared total comes from
  the manifest and is only compared with the assembled length afterwards.
\<close>

definition get_chunked :: "crypto \<Rightarrow> (nat \<Rightarrow> u64) \<Rightarrow> (nat \<Rightarrow> bool) \<Rightarrow> reference \<Rightarrow> object_store \<Rightarrow>
    byte list store_result \<times> object_store" where
  "get_chunked C clk sql ref s =
     (if rf_mime ref \<noteq> MANIFEST_MIME then get_or_missing C (clk 0) (sql 0) ''(missing)'' (rf_hash ref) s
      else (case get_or_missing C (clk 0) (sql 0) ''(missing manifest)'' (rf_hash ref) s of
          (Inl e, s) \<Rightarrow> (Inl e, s)
        | (Inr manifest_bytes, s) \<Rightarrow>
            (case decode_manifest manifest_bytes of
               Inl e \<Rightarrow> (Inl (StCore e), s)
             | Inr (declared_total, hashes) \<Rightarrow>
                 if 2 ^ 63 \<le> declared_total then (Inl StCapacityOverflow, s)
                 else (case get_pieces C clk sql 1 hashes [] s of
                     (Inl e, s) \<Rightarrow> (Inl e, s)
                   | (Inr out, s) \<Rightarrow>
                       if word_of_nat (length out) \<noteq> declared_total
                       then (Inl (StHashMismatch (Length (unat declared_total)) (Length (length out))), s)
                       else (Inr out, s)))))"

section \<open>A stored blob is reassembled\<close>

lemma put_pieces_ok:
  assumes "\<And>i. w i = Written \<and> sql i" "inj_on (blake3 C) U" "set cs \<subseteq> U" "rows_ok C U s"
  shows "\<exists>s'. put_pieces C clk w sql i cs s =
      (Inr (map (\<lambda>c. reference_new (blake3 C c) (word_of_nat (length c)) CHUNK_MIME) cs), s') \<and>
    rows_ok C U s' \<and> (\<forall>c \<in> set cs. holds C c s') \<and> (\<forall>b \<in> U. holds C b s \<longrightarrow> holds C b s')"
  using assms(3,4)
proof (induction cs arbitrary: i s)
  case (Cons c cs)
  obtain s1 where p: "put_object C (clk i) (w i) (sql i) c s = (Inr (blake3 C c), s1)"
    using put_object_ok [of C "clk i" "w i" "sql i" c s "blake3 C c"] assms(1) by (metis prod.collapse)
  have ok: "rows_ok C U s1" using rows_ok_put [OF Cons.prems(2), of c "clk i" "w i" "sql i"] Cons.prems(1) p by simp
  have "holds C c s1" by (rule put_holds [OF p Cons.prems(2) assms(2)]) (use Cons.prems(1) in simp)
  moreover have "holds C b s1" if "b \<in> U" "holds C b s" for b
    using put_keeps [OF that(2,1) _ assms(2), of c "w i" "clk i" "sql i"] Cons.prems(1) assms(1) p by simp
  ultimately show ?case
    using Cons.IH [OF _ ok, of "Suc i"] Cons.prems(1) p by auto
qed simp

lemma get_or_missing_holds:
  "holds C b s \<Longrightarrow> get_or_missing C now True what (blake3 C b) s = (Inr b, touch_last_accessed now (blake3 C b) s)"
  by (simp add: get_or_missing_def holds_get)

lemma get_pieces_holds:
  assumes "\<And>i. sql i" "\<forall>c \<in> set cs. holds C c s"
  shows "\<exists>s'. get_pieces C clk sql i (map (blake3 C) cs) out s = (Inr (out @ concat cs), s')"
  using assms(2)
proof (induction cs arbitrary: i out s)
  case (Cons c cs)
  then have "get_or_missing C (clk i) (sql i) ''(missing chunk)'' (blake3 C c) s =
      (Inr c, touch_last_accessed (clk i) (blake3 C c) s)"
    using assms(1) by (simp add: get_or_missing_holds)
  then show ?case using Cons.IH [of "touch_last_accessed (clk i) (blake3 C c) s" "Suc i" "out @ c"] Cons.prems by simp
qed simp

definition manifest_of :: "crypto \<Rightarrow> byte list \<Rightarrow> byte list" where
  "manifest_of C bytes = encode_manifest (word_of_nat (length bytes), map (blake3 C) (chunks CHUNK_MAX bytes))"

lemma manifest_of_decoded:
  assumes "hash_laws C" "length bytes \<le> 2 ^ 38"
  shows "decode_manifest (manifest_of C bytes) = Inr (word_of_nat (length bytes), map (blake3 C) (chunks CHUNK_MAX bytes))"
proof -
  have "length (chunks CHUNK_MAX bytes) \<le> 2 ^ 20"
    by (rule chunks_count) (use assms(2) in \<open>simp_all add: CHUNK_MAX_def\<close>)
  then show ?thesis
    using assms(1) by (simp add: manifest.decode_iff manifest_of_def wf_manifest_def wf_array_def MAX_CBOR_ENTRIES_def
        wf_fixed_def hash_laws_def list_all_iff)
qed

text \<open>C29: A blob of any size up to 256 GiB that was stored, in one piece or in chunks, is reassembled
  from the reference exactly, whatever other objects the store holds; the writes have to succeed
  and the hash must not collide on the byte strings ever stored.\<close>

theorem chunked_roundtrip:
  assumes "hash_laws C" "rows_ok C U s" "inj_on (blake3 C) U"
    and "bytes \<in> U" "set (chunks CHUNK_MAX bytes) \<subseteq> U" "manifest_of C bytes \<in> U"
    and "\<And>i. w i = Written \<and> sql i" "\<And>i. sql' i" "length bytes \<le> 2 ^ 38"
  shows "\<exists>ref s'. put_chunked C clk w sql bytes s = (Inr ref, s') \<and> fst (get_chunked C clk' sql' ref s') = Inr bytes"
proof (cases "length bytes \<le> CHUNK_MAX")
  case True
  obtain s' where p: "put_object C (clk 0) (w 0) (sql 0) bytes s = (Inr (blake3 C bytes), s')"
    using put_object_ok [of C "clk 0" "w 0" "sql 0" bytes s "blake3 C bytes"] assms(7) by (metis prod.collapse)
  have "holds C bytes s'" by (rule put_holds [OF p assms(2-4)])
  then have "fst (get_chunked C clk' sql' (reference_new (blake3 C bytes) (word_of_nat (length bytes)) SINGLE_MIME) s') = Inr bytes"
    using get_or_missing_holds [of C bytes s'] assms(8) by (simp add: get_chunked_def reference_new_def SINGLE_MIME_def MANIFEST_MIME_def)
  then show ?thesis using True p by (simp add: put_chunked_def)
next
  case False
  let ?cs = "chunks CHUNK_MAX bytes" and ?m = "manifest_of C bytes" and ?n = "length (chunks CHUNK_MAX bytes)"
  let ?refs = "map (\<lambda>c. reference_new (blake3 C c) (word_of_nat (length c)) CHUNK_MIME) ?cs"
  obtain s1 where p: "put_pieces C clk w sql 0 ?cs s = (Inr ?refs, s1)" "rows_ok C U s1" "\<forall>c \<in> set ?cs. holds C c s1"
    using put_pieces_ok [of w sql C U ?cs s clk 0, OF assms(7,3,5,2)] by auto
  have m: "encode_manifest (word_of_nat (length bytes), map rf_hash ?refs) = ?m"
    by (simp add: manifest_of_def reference_new_def comp_def)
  obtain s2 where q: "put_object C (clk ?n) (w ?n) (sql ?n) ?m s1 = (Inr (blake3 C ?m), s2)"
    using put_object_ok [of C "clk ?n" "w ?n" "sql ?n" ?m s1 "blake3 C ?m"] assms(7) by (metis prod.collapse)
  have hm: "holds C ?m s2" by (rule put_holds [OF q p(2) assms(3,6)])
  have hc: "\<forall>c \<in> set ?cs. holds C c s2"
    using put_keeps [OF _ _ assms(6,3), of _ s1 "w ?n" "clk ?n" "sql ?n"] p(3) assms(5,7) q by auto
  let ?s3 = "touch_last_accessed (clk' 0) (blake3 C ?m) s2"
  obtain s4 where g: "get_pieces C clk' sql' 1 (map (blake3 C) ?cs) [] ?s3 = (Inr bytes, s4)"
    using get_pieces_holds [of sql' ?cs C ?s3 clk' 1 "[]", OF assms(8)] hc by (auto simp: concat_chunks CHUNK_MAX_def)
  have small: "\<not> 2 ^ 63 \<le> (word_of_nat (length bytes) :: u64)"
    using assms(9) by (simp add: word_le_nat_alt unat_of_nat)
  have "get_or_missing C (clk' 0) (sql' 0) ''(missing manifest)'' (blake3 C ?m) s2 = (Inr ?m, ?s3)"
    using get_or_missing_holds [OF hm] assms(8) by simp
  then have "fst (get_chunked C clk' sql' (Reference (blake3 C ?m) (word_of_nat (length bytes)) MANIFEST_MIME [] ?refs) s2) = Inr bytes"
    using g small by (simp add: get_chunked_def manifest_of_decoded [OF assms(1,9)])
  then show ?thesis using False p(1) m q by (simp add: put_chunked_def Let_def)
qed

section \<open>A reference determines the content\<close>

definition contents :: "object_store \<Rightarrow> byte list set" where
  "contents s = {b. \<exists>h. stored_bytes h s = Inr (Some b)}"

lemma contents_touch [simp]: "contents (touch_last_accessed now h s) = contents s"
  by (simp add: contents_def)

lemma get_or_missing_Inr:
  assumes "get_or_missing C now sql what h s = (Inr b, s')"
  shows "blake3 C b = h \<and> b \<in> contents s \<and> contents s' = contents s"
  using assms by (auto simp: get_or_missing_def get_object_iff contents_def
      split: prod.splits sum.splits option.splits)

lemma get_pieces_Inr:
  "get_pieces C clk sql i hs out s = (Inr b, s') \<Longrightarrow>
   \<exists>ps. b = out @ concat ps \<and> map (blake3 C) ps = hs \<and> set ps \<subseteq> contents s"
proof (induction hs arbitrary: i out s)
  case (Cons h hs)
  then obtain piece s1 where g: "get_or_missing C (clk i) (sql i) ''(missing chunk)'' h s = (Inr piece, s1)"
      "get_pieces C clk sql (Suc i) hs (out @ piece) s1 = (Inr b, s')"
    by (auto split: prod.splits sum.splits)
  from Cons.IH [OF g(2)] obtain ps where "b = (out @ piece) @ concat ps" "map (blake3 C) ps = hs" "set ps \<subseteq> contents s1"
    by blast
  then show ?case using get_or_missing_Inr [OF g(1)] by (intro exI [of _ "piece # ps"]) auto
qed simp

lemma get_chunked_Inr:
  assumes "get_chunked C clk sql r s = (Inr b, s')"
  shows "if rf_mime r \<noteq> MANIFEST_MIME then blake3 C b = rf_hash r \<and> b \<in> contents s
    else \<exists>m total hs ps. blake3 C m = rf_hash r \<and> m \<in> contents s \<and> decode_manifest m = Inr (total, hs) \<and>
      b = concat ps \<and> map (blake3 C) ps = hs \<and> set ps \<subseteq> contents s \<and> word_of_nat (length b) = total"
proof (cases "rf_mime r = MANIFEST_MIME")
  case True
  then obtain m s1 total hs s2 where g: "get_or_missing C (clk 0) (sql 0) ''(missing manifest)'' (rf_hash r) s = (Inr m, s1)"
      "decode_manifest m = Inr (total, hs)" "get_pieces C clk sql 1 hs [] s1 = (Inr b, s2)" "word_of_nat (length b) = total"
    using assms by (auto simp: get_chunked_def split: prod.splits sum.splits if_splits)
  then show ?thesis using True get_or_missing_Inr [OF g(1)] get_pieces_Inr [OF g(3)] by auto
qed (use assms in \<open>auto simp: get_chunked_def dest: get_or_missing_Inr\<close>)

lemma map_inj_on_eq: "map f xs = map f ys \<Longrightarrow> inj_on f A \<Longrightarrow> set xs \<subseteq> A \<Longrightarrow> set ys \<subseteq> A \<Longrightarrow> xs = ys"
  by (erule map_inj_on) (auto intro: inj_on_subset)

text \<open>C30: A reference determines what it is resolved to: whenever two nodes reassemble the same hash
  under the same interpretation, they get the same bytes, even if their files were tampered
  with, some of their writes failed and their chunks came from anywhere, as long as the hash
  does not collide on what they hold.\<close>

theorem reference_determines_content:
  assumes "get_chunked C clk sql r s = (Inr a, s1)" "get_chunked C clk' sql' r' s' = (Inr b, s1')"
    and "rf_hash r = rf_hash r'" "rf_mime r = MANIFEST_MIME \<longleftrightarrow> rf_mime r' = MANIFEST_MIME"
    and "inj_on (blake3 C) (contents s \<union> contents s')"
  shows "a = b"
proof -
  have inj: "x = y" if "blake3 C x = blake3 C y" "x \<in> contents s" "y \<in> contents s'" for x y
    using inj_onD [OF assms(5) that(1)] that(2,3) by simp
  show ?thesis
  proof (cases "rf_mime r = MANIFEST_MIME")
    case False
    then show ?thesis using get_chunked_Inr [OF assms(1)] get_chunked_Inr [OF assms(2)] assms(3,4) inj by simp
  next
    case True
    then obtain m hs ps t m' hs' ps' t' where g: "blake3 C m = rf_hash r" "m \<in> contents s" "decode_manifest m = Inr (t, hs)" "a = concat ps"
        "map (blake3 C) ps = hs" "set ps \<subseteq> contents s" "blake3 C m' = rf_hash r" "m' \<in> contents s'" "decode_manifest m' = Inr (t', hs')"
        "b = concat ps'" "map (blake3 C) ps' = hs'" "set ps' \<subseteq> contents s'"
      using get_chunked_Inr [OF assms(1)] get_chunked_Inr [OF assms(2)] assms(3,4) by auto
    then have "m = m'" using inj by simp
    then have "map (blake3 C) ps = map (blake3 C) ps'" using g by simp
    then have "ps = ps'" by (rule map_inj_on_eq [OF _ assms(5)]) (use g in auto)
    then show ?thesis using g by simp
  qed
qed

text \<open>A manifest can bring its reader down: an object of a few bytes that declares a total of
  2^63 or more and no chunks decodes as a manifest, and reassembling a reference to it panics
  when the buffer is allocated, before the total is compared with anything.\<close>

lemma huge_manifest_panics:
  assumes "rf_mime r = MANIFEST_MIME" "rf_hash r = blake3 C (encode_manifest (declared, []))" "2 ^ 63 \<le> declared"
    and "holds C (encode_manifest (declared, [])) s"
  shows "fst (get_chunked C clk (\<lambda>_. True) r s) = Inl StCapacityOverflow \<and> length (encode_manifest (declared, [])) \<le> 100"
proof -
  have "get_or_missing C (clk 0) True ''(missing manifest)'' (rf_hash r) s =
      (Inr (encode_manifest (declared, [])), touch_last_accessed (clk 0) (rf_hash r) s)"
    using get_or_missing_holds [OF assms(4)] assms(2) by simp
  moreover have "decode_manifest (encode_manifest (declared, [])) = Inr (declared, [])"
    by (simp add: manifest.decode_iff wf_manifest_def)
  moreover have "length (encode_manifest (declared, [])) \<le> 100"
    using item_lengths(1) [of declared] item_lengths(3) [of "''chunks''"] item_lengths(3) [of "''total_size''"]
      item_lengths(4) [of "Suc (Suc 0)"] array_nil_length [of cbor_bytes]
    by (simp add: encode_manifest_def encode_map_body manifest_entries_def)
  ultimately show ?thesis using assms(1,3) by (simp add: get_chunked_def)
qed

section \<open>Examples\<close>

text \<open>A blob of 256 KiB and one byte, whose chunks, manifest and whole have different digests.\<close>

definition sample_blob :: "byte list" where
  "sample_blob = replicate (Suc CHUNK_MAX) 1"

definition sample_universe :: "byte list set" where
  "sample_universe = {sample_blob, replicate CHUNK_MAX 1, [1], manifest_of sample_crypto sample_blob}"

lemma sample_chunks: "chunks CHUNK_MAX sample_blob = [replicate CHUNK_MAX 1, [1]]"
  by (simp add: chunks.simps sample_blob_def CHUNK_MAX_def)

lemma sample_digest: "blake3 sample_crypto m = pad32 (sum_list m # rev m)"
  by (simp add: sample_crypto_def)

lemma be_bytes_4: "be_bytes 4 v = [word_of_nat (v div 16777216), word_of_nat (v div 65536), word_of_nat (v div 256), word_of_nat v]"
proof -
  have "be_bytes (Suc (Suc (Suc (Suc 0)))) v =
      [word_of_nat (v div 16777216), word_of_nat (v div 65536), word_of_nat (v div 256), word_of_nat v]"
    by simp
  moreover have "(4 :: nat) = Suc (Suc (Suc (Suc 0)))" by simp
  ultimately show ?thesis by (simp only:)
qed

lemma sample_total: "cbor_uint 262145 = [0x1A, 0, 4, 0, 1]"
  by (simp add: cbor_uint_def write_u64_def write_head_def MT_UINT_def be_bytes_4)

lemma sample_manifest: "\<exists>xs. manifest_of sample_crypto sample_blob = xs @ [0x1A, 0, 4, 0, 1]"
proof -
  have "word_of_nat (length sample_blob) = (262145 :: u64)" by (simp add: sample_blob_def CHUNK_MAX_def)
  then have "manifest_of sample_crypto sample_blob = (write_map_header [] 2 @ cbor_text ''chunks'' @
      cbor_array cbor_bytes (map (blake3 sample_crypto) (chunks CHUNK_MAX sample_blob)) @ cbor_text ''total_size'') @ cbor_uint 262145"
    by (simp add: manifest_of_def encode_manifest_def encode_map_body manifest_entries_def numeral_2_eq_2)
  then show ?thesis unfolding sample_total by blast
qed

lemma sample_inj: "inj_on (blake3 sample_crypto) sample_universe"
proof -
  let ?m = "manifest_of sample_crypto sample_blob"
  have rep: "sum_list (replicate n (1 :: byte)) = word_of_nat n" for n by (induction n) simp_all
  have a: "blake3 sample_crypto sample_blob = 1 # replicate 31 1"
    and b: "blake3 sample_crypto (replicate CHUNK_MAX 1) = 0 # replicate 31 1"
    and c: "blake3 sample_crypto [1] = 1 # 1 # replicate 30 0"
    by (simp_all add: sample_blob_def sample_digest pad32_def rep CHUNK_MAX_def)
  have m: "blake3 sample_crypto ?m ! 2 = 0" "blake3 sample_crypto ?m ! 3 = 4"
    using sample_manifest by (auto simp: sample_digest pad32_def)
  have n: "blake3 sample_crypto sample_blob ! 2 = 1" "blake3 sample_crypto (replicate CHUNK_MAX 1) ! 2 = 1"
    "blake3 sample_crypto [1] ! 3 = 0"
    unfolding a b c by simp_all
  have "blake3 sample_crypto sample_blob \<noteq> blake3 sample_crypto (replicate CHUNK_MAX 1)"
    "blake3 sample_crypto sample_blob \<noteq> blake3 sample_crypto [1]"
    "blake3 sample_crypto (replicate CHUNK_MAX 1) \<noteq> blake3 sample_crypto [1]"
    unfolding a b c by (simp_all add: replicate_eqI eval_nat_numeral)
  moreover have "blake3 sample_crypto ?m \<noteq> blake3 sample_crypto [1]" using m n by auto
  moreover have "blake3 sample_crypto ?m \<noteq> blake3 sample_crypto sample_blob"
    "blake3 sample_crypto ?m \<noteq> blake3 sample_crypto (replicate CHUNK_MAX 1)"
    using m n by (metis zero_neq_one)+
  ultimately show ?thesis
    unfolding sample_universe_def inj_on_def by (auto simp: eq_sym_conv)
qed

lemma sample_universe_ok: "rows_ok sample_crypto sample_universe object_store_new" "sample_blob \<in> sample_universe"
    "set (chunks CHUNK_MAX sample_blob) \<subseteq> sample_universe" "manifest_of sample_crypto sample_blob \<in> sample_universe"
    "length sample_blob \<le> 2 ^ 38"
  by (simp_all add: rows_ok_new sample_chunks, simp_all add: sample_universe_def, simp add: sample_blob_def CHUNK_MAX_def)

theorem chunked_roundtrip_witness:
  "\<exists>ref s'. put_chunked sample_crypto (\<lambda>_. 5) (\<lambda>_. Written) (\<lambda>_. True) sample_blob object_store_new = (Inr ref, s') \<and>
     fst (get_chunked sample_crypto (\<lambda>_. 6) (\<lambda>_. True) ref s') = Inr sample_blob"
  by (rule chunked_roundtrip [OF sample_hash_laws sample_universe_ok(1) sample_inj sample_universe_ok(2-4) _ _ sample_universe_ok(5)])
    simp_all

definition small_ref :: reference where
  "small_ref = reference_new (blake3 sample_crypto [1, 2, 3]) 3 SINGLE_MIME"

definition small_store :: "u64 \<Rightarrow> object_store" where
  "small_store t = snd (put_object sample_crypto t Written True [1, 2, 3] object_store_new)"

theorem reference_determines_content_witness:
  "get_chunked sample_crypto (\<lambda>_. 6) (\<lambda>_. True) small_ref (small_store 1) =
     (Inr [1, 2, 3], touch_last_accessed 6 (rf_hash small_ref) (small_store 1)) \<and>
   fst (get_chunked sample_crypto (\<lambda>_. 7) (\<lambda>_. True) small_ref (small_store 2)) = Inr [1, 2, 3] \<and>
   ([1, 2, 3] :: byte list) = [1, 2, 3]"
proof -
  have h: "holds sample_crypto [1, 2, 3] (small_store t)" for t
    by (simp add: holds_def small_store_def put_object_def INLINE_MAX_def stored_bytes_def object_store_new_def
        insert_or_ignore_def Let_def)
  have g: "get_chunked sample_crypto (\<lambda>_. now) (\<lambda>_. True) small_ref (small_store t) =
      (Inr [1, 2, 3], touch_last_accessed now (rf_hash small_ref) (small_store t))" for now t
    using get_or_missing_holds [OF h] by (simp add: get_chunked_def small_ref_def reference_new_def SINGLE_MIME_def MANIFEST_MIME_def)
  have "contents (small_store t) \<subseteq> {[1, 2, 3]}" for t
    by (auto simp: contents_def small_store_def put_object_def INLINE_MAX_def stored_bytes_def object_store_new_def
        insert_or_ignore_def Let_def split: if_splits)
  then have "contents (small_store 1) \<union> contents (small_store 2) \<subseteq> {[1, 2, 3]}" by blast
  then have "inj_on (blake3 sample_crypto) (contents (small_store 1) \<union> contents (small_store 2))"
    by (rule inj_on_subset [rotated]) simp
  from reference_determines_content [OF g [of 6 1] g [of 7 2] refl refl this] show ?thesis using g by simp
qed

lemma huge_manifest_panics_witness:
  "\<exists>r s. fst (get_chunked sample_crypto (\<lambda>_. 6) (\<lambda>_. True) r s) = Inl StCapacityOverflow"
proof -
  let ?m = "encode_manifest (2 ^ 63, [])"
  let ?s = "snd (put_object sample_crypto 5 Written True ?m object_store_new)"
  have "holds sample_crypto ?m ?s"
    by (rule put_holds [of sample_crypto 5 Written True ?m object_store_new "blake3 sample_crypto ?m" _ "{?m}"])
      (simp_all add: rows_ok_new prod_eq_iff put_object_ok)
  from huge_manifest_panics [of "Reference (blake3 sample_crypto ?m) 0 MANIFEST_MIME [] []" sample_crypto "2 ^ 63", OF _ _ _ this]
  show ?thesis by auto
qed

end
