(* ===== verification/StorageMessages.thy ===== *)
theory StorageMessages
  imports References
begin

text \<open>
  Payloads of the storage protocol, \<open>sidevers-net/src/storage_protocol.rs\<close> (types 0x30 to 0x35).
  Their decoders ignore bytes after the map.
\<close>

section \<open>Requests and answers\<close>

record byte_range =
  br_start :: u64
  br_end :: u64

definition byte_range_entries :: "byte_range \<Rightarrow> map_entry list" where
  "byte_range_entries x =
     [(cbor_text ''end'', cbor_uint (br_end x)),
      (cbor_text ''start'', cbor_uint (br_start x))]"

definition encode_byte_range :: "byte_range \<Rightarrow> byte list" where
  "encode_byte_range x = encode_map (byte_range_entries x)"

definition byte_range_fields :: "cbor_reader \<Rightarrow> (byte_range \<times> cbor_reader) result" where
  "byte_range_fields r =
     and_then (read_field ''end'' ''range expects end first'' read_u64 r) (\<lambda>(end, r).
     and_then (read_field ''start'' ''range expects start second'' read_u64 r) (\<lambda>(start, r).
     Inr (\<lparr>br_start = start,
          br_end = end\<rparr>, r)))"

definition read_byte_range :: "cbor_reader \<Rightarrow> (byte_range \<times> cbor_reader) result" where
  "read_byte_range =
     read_map 2 ''range expected 2 keys'' byte_range_fields"

definition wf_byte_range :: "byte_range \<Rightarrow> bool" where
  [wf_defs]: "wf_byte_range x \<longleftrightarrow> True"

lemma byte_range_codec: "wire_codec encode_byte_range (read_map 2 msg byte_range_fields) wf_byte_range"
  unfolding encode_byte_range_def [abs_def]
  by (rule map_codecI,
      (auto simp: and_then_eq_Inr literal_key wire_iff byte_range_fields_def Let_def byte_range_entries_def wf_byte_range_def cbor_key_text)[1],
      simp_all add: literal_key wire_write byte_range_fields_def Let_def byte_range_entries_def wf_byte_range_def cbor_key_text)

interpretation byte_range_item: wire_codec encode_byte_range read_byte_range wf_byte_range
  unfolding read_byte_range_def by (rule byte_range_codec)

lemmas byte_range_iff [wire_iff] = byte_range_item.dec_iff
lemmas byte_range_write [wire_write] = byte_range_item.dec_enc

lemma byte_range_head_form: "\<exists>m v t. m < 7 \<and> encode_byte_range x = head_bytes m v @ t"
  unfolding encode_byte_range_def encode_map_body map_header_head by (rule exI [of _ 5]) auto

interpretation optional_range: wire_codec "cbor_or_null encode_byte_range" "read_optional msg read_byte_range" "\<lambda>_. True"
  using optional_codec [OF byte_range_item.wire_codec_axioms byte_range_head_form]
  by (simp add: option.pred_True wf_byte_range_def [abs_def])

lemmas optional_range_iff [wire_iff] = optional_range.dec_iff
lemmas optional_range_write [wire_write] = optional_range.dec_enc

record storage_get =
  sg_hash :: "byte list"
  sg_range :: "byte_range option"

definition storage_get_entries :: "storage_get \<Rightarrow> map_entry list" where
  "storage_get_entries x =
     [(cbor_text ''hash'', cbor_bytes (sg_hash x)),
      (cbor_text ''range'', cbor_or_null encode_byte_range (sg_range x))]"

definition encode_storage_get :: "storage_get \<Rightarrow> byte list" where
  "encode_storage_get x = encode_map (storage_get_entries x)"

definition storage_get_fields :: "cbor_reader \<Rightarrow> (storage_get \<times> cbor_reader) result" where
  "storage_get_fields r =
     and_then (read_field ''hash'' ''expected hash first'' (read_fixed ''hash'' 32) r) (\<lambda>(hash, r).
     and_then (read_field ''range'' ''expected range second'' (read_optional ''missing range'' read_byte_range) r) (\<lambda>(range, r).
     Inr (\<lparr>sg_hash = hash,
          sg_range = range\<rparr>, r)))"

definition decode_storage_get :: "byte list \<Rightarrow> storage_get result" where
  "decode_storage_get =
     decode_prefix (read_map 2 ''StorageGet expected 2 keys'' storage_get_fields)"

definition wf_storage_get :: "storage_get \<Rightarrow> bool" where
  [wf_defs]: "wf_storage_get x \<longleftrightarrow> wf_fixed 32 (sg_hash x)"

lemma storage_get_codec: "wire_codec encode_storage_get (read_map 2 msg storage_get_fields) wf_storage_get"
  unfolding encode_storage_get_def [abs_def]
  by (rule map_codecI,
      (auto simp: and_then_eq_Inr literal_key wire_iff storage_get_fields_def Let_def storage_get_entries_def wf_storage_get_def cbor_key_text)[1],
      simp_all add: literal_key wire_write storage_get_fields_def Let_def storage_get_entries_def wf_storage_get_def cbor_key_text)

interpretation storage_get_msg: lax_message encode_storage_get decode_storage_get wf_storage_get
  unfolding decode_storage_get_def by (rule lax_messageI) (rule decode_prefix_iff [OF storage_get_codec])

record storage_have =
  sv_hash :: "byte list"
  sv_bytes :: "byte list"
  sv_final :: bool

definition storage_have_entries :: "storage_have \<Rightarrow> map_entry list" where
  "storage_have_entries x =
     [(cbor_text ''hash'', cbor_bytes (sv_hash x)),
      (cbor_text ''bytes'', cbor_bytes (sv_bytes x)),
      (cbor_text ''final'', cbor_boolean (sv_final x))]"

definition encode_storage_have :: "storage_have \<Rightarrow> byte list" where
  "encode_storage_have x = encode_map (storage_have_entries x)"

definition storage_have_fields :: "cbor_reader \<Rightarrow> (storage_have \<times> cbor_reader) result" where
  "storage_have_fields r =
     and_then (read_field ''hash'' ''expected hash first'' (read_fixed ''hash'' 32) r) (\<lambda>(hash, r).
     and_then (read_field ''bytes'' ''expected bytes second'' read_bytes r) (\<lambda>(bytes, r).
     and_then (read_field ''final'' ''expected final third'' read_bool r) (\<lambda>(final, r).
     Inr (\<lparr>sv_hash = hash,
          sv_bytes = bytes,
          sv_final = final\<rparr>, r))))"

definition decode_storage_have :: "byte list \<Rightarrow> storage_have result" where
  "decode_storage_have =
     decode_prefix (read_map 3 ''StorageHave expected 3 keys'' storage_have_fields)"

definition wf_storage_have :: "storage_have \<Rightarrow> bool" where
  [wf_defs]: "wf_storage_have x \<longleftrightarrow> wf_fixed 32 (sv_hash x) \<and>
     wf_bytes (sv_bytes x)"

lemma storage_have_codec: "wire_codec encode_storage_have (read_map 3 msg storage_have_fields) wf_storage_have"
  unfolding encode_storage_have_def [abs_def]
  by (rule map_codecI,
      (auto simp: and_then_eq_Inr literal_key wire_iff storage_have_fields_def Let_def storage_have_entries_def wf_storage_have_def cbor_key_text)[1],
      simp_all add: literal_key wire_write storage_have_fields_def Let_def storage_have_entries_def wf_storage_have_def cbor_key_text)

interpretation storage_have_msg: lax_message encode_storage_have decode_storage_have wf_storage_have
  unfolding decode_storage_have_def by (rule lax_messageI) (rule decode_prefix_iff [OF storage_have_codec])

record storage_miss =
  sm_hash :: "byte list"
  sm_hints :: "byte list list"

definition storage_miss_entries :: "storage_miss \<Rightarrow> map_entry list" where
  "storage_miss_entries x =
     [(cbor_text ''hash'', cbor_bytes (sm_hash x)),
      (cbor_text ''hints'', cbor_array cbor_bytes (sm_hints x))]"

definition encode_storage_miss :: "storage_miss \<Rightarrow> byte list" where
  "encode_storage_miss x = encode_map (storage_miss_entries x)"

definition storage_miss_fields :: "cbor_reader \<Rightarrow> (storage_miss \<times> cbor_reader) result" where
  "storage_miss_fields r =
     and_then (read_field ''hash'' ''expected hash first'' (read_fixed ''hash'' 32) r) (\<lambda>(hash, r).
     and_then (read_field ''hints'' ''expected hints second'' (read_array (read_fixed ''hint'' 32)) r) (\<lambda>(hints, r).
     Inr (\<lparr>sm_hash = hash,
          sm_hints = hints\<rparr>, r)))"

definition decode_storage_miss :: "byte list \<Rightarrow> storage_miss result" where
  "decode_storage_miss =
     decode_prefix (read_map 2 ''StorageMiss expected 2 keys'' storage_miss_fields)"

definition wf_storage_miss :: "storage_miss \<Rightarrow> bool" where
  [wf_defs]: "wf_storage_miss x \<longleftrightarrow> wf_fixed 32 (sm_hash x) \<and>
     wf_array (wf_fixed 32) (sm_hints x)"

lemma storage_miss_codec: "wire_codec encode_storage_miss (read_map 2 msg storage_miss_fields) wf_storage_miss"
  unfolding encode_storage_miss_def [abs_def]
  by (rule map_codecI,
      (auto simp: and_then_eq_Inr literal_key wire_iff storage_miss_fields_def Let_def storage_miss_entries_def wf_storage_miss_def cbor_key_text)[1],
      simp_all add: literal_key wire_write storage_miss_fields_def Let_def storage_miss_entries_def wf_storage_miss_def cbor_key_text)

interpretation storage_miss_msg: lax_message encode_storage_miss decode_storage_miss wf_storage_miss
  unfolding decode_storage_miss_def by (rule lax_messageI) (rule decode_prefix_iff [OF storage_miss_codec])

record storage_want =
  sw_hash :: "byte list"
  sw_want :: bool

definition storage_want_entries :: "storage_want \<Rightarrow> map_entry list" where
  "storage_want_entries x =
     [(cbor_text ''hash'', cbor_bytes (sw_hash x)),
      (cbor_text ''want'', cbor_boolean (sw_want x))]"

definition encode_storage_want :: "storage_want \<Rightarrow> byte list" where
  "encode_storage_want x = encode_map (storage_want_entries x)"

definition storage_want_fields :: "cbor_reader \<Rightarrow> (storage_want \<times> cbor_reader) result" where
  "storage_want_fields r =
     and_then (read_field ''hash'' ''expected hash first'' (read_fixed ''hash'' 32) r) (\<lambda>(hash, r).
     and_then (read_field ''want'' ''expected want second'' read_bool r) (\<lambda>(want, r).
     Inr (\<lparr>sw_hash = hash,
          sw_want = want\<rparr>, r)))"

definition decode_storage_want :: "byte list \<Rightarrow> storage_want result" where
  "decode_storage_want =
     decode_prefix (read_map 2 ''StorageWant expected 2 keys'' storage_want_fields)"

definition wf_storage_want :: "storage_want \<Rightarrow> bool" where
  [wf_defs]: "wf_storage_want x \<longleftrightarrow> wf_fixed 32 (sw_hash x)"

lemma storage_want_codec: "wire_codec encode_storage_want (read_map 2 msg storage_want_fields) wf_storage_want"
  unfolding encode_storage_want_def [abs_def]
  by (rule map_codecI,
      (auto simp: and_then_eq_Inr literal_key wire_iff storage_want_fields_def Let_def storage_want_entries_def wf_storage_want_def cbor_key_text)[1],
      simp_all add: literal_key wire_write storage_want_fields_def Let_def storage_want_entries_def wf_storage_want_def cbor_key_text)

interpretation storage_want_msg: lax_message encode_storage_want decode_storage_want wf_storage_want
  unfolding decode_storage_want_def by (rule lax_messageI) (rule decode_prefix_iff [OF storage_want_codec])

record storage_retract =
  st_hash :: "byte list"

definition storage_retract_entries :: "storage_retract \<Rightarrow> map_entry list" where
  "storage_retract_entries x =
     [(cbor_text ''hash'', cbor_bytes (st_hash x))]"

definition encode_storage_retract :: "storage_retract \<Rightarrow> byte list" where
  "encode_storage_retract x = encode_map (storage_retract_entries x)"

definition storage_retract_fields :: "cbor_reader \<Rightarrow> (storage_retract \<times> cbor_reader) result" where
  "storage_retract_fields r =
     and_then (read_field ''hash'' ''expected hash'' (read_fixed ''hash'' 32) r) (\<lambda>(hash, r).
     Inr (\<lparr>st_hash = hash\<rparr>, r))"

definition decode_storage_retract :: "byte list \<Rightarrow> storage_retract result" where
  "decode_storage_retract =
     decode_prefix (read_map 1 ''StorageRetract expected 1 key'' storage_retract_fields)"

definition wf_storage_retract :: "storage_retract \<Rightarrow> bool" where
  [wf_defs]: "wf_storage_retract x \<longleftrightarrow> wf_fixed 32 (st_hash x)"

lemma storage_retract_codec: "wire_codec encode_storage_retract (read_map 1 msg storage_retract_fields) wf_storage_retract"
  unfolding encode_storage_retract_def [abs_def]
  by (rule map_codecI,
      (auto simp: and_then_eq_Inr literal_key wire_iff storage_retract_fields_def Let_def storage_retract_entries_def wf_storage_retract_def cbor_key_text)[1],
      simp_all add: literal_key wire_write storage_retract_fields_def Let_def storage_retract_entries_def wf_storage_retract_def cbor_key_text)

interpretation storage_retract_msg: lax_message encode_storage_retract decode_storage_retract wf_storage_retract
  unfolding decode_storage_retract_def by (rule lax_messageI) (rule decode_prefix_iff [OF storage_retract_codec])

section \<open>Offers\<close>

text \<open>The reference of an offer is decoded from the bytes that follow the key.\<close>

record storage_offer =
  so_reference :: reference

definition encode_storage_offer :: "storage_offer \<Rightarrow> byte list" where
  "encode_storage_offer x = encode_map [(cbor_text ''reference'', encode_reference (so_reference x))]"

definition decode_storage_offer :: "byte list \<Rightarrow> storage_offer result" where
  "decode_storage_offer bs = and_then (read_map_header (reader_new bs)) (\<lambda>(n, r).
     if n \<noteq> 1 then Inl (CborDecode ''StorageOffer expected 1 key'')
     else and_then (expect_key ''reference'' ''expected reference'' r) (\<lambda>r.
     and_then (decode_reference (remaining r)) (\<lambda>x. Inr \<lparr>so_reference = x\<rparr>)))"

definition wf_storage_offer :: "storage_offer \<Rightarrow> bool" where
  [wf_defs]: "wf_storage_offer x \<longleftrightarrow> wf_references (so_reference x) \<and> depth (so_reference x) \<le> 65"

interpretation storage_offer_msg: lax_message encode_storage_offer decode_storage_offer wf_storage_offer
proof (rule lax_messageI)
  fix bs x
  show "decode_storage_offer bs = Inr x \<longleftrightarrow> wf_storage_offer x \<and> (\<exists>t. bs = encode_storage_offer x @ t)"
    by (cases x) (auto simp: decode_storage_offer_def and_then_eq_Inr reader_new_rdr read_map_header_iff expect_key_iff
        literal_key cbor_key_text reference_msg.decode_iff_prefix wf_reference_depth wf_storage_offer_def
        encode_storage_offer_def encode_map_body)
qed

end
