(* ===== verification/StorageService.thy ===== *)
theory StorageService
  imports Chunks StorageMessages Provenance Gate Framing Mailbox
begin

text \<open>
  The storage service of \<open>sidevers-net/src/node.rs\<close>: \<open>serve_storage\<close> with its handlers, and the
  functions a peer uses to fetch, offer and retract objects. A round of the loop takes the
  clock, the draws of randomness, the outcomes of file and database operations and, for
  an offer, what else arrives on the stream (\<open>follow\<close>); it returns the node, the envelopes
  written to the stream and the error that ends the session, if any.
\<close>

section \<open>State\<close>

record storage_node =
  sn_side :: side_key
  sn_gate :: gate
  sn_store :: object_store
  sn_provenance :: publisher_table
  sn_retract_ignored :: u64

type_synonym storage_result = "storage_node \<times> envelope list \<times> net_error option"

section \<open>Handlers\<close>

definition storage_bytes :: "crypto \<Rightarrow> u64 \<Rightarrow> bool \<Rightarrow> storage_get \<Rightarrow> object_store \<Rightarrow>
    byte list option store_result \<times> object_store" where
  "storage_bytes C now sql req s = (case sg_range req of
     Some r \<Rightarrow> get_range C now sql (sg_hash req) (br_start r) (br_end r) s
   | None \<Rightarrow> get_object C now sql (sg_hash req) s)"

text \<open>Any failure of the store is answered like a missing object.\<close>

definition build_storage_response :: "crypto \<Rightarrow> side_key \<Rightarrow> byte list \<Rightarrow> storage_get \<Rightarrow> u64 option \<Rightarrow> byte list option \<Rightarrow>
    byte list option store_result \<Rightarrow> envelope net_result" where
  "build_storage_response C side peer req clock rnd found = (case found of
     Inr (Some bytes) \<Rightarrow> core (sign_response C side peer STORAGE_HAVE
       (encode_storage_have \<lparr>sv_hash = sg_hash req, sv_bytes = bytes, sv_final = True\<rparr>) clock rnd)
   | _ \<Rightarrow> core (sign_response C side peer STORAGE_MISS
       (encode_storage_miss \<lparr>sm_hash = sg_hash req, sm_hints = []\<rparr>) clock rnd))"

definition handle_storage_get :: "crypto \<Rightarrow> u64 option \<Rightarrow> byte list option \<Rightarrow> bool \<Rightarrow> envelope \<Rightarrow> storage_node \<Rightarrow> storage_result" where
  "handle_storage_get C clock rnd sql env n = (case decode_storage_get (env_payload env) of
     Inl _ \<Rightarrow> (n, [], None)
   | Inr req \<Rightarrow>
       let (found, s) = storage_bytes C (unix_now clock) sql req (sn_store n); n = n\<lparr>sn_store := s\<rparr> in
       (case and_then (build_storage_response C (sn_side n) (env_from env) req clock rnd found) (\<lambda>resp.
               and_then (send_envelope resp) (\<lambda>_. Inr resp)) of
          Inl e \<Rightarrow> (n, [], Some e)
        | Inr resp \<Rightarrow> (n, [resp], None)))"

text \<open>
  What follows an offer that is wanted. The bytes are put into the store first; whether they
  are the offered object shows in the address the store returns.
\<close>

definition ingest_have :: "crypto \<Rightarrow> u64 \<Rightarrow> write_outcome \<Rightarrow> bool \<Rightarrow> byte list \<Rightarrow> byte list \<Rightarrow> byte list \<Rightarrow> storage_node \<Rightarrow> storage_node" where
  "ingest_have C now w sql follow hash publisher n = (case recv_envelope C follow of
     Inl _ \<Rightarrow> n
   | Inr (have_env, _) \<Rightarrow>
     if env_type have_env \<noteq> STORAGE_HAVE then n
     else (case decode_storage_have (env_payload have_env) of
         Inl _ \<Rightarrow> n
       | Inr hv \<Rightarrow>
         if sv_hash hv \<noteq> hash then n
         else (case put_object C now w sql (sv_bytes hv) (sn_store n) of
             (Inl _, s) \<Rightarrow> n\<lparr>sn_store := s\<rparr>
           | (Inr addr, s) \<Rightarrow>
               if addr = hash then n\<lparr>sn_store := s, sn_provenance := note_publisher addr publisher (sn_provenance n)\<rparr>
               else n\<lparr>sn_store := s\<rparr>)))"

definition handle_storage_offer :: "crypto \<Rightarrow> u64 option \<Rightarrow> byte list option \<Rightarrow> write_outcome \<Rightarrow> (nat \<Rightarrow> bool) \<Rightarrow> byte list \<Rightarrow>
    envelope \<Rightarrow> storage_node \<Rightarrow> storage_result" where
  "handle_storage_offer C clock rnd w sql follow env n = (case decode_storage_offer (env_payload env) of
     Inl _ \<Rightarrow> (n, [], None)
   | Inr offer \<Rightarrow>
       let hash = rf_hash (so_reference offer);
           already_have = (case has_object (sql 0) hash (sn_store n) of Inl _ \<Rightarrow> False | Inr b \<Rightarrow> b) in
       (case signed_reply C (sn_side n) (env_from env) STORAGE_WANT
               (encode_storage_want \<lparr>sw_hash = hash, sw_want = \<not> already_have\<rparr>) clock rnd of
          Inl e \<Rightarrow> (n, [], Some e)
        | Inr resp \<Rightarrow>
            (if already_have then n
             else ingest_have C (unix_now clock) w (sql 1) follow hash (env_from env) n, [resp], None)))"

definition handle_storage_retract :: "(nat \<Rightarrow> bool) \<Rightarrow> envelope \<Rightarrow> storage_node \<Rightarrow> storage_result" where
  "handle_storage_retract sql env n = (case decode_storage_retract (env_payload env) of
     Inl _ \<Rightarrow> (n, [], None)
   | Inr retract \<Rightarrow> let hash = st_hash retract in
       if \<not> has_publisher hash (env_from env) (sn_provenance n)
       then (n\<lparr>sn_retract_ignored := sn_retract_ignored n + 1\<rparr>, [], None)
       else (let (others_remain, t) = drop_publisher hash (env_from env) (sn_provenance n);
                 n = n\<lparr>sn_provenance := t\<rparr> in
         if others_remain then (n, [], None)
         else (case has_object (sql 0) hash (sn_store n) of
             Inr True \<Rightarrow> (n\<lparr>sn_store := snd (unpin_object (sql 1) hash (sn_store n))\<rparr>, [], None)
           | _ \<Rightarrow> (n, [], None))))"

definition serve_storage :: "crypto \<Rightarrow> u64 option \<Rightarrow> byte list option \<Rightarrow> write_outcome \<Rightarrow> (nat \<Rightarrow> bool) \<Rightarrow> byte list \<Rightarrow>
    envelope \<Rightarrow> storage_node \<Rightarrow> storage_result" where
  "serve_storage C clock rnd w sql follow env n = (let (ok, g) = admit clock env (sn_gate n); n = n\<lparr>sn_gate := g\<rparr> in
     if \<not> ok then (n, [], None)
     else if env_type env = STORAGE_GET then handle_storage_get C clock rnd (sql 0) env n
     else if env_type env = STORAGE_OFFER then handle_storage_offer C clock rnd w sql follow env n
     else if env_type env = STORAGE_RETRACT then handle_storage_retract sql env n
     else (n, [], None))"

section \<open>The other end\<close>

definition object_query :: "crypto \<Rightarrow> session \<Rightarrow> side_key \<Rightarrow> byte list \<Rightarrow> u64 option \<Rightarrow> byte list option \<Rightarrow>
    (envelope \<times> byte list) net_result" where
  "object_query C ses side hash clock rnd =
     send_signed C ses side STORAGE_GET (encode_storage_get \<lparr>sg_hash = hash, sg_range = None\<rparr>) clock rnd"

text \<open>What \<open>fetch_object\<close> makes of the response.\<close>

definition fetch_object :: "crypto \<Rightarrow> byte list \<Rightarrow> envelope \<Rightarrow> byte list option net_result" where
  "fetch_object C hash resp =
     (if env_type resp = STORAGE_HAVE then
        and_then (core (decode_storage_have (env_payload resp))) (\<lambda>hv.
        if blake3 C (sv_bytes hv) \<noteq> hash then Inl (NetInvariant ''storage have: hash mismatch'')
        else Inr (Some (sv_bytes hv)))
      else if env_type resp = STORAGE_MISS then Inr None
      else Inl (NetInvariant ''unexpected storage response''))"

definition offer_query :: "crypto \<Rightarrow> session \<Rightarrow> side_key \<Rightarrow> reference \<Rightarrow> u64 option \<Rightarrow> byte list option \<Rightarrow>
    (envelope \<times> byte list) net_result" where
  "offer_query C ses side ref clock rnd =
     send_signed C ses side STORAGE_OFFER (encode_storage_offer \<lparr>so_reference = ref\<rparr>) clock rnd"

text \<open>The rest of \<open>offer_object\<close>, whose errors come from the store or the network: the answer decides whether the bytes follow on the stream.\<close>

datatype store_or_net = OfStore store_error | OfNet net_error

definition offer_object :: "crypto \<Rightarrow> session \<Rightarrow> side_key \<Rightarrow> reference \<Rightarrow> u64 option \<Rightarrow> byte list option \<Rightarrow> bool \<Rightarrow> envelope \<Rightarrow>
    object_store \<Rightarrow> (store_or_net + (envelope \<times> byte list) option) \<times> object_store" where
  "offer_object C ses side ref clock rnd sql resp s =
     (if env_type resp \<noteq> STORAGE_WANT then (Inl (OfNet (NetInvariant ''expected StorageWant'')), s)
      else (case decode_storage_want (env_payload resp) of
          Inl e \<Rightarrow> (Inl (OfNet (NetCore e)), s)
        | Inr want \<Rightarrow>
          if sw_hash want \<noteq> rf_hash ref then (Inl (OfNet (NetInvariant ''StorageWant hash mismatch'')), s)
          else if \<not> sw_want want then (Inr None, s)
          else (case get_object C (unix_now clock) sql (rf_hash ref) s of
              (Inl e, s) \<Rightarrow> (Inl (OfStore e), s)
            | (Inr None, s) \<Rightarrow> (Inl (OfNet (NetInvariant ''offer_object: object not in local store'')), s)
            | (Inr (Some bytes), s) \<Rightarrow>
                (case and_then (core (sign_response C side (ses_peer_side ses) STORAGE_HAVE
                        (encode_storage_have \<lparr>sv_hash = rf_hash ref, sv_bytes = bytes, sv_final = True\<rparr>) clock rnd)) (\<lambda>env.
                      and_then (send_envelope env) (\<lambda>frame. Inr (env, frame))) of
                   Inl e \<Rightarrow> (Inl (OfNet e), s)
                 | Inr sent \<Rightarrow> (Inr (Some sent), s)))))"

definition retract_object :: "crypto \<Rightarrow> session \<Rightarrow> side_key \<Rightarrow> byte list \<Rightarrow> u64 option \<Rightarrow> byte list option \<Rightarrow>
    (envelope \<times> byte list) net_result" where
  "retract_object C ses side hash clock rnd =
     send_signed C ses side STORAGE_RETRACT (encode_storage_retract \<lparr>st_hash = hash\<rparr>) clock rnd"

end
