(* ===== verification/StorageSafety.thy ===== *)
theory StorageSafety
  imports StorageService
begin

text \<open>
  Properties of the storage service: a stored object reaches the peer that asks for it, but
  only if it fits into a frame; who may make the node give up an object, and what giving up
  amounts to.
\<close>

section \<open>Fetching\<close>

lemma serve_storage_admitted:
  "admit clock env (sn_gate n) = (True, g) \<Longrightarrow> serve_storage C clock rnd w sql follow env n =
    (let n = n\<lparr>sn_gate := g\<rparr> in
     if env_type env = STORAGE_GET then handle_storage_get C clock rnd (sql 0) env n
     else if env_type env = STORAGE_OFFER then handle_storage_offer C clock rnd w sql follow env n
     else if env_type env = STORAGE_RETRACT then handle_storage_retract sql env n
     else (n, [], None))"
  by (simp add: serve_storage_def)

lemma storage_messages_read [simp]:
  "wf_storage_get x \<Longrightarrow> decode_storage_get (encode_storage_get x) = Inr x"
  "wf_storage_have y \<Longrightarrow> decode_storage_have (encode_storage_have y) = Inr y"
  "wf_storage_want z \<Longrightarrow> decode_storage_want (encode_storage_want z) = Inr z"
  "wf_storage_retract u \<Longrightarrow> decode_storage_retract (encode_storage_retract u) = Inr u"
  "wf_storage_offer v \<Longrightarrow> decode_storage_offer (encode_storage_offer v) = Inr v"
  by (auto simp: storage_get_msg.decode_iff_prefix storage_have_msg.decode_iff_prefix storage_want_msg.decode_iff_prefix
      storage_retract_msg.decode_iff_prefix storage_offer_msg.decode_iff_prefix intro: exI [of _ "[]"])

lemma storage_have_length:
  "length (encode_storage_have x) \<le> 120 + length (sv_hash x) + length (sv_bytes x)"
  "length (sv_bytes x) \<le> length (encode_storage_have x)"
proof -
  have "length (cbor_boolean (sv_final x)) = 1" by (simp add: cbor_boolean_def)
  then show "length (encode_storage_have x) \<le> 120 + length (sv_hash x) + length (sv_bytes x)"
    using item_lengths(2) [of "sv_hash x"] item_lengths(2) [of "sv_bytes x"] item_lengths(3) [of "''hash''"]
      item_lengths(3) [of "''bytes''"] item_lengths(3) [of "''final''"] item_lengths(4) [of "Suc (Suc (Suc 0))"]
    by (simp add: encode_storage_have_def encode_map_body storage_have_entries_def)
  show "length (sv_bytes x) \<le> length (encode_storage_have x)"
    by (simp add: encode_storage_have_def encode_map_body storage_have_entries_def cbor_bytes_head)
qed

lemma storage_get_length: "length (encode_storage_get \<lparr>sg_hash = h, sg_range = None\<rparr>) \<le> 60 + length h"
  using item_lengths(2) [of h] item_lengths(3) [of "''hash''"] item_lengths(3) [of "''range''"] item_lengths(4) [of "Suc (Suc 0)"]
  by (simp add: encode_storage_get_def encode_map_body storage_get_entries_def cbor_or_null_def cbor_null_def)

text \<open>C28: Fetching works: a request for an object that the store holds intact and that is at most
  64 000 bytes long is read by the storage node as sent, answered with one envelope, and
  \<open>fetch_object\<close> takes exactly the object from it.\<close>

theorem fetch_end_to_end:
  assumes "laws C" "wf_side k" "wf_side (sn_side n)" "length nonce = 16" "length reply_nonce = 16"
    and "ses_peer_side ses = public_bytes C (sn_side n)" "ses_intent ses' = ses_intent ses"
    and "object_query C ses k (blake3 C bytes) (Some ts) (Some nonce) = Inr (env, frame)"
    and "admit (Some now) env (sn_gate n) = (True, g)"
    and "holds C bytes (sn_store n)" "length bytes \<le> 64000" "sql 0"
  shows "accept_one C ses' (frame @ rest) = Inr (env, rest) \<and>
    (\<exists>n' resp. serve_storage C (Some now) (Some reply_nonce) w sql follow env n = (n', [resp], None) \<and>
      fetch_object C (blake3 C bytes) resp = Inr (Some bytes))"
proof -
  have sig: "signature_laws C" and hash: "length (blake3 C bytes) = 32"
    using assms(1) by (simp_all add: laws_def hash_laws_def)
  have peer: "length (public_bytes C (sn_side n)) = 32" "length (public_bytes C k) = 32"
    using signed_by_side(1) [OF sig] assms(2,3) by simp_all
  let ?req = "\<lparr>sg_hash = blake3 C bytes, sg_range = None\<rparr>"
    and ?have = "\<lparr>sv_hash = blake3 C bytes, sv_bytes = bytes, sv_final = True\<rparr>"
  have env: "env = sign_with C STORAGE_GET k (Some (public_bytes C (sn_side n))) (encode_storage_get ?req) ts nonce"
    "accept_one C ses' (frame @ rest) = Inr (env, rest)"
    using send_signed_arrives [OF assms(8) [unfolded object_query_def] sig assms(2) _ assms(4) _ assms(7)]
      peer(1) hash assms(6) storage_get_length [of "blake3 C bytes"] by simp_all
  have d: "decode_storage_get (env_payload env) = Inr ?req"
    using hash by (simp add: env(1) wf_storage_get_def wf_fixed_def)
  have "length (encode_storage_have ?have) \<le> 65136" using storage_have_length(1) [of ?have] hash assms(11) by simp
  then have "signed_reply C (sn_side n) (public_bytes C k) STORAGE_HAVE (encode_storage_have ?have) (Some now) (Some reply_nonce) =
      Inr (sign_with C STORAGE_HAVE (sn_side n) (Some (public_bytes C k)) (encode_storage_have ?have) now reply_nonce)" (is "_ = Inr ?resp")
    using peer(2) assms(3,5) by (intro signed_reply_ok [OF sig]) simp_all
  then have r: "sign_response C (sn_side n) (public_bytes C k) STORAGE_HAVE (encode_storage_have ?have) (Some now) (Some reply_nonce) = Inr ?resp"
      "\<exists>f. send_envelope ?resp = Inr f"
    by (auto simp: signed_reply_def and_then_eq_Inr sign_response_ok [OF assms(5)])
  have "get_object C now True (blake3 C bytes) (sn_store n) = (Inr (Some bytes), touch_last_accessed now (blake3 C bytes) (sn_store n))"
    by (rule holds_get [OF assms(10)])
  moreover have "env_type env = STORAGE_GET" "env_from env = public_bytes C k" by (simp_all add: env(1))
  ultimately have "serve_storage C (Some now) (Some reply_nonce) w sql follow env n =
      (n\<lparr>sn_gate := g, sn_store := touch_last_accessed now (blake3 C bytes) (sn_store n)\<rparr>, [?resp], None)"
    using r assms(12) by (auto simp: serve_storage_admitted [OF assms(9)] handle_storage_get_def d storage_bytes_def
        build_storage_response_def unix_now_def Let_def)
  moreover have "fetch_object C (blake3 C bytes) ?resp = Inr (Some bytes)"
    using hash assms(11) by (simp add: fetch_object_def wf_storage_have_def wf_fixed_def wf_bytes_def)
  ultimately show ?thesis using env(2) by blast
qed

text \<open>A large object cannot be fetched at all: whoever asks for an intact object of more than
  65 536 bytes, in particular for a full chunk of 256 KiB, gets no answer, and the session
  ends with an error.\<close>

lemma large_object_ends_session:
  assumes "length reply_nonce = 16" "admit (Some now) env (sn_gate n) = (True, g)" "env_type env = STORAGE_GET"
    and "decode_storage_get (env_payload env) = Inr \<lparr>sg_hash = blake3 C bytes, sg_range = None\<rparr>"
    and "holds C bytes (sn_store n)" "65536 < length bytes" "sql 0"
  shows "\<exists>n' len. serve_storage C (Some now) (Some reply_nonce) w sql follow env n = (n', [], Some (NetTooLarge len MAX_ENVELOPE_LEN))"
proof -
  let ?have = "\<lparr>sv_hash = blake3 C bytes, sv_bytes = bytes, sv_final = True\<rparr>"
  let ?resp = "sign_with C STORAGE_HAVE (sn_side n) (Some (env_from env)) (encode_storage_have ?have) now reply_nonce"
  have "length bytes \<le> length (to_wire_bytes ?resp)"
    using storage_have_length(2) [of ?have]
    by (simp add: to_wire_bytes_def encode_map_body wire_entries_def cbor_bytes_head)
  then have "send_envelope ?resp = Inl (NetTooLarge (word_of_nat (length (to_wire_bytes ?resp))) MAX_ENVELOPE_LEN)"
    using assms(6) by (simp add: send_envelope_def Let_def)
  then show ?thesis
    using assms(3,4,7) holds_get [OF assms(5), of now]
    by (simp add: serve_storage_admitted [OF assms(2)] handle_storage_get_def storage_bytes_def build_storage_response_def
        unix_now_def sign_response_ok [OF assms(1)] Let_def)
qed

section \<open>Giving up objects\<close>

abbreviation pinned :: "byte list \<Rightarrow> object_store \<Rightarrow> bool option" where
  "pinned h s \<equiv> map_option ob_pinned (map_of (os_rows s) h)"

lemma pinned_get: "pinned h (snd (get_object C now sql hash s)) = pinned h s"
  by (simp add: get_object_def touch_last_accessed_def option.map_comp comp_def split: sum.split option.split)

lemma pinned_range: "pinned h (snd (get_range C now sql hash lo hi s)) = pinned h s"
proof -
  obtain res s1 where g: "get_object C now sql hash s = (res, s1)" by fastforce
  have "snd (get_range C now sql hash lo hi s) = s1"
    by (auto simp: get_range_def g Let_def split: sum.split option.split)
  then show ?thesis using pinned_get [where h = h and C = C and now = now and sql = sql and hash = hash and s = s] g by simp
qed

lemma pinned_put: "pinned h s = Some b \<Longrightarrow> pinned h (snd (put_object C now w sql bytes s)) = Some b"
  by (auto simp: put_object_def Let_def map_of_insert_or_ignore split: write_outcome.split option.split)

lemma ingest_have_store:
  "sn_store (ingest_have C now w sql follow hash p n) = sn_store n \<or>
   (\<exists>bytes. sn_store (ingest_have C now w sql follow hash p n) = snd (put_object C now w sql bytes (sn_store n)))"
  by (auto simp: ingest_have_def split: sum.split prod.split) (metis snd_conv)+

lemma pinned_handle_get: "pinned h (sn_store (fst (handle_storage_get C clock rnd sql env n))) = pinned h (sn_store n)"
  using pinned_get [where h = h and C = C and now = "unix_now clock" and sql = sql]
    pinned_range [where h = h and C = C and now = "unix_now clock" and sql = sql]
  by (auto simp: handle_storage_get_def storage_bytes_def Let_def case_prod_beta' split: sum.split option.split)

lemma pinned_handle_offer:
  assumes "pinned h (sn_store n) = Some b"
  shows "pinned h (sn_store (fst (handle_storage_offer C clock rnd w sql follow env n))) = Some b"
proof -
  have "pinned h (sn_store (ingest_have C now w sql' follow hash p n)) = Some b" for now sql' hash p
    using ingest_have_store [of C now w sql' follow hash p n] pinned_put [OF assms] assms by metis
  then show ?thesis using assms by (simp add: handle_storage_offer_def Let_def split: sum.split)
qed

lemma pinned_handle_retract:
  assumes "pinned h (sn_store n) = Some True"
  shows "pinned h (sn_store (fst (handle_storage_retract sql env n))) = Some True \<or>
    pinned h (sn_store (fst (handle_storage_retract sql env n))) = Some False \<and>
    (\<exists>p. decode_storage_retract (env_payload env) = Inr p \<and> st_hash p = h) \<and>
    publishers (sn_provenance n) h = {env_from env}"
proof (cases "decode_storage_retract (env_payload env)")
  case (Inr p)
  have last: "has_publisher h' a t \<Longrightarrow> \<not> fst (drop_publisher h' a t) \<Longrightarrow> publishers t h' = {a}" for h' a t
    by (auto simp: has_publisher_iff drop_publisher_others)
  show ?thesis
    using assms Inr last [of "st_hash p" "env_from env" "sn_provenance n"]
    by (auto simp: handle_storage_retract_def Let_def case_prod_beta' has_object_def unpin_object_def
        split: sum.split bool.split)
qed (use assms in \<open>simp add: handle_storage_retract_def\<close>)

text \<open>C31: The storage service never drops an object from its index, and it unpins one only when the last
  recorded publisher retracts it: the envelope passed the gate, is a retract of that object, and
  its sender is the only publisher on record.\<close>

theorem unpin_needs_every_publisher:
  assumes "serve_storage C clock rnd w sql follow env n = (n', out, err)"
    and "map_of (os_rows (sn_store n)) h = Some r" "ob_pinned r"
  shows "\<exists>r'. map_of (os_rows (sn_store n')) h = Some r' \<and> (ob_pinned r' \<or>
    fst (admit clock env (sn_gate n)) \<and> env_type env = STORAGE_RETRACT \<and>
    (\<exists>p. decode_storage_retract (env_payload env) = Inr p \<and> st_hash p = h) \<and>
    publishers (sn_provenance n) h = {env_from env})"
proof -
  obtain ok g where a: "admit clock env (sn_gate n) = (ok, g)" by fastforce
  have p: "pinned h (sn_store n) = Some True" "pinned h (sn_store (n\<lparr>sn_gate := g\<rparr>)) = Some True" using assms(2,3) by simp_all
  have n': "n' = fst (serve_storage C clock rnd w sql follow env n)" using assms(1) by simp
  have "pinned h (sn_store n') = Some True \<or> pinned h (sn_store n') = Some False \<and> ok \<and> env_type env = STORAGE_RETRACT \<and>
      (\<exists>p. decode_storage_retract (env_payload env) = Inr p \<and> st_hash p = h) \<and> publishers (sn_provenance n) h = {env_from env}"
    using pinned_handle_get [where h = h and C = C and clock = clock and rnd = rnd and sql = "sql 0" and env = env and n = "n\<lparr>sn_gate := g\<rparr>"]
      pinned_handle_offer [OF p(2), of C clock rnd w sql follow env]
      pinned_handle_retract [OF p(2), of sql env] p(1)
    unfolding n' by (simp add: serve_storage_def a Let_def)
  then show ?thesis using a by auto
qed

text \<open>Retracting does not stop a node from serving an object, although it is documented to: no
  retract changes what is stored under any hash, and it changes nothing at all for objects that
  nobody pinned, which are all that came in by offers.\<close>

lemma retract_keeps_serving:
  assumes "env_type env = STORAGE_RETRACT" "serve_storage C clock rnd w sql follow env n = (n', out, err)"
  shows "stored_bytes h (sn_store n') = stored_bytes h (sn_store n) \<and>
    ((\<forall>h r. map_of (os_rows (sn_store n)) h = Some r \<longrightarrow> \<not> ob_pinned r) \<longrightarrow>
      map_of (os_rows (sn_store n')) h = map_of (os_rows (sn_store n)) h)"
proof -
  have "sn_store n' = sn_store n \<or> (\<exists>hash. sn_store n' = update_row hash (\<lambda>r. r\<lparr>ob_pinned := False\<rparr>) (sn_store n))"
    using assms by (auto simp: serve_storage_def handle_storage_retract_def unpin_object_def storage_types Let_def
        split: prod.splits sum.splits if_splits bool.splits)
  then show ?thesis
  proof
    assume "\<exists>hash. sn_store n' = update_row hash (\<lambda>r. r\<lparr>ob_pinned := False\<rparr>) (sn_store n)"
    then obtain hash where u: "sn_store n' = update_row hash (\<lambda>r. r\<lparr>ob_pinned := False\<rparr>) (sn_store n)" by blast
    have "\<not> ob_pinned r \<Longrightarrow> r\<lparr>ob_pinned := False\<rparr> = r" for r :: object_row by simp
    then show ?thesis unfolding u by (cases "map_of (os_rows (sn_store n)) h") (auto simp: stored_bytes_update_row)
  qed simp
qed

text \<open>An offer makes the node store bytes that are not the offered object: when the bytes that
  follow an offer do not have the offered hash, they are found out only by the address under
  which the store has already filed them, and there they stay, without a publisher who could
  retract them.\<close>

lemma offer_stores_mismatching_bytes:
  assumes "admit (Some now) env (sn_gate n) = (True, g)" "env_type env = STORAGE_OFFER"
    and "decode_storage_offer (env_payload env) = Inr offer" "map_of (os_rows (sn_store n)) (rf_hash (so_reference offer)) = None"
    and "signed_reply C (sn_side n) (env_from env) STORAGE_WANT
      (encode_storage_want \<lparr>sw_hash = rf_hash (so_reference offer), sw_want = True\<rparr>) (Some now) rnd = Inr resp"
    and "recv_envelope C follow = Inr (have_env, rest)" "env_type have_env = STORAGE_HAVE"
    and "decode_storage_have (env_payload have_env) = Inr hv" "sv_hash hv = rf_hash (so_reference offer)"
    and "blake3 C (sv_bytes hv) \<noteq> rf_hash (so_reference offer)"
    and "rows_ok C U (sn_store n)" "inj_on (blake3 C) U" "sv_bytes hv \<in> U" "sql 0" "sql 1"
  shows "\<exists>n'. serve_storage C (Some now) rnd Written sql follow env n = (n', [resp], None) \<and>
    holds C (sv_bytes hv) (sn_store n') \<and> sn_provenance n' = sn_provenance n"
proof -
  obtain s' where p: "put_object C now Written True (sv_bytes hv) (sn_store n) = (Inr (blake3 C (sv_bytes hv)), s')"
    using put_object_ok [of C now Written True "sv_bytes hv" "sn_store n"] by (metis prod.collapse)
  have "serve_storage C (Some now) rnd Written sql follow env n = (n\<lparr>sn_gate := g, sn_store := s'\<rparr>, [resp], None)"
    using assms(2-10,14,15) p
    by (simp add: serve_storage_admitted [OF assms(1)] handle_storage_offer_def ingest_have_def has_object_def
        storage_types unix_now_def Let_def)
  moreover have "holds C (sv_bytes hv) s'" by (rule put_holds [OF p assms(11-13)])
  ultimately show ?thesis by simp
qed

text \<open>A node that has an object on file never takes it again, whatever became of its bytes.\<close>

lemma damaged_object_never_replaced:
  assumes "env_type env = STORAGE_OFFER" "decode_storage_offer (env_payload env) = Inr offer"
    and "map_of (os_rows (sn_store n)) (rf_hash (so_reference offer)) = Some r" "sql 0"
    and "serve_storage C clock rnd w sql follow env n = (n', out, err)"
  shows "sn_store n' = sn_store n"
  using assms by (auto simp: serve_storage_def handle_storage_offer_def has_object_def storage_types Let_def
      split: prod.splits sum.splits if_splits)

section \<open>Examples\<close>

definition host_key :: side_key where "host_key = \<lparr>seed = replicate 32 1, label = ''host''\<rparr>"
definition guest_key :: side_key where "guest_key = \<lparr>seed = replicate 32 2, label = ''guest''\<rparr>"

definition guest_session :: session where
  "guest_session = \<lparr>ses_key = [], ses_peer_side = replicate 32 1, ses_intent = IntentStorage, ses_peer_capabilities = []\<rparr>"

definition store_with :: "byte list \<Rightarrow> object_store" where
  "store_with bytes = snd (put_object sample_crypto 5 Written True bytes object_store_new)"

definition storage_host :: "object_store \<Rightarrow> publisher_table \<Rightarrow> storage_node" where
  "storage_host s t = \<lparr>sn_side = host_key, sn_gate = gate_new, sn_store = s, sn_provenance = t, sn_retract_ignored = 0\<rparr>"

lemma storage_keys: "wf_side host_key" "wf_side guest_key"
    "public_bytes sample_crypto host_key = replicate 32 1" "public_bytes sample_crypto guest_key = replicate 32 2"
  by (simp_all add: wf_side_def host_key_def guest_key_def sample_public)

lemma storage_host_simps [simp]: "sn_side (storage_host s t) = host_key" "sn_gate (storage_host s t) = gate_new"
    "sn_store (storage_host s t) = s" "sn_provenance (storage_host s t) = t"
  by (simp_all add: storage_host_def)

lemma store_with_holds: "holds sample_crypto bytes (store_with bytes)"
  unfolding store_with_def
  by (rule put_holds [of sample_crypto 5 Written True bytes object_store_new "blake3 sample_crypto bytes" _ "{bytes}"])
    (simp_all add: rows_ok_new prod_eq_iff put_object_ok)

lemma guest_query:
  assumes "mt \<in> {STORAGE_GET, STORAGE_RETRACT, STORAGE_OFFER}" "length payload \<le> 65136"
  obtains frame where "send_signed sample_crypto guest_session guest_key mt payload (Some 500) (Some (replicate 16 7)) =
      Inr (sign_with sample_crypto mt guest_key (Some (replicate 32 1)) payload 500 (replicate 16 7), frame)"
proof -
  have "accepts IntentStorage mt" using assms(1) by (auto simp: accepts_def category_def storage_types)
  moreover have "wf_envelope sample_crypto (sign_with sample_crypto mt guest_key (Some (replicate 32 1)) payload 500 (replicate 16 7))"
    using assms(2) storage_keys sample_signature_laws by (intro sign_with_wf) (simp_all add: wf_fixed_def wf_bytes_def)
  ultimately show ?thesis
    using that send_envelope_ok assms(2)
    by (fastforce simp: send_signed_def sign_response_ok open_and_send_def guest_session_def)
qed

lemma guest_admitted:
  obtains g where "admit (Some 501) (sign_with sample_crypto mt guest_key to payload 500 nonce) gate_new = (True, g)"
  by (rule fresh_gate_admits [of "sign_with sample_crypto mt guest_key to payload 500 nonce" 501])
    (simp_all add: abs_diff_def SOFT_MAX_SKEW_SECS_def)

theorem fetch_end_to_end_witness:
  "\<exists>env frame n' resp. object_query sample_crypto guest_session guest_key (blake3 sample_crypto [4, 2]) (Some 500) (Some (replicate 16 7)) = Inr (env, frame) \<and>
     serve_storage sample_crypto (Some 501) (Some (replicate 16 8)) Written (\<lambda>_. True) [] env (storage_host (store_with [4, 2]) []) = (n', [resp], None) \<and>
     fetch_object sample_crypto (blake3 sample_crypto [4, 2]) resp = Inr (Some [4, 2])"
proof -
  let ?p = "encode_storage_get \<lparr>sg_hash = blake3 sample_crypto [4, 2], sg_range = None\<rparr>"
  have "length ?p \<le> 65136" using storage_get_length [of "blake3 sample_crypto [4, 2]"] sample_hash_laws by (simp add: hash_laws_def)
  then obtain frame where q: "object_query sample_crypto guest_session guest_key (blake3 sample_crypto [4, 2]) (Some 500) (Some (replicate 16 7)) =
      Inr (sign_with sample_crypto STORAGE_GET guest_key (Some (replicate 32 1)) ?p 500 (replicate 16 7), frame)"
    using guest_query [of STORAGE_GET ?p] by (auto simp: object_query_def)
  obtain g where g: "admit (Some 501) (sign_with sample_crypto STORAGE_GET guest_key (Some (replicate 32 1)) ?p 500 (replicate 16 7))
      (sn_gate (storage_host (store_with [4, 2]) [])) = (True, g)"
    using guest_admitted by (metis storage_host_simps(2))
  from fetch_end_to_end [OF sample_laws_all storage_keys(2) _ _ _ _ _ q g, of "replicate 16 8" guest_session "\<lambda>_. True" "[]" Written "[]"]
  show ?thesis using q storage_keys store_with_holds by (auto simp: guest_session_def)
qed

lemma large_object_ends_session_witness:
  "\<exists>env n' len. serve_storage sample_crypto (Some 501) (Some (replicate 16 8)) Written (\<lambda>_. True) [] env
      (storage_host (store_with (replicate 65537 1)) []) = (n', [], Some (NetTooLarge len MAX_ENVELOPE_LEN))"
proof -
  let ?b = "replicate 65537 1 :: byte list"
  let ?req = "\<lparr>sg_hash = blake3 sample_crypto ?b, sg_range = None\<rparr>"
  let ?env = "sign_with sample_crypto STORAGE_GET guest_key None (encode_storage_get ?req) 500 (replicate 16 7)"
  obtain g where g: "admit (Some 501) ?env (sn_gate (storage_host (store_with ?b) [])) = (True, g)"
    using guest_admitted by (metis storage_host_simps(2))
  have "decode_storage_get (env_payload ?env) = Inr ?req"
    using sample_hash_laws by (simp add: wf_storage_get_def wf_fixed_def hash_laws_def)
  from large_object_ends_session [OF _ g _ this, of "replicate 16 8" "\<lambda>_. True" Written "[]"] show ?thesis
    using store_with_holds by auto
qed

definition retract_env :: envelope where
  "retract_env = sign_with sample_crypto STORAGE_RETRACT guest_key None
     (encode_storage_retract \<lparr>st_hash = blake3 sample_crypto [4, 2]\<rparr>) 500 (replicate 16 7)"

definition pinned_host :: storage_node where
  "pinned_host = storage_host (snd (pin_object True (blake3 sample_crypto [4, 2]) (store_with [4, 2])))
     [(blake3 sample_crypto [4, 2], {replicate 32 2})]"

theorem unpin_needs_every_publisher_witness:
  "\<exists>n' out err r r'. serve_storage sample_crypto (Some 501) None Written (\<lambda>_. True) [] retract_env pinned_host = (n', out, err) \<and>
     map_of (os_rows (sn_store pinned_host)) (blake3 sample_crypto [4, 2]) = Some r \<and> ob_pinned r \<and>
     map_of (os_rows (sn_store n')) (blake3 sample_crypto [4, 2]) = Some r'"
proof -
  obtain r where r: "map_of (os_rows (sn_store pinned_host)) (blake3 sample_crypto [4, 2]) = Some r" "ob_pinned r"
    by (simp add: pinned_host_def pin_object_def store_with_def put_object_def INLINE_MAX_def insert_or_ignore_def
        object_store_new_def Let_def)
  obtain n' out err where s: "serve_storage sample_crypto (Some 501) None Written (\<lambda>_. True) [] retract_env pinned_host = (n', out, err)"
    by (metis prod_cases3)
  from unpin_needs_every_publisher [OF s r] s r show ?thesis by blast
qed

lemma retract_keeps_serving_witness:
  "\<exists>n' out err. serve_storage sample_crypto (Some 501) None Written (\<lambda>_. True) [] retract_env pinned_host = (n', out, err) \<and>
     stored_bytes (blake3 sample_crypto [4, 2]) (sn_store n') = Inr (Some [4, 2])"
proof -
  obtain n' out err where s: "serve_storage sample_crypto (Some 501) None Written (\<lambda>_. True) [] retract_env pinned_host = (n', out, err)"
    by (metis prod_cases3)
  have "stored_bytes (blake3 sample_crypto [4, 2]) (sn_store pinned_host) = Inr (Some [4, 2])"
    using store_with_holds [of "[4, 2]"] by (simp add: pinned_host_def pin_object_def stored_bytes_update_row holds_def)
  with retract_keeps_serving [OF _ s, of "blake3 sample_crypto [4, 2]"] s show ?thesis by (auto simp: retract_env_def)
qed

lemma offer_stores_mismatching_bytes_witness:
  "\<exists>env follow n' resp. serve_storage sample_crypto (Some 501) (Some (replicate 16 8)) Written (\<lambda>_. True) follow env
      (storage_host object_store_new []) = (n', [resp], None) \<and> holds sample_crypto [6, 6] (sn_store n')"
proof -
  let ?h = "blake3 sample_crypto [4, 2]"
  let ?offer = "\<lparr>so_reference = reference_new ?h 2 SINGLE_MIME\<rparr>"
  let ?hv = "\<lparr>sv_hash = ?h, sv_bytes = [6, 6], sv_final = True\<rparr>"
  let ?env = "sign_with sample_crypto STORAGE_OFFER guest_key None (encode_storage_offer ?offer) 500 (replicate 16 7)"
  let ?have = "sign_with sample_crypto STORAGE_HAVE guest_key None (encode_storage_have ?hv) 500 (replicate 16 9)"
  let ?n = "storage_host object_store_new []"
  let ?want = "encode_storage_want \<lparr>sw_hash = ?h, sw_want = True\<rparr>"
  have h: "length ?h = 32" using sample_hash_laws by (simp add: hash_laws_def)
  obtain g where g: "admit (Some 501) ?env (sn_gate ?n) = (True, g)" using guest_admitted by (metis storage_host_simps(2))
  have d: "decode_storage_offer (env_payload ?env) = Inr ?offer" "decode_storage_have (env_payload ?have) = Inr ?hv"
    using h by (simp_all add: wf_storage_offer_def reference_new_def SINGLE_MIME_def wf_fixed_def literal_key wf_storage_have_def wf_bytes_def)
  have "length ?want \<le> 65136"
    using item_lengths(2) [of ?h] item_lengths(3) [of "''hash''"] item_lengths(3) [of "''want''"] item_lengths(4) [of "Suc (Suc 0)"] h
    by (simp add: encode_storage_want_def encode_map_body storage_want_entries_def cbor_boolean_def)
  then have w: "signed_reply sample_crypto (sn_side ?n) (env_from ?env) STORAGE_WANT ?want (Some 501) (Some (replicate 16 8)) =
      Inr (sign_with sample_crypto STORAGE_WANT host_key (Some (replicate 32 2)) ?want 501 (replicate 16 8))"
    using storage_keys by (simp add: signed_reply_ok sample_signature_laws)
  have p: "length (encode_storage_have ?hv) \<le> 65136" using storage_have_length(1) [of ?hv] h by simp
  then have wf: "wf_envelope sample_crypto ?have"
    using sample_signature_laws storage_keys(2) by (intro sign_with_wf) (simp_all add: wf_fixed_def wf_bytes_def)
  obtain f where "send_envelope ?have = Inr f" using send_envelope_ok [OF wf] p by auto
  then have f: "recv_envelope sample_crypto (f @ []) = Inr (?have, [])" using wf by (simp add: recv_envelope_iff)
  have "blake3 sample_crypto [6, 6] \<noteq> ?h" by (simp add: sample_crypto_def pad32_def)
  with offer_stores_mismatching_bytes [where U = "{[6, 6]}" and sql = "\<lambda>_. True" and rnd = "Some (replicate 16 8)", OF g _ d(1) _ _ f _ d(2)] w show ?thesis
    by (auto simp: reference_new_def object_store_new_def rows_ok_def)
qed

end
