(* ===== verification/GossipService.thy ===== *)
theory GossipService
  imports Peers GossipState Contacts Gate Framing
begin

text \<open>
  The gossip service of \<open>sidevers-net/src/node.rs\<close>: the delivery of held envelopes at the start of
  a session, the loop of \<open>serve_gossip\<close> with its handlers, the fan-out of broadcasts, and the
  functions a peer uses. Clock, draws of randomness and the outcome of opening streams are
  arguments. Open connections are numbered; what is handed to them is returned.
\<close>

section \<open>State\<close>

record gossip_node =
  gn_side :: side_key
  gn_gate :: gate
  gn_peers :: peer_table
  gn_mailbox :: mailbox
  gn_gossip :: gossip_state
  gn_active :: "(byte list \<times> nat) list"
  gn_policy :: gossip_propagation
  gn_contacts :: relationship_table
  gn_forward_retry :: u64
  gn_broadcast_received :: u64

datatype gossip_out =
    GossipReply envelope
  | BroadcastReceived envelope
  | Fanout "(byte list \<times> nat) list" envelope

type_synonym gossip_result = "gossip_node \<times> gossip_out list \<times> net_error option"

section \<open>Sessions\<close>

definition gossip_connect :: "byte list \<Rightarrow> nat \<Rightarrow> gossip_node \<Rightarrow> gossip_node" where
  "gossip_connect peer conn n = n\<lparr>gn_active := AList.update peer conn (gn_active n)\<rparr>"

text \<open>\<open>GossipGuard\<close> removes the entry of the peer, whichever connection it holds by then.\<close>

definition gossip_disconnect :: "byte list \<Rightarrow> gossip_node \<Rightarrow> gossip_node" where
  "gossip_disconnect peer n = n\<lparr>gn_active := AList.delete peer (gn_active n)\<rparr>"

text \<open>
  The held envelopes of the peer, in order. One that cannot be signed or sent goes back into
  the mailbox for the time it has left; \<open>up i\<close> tells whether stream \<open>i\<close> could be opened and written.
\<close>

definition restore_held :: "u64 \<Rightarrow> byte list \<Rightarrow> held_message \<Rightarrow> gossip_node \<Rightarrow> gossip_node" where
  "restore_held now peer m n =
     n\<lparr>gn_mailbox := mailbox_store now peer (hm_envelope m) (saturating_sub (hm_expires_at m) now) (gn_mailbox n)\<rparr>"

fun deliver_held :: "crypto \<Rightarrow> u64 option \<Rightarrow> (nat \<Rightarrow> byte list option) \<Rightarrow> (nat \<Rightarrow> bool) \<Rightarrow> session \<Rightarrow> nat \<Rightarrow> held_message list \<Rightarrow>
    gossip_node \<Rightarrow> byte list list \<times> gossip_node" where
  "deliver_held C clock rnd up ses i [] n = ([], n)"
| "deliver_held C clock rnd up ses i (m # ms) n = (let now = unix_now clock; peer = ses_peer_side ses in
     if hm_expires_at m \<le> now then deliver_held C clock rnd up ses (Suc i) ms n
     else (case sign_response C (gn_side n) peer FORWARD_DELIVER
             (encode_forward_deliver \<lparr>fd_envelope = hm_envelope m, fd_stored_at = hm_stored_at m\<rparr>) clock (rnd i) of
         Inl _ \<Rightarrow> deliver_held C clock rnd up ses (Suc i) ms (restore_held now peer m n)
       | Inr env \<Rightarrow>
           (case (if up i then open_and_send ses env else Inl NetTimeout) of
              Inr frame \<Rightarrow> (let (frames, n) = deliver_held C clock rnd up ses (Suc i) ms n in (frame # frames, n))
            | Inl _ \<Rightarrow> deliver_held C clock rnd up ses (Suc i) ms
                ((restore_held now peer m n)\<lparr>gn_forward_retry := gn_forward_retry n + 1\<rparr>))))"

text \<open>The start of a session: register the connection, then deliver what is held.\<close>

definition gossip_start :: "crypto \<Rightarrow> u64 option \<Rightarrow> (nat \<Rightarrow> byte list option) \<Rightarrow> (nat \<Rightarrow> bool) \<Rightarrow> session \<Rightarrow> nat \<Rightarrow> gossip_node \<Rightarrow>
    byte list list \<times> gossip_node" where
  "gossip_start C clock rnd up ses conn n = (let n = gossip_connect (ses_peer_side ses) conn n;
       (held, m) = mailbox_drain (unix_now clock) (ses_peer_side ses) (gn_mailbox n)
     in deliver_held C clock rnd up ses 0 held (n\<lparr>gn_mailbox := m\<rparr>))"

section \<open>Handlers\<close>

definition fanout_targets :: "byte list \<Rightarrow> gossip_node \<Rightarrow> (byte list \<times> nat) list" where
  "fanout_targets source_peer n = (let connections = filter (\<lambda>(k, c). k \<noteq> source_peer) (gn_active n) in
     case gn_policy n of
       Open \<Rightarrow> connections
     | ExcludeRefused \<Rightarrow> filter (\<lambda>(k, c). \<not> is_refused k (g_reputation (gn_gate n))) connections
     | RelationshipsOnly \<Rightarrow> filter (\<lambda>(k, c). rel_contains k (gn_contacts n)) connections)"

definition reply_or_end :: "gossip_node \<Rightarrow> envelope net_result \<Rightarrow> gossip_result" where
  "reply_or_end n r = (case r of Inl e \<Rightarrow> (n, [], Some e) | Inr resp \<Rightarrow> (n, [GossipReply resp], None))"

definition handle_peer_ask :: "crypto \<Rightarrow> u64 option \<Rightarrow> byte list option \<Rightarrow> envelope \<Rightarrow> gossip_node \<Rightarrow> gossip_result" where
  "handle_peer_ask C clock rnd env n = (case decode_peer_ask (env_payload env) of
     Inl _ \<Rightarrow> (n, [], None)
   | Inr req \<Rightarrow> reply_or_end n (signed_reply C (gn_side n) (env_from env) PEER_TELL
       (encode_peer_tell \<lparr>pt_peers = peer_sample (unat (min (pa_limit req) 256)) (pa_intent_filter req) (gn_peers n)\<rparr>) clock rnd))"

definition handle_rendezvous :: "crypto \<Rightarrow> u64 option \<Rightarrow> byte list option \<Rightarrow> envelope \<Rightarrow> gossip_node \<Rightarrow> gossip_result" where
  "handle_rendezvous C clock rnd env n = (case decode_rendezvous (env_payload env) of
     Inl _ \<Rightarrow> (n, [], None)
   | Inr req \<Rightarrow> reply_or_end n (signed_reply C (gn_side n) (env_from env) RENDEZVOUS_ACK
       (encode_rendezvous_ack \<lparr>ra_target = rv_target req,
          ra_endpoints = (case peer_get (rv_target req) (gn_peers n) of Some p \<Rightarrow> pi_endpoints p | None \<Rightarrow> [])\<rparr>) clock rnd))"

definition handle_forward_store :: "u64 option \<Rightarrow> envelope \<Rightarrow> gossip_node \<Rightarrow> gossip_result" where
  "handle_forward_store clock env n = (case decode_forward_store (env_payload env) of
     Inl _ \<Rightarrow> (n, [], None)
   | Inr req \<Rightarrow> (n\<lparr>gn_mailbox :=
       mailbox_store (unix_now clock) (fs_recipient req) (fs_envelope req) (fs_ttl_secs req) (gn_mailbox n)\<rparr>, [], None))"

definition handle_broadcast :: "u64 option \<Rightarrow> byte list \<Rightarrow> envelope \<Rightarrow> gossip_node \<Rightarrow> gossip_result" where
  "handle_broadcast clock source_peer env n =
     (let (new, g) = gossip_observe (unix_now clock) env (gn_gossip n); n = n\<lparr>gn_gossip := g\<rparr> in
      if new then (n\<lparr>gn_broadcast_received := gn_broadcast_received n + 1\<rparr>,
        [Fanout (fanout_targets source_peer n) env, BroadcastReceived env], None)
      else (n, [], None))"

text \<open>One round of the loop of \<open>serve_gossip\<close>.\<close>

definition serve_gossip :: "crypto \<Rightarrow> session \<Rightarrow> u64 option \<Rightarrow> byte list option \<Rightarrow> envelope \<Rightarrow> gossip_node \<Rightarrow> gossip_result" where
  "serve_gossip C ses clock rnd env n = (let (ok, g) = admit clock env (gn_gate n); n = n\<lparr>gn_gate := g\<rparr>; t = env_type env in
     if \<not> ok then (n, [], None)
     else if t = PEER_ASK then handle_peer_ask C clock rnd env n
     else if t = RENDEZVOUS then handle_rendezvous C clock rnd env n
     else if t = FORWARD_STORE then handle_forward_store clock env n
     else if category t = CatPublic then handle_broadcast clock (ses_peer_side ses) env n
     else (n, [], None))"

section \<open>The other end\<close>

definition peers_query :: "crypto \<Rightarrow> session \<Rightarrow> side_key \<Rightarrow> u64 \<Rightarrow> byte option \<Rightarrow> u64 option \<Rightarrow> byte list option \<Rightarrow>
    (envelope \<times> byte list) net_result" where
  "peers_query C ses side limit intent_filter clock rnd = send_signed C ses side PEER_ASK
     (encode_peer_ask \<lparr>pa_limit = limit, pa_intent_filter = intent_filter\<rparr>) clock rnd"

definition query_peers :: "envelope \<Rightarrow> peer_info list net_result" where
  "query_peers resp = (if env_type resp \<noteq> PEER_TELL then Inl (NetInvariant ''expected PeerTell'')
     else and_then (core (decode_peer_tell (env_payload resp))) (\<lambda>tell. Inr (pt_peers tell)))"

definition rendezvous_query :: "crypto \<Rightarrow> session \<Rightarrow> side_key \<Rightarrow> byte list \<Rightarrow> u64 option \<Rightarrow> byte list option \<Rightarrow>
    (envelope \<times> byte list) net_result" where
  "rendezvous_query C ses side target clock rnd =
     send_signed C ses side RENDEZVOUS (encode_rendezvous \<lparr>rv_target = target\<rparr>) clock rnd"

definition request_rendezvous :: "byte list \<Rightarrow> envelope \<Rightarrow> string list net_result" where
  "request_rendezvous target resp = (if env_type resp \<noteq> RENDEZVOUS_ACK then Inl (NetInvariant ''expected RendezvousAck'')
     else and_then (core (decode_rendezvous_ack (env_payload resp))) (\<lambda>ack.
       if ra_target ack \<noteq> target then Inl (NetInvariant ''RendezvousAck target mismatch'') else Inr (ra_endpoints ack)))"

definition submit_forward :: "crypto \<Rightarrow> session \<Rightarrow> side_key \<Rightarrow> byte list \<Rightarrow> byte list \<Rightarrow> u64 \<Rightarrow> u64 option \<Rightarrow> byte list option \<Rightarrow>
    (envelope \<times> byte list) net_result" where
  "submit_forward C ses side recipient envelope ttl_secs clock rnd = send_signed C ses side FORWARD_STORE
     (encode_forward_store \<lparr>fs_envelope = envelope, fs_recipient = recipient, fs_ttl_secs = ttl_secs\<rparr>) clock rnd"

definition publish_broadcast :: "crypto \<Rightarrow> session \<Rightarrow> side_key \<Rightarrow> byte list \<Rightarrow> u64 option \<Rightarrow> byte list option \<Rightarrow>
    (envelope \<times> byte list) net_result" where
  "publish_broadcast C ses side payload clock rnd =
     and_then (core (sign_fresh C side None ANNOUNCEMENT payload clock rnd)) (\<lambda>env.
     and_then (open_and_send ses env) (\<lambda>frame. Inr (env, frame)))"

end
