(* ===== verification/GossipSafety.thy ===== *)
theory GossipSafety
  imports GossipService
begin

text \<open>
  Properties of the gossip service: held envelopes are delivered, broadcasts reach the
  application once and are passed on within the policy, and what a reconnection does to the
  table of open sessions.
\<close>

section \<open>Held envelopes are delivered\<close>

lemma forward_deliver_length:
  "length (encode_forward_deliver x) \<le> 100 + length (fd_envelope x)"
  using item_lengths(2) [of "fd_envelope x"] item_lengths(1) [of "fd_stored_at x"] item_lengths(3) [of "''envelope''"]
    item_lengths(3) [of "''stored_at''"] item_lengths(4) [of "Suc (Suc 0)"]
  by (simp add: encode_forward_deliver_def encode_map_body forward_deliver_entries_def)

definition delivers :: "crypto \<Rightarrow> session \<Rightarrow> byte list \<Rightarrow> byte list \<Rightarrow> held_message \<Rightarrow> bool" where
  "delivers C ses broker frame h \<longleftrightarrow> (\<exists>env. (\<forall>rest. accept_one C ses (frame @ rest) = Inr (env, rest)) \<and>
     env_from env = broker \<and> env_type env = FORWARD_DELIVER \<and>
     decode_forward_deliver (env_payload env) = Inr \<lparr>fd_envelope = hm_envelope h, fd_stored_at = hm_stored_at h\<rparr>)"

lemma deliver_one:
  assumes "signature_laws C" "wf_side k" "length (ses_peer_side ses) = 32" "length nonce = 16"
    and "ses_intent ses = IntentGossip" "ses_intent ses' = IntentGossip" "length (hm_envelope m) \<le> 65000"
  obtains env frame where "sign_response C k (ses_peer_side ses) FORWARD_DELIVER
      (encode_forward_deliver \<lparr>fd_envelope = hm_envelope m, fd_stored_at = hm_stored_at m\<rparr>) (Some now) (Some nonce) = Inr env"
    "open_and_send ses env = Inr frame" "delivers C ses' (public_bytes C k) frame m"
proof -
  let ?x = "\<lparr>fd_envelope = hm_envelope m, fd_stored_at = hm_stored_at m\<rparr>"
  let ?env = "sign_with C FORWARD_DELIVER k (Some (ses_peer_side ses)) (encode_forward_deliver ?x) now nonce"
  have len: "length (encode_forward_deliver ?x) \<le> 65136" using forward_deliver_length [of ?x] assms(7) by simp
  have wf: "wf_envelope C ?env"
    using assms len by (intro sign_with_wf) (simp_all add: wf_fixed_def wf_bytes_def)
  obtain frame where f: "send_envelope ?env = Inr frame" using send_envelope_ok [OF wf] len by auto
  have "accepts IntentGossip FORWARD_DELIVER" by (simp add: accepts_def category_def FORWARD_DELIVER_def)
  then have s: "open_and_send ses ?env = Inr frame" using f assms(5) by (simp add: open_and_send_def)
  have "decode_forward_deliver (encode_forward_deliver ?x) = Inr ?x"
    using assms(7) by (auto simp: forward_deliver_msg.decode_iff_prefix wf_forward_deliver_def wf_bytes_def intro: exI [of _ "[]"])
  then have "delivers C ses' (public_bytes C k) frame m"
    using open_accept [of ses ses', OF _ wf s] assms(5,6) by (auto simp: delivers_def intro!: exI [of _ ?env])
  then show ?thesis using that s by (simp add: sign_response_ok [OF assms(4)])
qed

lemma deliver_held_all:
  assumes "signature_laws C" "length (ses_peer_side ses) = 32" "\<And>i. \<exists>d. rnd i = Some d \<and> length d = 16" "\<And>i. up i"
    and "ses_intent ses = IntentGossip" "ses_intent ses' = IntentGossip"
    and "\<forall>m \<in> set ms. length (hm_envelope m) \<le> 65000" "\<forall>m \<in> set ms. unexpired now m" "wf_side (gn_side n)"
  shows "snd (deliver_held C (Some now) rnd up ses i ms n) = n \<and>
    list_all2 (delivers C ses' (public_bytes C (gn_side n))) (fst (deliver_held C (Some now) rnd up ses i ms n)) ms"
  using assms(7-9)
proof (induction ms arbitrary: i)
  case (Cons m ms)
  obtain d where d: "rnd i = Some d" "length d = 16" using assms(3) by blast
  obtain env frame where e: "sign_response C (gn_side n) (ses_peer_side ses) FORWARD_DELIVER
      (encode_forward_deliver \<lparr>fd_envelope = hm_envelope m, fd_stored_at = hm_stored_at m\<rparr>) (Some now) (Some d) = Inr env"
    "open_and_send ses env = Inr frame" "delivers C ses' (public_bytes C (gn_side n)) frame m"
    using deliver_one [OF assms(1) Cons.prems(3) assms(2) d(2) assms(5,6), of m] Cons.prems(1) by auto
  have "\<not> hm_expires_at m \<le> now" using Cons.prems(2) by (simp add: unexpired_def not_le)
  then show ?case
    using Cons.IH [of "Suc i"] Cons.prems d e assms(4) by (simp add: unix_now_def Let_def case_prod_beta')
qed simp

lemma queue_drained: "queue_of (snd (mailbox_drain t r m)) r = []"
  by (simp add: queue_drain)

text \<open>C26: Store and forward works: a peer that opens a gossip session receives, as one envelope each
  and in the order in which they were stored, exactly the envelopes stored for it since its last
  visit that have not expired, and nothing is left for it in the mailbox. The clock must not
  have run backwards, the streams must open, and the envelopes must leave room for the wrapper.\<close>

theorem held_envelopes_delivered:
  assumes "signature_laws C" "wf_side (gn_side n)" "length (ses_peer_side ses) = 32"
    and "\<And>i. \<exists>d. rnd i = Some d \<and> length d = 16" "\<And>i. up i" "ses_intent ses = IntentGossip" "ses_intent ses' = IntentGossip"
    and "gn_mailbox n = mail_run ops" "\<forall>(t, op) \<in> set ops. t \<le> now"
    and "\<forall>(t, env, ttl_secs) \<in> set (owed (ses_peer_side ses) ops). length env \<le> 65000"
    and "gossip_start C (Some now) rnd up ses conn n = (frames, n')"
  shows "list_all2 (delivers C ses' (public_bytes C (gn_side n))) frames
      (filter (unexpired now) (map held_since (owed (ses_peer_side ses) ops))) \<and>
    queue_of (gn_mailbox n') (ses_peer_side ses) = []"
proof -
  let ?peer = "ses_peer_side ses"
  let ?held = "filter (unexpired now) (map held_since (owed ?peer ops))"
  let ?n = "(gossip_connect ?peer conn n)\<lparr>gn_mailbox := snd (mailbox_drain now ?peer (gn_mailbox n))\<rparr>"
  have "fst (mailbox_drain now ?peer (gn_mailbox n)) = ?held"
    using mailbox_refines [OF assms(9)] by (simp add: mailbox_drain_def assms(8))
  then have s: "deliver_held C (Some now) rnd up ses 0 ?held ?n = (frames, n')"
    using assms(11) by (simp add: gossip_start_def gossip_connect_def unix_now_def Let_def case_prod_beta')
  have "\<forall>m \<in> set ?held. length (hm_envelope m) \<le> 65000" using assms(10) by (auto simp: held_since_def)
  from deliver_held_all [where C = C and ses = ses and rnd = rnd and up = up and ses' = ses' and now = now and i = 0 and n = ?n,
      OF assms(1,3-7) this] s assms(2)
  show ?thesis by (simp add: gossip_connect_def queue_drained)
qed

section \<open>Broadcasts\<close>

lemma serve_gossip_broadcast:
  assumes "serve_gossip C ses clock rnd env n = (n', outs, err)" "o1 \<in> set outs" "\<forall>r. o1 \<noteq> GossipReply r"
  shows "fst (admit clock env (gn_gate n)) \<and> category (env_type env) = CatPublic \<and>
    fst (gossip_observe (unix_now clock) env (gn_gossip n)) \<and>
    gn_gossip n' = snd (gossip_observe (unix_now clock) env (gn_gossip n)) \<and>
    o1 \<in> {Fanout (fanout_targets (ses_peer_side ses) (n\<lparr>gn_gate := snd (admit clock env (gn_gate n))\<rparr>)) env, BroadcastReceived env}"
proof -
  obtain ok g where a: "admit clock env (gn_gate n) = (ok, g)" by fastforce
  obtain new gg where o: "gossip_observe (unix_now clock) env (gn_gossip n) = (new, gg)" by fastforce
  have t: "fanout_targets p (n\<lparr>gn_gate := g, gn_gossip := gg\<rparr>) = fanout_targets p (n\<lparr>gn_gate := g\<rparr>)" for p
    by (cases "gn_policy n") (simp_all add: fanout_targets_def Let_def)
  show ?thesis
    using assms a o
    by (auto simp: serve_gossip_def handle_peer_ask_def handle_rendezvous_def handle_forward_store_def handle_broadcast_def
        reply_or_end_def Let_def t split: if_splits sum.splits)
qed

lemma serve_gossip_state:
  "gn_gossip (fst (serve_gossip C ses clock rnd env n)) = gn_gossip n \<or>
   gn_gossip (fst (serve_gossip C ses clock rnd env n)) = snd (gossip_observe (unix_now clock) env (gn_gossip n))"
  by (auto simp: serve_gossip_def handle_peer_ask_def handle_rendezvous_def handle_forward_store_def handle_broadcast_def
      reply_or_end_def Let_def case_prod_beta' split: sum.split)

text \<open>A sequence of rounds, over any sessions.\<close>

definition gossip_rounds :: "crypto \<Rightarrow> (session \<times> u64 option \<times> byte list option \<times> envelope) list \<Rightarrow> gossip_node \<Rightarrow> gossip_node" where
  "gossip_rounds C es = fold (\<lambda>(ses, clock, rnd, env) n. fst (serve_gossip C ses clock rnd env n)) es"

lemma seen_rounds:
  assumes "seen_since key t (gn_gossip n)" "\<forall>(ses, clock, rnd, env) \<in> set es. saturating_sub (unix_now clock) t < DEDUP_TTL_SECS"
  shows "seen_since key t (gn_gossip (gossip_rounds C es n))"
  using assms
proof (induction es arbitrary: n)
  case (Cons e es)
  obtain ses clock rnd env where e: "e = (ses, clock, rnd, env)" by (cases e)
  have "seen_since key t (gn_gossip (fst (serve_gossip C ses clock rnd env n)))"
    using serve_gossip_state [of C ses clock rnd env n] Cons.prems(1)
      seen_step [OF Cons.prems(1), of "gossip_op.Observe (unix_now clock) env"] Cons.prems(2) e by auto
  then show ?case using Cons.IH Cons.prems(2) e by (simp add: gossip_rounds_def)
qed (simp add: gossip_rounds_def)

lemma seen_not_new:
  assumes "seen_since (env_from env, env_nonce env) t g" "saturating_sub now t < DEDUP_TTL_SECS"
  shows "\<not> fst (gossip_observe now env g)"
proof -
  obtain ts where "wf_map (gs_dedup g)" "map_of (gs_dedup g) (env_from env, env_nonce env) = Some ts" "t \<le> ts"
    using assms(1) by (auto simp: seen_since_def)
  from swept_keeps [OF this assms(2), of MAX_DEDUP_ENTRIES] show ?thesis
    by (simp add: gossip_observe_def Let_def split: option.splits)
qed

text \<open>C27: A broadcast is handed to the application and passed on at most once in 600 seconds, even when
  it comes again over another session, in another envelope with the same sender and nonce, or
  after any other traffic: neither the gate nor the dedup cache forgets it in that time.\<close>

theorem broadcast_delivered_once:
  assumes "wf_map (gs_dedup (gn_gossip n))"
    and "serve_gossip C ses clock rnd env n = (n1, outs, err)" "BroadcastReceived env \<in> set outs"
    and "\<forall>(ses, clk, rnd, e) \<in> set between. saturating_sub (unix_now clk) (unix_now clock) < DEDUP_TTL_SECS"
    and "serve_gossip C ses' clock' rnd' env' (gossip_rounds C between n1) = (n2, outs', err')"
    and "saturating_sub (unix_now clock') (unix_now clock) < DEDUP_TTL_SECS"
    and "env_from env' = env_from env" "env_nonce env' = env_nonce env"
  shows "\<forall>e targets. BroadcastReceived e \<notin> set outs' \<and> Fanout targets e \<notin> set outs'"
proof -
  have "seen_since (env_from env, env_nonce env) (unix_now clock) (gn_gossip n1)"
    using serve_gossip_broadcast [OF assms(2,3)] seen_observed [OF assms(1), of "unix_now clock" env] by simp
  from seen_rounds [OF this assms(4)]
  have "\<not> fst (gossip_observe (unix_now clock') env' (gn_gossip (gossip_rounds C between n1)))"
    using seen_not_new assms(6-8) by metis
  then show ?thesis using serve_gossip_broadcast [OF assms(5)] by auto
qed

text \<open>C32: A broadcast is passed on only within the policy: only a first sighting that passed the gate is,
  never back to the peer it came from, only to open sessions, and, if the policy says so, not to
  refused peers or only to contacts.\<close>

theorem fanout_respects_policy:
  assumes "serve_gossip C ses clock rnd env n = (n', outs, err)" "Fanout targets e \<in> set outs" "(peer, conn) \<in> set targets"
  shows "e = env \<and> category (env_type env) = CatPublic \<and> fst (admit clock env (gn_gate n)) \<and>
    peer \<noteq> ses_peer_side ses \<and> (peer, conn) \<in> set (gn_active n) \<and>
    (gn_policy n = ExcludeRefused \<longrightarrow> \<not> is_refused peer (g_reputation (snd (admit clock env (gn_gate n))))) \<and>
    (gn_policy n = RelationshipsOnly \<longrightarrow> rel_contains peer (gn_contacts n))"
  using serve_gossip_broadcast [OF assms(1,2)] assms(3)
  by (auto simp: fanout_targets_def Let_def split: gossip_propagation.splits)

section \<open>Reconnection\<close>

text \<open>A peer that reconnects before its old session is cleaned up is cut off from broadcasts: the
  clean-up of the old session removes the entry of the new one, and no broadcast reaches the
  peer although its connection is open.\<close>

lemma reconnect_loses_fanout:
  assumes "serve_gossip C ses clock rnd env (gossip_disconnect peer (gossip_connect peer new_conn (gossip_connect peer old_conn n))) =
    (n', outs, err)"
  shows "\<forall>targets e conn. Fanout targets e \<in> set outs \<longrightarrow> (peer, conn) \<notin> set targets"
proof -
  have "(peer, conn) \<notin> set (gn_active (gossip_disconnect peer m))" for conn m
    by (simp add: gossip_disconnect_def AList.delete_eq)
  moreover have "(peer, conn) \<in> set (gn_active (gossip_disconnect peer (gossip_connect peer new_conn (gossip_connect peer old_conn n))))"
    if "Fanout targets e \<in> set outs" "(peer, conn) \<in> set targets" for targets e conn
    using serve_gossip_broadcast [OF assms that(1)] that(2)
    by (auto simp: fanout_targets_def Let_def split: gossip_propagation.splits)
  ultimately show ?thesis by blast
qed

section \<open>Examples\<close>

definition relay_key :: side_key where "relay_key = \<lparr>seed = replicate 32 1, label = ''relay''\<rparr>"

definition gossip_session :: "byte list \<Rightarrow> session" where
  "gossip_session peer = \<lparr>ses_key = [], ses_peer_side = peer, ses_intent = IntentGossip, ses_peer_capabilities = []\<rparr>"

definition relay :: "mailbox \<Rightarrow> (byte list \<times> nat) list \<Rightarrow> gossip_node" where
  "relay m active = \<lparr>gn_side = relay_key, gn_gate = gate_new, gn_peers = peer_table_new 256, gn_mailbox = m, gn_gossip = gossip_new,
     gn_active = active, gn_policy = ExcludeRefused, gn_contacts = [], gn_forward_retry = 0, gn_broadcast_received = 0\<rparr>"

lemma relay_simps [simp]: "gn_side (relay m a) = relay_key" "gn_gate (relay m a) = gate_new" "gn_mailbox (relay m a) = m"
    "gn_gossip (relay m a) = gossip_new" "gn_active (relay m a) = a"
  by (simp_all add: relay_def)

lemma gossip_session_simps [simp]: "ses_peer_side (gossip_session p) = p" "ses_intent (gossip_session p) = IntentGossip"
  by (simp_all add: gossip_session_def)

lemma first_broadcast:
  obtains n' where "serve_gossip C ses (Some 6) rnd sample_broadcast (relay m a) =
    (n', [Fanout (fanout_targets (ses_peer_side ses) n') sample_broadcast, BroadcastReceived sample_broadcast], None)"
    "gn_policy n' = ExcludeRefused" "gn_active n' = a" "gn_gate n' = snd (admit (Some 6) sample_broadcast gate_new)"
proof -
  obtain g where g: "admit (Some 6) sample_broadcast gate_new = (True, g)"
    by (rule fresh_gate_admits [of sample_broadcast 6]) (simp_all add: sample_broadcast_def abs_diff_def SOFT_MAX_SKEW_SECS_def)
  have o: "fst (gossip_observe 6 sample_broadcast gossip_new)"
    by (simp add: gossip_observe_def gossip_new_def dedup_swept_def MAX_DEDUP_ENTRIES_def Let_def)
  let ?n = "relay m a\<lparr>gn_gate := g, gn_gossip := snd (gossip_observe 6 sample_broadcast gossip_new), gn_broadcast_received := 1\<rparr>"
  have t: "env_type sample_broadcast = 101" by (simp add: sample_broadcast_def)
  have f: "fanout_targets p (relay m a\<lparr>gn_gate := g, gn_gossip := gg\<rparr>) = fanout_targets p ?n" for p gg
    by (simp add: relay_def fanout_targets_def)
  have "serve_gossip C ses (Some 6) rnd sample_broadcast (relay m a) =
    (?n, [Fanout (fanout_targets (ses_peer_side ses) ?n) sample_broadcast, BroadcastReceived sample_broadcast], None)"
    unfolding f [symmetric]
    by (simp add: serve_gossip_def g handle_broadcast_def o unix_now_def case_prod_beta' Let_def t f
      category_def PEER_ASK_def RENDEZVOUS_def FORWARD_STORE_def) (simp add: relay_def)
  then show ?thesis by (rule that) (simp_all add: g relay_def)
qed

theorem held_envelopes_delivered_witness:
  "\<exists>frames n'. gossip_start sample_crypto (Some 50) (\<lambda>_. Some (replicate 16 3)) (\<lambda>_. True) (gossip_session (replicate 32 2)) 0
      (relay (mail_run [(1, Store (replicate 32 2) [10] 100), (2, Store (replicate 32 2) [11] 5), (3, Store (replicate 32 2) [12] 100)]) []) =
      (frames, n') \<and>
     list_all2 (delivers sample_crypto (gossip_session (replicate 32 1)) (replicate 32 1)) frames
       [\<lparr>hm_envelope = [10], hm_stored_at = 1, hm_expires_at = 101\<rparr>, \<lparr>hm_envelope = [12], hm_stored_at = 3, hm_expires_at = 103\<rparr>]"
proof -
  let ?ops = "[(1, Store (replicate 32 2) [10] 100), (2, Store (replicate 32 2) [11] 5), (3, Store (replicate 32 2) [12] 100)]"
  let ?n = "relay (mail_run ?ops) []"
  obtain frames n' where g: "gossip_start sample_crypto (Some 50) (\<lambda>_. Some (replicate 16 3)) (\<lambda>_. True) (gossip_session (replicate 32 2)) 0 ?n =
      (frames, n')" by fastforce
  have r: "\<And>i. \<exists>d. (\<lambda>_ :: nat. Some (replicate 16 (3 :: byte))) i = Some d \<and> length d = 16" by simp
  have w: "wf_side (gn_side ?n)" by (simp add: wf_side_def relay_key_def)
  have "public_bytes sample_crypto (gn_side ?n) = replicate 32 1"
    by (simp add: relay_key_def sample_public)
  with held_envelopes_delivered [OF sample_signature_laws w _ r _ _ _ _ _ _ g, where ops = ?ops and ses' = "gossip_session (replicate 32 1)"]
  show ?thesis using g by (auto simp: held_since_def unexpired_def MAILBOX_TTL_SECS_def)
qed

theorem broadcast_delivered_once_witness:
  "\<exists>n1. serve_gossip sample_crypto (gossip_session (replicate 32 2)) (Some 6) None sample_broadcast (relay [] []) =
       (n1, [Fanout [] sample_broadcast, BroadcastReceived sample_broadcast], None) \<and>
     (\<forall>e. BroadcastReceived e \<notin> set (fst (snd (serve_gossip sample_crypto (gossip_session (replicate 32 3)) (Some 500) None
       (sample_broadcast\<lparr>env_payload := [1]\<rparr>) n1))))"
proof -
  obtain n1 where n1: "serve_gossip sample_crypto (gossip_session (replicate 32 2)) (Some 6) None sample_broadcast (relay [] []) =
      (n1, [Fanout (fanout_targets (replicate 32 2) n1) sample_broadcast, BroadcastReceived sample_broadcast], None)"
    "gn_policy n1 = ExcludeRefused" "gn_active n1 = []"
    using first_broadcast [of sample_crypto "gossip_session (replicate 32 2)" None "[]" "[]"] by auto
  obtain n2 outs' err' where n2: "serve_gossip sample_crypto (gossip_session (replicate 32 3)) (Some 500) None
      (sample_broadcast\<lparr>env_payload := [1]\<rparr>) (gossip_rounds sample_crypto [] n1) = (n2, outs', err')"
    by (metis prod_cases3)
  have "wf_map (gs_dedup (gn_gossip (relay [] [])))" by (simp add: gossip_new_def)
  from broadcast_delivered_once [OF this n1(1) _ _ n2]
  have "\<forall>e. BroadcastReceived e \<notin> set outs'"
    by (simp add: unix_now_def saturating_sub_def DEDUP_TTL_SECS_def)
  then show ?thesis using n1 n2 by (simp add: gossip_rounds_def fanout_targets_def)
qed

theorem fanout_respects_policy_witness:
  "\<exists>n' targets. serve_gossip sample_crypto (gossip_session (replicate 32 2)) (Some 6) None sample_broadcast
       (relay [] [(replicate 32 2, 0), (replicate 32 3, 1)]) = (n', [Fanout targets sample_broadcast, BroadcastReceived sample_broadcast], None) \<and>
     (\<forall>(peer, conn) \<in> set targets. peer = replicate 32 3 \<and> conn = 1 \<and>
       \<not> is_refused peer (g_reputation (snd (admit (Some 6) sample_broadcast gate_new))))"
proof -
  let ?n = "relay [] [(replicate 32 2, 0), (replicate 32 3, 1)]"
  obtain n1 where n1: "serve_gossip sample_crypto (gossip_session (replicate 32 2)) (Some 6) None sample_broadcast ?n =
      (n1, [Fanout (fanout_targets (replicate 32 2) n1) sample_broadcast, BroadcastReceived sample_broadcast], None)"
    using first_broadcast [of sample_crypto "gossip_session (replicate 32 2)" None "[]" "[(replicate 32 2, 0), (replicate 32 3, 1)]"] by auto
  have "peer = replicate 32 3 \<and> conn = 1 \<and> \<not> is_refused peer (g_reputation (snd (admit (Some 6) sample_broadcast gate_new)))"
    if "(peer, conn) \<in> set (fanout_targets (replicate 32 2) n1)" for peer conn
    using fanout_respects_policy [OF n1 _ that, of sample_broadcast] by (auto simp: relay_def)
  then show ?thesis using n1 by auto
qed

lemma reconnect_loses_fanout_witness:
  "\<forall>targets e. Fanout targets e \<in> set (fst (snd (serve_gossip sample_crypto (gossip_session (replicate 32 2)) (Some 6) None sample_broadcast
     (gossip_disconnect (replicate 32 3) (gossip_connect (replicate 32 3) 1 (gossip_connect (replicate 32 3) 0 (relay [] []))))))) \<longrightarrow>
     (replicate 32 3, 1) \<notin> set targets"
  using reconnect_loses_fanout [of sample_crypto "gossip_session (replicate 32 2)" "Some 6" None sample_broadcast "replicate 32 3" 1 0 "relay [] []"]
  by (metis prod.collapse)

end
