(* ===== verification/ReplayJournal.thy ===== *)
theory ReplayJournal
  imports Replay Tables Framing
begin

text \<open>
  The persistent replay journal, \<open>sidevers-net/src/replay_journal.rs\<close>, and what \<open>Node::start\<close>
  does with it in \<open>node.rs\<close>: a table with one row per pair in the cache, written through by the
  cache, and read back when the node starts. A statement of SQL succeeds with its documented
  effect or fails, as an argument says; a failed write is logged and dropped.
\<close>

section \<open>The table\<close>

type_synonym journal_table = "(replay_key \<times> u64) list"

definition journal_record :: "bool \<Rightarrow> replay_key \<Rightarrow> u64 \<Rightarrow> journal_table \<Rightarrow> journal_table" where
  "journal_record sql k first_seen t = (if sql then AList.update k first_seen t else t)"

definition journal_evict :: "bool \<Rightarrow> replay_key \<Rightarrow> journal_table \<Rightarrow> journal_table" where
  "journal_evict sql k t = (if sql then AList.delete k t else t)"

text \<open>Times are stored as signed integers, so the comparison with the cutoff is signed.\<close>

definition load_active :: "bool \<Rightarrow> bool \<Rightarrow> u64 \<Rightarrow> u64 \<Rightarrow> journal_table \<Rightarrow>
    (byte list \<times> byte list \<times> u64) list net_result \<times> journal_table" where
  "load_active sweep_ok read_ok now ttl_secs t =
     (let cutoff = saturating_sub now ttl_secs;
          t = (if sweep_ok then filter (\<lambda>(k, first_seen). \<not> sint first_seen < sint cutoff) t else t) in
      (if \<not> read_ok then Inl (NetSqlite ''read'')
       else Inr (map (\<lambda>((from, nonce), first_seen). (from, nonce, first_seen))
              (filter (\<lambda>((from, nonce), first_seen). length from = 32 \<and> length nonce = 16) t)), t))"

section \<open>Cache and journal together\<close>

text \<open>The events of one call of the cache, each written when it happens.\<close>

fun write_through :: "(nat \<Rightarrow> bool) \<Rightarrow> nat \<Rightarrow> journal_event list \<Rightarrow> journal_table \<Rightarrow> journal_table" where
  "write_through sql i [] t = t"
| "write_through sql i (Record k first_seen # evs) t = write_through sql (Suc i) evs (journal_record (sql i) k first_seen t)"
| "write_through sql i (Evict k # evs) t = write_through sql (Suc i) evs (journal_evict (sql i) k t)"

definition journaled_observe :: "(nat \<Rightarrow> bool) \<Rightarrow> u64 \<Rightarrow> byte list \<Rightarrow> byte list \<Rightarrow> replay_cache \<times> journal_table \<Rightarrow>
    bool \<times> replay_cache \<times> journal_table" where
  "journaled_observe sql now from nonce s = (case s of (c, t) \<Rightarrow>
     let (seen, c) = observe now from nonce (set_journal [] c) in
     (seen, set_journal [] c, write_through sql 0 (case journal c of Some evs \<Rightarrow> evs | None \<Rightarrow> []) t))"

text \<open>What \<open>Node::start\<close> makes of the table for the first side of the node.\<close>

definition start_replay :: "bool \<Rightarrow> bool \<Rightarrow> u64 \<Rightarrow> journal_table \<Rightarrow> replay_cache \<times> journal_table" where
  "start_replay sweep_ok read_ok now t =
     (let (rows, t) = load_active sweep_ok read_ok now DEFAULT_TTL_SECS t in
      (set_journal [] (preload now (case rows of Inr rows \<Rightarrow> rows | Inl _ \<Rightarrow> []) cache_new), t))"

text \<open>\<open>Node::add_side\<close> gives a further side a cache of its own, neither preloaded nor journaled.\<close>

definition secondary_replay :: replay_cache where
  "secondary_replay = cache_new"

datatype journal_op = Seen u64 "byte list" "byte list" | Restart u64

fun journal_op_time :: "journal_op \<Rightarrow> u64" where
  "journal_op_time (Seen now _ _) = now"
| "journal_op_time (Restart now) = now"

fun journal_op_ok :: "journal_op \<Rightarrow> bool" where
  "journal_op_ok (Seen now from nonce) \<longleftrightarrow> length from = 32 \<and> length nonce = 16 \<and> now < 2 ^ 63"
| "journal_op_ok (Restart now) \<longleftrightarrow> now < 2 ^ 63"

fun journal_step :: "journal_op \<Rightarrow> replay_cache \<times> journal_table \<Rightarrow> replay_cache \<times> journal_table" where
  "journal_step (Seen now from nonce) s = snd (journaled_observe (\<lambda>_. True) now from nonce s)"
| "journal_step (Restart now) s = start_replay True True now (snd s)"

section \<open>Writing through\<close>

lemma write_through_map_of:
  "map_of (write_through (\<lambda>_. True) i evs t) = fold apply_event evs (map_of t)"
  by (induction "\<lambda>_ :: nat. True" i evs t rule: write_through.induct)
    (simp_all add: journal_record_def journal_evict_def update_conv' delete_conv')

lemma write_through_wf: "wf_map t \<Longrightarrow> wf_map (write_through sql i evs t)"
  by (induction sql i evs t rule: write_through.induct) (simp_all add: journal_record_def journal_evict_def)

definition records :: "journal_event list \<Rightarrow> nat" where
  "records evs = length (filter (\<lambda>ev. case ev of Record _ _ \<Rightarrow> True | Evict _ \<Rightarrow> False) evs)"

lemma records_simps [simp]: "records [] = 0" "records (Record k t # evs) = Suc (records evs)" "records (Evict k # evs) = records evs"
    "records (evs @ evs') = records evs + records evs'"
  by (simp_all add: records_def)

lemma records_evictions [simp]: "records (map (\<lambda>(k, t). Evict k) es) = 0"
  by (induction es) auto

lemma write_through_count: "length (filter P (write_through sql i evs t)) \<le> length (filter P t) + records evs"
proof (induction sql i evs t rule: write_through.induct)
  case (2 sql i k ts evs t)
  then show ?case using filter_update_length [of P k ts t] by (simp add: journal_record_def split: if_splits)
next
  case (3 sql i k evs t)
  then show ?case using filter_delete_length [of P k t] by (simp add: journal_evict_def split: if_splits)
qed simp

lemma write_through_set:
  "e \<in> set (write_through sql i evs t) \<Longrightarrow> e \<in> set t \<or> Record (fst e) (snd e) \<in> set evs"
proof (induction sql i evs t rule: write_through.induct)
  case (2 sql i k ts evs t)
  have "set (AList.update k ts t) \<subseteq> insert (k, ts) (set t)" by (induction t) auto
  then show ?case using 2 by (auto simp: journal_record_def split: if_splits)
next
  case (3 sql i k evs t)
  then show ?case by (auto simp: journal_evict_def set_delete split: if_splits)
qed simp

lemma apply_events_mono: "m \<subseteq>\<^sub>m m' \<Longrightarrow> fold apply_event evs m \<subseteq>\<^sub>m fold apply_event evs m'"
proof (induction evs arbitrary: m m')
  case (Cons ev evs)
  have "apply_event ev m \<subseteq>\<^sub>m apply_event ev m'"
    using Cons.prems by (cases ev) (auto simp: map_le_def)
  then show ?case using Cons.IH by simp
qed simp

text \<open>The events of an observation, whatever was in the journal before it.\<close>

lemma observe_events:
  assumes "observe now from nonce (set_journal [] c) = (seen, c')"
  obtains evs where "journal c' = Some evs" "records evs \<le> 1"
    "\<forall>ev \<in> set evs. \<forall>k t. ev = Record k t \<longrightarrow> k = (from, nonce) \<and> t = now"
    "observe now from nonce (set_journal log c) = (seen, c'\<lparr>journal := Some (log @ evs)\<rparr>)"
proof -
  let ?P = "\<lambda>evs. journal c' = Some evs \<and> records evs \<le> 1 \<and>
      (\<forall>ev \<in> set evs. \<forall>k t. ev = Record k t \<longrightarrow> k = (from, nonce) \<and> t = now) \<and>
      observe now from nonce (set_journal log c) = (seen, c'\<lparr>journal := Some (log @ evs)\<rparr>)"
  have "\<exists>evs. ?P evs"
    using assms by (auto simp: find_oldest_in_def observe_def sweep_def set_journal_def journal_call_def Let_def split: option.splits if_splits)
  then show ?thesis using that by blast
qed

section \<open>What is on file\<close>

text \<open>The journal holds at least the entries of the cache, under keys and times it can give back.\<close>

definition journaled_ok :: "replay_cache \<times> journal_table \<Rightarrow> bool" where
  "journaled_ok s \<longleftrightarrow> (case s of (c, t) \<Rightarrow> cache_inv c \<and> wf_map t \<and> map_of (entries c) \<subseteq>\<^sub>m map_of t \<and>
     ttl c = DEFAULT_TTL_SECS \<and> max_entries c = DEFAULT_MAX_ENTRIES \<and>
     (\<forall>((from, nonce), first_seen) \<in> set t. length from = 32 \<and> length nonce = 16 \<and> first_seen < 2 ^ 63))"

definition on_file :: "u64 \<Rightarrow> journal_table \<Rightarrow> nat" where
  "on_file t0 t = length (filter (\<lambda>e. t0 \<le> snd e) t)"

lemma map_le_set: "wf_map t \<Longrightarrow> map_of es \<subseteq>\<^sub>m map_of t \<Longrightarrow> wf_map es \<Longrightarrow> set es \<subseteq> set t"
  by (auto simp: map_le_def wf_map_in_set dom_def)

lemma recent_on_file:
  assumes "journaled_ok (c, t)"
  shows "recent t0 c \<le> on_file t0 t"
proof -
  have "wf_map (entries c)" "wf_map t" "set (entries c) \<subseteq> set t"
    using assms map_le_set by (auto simp: journaled_ok_def cache_inv_def)
  then have "distinct (entries c)" "distinct t" "set (entries c) \<subseteq> set t"
    by (auto simp: wf_map_def distinct_map)
  then show ?thesis unfolding recent_def on_file_def
    by (subst (1 2) distinct_card [symmetric]) (auto intro!: card_mono)
qed

lemma journal_observe_step:
  assumes "journaled_ok (c, t)" "journal_op_ok (Seen now from nonce)" "journaled_observe (\<lambda>_. True) now from nonce (c, t) = (seen, c', t')"
  shows "journaled_ok (c', t') \<and> on_file t0 t' \<le> Suc (on_file t0 t) \<and>
    (\<exists>j. observe now from nonce (set_journal [] c) = (seen, j) \<and> c' = set_journal [] j)"
proof -
  note ok = assms(1) [unfolded journaled_ok_def split]
  let ?log = "map (\<lambda>(k, t). Record k t) (entries c)"
  obtain j where o: "observe now from nonce (set_journal [] c) = (seen, j)" "c' = set_journal [] j"
    using assms(3) by (auto simp: journaled_observe_def Let_def split: prod.splits)
  obtain evs where e: "journal j = Some evs" "records evs \<le> 1" "\<forall>ev \<in> set evs. \<forall>k t. ev = Record k t \<longrightarrow> k = (from, nonce) \<and> t = now"
    "observe now from nonce (set_journal ?log c) = (seen, j\<lparr>journal := Some (?log @ evs)\<rparr>)"
    using observe_events [OF o(1), of ?log] by blast
  have t': "t' = write_through (\<lambda>_. True) 0 evs t" using assms(3) o e(1) by (simp add: journaled_observe_def)
  have inv: "cache_inv (set_journal l c)" for l using ok by (simp add: cache_inv_def set_journal_def)
  have "fold apply_event (map (\<lambda>(k, t). Record k t) es) m = (\<lambda>k. case map_of (rev es) k of Some t \<Rightarrow> Some t | None \<Rightarrow> m k)" for es m
    by (induction es arbitrary: m) (auto simp: fun_eq_iff map_add_def map_of_append split: option.splits)
  then have "stored ?log = map_of (rev (entries c))"
    by (auto simp: stored_def fun_eq_iff split: option.splits)
  also have "\<dots> = map_of (entries c)"
    using ok by (subst map_of_inject_set) (simp_all add: cache_inv_def wf_map_def rev_map [symmetric])
  finally have log: "stored ?log = map_of (entries c)" .
  have "mirror (set_journal ?log c)" using log by (simp add: mirror_def set_journal_def)
  then have "mirror (j\<lparr>journal := Some (?log @ evs)\<rparr>)" by (rule mirror_observe [OF inv _ e(4)])
  then have m: "fold apply_event evs (map_of (entries c)) = map_of (entries j)"
    by (simp add: mirror_def stored_append log)
  have le: "map_of (entries j) \<subseteq>\<^sub>m map_of t'"
    unfolding t' write_through_map_of m [symmetric] using ok by (intro apply_events_mono) simp
  have rows: "length f = 32 \<and> length n = 16 \<and> ts < 2 ^ 63" if "((f, n), ts) \<in> set t'" for f n ts
    using write_through_set [OF that [unfolded t']] ok e(3) assms(2) by fastforce
  have pol: "ttl j = ttl c \<and> max_entries j = max_entries c" using observe_entries [OF o(1)] by (simp add: set_journal_def)
  have "cache_inv j" by (rule cache_inv_observe [OF inv o(1)])
  moreover have "wf_map t'" unfolding t' by (rule write_through_wf) (use ok in simp)
  moreover have "on_file t0 t' \<le> Suc (on_file t0 t)"
    using write_through_count [of "\<lambda>e. t0 \<le> snd e" "\<lambda>_. True" 0 evs t] e(2) by (simp add: on_file_def t')
  ultimately show ?thesis
    using le rows pol ok o by (auto simp: journaled_ok_def set_journal_def cache_inv_def)
qed

section \<open>Restarting\<close>

text \<open>What is loaded again: the rows that are alive, with those seen last if there are too many.\<close>

lemma preload_rows:
  fixes t :: journal_table
  assumes "wf_map t"
  shows "fold (\<lambda>(from, nonce, first_seen) es. if d \<le> saturating_sub now first_seen then es
        else AList.update (from, nonce) first_seen es) (map (\<lambda>((from, nonce), first_seen). (from, nonce, first_seen)) t) [] =
      filter (\<lambda>(k, first_seen). saturating_sub now first_seen < d) t"
proof -
  let ?f = "\<lambda>(from, nonce, first_seen) es. if d \<le> saturating_sub now first_seen then es
        else AList.update (from, nonce) first_seen (es :: replay_entries)"
  have new: "AList.update k v es = es @ [(k, v)]" if "k \<notin> fst ` set es" for k v and es :: replay_entries
    using that by (induction es) auto
  have "fold ?f (map (\<lambda>((from, nonce), first_seen). (from, nonce, first_seen)) t) es =
      es @ filter (\<lambda>(k, first_seen). saturating_sub now first_seen < d) t"
    if "wf_map (es @ t)" for es
    using that
  proof (induction t arbitrary: es)
    case (Cons e t)
    obtain f n ts where e: "e = ((f, n), ts)" by (metis prod.collapse)
    show ?case
    proof (cases "d \<le> saturating_sub now ts")
      case True
      then show ?thesis using Cons e by (simp add: wf_map_def)
    next
      case False
      have "(f, n) \<notin> fst ` set es" using Cons.prems e by (auto simp: wf_map_def)
      moreover have "wf_map ((es @ [((f, n), ts)]) @ t)" using Cons.prems e by (simp add: wf_map_def)
      ultimately show ?thesis using Cons.IH [of "es @ [((f, n), ts)]"] False e by (simp add: new)
    qed
  qed simp
  from this [of "[]"] assms show ?thesis by simp
qed

lemma start_loads:
  assumes "journaled_ok (c, t)" "start_replay True True now t = (c', t')"
  shows "c' = set_journal [] (cache_new\<lparr>entries := trim DEFAULT_MAX_ENTRIES (filter (\<lambda>(k, first_seen). alive DEFAULT_TTL_SECS now first_seen) t')\<rparr>) \<and>
    t' = filter (\<lambda>(k, first_seen). \<not> sint first_seen < sint (saturating_sub now DEFAULT_TTL_SECS)) t"
proof -
  let ?t = "filter (\<lambda>(k, first_seen). \<not> sint first_seen < sint (saturating_sub now DEFAULT_TTL_SECS)) t"
  have wf: "wf_map ?t" using assms(1) by (simp add: journaled_ok_def)
  have rows: "filter (\<lambda>((from, nonce), first_seen). length from = 32 \<and> length nonce = 16) ?t = ?t"
    by (rule filter_True) (use assms(1) in \<open>auto simp: journaled_ok_def\<close>)
  have "load_active True True now DEFAULT_TTL_SECS t =
      (Inr (map (\<lambda>((from, nonce), first_seen). (from, nonce, first_seen)) ?t), ?t)"
    unfolding load_active_def Let_def if_True rows by simp
  then have "start_replay True True now t =
      (set_journal [] (preload now (map (\<lambda>((from, nonce), first_seen). (from, nonce, first_seen)) ?t) cache_new), ?t)"
    unfolding start_replay_def by simp
  moreover have "preload now (map (\<lambda>((from, nonce), first_seen). (from, nonce, first_seen)) ?t) cache_new =
      cache_new\<lparr>entries := trim DEFAULT_MAX_ENTRIES (filter (\<lambda>(k, first_seen). alive DEFAULT_TTL_SECS now first_seen) ?t)\<rparr>"
    unfolding preload_def Let_def alive_def preload_rows [OF wf, of DEFAULT_TTL_SECS now, symmetric]
    by (simp add: cache_new_def cache_with_capacity_def DEFAULT_MAX_ENTRIES_def)
  ultimately show ?thesis using assms(2) by auto
qed

lemma trim_keeps_recent:
  assumes "wf_map es" "(k, t0) \<in> set es" "length (filter (\<lambda>e. t0 \<le> snd e) es) \<le> m"
  shows "(k, t0) \<in> set (trim m es)"
proof (rule ccontr)
  assume out: "(k, t0) \<notin> set (trim m es)"
  note keep = trim_keeps_newest [OF assms(1), of m]
  have d: "distinct (trim m es)" "distinct es"
    using trim_inv [OF assms(1), of m] assms(1) by (simp_all add: wf_map_def distinct_map)
  have "t0 \<le> snd e" if "e \<in> set (trim m es)" for e
    using keep assms(2) out that by force
  then have "insert (k, t0) (set (trim m es)) \<subseteq> set (filter (\<lambda>e. t0 \<le> snd e) es)"
    using keep assms(2) by auto
  from card_mono [OF finite_set this] have "Suc (length (trim m es)) \<le> length (filter (\<lambda>e. t0 \<le> snd e) es)"
    using out distinct_card [OF d(1)] distinct_card [OF distinct_filter [OF d(2), of "\<lambda>e. t0 \<le> snd e"]] by (simp only: card_insert_if finite_set if_False)
  then have "Suc (min m (length es)) \<le> m" using keep assms(3) by simp
  then have "length (trim m es) = length es" using keep by simp
  then have "card (set (trim m es)) = card (set es)" using d by (simp add: distinct_card)
  then have "set (trim m es) = set es" using keep by (intro card_subset_eq) simp_all
  then show False using out assms(2) by simp
qed

lemma sint_small:
  assumes "x < 2 ^ 63"
  shows "sint (x :: u64) = int (unat x)"
proof -
  have "uint x < 2 ^ 63" using assms by (simp add: word_less_def)
  then have "signed_take_bit 63 (uint x) = uint x" using uint_ge_0 [of x] by (intro signed_take_bit_int_eq_self) linarith+
  then show ?thesis by (simp add: sint_uint)
qed

lemma saturating_sub_le: "saturating_sub a b \<le> a"
  by (simp add: word_le_nat_alt unat_saturating_sub)

lemma restart_step:
  assumes "journaled_ok (c, t)" "now < 2 ^ 63" "start_replay True True now t = (c', t')"
  shows "journaled_ok (c', t') \<and> on_file t0 t' \<le> on_file t0 t \<and>
    (map_of (entries c) k = Some t0 \<and> alive DEFAULT_TTL_SECS now t0 \<and> on_file t0 t \<le> DEFAULT_MAX_ENTRIES \<longrightarrow>
      map_of (entries c') k = Some t0)"
proof -
  note ok = assms(1) [unfolded journaled_ok_def split]
  let ?es = "filter (\<lambda>(k, first_seen). alive DEFAULT_TTL_SECS now first_seen) t'"
  note s = start_loads [OF assms(1,3)]
  have wf: "wf_map t'" "wf_map ?es" using s ok by simp_all
  have es: "entries c' = trim DEFAULT_MAX_ENTRIES ?es" using s by (simp add: set_journal_def)
  note tr = trim_inv [OF wf(2), of DEFAULT_MAX_ENTRIES] and sub = trim_keeps_newest [OF wf(2), of DEFAULT_MAX_ENTRIES]
  have le: "map_of (entries c') \<subseteq>\<^sub>m map_of t'"
  proof -
    have "(a, y) \<in> set t'" if "map_of (entries c') a = Some y" for a y
      using that sub tr wf_map_in_set [of "entries c'" a y] by (auto simp: es)
    then show ?thesis using wf(1) by (auto simp: map_le_def dom_def wf_map_in_set)
  qed
  have "cache_inv c'" using s tr by (simp add: cache_inv_def set_journal_def cache_new_def cache_with_capacity_def DEFAULT_MAX_ENTRIES_def)
  moreover have "\<forall>((from, nonce), first_seen) \<in> set t'. length from = 32 \<and> length nonce = 16 \<and> first_seen < 2 ^ 63"
    using s ok by auto
  moreover have "ttl c' = DEFAULT_TTL_SECS \<and> max_entries c' = DEFAULT_MAX_ENTRIES"
    using s by (simp add: set_journal_def cache_new_def cache_with_capacity_def DEFAULT_MAX_ENTRIES_def)
  ultimately have "journaled_ok (c', t')" using wf(1) le by (simp add: journaled_ok_def)
  moreover have "on_file t0 t' \<le> on_file t0 t"
    using s filter_conj_length [of "\<lambda>(k, y). \<not> sint y < sint (saturating_sub now DEFAULT_TTL_SECS)" "\<lambda>e. t0 \<le> snd e" t]
    by (simp add: on_file_def conj_commute case_prod_unfold)
  moreover have "map_of (entries c') k = Some t0"
    if k: "map_of (entries c) k = Some t0" "alive DEFAULT_TTL_SECS now t0" "on_file t0 t \<le> DEFAULT_MAX_ENTRIES"
  proof -
    have "map_of t k = Some t0" 
    proof -
      have "map_of (entries c) \<subseteq>\<^sub>m map_of t" "k \<in> dom (map_of (entries c))" using ok k(1) by blast+
      then have "map_of (entries c) k = map_of t k" unfolding map_le_def by blast
      then show ?thesis using k(1) by simp
    qed
    then have t: "(k, t0) \<in> set t" using ok by (simp add: wf_map_in_set)
    then have "t0 < 2 ^ 63" using ok by (cases k) auto
    moreover have "saturating_sub now DEFAULT_TTL_SECS < 2 ^ 63"
      using assms(2) by (meson le_less_trans saturating_sub_le)
    moreover have "\<not> t0 < saturating_sub now DEFAULT_TTL_SECS"
      using k(2) unfolding alive_def word_less_nat_alt unat_saturating_sub by linarith
    ultimately have "\<not> sint t0 < sint (saturating_sub now DEFAULT_TTL_SECS)"
      by (simp only: sint_small word_less_nat_alt of_nat_less_iff) simp
    then have "(k, t0) \<in> set t'" using s t by simp
    then have "(k, t0) \<in> set ?es" using k(2) by simp
    moreover have "length (filter (\<lambda>e. t0 \<le> snd e) ?es) \<le> DEFAULT_MAX_ENTRIES"
      using k(3) \<open>on_file t0 t' \<le> on_file t0 t\<close>
        filter_conj_length [of "\<lambda>(k, y). alive DEFAULT_TTL_SECS now y" "\<lambda>e. t0 \<le> snd e" t']
      by (simp add: on_file_def conj_commute case_prod_unfold)
    ultimately have "(k, t0) \<in> set (entries c')" unfolding es by (intro trim_keeps_recent [OF wf(2)])
    then show ?thesis using tr es by (simp add: wf_map_in_set)
  qed
  ultimately show ?thesis by blast
qed

lemma journal_steps:
  assumes "journaled_ok s" "\<forall>op \<in> set ops. journal_op_ok op \<and> alive DEFAULT_TTL_SECS (journal_op_time op) t0"
    and "on_file t0 (snd s) + length ops \<le> DEFAULT_MAX_ENTRIES" "map_of (entries (fst s)) k = Some t0"
  shows "journaled_ok (fold journal_step ops s) \<and> map_of (entries (fst (fold journal_step ops s))) k = Some t0 \<and>
    on_file t0 (snd (fold journal_step ops s)) \<le> on_file t0 (snd s) + length ops"
  using assms
proof (induction ops arbitrary: s)
  case (Cons op ops)
  obtain c t where s: "s = (c, t)" by fastforce
  obtain c' t' where s': "journal_step op s = (c', t')" by fastforce
  note ok = Cons.prems(1) [unfolded s]
  have "journaled_ok (c', t') \<and> on_file t0 t' \<le> Suc (on_file t0 t) \<and> map_of (entries c') k = Some t0"
  proof (cases op)
    case (Seen now f n)
    obtain seen where j: "journaled_observe (\<lambda>_. True) now f n (c, t) = (seen, c', t')"
      using s' s Seen by (metis journal_step.simps(1) prod.collapse)
    have "journal_op_ok (Seen now f n)" using Cons.prems(2) Seen by simp
    note st = journal_observe_step [OF ok this j]
    then obtain j where o: "observe now f n (set_journal [] c) = (seen, j)" "c' = set_journal [] j" by blast
    have "recent t0 (set_journal [] c) < max_entries (set_journal [] c)"
      using recent_on_file [OF ok, of t0] ok Cons.prems(3) by (simp add: s journaled_ok_def recent_def set_journal_def)
    moreover have "cache_inv (set_journal [] c)" "map_of (entries (set_journal [] c)) k = Some t0"
        "alive (ttl (set_journal [] c)) now t0"
      using ok Cons.prems(2,4) Seen s by (simp_all add: journaled_ok_def cache_inv_def set_journal_def)
    ultimately have "map_of (entries j) k = Some t0" using o(1) by (metis observe_keeps(1))
    then show ?thesis using st o(2) by (simp add: set_journal_def)
  next
    case (Restart now)
    then have "start_replay True True now t = (c', t')" using s s' by simp
    moreover have "now < 2 ^ 63" using Cons.prems(2) Restart by simp
    ultimately show ?thesis using restart_step [OF ok, of now c' t' t0 k] Cons.prems(2-4) Restart s by simp
  qed
  then show ?case using Cons.IH [of "(c', t')"] Cons.prems(2,3) s s' by auto
qed simp

lemma journaled_start:
  assumes "now < 2 ^ 63"
  shows "journaled_ok (start_replay True True now [])"
proof -
  have "journaled_ok (set_journal [] cache_new, [])"
    by (simp add: journaled_ok_def set_journal_def cache_new_def cache_with_capacity_def cache_inv_def DEFAULT_MAX_ENTRIES_def)
  from restart_step [OF this assms] show ?thesis by (metis prod.collapse)
qed



text \<open>A further side of the node starts with nothing, so an envelope it saw before a restart is
  taken again after it.\<close>

lemma secondary_side_forgets: "\<not> fst (observe now from nonce secondary_replay)"
  by (simp add: secondary_replay_def observe_def sweep_def Let_def cache_new_def cache_with_capacity_def journal_call_def)

end
