(* ===== verification/InboxStore.thy ===== *)
theory InboxStore
  imports Tables Framing
begin

text \<open>
  The inbox of direct messages, \<open>sidevers-net/src/inbox_store.rs\<close>: one row per recipient,
  sender and nonce, of which the first one stays, listed by recipient with the newest first.
  A statement of SQL succeeds with its documented effect or fails, as an argument says.
\<close>

section \<open>Operations\<close>

record inbox_entry =
  ib_to :: "byte list"
  ib_from :: "byte list"
  ib_nonce :: "byte list"
  ib_wire_envelope :: "byte list"
  ib_plaintext :: "byte list"
  ib_received_at :: u64

type_synonym inbox_key = "byte list \<times> byte list \<times> byte list"
type_synonym inbox_table = "(inbox_key \<times> inbox_entry) list"

definition inbox_key_of :: "inbox_entry \<Rightarrow> inbox_key" where
  "inbox_key_of e = (ib_to e, ib_from e, ib_nonce e)"

definition inbox_insert :: "bool \<Rightarrow> inbox_entry \<Rightarrow> inbox_table \<Rightarrow> inbox_table" where
  "inbox_insert sql e t = (if sql then insert_or_ignore (inbox_key_of e) e t else t)"

text \<open>Times are stored as signed integers and sorted as such.\<close>

definition inbox_list_for :: "bool \<Rightarrow> byte list \<Rightarrow> inbox_table \<Rightarrow> inbox_entry list net_result" where
  "inbox_list_for sql recipient t =
     (if \<not> sql then Inl (NetSqlite ''list_for'')
      else Inr (filter (\<lambda>e. length (ib_to e) = 32 \<and> length (ib_from e) = 32)
             (sort_key (\<lambda>e. - sint (ib_received_at e)) (map snd (filter (\<lambda>(k, e). fst k = recipient) t)))))"

definition inbox_len :: "bool \<Rightarrow> inbox_table \<Rightarrow> nat" where
  "inbox_len sql t = (if sql then length t else 0)"

definition inbox_clear_for :: "bool \<Rightarrow> byte list \<Rightarrow> inbox_table \<Rightarrow> nat net_result \<times> inbox_table" where
  "inbox_clear_for sql recipient t =
     (if \<not> sql then (Inl (NetSqlite ''clear_for''), t)
      else (Inr (length (filter (\<lambda>(k, e). fst k = recipient) t)), filter (\<lambda>(k, e). fst k \<noteq> recipient) t))"

section \<open>What a listing holds\<close>

text \<open>The entries received, without those whose recipient, sender and nonce came before.\<close>

fun first_receipts :: "inbox_entry list \<Rightarrow> inbox_entry list" where
  "first_receipts [] = []"
| "first_receipts (e # es) = e # first_receipts (filter (\<lambda>e'. inbox_key_of e' \<noteq> inbox_key_of e) es)"

definition inbox_run :: "inbox_entry list \<Rightarrow> inbox_table \<Rightarrow> inbox_table" where
  "inbox_run es t = fold (inbox_insert True) es t"

lemma inbox_run_table:
  "inbox_run es t = t @ map (\<lambda>e. (inbox_key_of e, e)) (first_receipts (filter (\<lambda>e. inbox_key_of e \<notin> fst ` set t) es))"
proof (induction es arbitrary: t)
  case (Cons e es)
  have new: "AList.update k v t = t @ [(k, v)]" if "k \<notin> fst ` set t" for k v and t :: inbox_table
    using that by (induction t) auto
  show ?case
  proof (cases "inbox_key_of e \<in> fst ` set t")
    case True
    then have "\<not> map_of t (inbox_key_of e) = None" unfolding map_of_eq_None_iff by simp
    then have "inbox_insert True e t = t" unfolding inbox_insert_def insert_or_ignore_def by (simp only: if_True if_False)
    then show ?thesis using Cons [of t] True by (simp add: inbox_run_def)
  next
    case False
    then have "inbox_insert True e t = t @ [(inbox_key_of e, e)]"
      by (simp add: inbox_insert_def insert_or_ignore_def new map_of_eq_None_iff)
    then show ?thesis using Cons [of "t @ [(inbox_key_of e, e)]"] False
      by (simp add: inbox_run_def filter_filter conj_commute disj_commute)
  qed
qed (simp add: inbox_run_def)

lemma first_receipts_filter: "first_receipts (filter (\<lambda>e. P (inbox_key_of e)) es) = filter (\<lambda>e. P (inbox_key_of e)) (first_receipts es)"
proof (induction es rule: first_receipts.induct)
  case (2 e es)
  have c: "filter (\<lambda>e'. inbox_key_of e' \<noteq> inbox_key_of e) (filter (\<lambda>e. P (inbox_key_of e)) es) =
      filter (\<lambda>e. P (inbox_key_of e)) (filter (\<lambda>e'. inbox_key_of e' \<noteq> inbox_key_of e) es)"
    by (simp add: filter_filter conj_commute)
  show ?case
  proof (cases "P (inbox_key_of e)")
    case True
    then show ?thesis using 2 by (simp only: first_receipts.simps filter.simps if_True c)
  next
    case False
    have "filter (\<lambda>e. P (inbox_key_of e)) es = filter (\<lambda>e. P (inbox_key_of e)) (filter (\<lambda>e'. inbox_key_of e' \<noteq> inbox_key_of e) es)"
      using False by (auto simp: filter_filter intro!: filter_cong)
    then show ?thesis using 2 False by simp
  qed
qed simp

text \<open>Whatever is received, and however often an envelope is received again, the inbox lists for a
  recipient each envelope addressed to it once, as it was first received, the latest first.\<close>

lemma inbox_lists_first_receipts:
  assumes "\<forall>e \<in> set es. length (ib_to e) = 32 \<and> length (ib_from e) = 32"
  shows "inbox_list_for True recipient (inbox_run es []) =
    Inr (sort_key (\<lambda>e. - sint (ib_received_at e)) (first_receipts (filter (\<lambda>e. ib_to e = recipient) es)))"
proof -
  have sub: "set (first_receipts es) \<subseteq> set es" by (induction es rule: first_receipts.induct) auto
  have rows: "map snd (filter (\<lambda>(k, e). fst k = recipient) (map (\<lambda>e. (inbox_key_of e, e)) es)) = filter (\<lambda>e. ib_to e = recipient) es" for es
    by (induction es) (auto simp: inbox_key_of_def)
  have "filter (\<lambda>e. ib_to e = recipient) (first_receipts es) = first_receipts (filter (\<lambda>e. ib_to e = recipient) es)"
    using first_receipts_filter [of "\<lambda>k. fst k = recipient" es] by (simp add: inbox_key_of_def)
  moreover have "filter (\<lambda>e. length (ib_to e) = 32 \<and> length (ib_from e) = 32)
      (sort_key f (filter (\<lambda>e. ib_to e = recipient) (first_receipts es))) = sort_key f (filter (\<lambda>e. ib_to e = recipient) (first_receipts es))" for f :: "inbox_entry \<Rightarrow> int"
    by (rule filter_True) (use assms sub in auto)
  ultimately show ?thesis by (simp add: inbox_list_for_def inbox_run_table rows)
qed

end
