(* ===== verification/Connections.thy ===== *)
theory Connections
  imports Complex_Main Peers Handshake
begin

text \<open>
  How connections are made and accepted: the limit on handshakes per address
  (\<open>sidevers-net/src/handshake_limit.rs\<close>), the pool of open connections
  (\<open>connection_pool.rs\<close>), the retries of \<open>hole_punch.rs\<close>, and from \<open>node.rs\<close> the dials of a
  node and \<open>handle_connection\<close>. Connections are numbers, their state is an argument, as is what
  the transport returns. Time and tokens of the limit, floating-point in the code, are exact
  rationals.
\<close>

section \<open>The limit on handshakes\<close>

type_synonym ip = "byte list"

record bucket =
  bk_tokens :: rat
  bk_last_refill_at :: rat

record handshake_limiter =
  hl_inner :: "(ip \<times> bucket) list"
  hl_burst :: rat
  hl_refill_per_sec :: rat

definition HANDSHAKE_BURST :: rat where "HANDSHAKE_BURST = 8"
definition HANDSHAKE_REFILL_PER_SEC :: rat where "HANDSHAKE_REFILL_PER_SEC = 2"
definition HANDSHAKE_IDLE_FORGET_SECS :: rat where "HANDSHAKE_IDLE_FORGET_SECS = 3600"

definition limiter_new :: "rat \<Rightarrow> rat \<Rightarrow> handshake_limiter" where
  "limiter_new burst refill = \<lparr>hl_inner = [], hl_burst = max burst 1, hl_refill_per_sec = max refill (1 / 100)\<rparr>"

definition limiter_default :: handshake_limiter where
  "limiter_default = limiter_new HANDSHAKE_BURST HANDSHAKE_REFILL_PER_SEC"

definition try_acquire :: "rat \<Rightarrow> ip \<Rightarrow> handshake_limiter \<Rightarrow> bool \<times> handshake_limiter" where
  "try_acquire now ip l =
     (let tab = filter (\<lambda>(k, b). now - bk_last_refill_at b < HANDSHAKE_IDLE_FORGET_SECS) (hl_inner l);
          b = (case map_of tab ip of Some b \<Rightarrow> b | None \<Rightarrow> \<lparr>bk_tokens = hl_burst l, bk_last_refill_at = now\<rparr>);
          elapsed = max (now - bk_last_refill_at b) 0;
          tokens = min (bk_tokens b + elapsed * hl_refill_per_sec l) (hl_burst l);
          ok = (1 \<le> tokens)
      in (ok, l\<lparr>hl_inner := AList.update ip \<lparr>bk_tokens = (if ok then tokens - 1 else tokens), bk_last_refill_at = now\<rparr> tab\<rparr>))"

definition limiter_tokens :: "ip \<Rightarrow> handshake_limiter \<Rightarrow> rat option" where
  "limiter_tokens ip l = map_option bk_tokens (map_of (hl_inner l) ip)"

definition limiter_tracked :: "handshake_limiter \<Rightarrow> nat" where
  "limiter_tracked l = length (hl_inner l)"

section \<open>The connection pool\<close>

type_synonym connection_pool = "((string \<times> byte list) \<times> nat) list"

definition pool_get :: "(nat \<Rightarrow> bool) \<Rightarrow> string \<Rightarrow> byte list \<Rightarrow> connection_pool \<Rightarrow> nat option \<times> connection_pool" where
  "pool_get dead peer_addr source_side tab =
     (let tab = filter (\<lambda>(k, c). \<not> dead c) tab in (map_of tab (peer_addr, source_side), tab))"

definition pool_insert :: "string \<Rightarrow> byte list \<Rightarrow> nat \<Rightarrow> connection_pool \<Rightarrow> connection_pool" where
  "pool_insert peer_addr source_side conn tab = AList.update (peer_addr, source_side) conn tab"

definition pool_invalidate :: "string \<Rightarrow> byte list \<Rightarrow> connection_pool \<Rightarrow> connection_pool" where
  "pool_invalidate peer_addr source_side tab = AList.delete (peer_addr, source_side) tab"

definition pool_len :: "(nat \<Rightarrow> bool) \<Rightarrow> connection_pool \<Rightarrow> nat \<times> connection_pool" where
  "pool_len dead tab = (let tab = filter (\<lambda>(k, c). \<not> dead c) tab in (length tab, tab))"

definition pool_clear :: "connection_pool \<Rightarrow> connection_pool" where
  "pool_clear tab = []"

section \<open>Dialling\<close>

text \<open>What the dials of a node change: the pool and the peer table. The outcome of connecting and
  of the initiator's handshake are arguments.\<close>

record dialer =
  dl_side :: "byte list"
  dl_extras :: "(byte list \<times> string) list"
  dl_listen_addr :: string
  dl_pool :: connection_pool
  dl_peers :: peer_table

definition note_dialled :: "u64 \<Rightarrow> string \<Rightarrow> intent \<Rightarrow> session \<Rightarrow> dialer \<Rightarrow> dialer" where
  "note_dialled now peer_addr intent s n = n\<lparr>dl_peers := peer_insert
     \<lparr>pi_address = ses_peer_side s, pi_intents = [as_u8 intent], pi_endpoints = [peer_addr], pi_last_seen = now\<rparr> (dl_peers n)\<rparr>"

definition dial :: "u64 \<Rightarrow> string \<Rightarrow> intent \<Rightarrow> nat net_result \<Rightarrow> (nat \<Rightarrow> session net_result) \<Rightarrow> dialer \<Rightarrow>
    session net_result \<times> dialer" where
  "dial now peer_addr intent connect handshake n = (case connect of
     Inl e \<Rightarrow> (Inl e, n)
   | Inr conn \<Rightarrow> (case handshake conn of
       Inl e \<Rightarrow> (Inl e, n)
     | Inr s \<Rightarrow> (Inr s, note_dialled now peer_addr intent s
         (n\<lparr>dl_pool := pool_insert peer_addr (dl_side n) conn (dl_pool n)\<rparr>))))"

definition dial_pooled :: "(nat \<Rightarrow> bool) \<Rightarrow> u64 \<Rightarrow> string \<Rightarrow> intent \<Rightarrow> nat net_result \<Rightarrow> (nat \<Rightarrow> session net_result) \<Rightarrow> dialer \<Rightarrow>
    session net_result \<times> dialer" where
  "dial_pooled dead now peer_addr intent connect handshake n =
     (let (cached, tab) = pool_get dead peer_addr (dl_side n) (dl_pool n); n = n\<lparr>dl_pool := tab\<rparr> in
      case cached of
        None \<Rightarrow> dial now peer_addr intent connect handshake n
      | Some conn \<Rightarrow> (case handshake conn of
          Inr s \<Rightarrow> (Inr s, note_dialled now peer_addr intent s n)
        | Inl _ \<Rightarrow> dial now peer_addr intent connect handshake
            (n\<lparr>dl_pool := pool_invalidate peer_addr (dl_side n) (dl_pool n)\<rparr>)))"

text \<open>A dial as one of the node's further sides uses that side's endpoint and not the pool.\<close>

definition dial_from :: "u64 \<Rightarrow> byte list \<Rightarrow> string \<Rightarrow> intent \<Rightarrow> nat net_result \<Rightarrow> (nat \<Rightarrow> session net_result) \<Rightarrow> dialer \<Rightarrow>
    session net_result \<times> dialer" where
  "dial_from now side_addr peer_addr intent connect handshake n =
     (if side_addr = dl_side n then dial now peer_addr intent connect handshake n
      else if side_addr \<notin> fst ` set (dl_extras n) then (Inl (NetInvariant ''dial_from: side not hosted''), n)
      else (case connect of
         Inl e \<Rightarrow> (Inl e, n)
       | Inr conn \<Rightarrow> (case handshake conn of
           Inl e \<Rightarrow> (Inl e, n)
         | Inr s \<Rightarrow> (Inr s, note_dialled now peer_addr intent s n))))"

definition dial_anonymous :: "nat net_result \<Rightarrow> (nat \<Rightarrow> session net_result) \<Rightarrow> dialer \<Rightarrow> session net_result \<times> dialer" where
  "dial_anonymous connect handshake n = (and_then connect handshake, n)"

definition HOLE_PUNCH_ATTEMPTS :: nat where "HOLE_PUNCH_ATTEMPTS = 5"

text \<open>Each attempt is a session, an error or, as \<open>None\<close>, a timeout; the state of the node goes from one to the next.\<close>

fun hole_punch_loop :: "nat \<Rightarrow> (nat \<Rightarrow> 'n \<Rightarrow> session net_result option \<times> 'n) \<Rightarrow> nat \<Rightarrow> 'n \<Rightarrow> session net_result \<times> 'n" where
  "hole_punch_loop 0 dial_once i n = (Inl (NetInvariant ''hole_punch_dial: peer unreachable after all attempts''), n)"
| "hole_punch_loop (Suc k) dial_once i n = (case dial_once i n of
     (Some (Inr s), n) \<Rightarrow> (Inr s, n)
   | (_, n) \<Rightarrow> hole_punch_loop k dial_once (Suc i) n)"

definition hole_punch_with :: "nat \<Rightarrow> (nat \<Rightarrow> 'n \<Rightarrow> session net_result option \<times> 'n) \<Rightarrow> 'n \<Rightarrow> session net_result \<times> 'n" where
  "hole_punch_with attempts dial_once n = hole_punch_loop (max attempts 1) dial_once 0 n"

section \<open>Hosted sides\<close>

definition node_sides :: "dialer \<Rightarrow> byte list list" where
  "node_sides n = dl_side n # map fst (dl_extras n)"

definition side_by_address :: "byte list \<Rightarrow> dialer \<Rightarrow> byte list option" where
  "side_by_address address n = (if dl_side n = address then Some (dl_side n)
     else map_option (\<lambda>_. address) (map_of (dl_extras n) address))"

definition side_listen_addr :: "byte list \<Rightarrow> dialer \<Rightarrow> string option" where
  "side_listen_addr address n = (if dl_side n = address then Some (dl_listen_addr n) else map_of (dl_extras n) address)"

section \<open>Accepting\<close>

record accepter =
  ac_side :: side_key
  ac_limiter :: handshake_limiter
  ac_throttled :: u64
  ac_peers :: peer_table

datatype service = ServeDirect | ServeStorage | ServeGossip | ServeVerse | NotImplemented

fun service_of :: "intent \<Rightarrow> service" where
  "service_of IntentDirect = ServeDirect"
| "service_of IntentStorage = ServeStorage"
| "service_of IntentGossip = ServeGossip"
| "service_of IntentVerse = ServeVerse"
| "service_of IntentPublicLayer = NotImplemented"

text \<open>The first stream, if the connection gives one; what the responder sends; the service that
  gets the session.\<close>

definition handle_connection :: "crypto \<Rightarrow> rat \<Rightarrow> u64 option \<Rightarrow> draws \<Rightarrow> ip \<Rightarrow> string \<Rightarrow> byte list net_result \<Rightarrow> accepter \<Rightarrow>
    byte list \<times> (session \<times> service) option net_result \<times> accepter" where
  "handle_connection C now_secs clock d remote_ip remote stream a =
     (let (ok, l) = try_acquire now_secs remote_ip (ac_limiter a); a = a\<lparr>ac_limiter := l\<rparr> in
      if \<not> ok then ([], Inr None, a\<lparr>ac_throttled := ac_throttled a + 1\<rparr>)
      else (case stream of
         Inl e \<Rightarrow> ([], Inl e, a)
       | Inr bytes \<Rightarrow> (case run_responder C (ac_side a) d bytes of
           (out, Inl e) \<Rightarrow> (out, Inl e, a)
         | (out, Inr s) \<Rightarrow> (out, Inr (Some (s, service_of (ses_intent s))),
             a\<lparr>ac_peers := peer_insert \<lparr>pi_address = ses_peer_side s, pi_intents = [as_u8 (ses_intent s)],
                pi_endpoints = [remote], pi_last_seen = unix_now clock\<rparr> (ac_peers a)\<rparr>))))"

section \<open>The rate of handshakes is bounded\<close>

text \<open>The tokens an address could have at a time, were it to ask then.\<close>

definition available :: "rat \<Rightarrow> ip \<Rightarrow> handshake_limiter \<Rightarrow> rat" where
  "available now ip l = (case map_of (hl_inner l) ip of None \<Rightarrow> hl_burst l
     | Some b \<Rightarrow> min (bk_tokens b + (now - bk_last_refill_at b) * hl_refill_per_sec l) (hl_burst l))"

text \<open>No bucket is from the future, forgetting an idle one gives nothing away.\<close>

definition limiter_ok :: "rat \<Rightarrow> handshake_limiter \<Rightarrow> bool" where
  "limiter_ok now l \<longleftrightarrow> wf_map (hl_inner l) \<and> 0 < hl_refill_per_sec l \<and> 1 \<le> hl_burst l \<and>
     hl_burst l \<le> HANDSHAKE_IDLE_FORGET_SECS * hl_refill_per_sec l \<and>
     (\<forall>(k, b) \<in> set (hl_inner l). 0 \<le> bk_tokens b \<and> bk_tokens b \<le> hl_burst l \<and> bk_last_refill_at b \<le> now)"

lemma available_later:
  assumes "limiter_ok now l" "now \<le> now'"
  shows "available now' ip l \<le> available now ip l + (now' - now) * hl_refill_per_sec l"
proof -
  have pos: "0 \<le> (now' - now) * hl_refill_per_sec l" using assms by (simp add: limiter_ok_def)
  show ?thesis
  proof (cases "map_of (hl_inner l) ip")
    case (Some b)
    have "(now' - bk_last_refill_at b) * hl_refill_per_sec l =
        (now - bk_last_refill_at b) * hl_refill_per_sec l + (now' - now) * hl_refill_per_sec l"
      by (simp add: algebra_simps)
    then show ?thesis using pos by (simp add: available_def Some min_def)
  qed (use pos in \<open>simp add: available_def\<close>)
qed

lemma try_acquire_step:
  assumes "limiter_ok now l" "try_acquire now ip l = (ok, l')"
  shows "limiter_ok now l' \<and> hl_refill_per_sec l' = hl_refill_per_sec l \<and> hl_burst l' = hl_burst l \<and>
    available now ip l' = available now ip l - (if ok then 1 else 0) \<and> 0 \<le> available now ip l' \<and>
    (q \<noteq> ip \<longrightarrow> available now q l' = available now q l)"
proof -
  note inv = assms(1) [unfolded limiter_ok_def]
  let ?tab = "filter (\<lambda>(k, b). now - bk_last_refill_at b < HANDSHAKE_IDLE_FORGET_SECS) (hl_inner l)"
  have full: "hl_burst l \<le> bk_tokens b + (now - bk_last_refill_at b) * hl_refill_per_sec l"
    if "map_of (hl_inner l) k = Some b" "\<not> now - bk_last_refill_at b < HANDSHAKE_IDLE_FORGET_SECS" for k b
  proof -
    have "(k, b) \<in> set (hl_inner l)" using that(1) by (rule map_of_SomeD)
    then have "0 \<le> bk_tokens b" using inv by auto
    moreover have "HANDSHAKE_IDLE_FORGET_SECS * hl_refill_per_sec l \<le> (now - bk_last_refill_at b) * hl_refill_per_sec l"
      using that(2) inv by (intro mult_right_mono) simp_all
    ultimately show ?thesis using inv by linarith
  qed
  have tab: "map_of ?tab k = (case map_of (hl_inner l) k of None \<Rightarrow> None
      | Some b \<Rightarrow> if now - bk_last_refill_at b < HANDSHAKE_IDLE_FORGET_SECS then Some b else None)" for k
    using inv by (auto simp: map_of_filter_Some map_of_filter_None split: option.splits)
  have kept: "available now k (l\<lparr>hl_inner := ?tab\<rparr>) = available now k l" for k
    using full [of k] by (auto simp: available_def tab min_def split: option.splits)
  define b where "b = (case map_of ?tab ip of Some b \<Rightarrow> b | None \<Rightarrow> \<lparr>bk_tokens = hl_burst l, bk_last_refill_at = now\<rparr>)"
  define tokens where "tokens = min (bk_tokens b + max (now - bk_last_refill_at b) 0 * hl_refill_per_sec l) (hl_burst l)"
  have l': "ok = (1 \<le> tokens)"
      "l' = l\<lparr>hl_inner := AList.update ip \<lparr>bk_tokens = (if ok then tokens - 1 else tokens), bk_last_refill_at = now\<rparr> ?tab\<rparr>"
    using assms(2) by (auto simp: try_acquire_def Let_def b_def tokens_def)
  have past: "bk_last_refill_at b \<le> now \<and> 0 \<le> bk_tokens b \<and> bk_tokens b \<le> hl_burst l"
  proof (cases "map_of ?tab ip")
    case (Some b')
    then have "(ip, b') \<in> set (hl_inner l)" using map_of_SomeD by fastforce
    then show ?thesis using Some inv by (auto simp: b_def)
  qed (use inv in \<open>simp add: b_def\<close>)
  have t: "tokens = available now ip l"
  proof -
    have m: "max (now - bk_last_refill_at b) 0 = now - bk_last_refill_at b" using past by simp
    show ?thesis unfolding kept [symmetric] tokens_def m
      by (simp add: b_def available_def split: option.splits)
  qed
  have "0 \<le> (now - bk_last_refill_at b) * hl_refill_per_sec l" using past inv by (intro mult_nonneg_nonneg) simp_all
  then have pos: "0 \<le> tokens" using past inv by (simp add: tokens_def)
  have le: "tokens \<le> hl_burst l" by (simp add: tokens_def)
  have "set (AList.update ip v xs) \<subseteq> insert (ip, v) (set xs)" for v and xs :: "(ip \<times> bucket) list"
    by (induction xs) auto
  then have "limiter_ok now l'"
    using inv pos le l' unfolding limiter_ok_def by (fastforce split: if_splits)
  moreover have "available now ip l' = available now ip l - (if ok then 1 else 0)"
    using t le l' by (simp add: available_def update_conv')
  moreover have "available now q l' = available now q l" if "q \<noteq> ip"
  proof -
    have "available now q l' = available now q (l\<lparr>hl_inner := ?tab\<rparr>)"
      using that by (simp add: available_def l'(2) update_conv' split: option.split)
    then show ?thesis using kept [of q] by simp
  qed
  ultimately show ?thesis using l' pos t by simp
qed

text \<open>A run of attempts from all addresses, and how many of one address were let through.\<close>

fun acquire_all :: "(rat \<times> ip) list \<Rightarrow> handshake_limiter \<Rightarrow> bool list \<times> handshake_limiter" where
  "acquire_all [] l = ([], l)"
| "acquire_all ((now, ip) # ops) l =
     (let (ok, l) = try_acquire now ip l; (oks, l) = acquire_all ops l in (ok # oks, l))"

definition let_through :: "ip \<Rightarrow> (rat \<times> ip) list \<Rightarrow> bool list \<Rightarrow> nat" where
  "let_through ip ops oks = length (filter (\<lambda>((now, k), ok). ok \<and> k = ip) (zip ops oks))"

lemma acquire_all_bound:
  assumes "limiter_ok now l" "sorted (now # map fst ops)" "\<forall>op \<in> set ops. fst op \<le> until" "now \<le> until" "acquire_all ops l = (oks, l')"
  shows "of_nat (let_through ip ops oks) \<le> available now ip l + (until - now) * hl_refill_per_sec l"
  using assms
proof (induction ops arbitrary: now l oks)
  case Nil
  have "0 \<le> available now ip l"
    using try_acquire_step [OF Nil(1), of ip "fst (try_acquire now ip l)" "snd (try_acquire now ip l)" ip] by (simp split: if_splits)
  moreover have "0 \<le> (until - now) * hl_refill_per_sec l" using Nil by (simp add: limiter_ok_def)
  ultimately show ?case using Nil by (simp add: let_through_def)
next
  case (Cons op ops)
  obtain t k where op: "op = (t, k)" by fastforce
  obtain ok l1 where a: "try_acquire t k l = (ok, l1)" by fastforce
  obtain oks1 where r: "acquire_all ops l1 = (oks1, l')" "oks = ok # oks1"
    using Cons.prems(5) op a by (auto simp: Let_def split: prod.splits)
  have le: "now \<le> t" "t \<le> until" using Cons.prems(2,3) op by auto
  have ok: "limiter_ok t l" using Cons.prems(1) le(1) by (fastforce simp: limiter_ok_def)
  note st = try_acquire_step [OF ok a, of ip]
  have "of_nat (let_through ip ops oks1) \<le> available t ip l1 + (until - t) * hl_refill_per_sec l1"
    using Cons.IH [of t l1 oks1] st Cons.prems(2,3) op le r(1) by auto
  moreover have "of_nat (let_through ip (op # ops) oks) =
      of_nat (let_through ip ops oks1) + (if ok \<and> k = ip then 1 else (0 :: rat))"
    using op r(2) by (auto simp: let_through_def)
  moreover have "available t ip l1 + (if ok \<and> k = ip then 1 else 0) = available t ip l" using st by (cases "k = ip") auto
  moreover have "available t ip l \<le> available now ip l + (t - now) * hl_refill_per_sec l" by (rule available_later [OF Cons.prems(1) le(1)])
  moreover have "(until - t) * hl_refill_per_sec l + (t - now) * hl_refill_per_sec l = (until - now) * hl_refill_per_sec l"
    by (simp add: algebra_simps)
  ultimately show ?case using st by simp
qed

lemma limiter_ok_default: "limiter_ok now limiter_default"
  by (simp add: limiter_ok_def limiter_default_def limiter_new_def HANDSHAKE_BURST_def HANDSHAKE_REFILL_PER_SEC_def
      HANDSHAKE_IDLE_FORGET_SECS_def)



section \<open>Pooled connections\<close>

datatype dial_kind = Plain | Pooled | From "byte list" | Anonymous

record dial_call =
  dc_kind :: dial_kind
  dc_closed :: "nat \<Rightarrow> bool"
  dc_now :: u64
  dc_addr :: string
  dc_intent :: intent
  dc_connect :: "nat net_result"
  dc_handshake :: "nat \<Rightarrow> session net_result"

definition dial_step :: "dial_call \<Rightarrow> dialer \<Rightarrow> session net_result \<times> dialer" where
  "dial_step c n = (case dc_kind c of
     Plain \<Rightarrow> dial (dc_now c) (dc_addr c) (dc_intent c) (dc_connect c) (dc_handshake c) n
   | Pooled \<Rightarrow> dial_pooled (dc_closed c) (dc_now c) (dc_addr c) (dc_intent c) (dc_connect c) (dc_handshake c) n
   | From side \<Rightarrow> dial_from (dc_now c) side (dc_addr c) (dc_intent c) (dc_connect c) (dc_handshake c) n
   | Anonymous \<Rightarrow> dial_anonymous (dc_connect c) (dc_handshake c) n)"

definition dials :: "dial_call list \<Rightarrow> dialer \<Rightarrow> dialer" where
  "dials cs n = fold (\<lambda>c n. snd (dial_step c n)) cs n"

text \<open>The dials that open a connection as the first side of the node, in the open.\<close>

definition own_dial :: "dialer \<Rightarrow> dial_call \<Rightarrow> string \<Rightarrow> nat \<Rightarrow> bool" where
  "own_dial n c peer_addr conn \<longleftrightarrow> dc_kind c \<in> {Plain, Pooled, From (dl_side n)} \<and> dc_addr c = peer_addr \<and> dc_connect c = Inr conn \<and>
     (\<exists>s. dc_handshake c conn = Inr s)"

lemma in_update: "e \<in> set (AList.update k v xs) \<Longrightarrow> e = (k, v) \<or> e \<in> set xs"
  by (induction xs) (auto split: if_splits)

lemma dial_pool:
  "snd (dial now peer_addr intent connect handshake n) = n' \<Longrightarrow> dl_side n' = dl_side n \<and>
    (\<forall>e \<in> set (dl_pool n'). e \<in> set (dl_pool n) \<or>
      (\<exists>conn s. e = ((peer_addr, dl_side n), conn) \<and> connect = Inr conn \<and> handshake conn = Inr s))"
  by (auto simp: dial_def note_dialled_def pool_insert_def split: sum.splits dest!: in_update)

lemma dial_step_pool:
  assumes "snd (dial_step c n) = n'"
  shows "dl_side n' = dl_side n \<and> (\<forall>e \<in> set (dl_pool n'). e \<in> set (dl_pool n) \<or>
    (\<exists>conn. e = ((dc_addr c, dl_side n), conn) \<and> own_dial n c (dc_addr c) conn))"
proof -
  let ?pool = "filter (\<lambda>(k, conn). \<not> dc_closed c conn) (dl_pool n)"
  let ?inv = "AList.delete (dc_addr c, dl_side n) ?pool"
  have sub: "set ?inv \<subseteq> set (dl_pool n)" by (auto simp: set_delete)
  note d = dial_pool [of "dc_now c" "dc_addr c" "dc_intent c" "dc_connect c" "dc_handshake c", OF refl]
  show ?thesis
  proof (cases "dc_kind c")
    case Plain
    then show ?thesis using assms d [of n] by (auto simp: dial_step_def own_dial_def)
  next
    case Pooled
    have get: "dial_step c n = (case map_of ?pool (dc_addr c, dl_side n) of
        None \<Rightarrow> dial (dc_now c) (dc_addr c) (dc_intent c) (dc_connect c) (dc_handshake c) (n\<lparr>dl_pool := ?pool\<rparr>)
      | Some conn \<Rightarrow> (case dc_handshake c conn of
          Inr s \<Rightarrow> (Inr s, note_dialled (dc_now c) (dc_addr c) (dc_intent c) s (n\<lparr>dl_pool := ?pool\<rparr>))
        | Inl _ \<Rightarrow> dial (dc_now c) (dc_addr c) (dc_intent c) (dc_connect c) (dc_handshake c) (n\<lparr>dl_pool := ?inv\<rparr>)))"
      by (simp add: dial_step_def Pooled dial_pooled_def pool_get_def pool_invalidate_def Let_def split: option.split sum.split)
    have 1: "?thesis" if "n' = snd (dial (dc_now c) (dc_addr c) (dc_intent c) (dc_connect c) (dc_handshake c) (n\<lparr>dl_pool := p\<rparr>))"
        "set p \<subseteq> set (dl_pool n)" for p
      using that d [of "n\<lparr>dl_pool := p\<rparr>"] Pooled by (fastforce simp: own_dial_def)
    show ?thesis
    proof (cases "map_of ?pool (dc_addr c, dl_side n)")
      case None
      then show ?thesis using 1 [of ?pool] assms get by auto
    next
      case (Some conn)
      then show ?thesis using 1 [of ?inv] assms get sub by (cases "dc_handshake c conn") (auto simp: note_dialled_def)
    qed
  next
    case (From side)
    then show ?thesis using assms d [of n]
      by (auto simp: dial_step_def dial_from_def own_dial_def note_dialled_def split: sum.splits if_splits)
  next
    case Anonymous
    then show ?thesis using assms by (auto simp: dial_step_def dial_anonymous_def)
  qed
qed

text \<open>Connections are reused only by the side that opened them: after any dials every pooled connection
  was there before, or was opened by the first side of the node to the very address it is pooled
  for, with a completed handshake. No connection of an anonymous dial or of another hosted side
  is ever handed out again.\<close>

lemma pooled_connections_are_own:
  "((peer_addr, side), conn) \<in> set (dl_pool (dials cs n)) \<Longrightarrow>
     ((peer_addr, side), conn) \<in> set (dl_pool n) \<or> (side = dl_side n \<and> (\<exists>c \<in> set cs. own_dial n c peer_addr conn))"
proof (induction cs arbitrary: n)
  case (Cons c cs)
  obtain n1 where n1: "snd (dial_step c n) = n1" by blast
  note st = dial_step_pool [OF n1]
  have "((peer_addr, side), conn) \<in> set (dl_pool (dials cs n1))" using Cons.prems n1 by (simp add: dials_def)
  from Cons.IH [OF this] show ?case using st by (fastforce simp: own_dial_def)
qed (simp add: dials_def)

text \<open>An anonymous dial leaves neither pool nor peer table changed.\<close>

lemma anonymous_dial_leaves_no_trace: "snd (dial_anonymous connect handshake n) = n"
  by (simp add: dial_anonymous_def)

text \<open>A cached connection that turns out to be dead costs nothing but time.\<close>

lemma pooled_dial_falls_back:
  assumes "fst (dial now peer_addr intent connect handshake n) = Inr s"
  shows "\<exists>s'. fst (dial_pooled dead now peer_addr intent connect handshake n) = Inr s'"
  using assms by (auto simp: dial_pooled_def dial_def Let_def pool_get_def split: option.splits sum.splits)

text \<open>Punching tries at most as often as it is told, at least once, and takes the first success.\<close>

lemma hole_punch_loop_result:
  "fst (hole_punch_loop k (\<lambda>i n. (r i, n)) i n) =
     (case find (\<lambda>j. \<exists>s. r j = Some (Inr s)) [i..<i + k] of
        Some j \<Rightarrow> the (r j)
      | None \<Rightarrow> Inl (NetInvariant ''hole_punch_dial: peer unreachable after all attempts''))"
proof (induction k arbitrary: i)
  case (Suc k)
  have "[i..<i + Suc k] = i # [Suc i..<Suc i + k]" by (simp add: upt_conv_Cons)
  then show ?case using Suc.IH [of "Suc i"] by (auto split: option.splits sum.splits)
qed simp

end
