(* ===== verification/Identity.thy ===== *)
theory Identity
  imports Keys StringMap
begin

text \<open>
  Names for keys and features: addresses (\<open>sidevers-core/src/address.rs\<close>), identifiers for logs
  (\<open>log_id.rs\<close>) and the registry of protocol features (\<open>features.rs\<close>). The crate \<open>bech32\<close> is a
  parameter: \<open>b32_encode\<close> is its encoder with the bech32m checksum, \<open>b32_decode\<close> its decoder.
\<close>

section \<open>Addresses\<close>

record bech32 =
  b32_encode :: "string \<Rightarrow> byte list \<Rightarrow> string option"
  b32_decode :: "string \<Rightarrow> (string \<times> byte list) option"

datatype address_kind = Side | Verse

fun hrp_str :: "address_kind \<Rightarrow> string" where
  "hrp_str Side = ''sv''"
| "hrp_str Verse = ''svv''"

record address =
  ad_kind :: address_kind
  ad_key :: "byte list"

definition address_encode :: "bech32 \<Rightarrow> address \<Rightarrow> string option" where
  "address_encode B a = b32_encode B (hrp_str (ad_kind a)) (ad_key a)"

definition is_upper :: "char \<Rightarrow> bool" where
  "is_upper c \<longleftrightarrow> 65 \<le> (of_char c :: nat) \<and> of_char c \<le> (90 :: nat)"

definition is_lower :: "char \<Rightarrow> bool" where
  "is_lower c \<longleftrightarrow> 97 \<le> (of_char c :: nat) \<and> of_char c \<le> (122 :: nat)"

text \<open>
  \<open>str::to_lowercase\<close> on UTF-8 text, as far as an address can tell: letters of ASCII, and the
  Kelvin sign (bytes E2 84 AA), the one character outside ASCII whose lower case is all ASCII.
  Any other character outside ASCII stays outside, and no address has one.
\<close>

definition to_lower :: "char \<Rightarrow> char" where
  "to_lower c = (if is_upper c then char_of (of_char c + 32 :: nat) else c)"

fun to_lowercase :: "string \<Rightarrow> string" where
  "to_lowercase (a # b # c # s) =
     (if a = CHR 0xE2 \<and> b = CHR 0x84 \<and> c = CHR 0xAA then CHR ''k'' # to_lowercase s else to_lower a # to_lowercase (b # c # s))"
| "to_lowercase [a, b] = [to_lower a, to_lower b]"
| "to_lowercase [a] = [to_lower a]"
| "to_lowercase [] = []"

definition address_parse :: "bech32 \<Rightarrow> string \<Rightarrow> address result" where
  "address_parse B s =
     (if list_ex is_upper s \<and> list_ex is_lower s then Inl (AddressError ''mixed case not allowed'')
      else let canonical = to_lowercase s in
      (case b32_decode B canonical of
         None \<Rightarrow> Inl (AddressError ''bech32 decode'')
       | Some (hrp, data) \<Rightarrow>
           and_then (if hrp = ''sv'' then Inr Side else if hrp = ''svv'' then Inr Verse else Inl (AddressError ''unknown HRP''))
             (\<lambda>kind.
           if length data \<noteq> 32 then Inl (AddressError ''expected 32 bytes'')
           else (case b32_encode B hrp data of
               None \<Rightarrow> Inl (AddressError ''re-encode failed'')
             | Some reencoded \<Rightarrow>
                 if reencoded \<noteq> canonical then Inl (AddressError ''non-canonical encoding (not bech32m)'')
                 else Inr \<lparr>ad_kind = kind, ad_key = data\<rparr>))))"

text \<open>What is documented of the crate and used here: the decoder inverts the encoder, which
  encodes every key under the two prefixes, in lower-case ASCII.\<close>

definition bech32_laws :: "bech32 \<Rightarrow> bool" where
  "bech32_laws B \<longleftrightarrow> (\<forall>kind key. length key = 32 \<longrightarrow> (\<exists>s. b32_encode B (hrp_str kind) key = Some s \<and>
     b32_decode B s = Some (hrp_str kind, key) \<and> list_all (\<lambda>c. (of_char c :: nat) < 128 \<and> \<not> is_upper c) s))"

section \<open>Which texts are addresses\<close>

lemma to_lowercase_same: "list_all (\<lambda>c. (of_char c :: nat) < 128 \<and> \<not> is_upper c) s \<Longrightarrow> to_lowercase s = s"
  by (induction s rule: to_lowercase.induct) (auto simp: to_lower_def)

lemma address_parse_iff:
  assumes "bech32_laws B"
  shows "address_parse B s = Inr a \<longleftrightarrow>
    \<not> (list_ex is_upper s \<and> list_ex is_lower s) \<and> length (ad_key a) = 32 \<and> address_encode B a = Some (to_lowercase s)"
proof
  assume p: "address_parse B s = Inr a"
  then show "\<not> (list_ex is_upper s \<and> list_ex is_lower s) \<and> length (ad_key a) = 32 \<and> address_encode B a = Some (to_lowercase s)"
    by (auto simp: address_parse_def address_encode_def Let_def and_then_eq_Inr split: if_splits option.splits prod.splits)
next
  assume r: "\<not> (list_ex is_upper s \<and> list_ex is_lower s) \<and> length (ad_key a) = 32 \<and> address_encode B a = Some (to_lowercase s)"
  then have "b32_decode B (to_lowercase s) = Some (hrp_str (ad_kind a), ad_key a)"
  proof -
    obtain t where "b32_encode B (hrp_str (ad_kind a)) (ad_key a) = Some t" "b32_decode B t = Some (hrp_str (ad_kind a), ad_key a)"
      using assms r by (auto simp: bech32_laws_def)
    then show ?thesis using r by (simp add: address_encode_def)
  qed
  then show "address_parse B s = Inr a"
    using r by (cases a, cases "ad_kind a") (auto simp: address_parse_def address_encode_def Let_def)
qed

lemma address_of_key:
  assumes "bech32_laws B" and k: "length (ad_key a) = 32"
  shows "\<exists>s. address_encode B a = Some s \<and> address_parse B s = Inr a"
proof -
  obtain s where s: "address_encode B a = Some s" "list_all (\<lambda>c. (of_char c :: nat) < 128 \<and> \<not> is_upper c) s"
    using assms by (auto simp: bech32_laws_def address_encode_def)
  then have "\<not> list_ex is_upper s" by (auto simp: list_ex_iff list_all_iff)
  then show ?thesis using s k to_lowercase_same [OF s(2)] by (auto simp: address_parse_iff [OF assms(1)])
qed

text \<open>Addresses and keys correspond: every key has an address, the text of an address gives back its
  kind and key, and the parser accepts besides only what becomes that text in lower case and
  does not mix ASCII cases.\<close>
lemma address_exact:
  assumes "bech32_laws B"
  shows "(length (ad_key a) = 32 \<longleftrightarrow> (\<exists>s. address_encode B a = Some s \<and> address_parse B s = Inr a)) \<and>
    (address_parse B t = Inr a \<longleftrightarrow> length (ad_key a) = 32 \<and> address_encode B a = Some (to_lowercase t) \<and>
      \<not> (list_ex is_upper t \<and> list_ex is_lower t))"
proof -
  from address_of_key [OF assms, of a] show ?thesis using address_parse_iff [OF assms] by auto
qed

text \<open>A sample of the crate that satisfies the laws: two letters for a byte, no checksum.\<close>

definition byte_letters :: "byte \<Rightarrow> string" where
  "byte_letters b = [char_of (97 + unat b div 16), char_of (97 + unat b mod 16)]"

fun letters_bytes :: "string \<Rightarrow> byte list" where
  "letters_bytes (a # b # s) = of_nat ((of_char a - 97) * 16 + (of_char b - 97)) # letters_bytes s"
| "letters_bytes _ = []"

definition sample_bech32 :: bech32 where
  "sample_bech32 = \<lparr>b32_encode = (\<lambda>hrp d. Some (hrp @ CHR ''1'' # concat (map byte_letters d))),
     b32_decode = (\<lambda>s. Some (takeWhile (\<lambda>c. c \<noteq> CHR ''1'') s, letters_bytes (tl (dropWhile (\<lambda>c. c \<noteq> CHR ''1'') s))))\<rparr>"

lemma byte_letters_nats:
  "unat (b :: byte) div 16 < 16 \<and> (of_char (char_of (97 + unat b div 16)) :: nat) = 97 + unat b div 16 \<and>
   (of_char (char_of (97 + unat b mod 16)) :: nat) = 97 + unat b mod 16"
proof -
  have d: "unat b div 16 < 16" using byte_bound [of b] by (simp add: less_mult_imp_div_less)
  moreover have "unat b mod 16 < 16" by simp
  ultimately have "97 + unat b div 16 < 256 \<and> 97 + unat b mod 16 < 256" by linarith
  then show ?thesis using d by (simp only: of_char_of mod_less simp_thms)
qed

lemma letters_bytes_inverse: "letters_bytes (concat (map byte_letters d)) = d"
proof (induction d)
  case (Cons b d)
  have "(97 + unat b div 16 - 97) * 16 + (97 + unat b mod 16 - 97) = unat b" by simp
  then show ?case
    using Cons byte_letters_nats [of b] by (simp only: byte_letters_def list.map concat.simps append_Cons append_Nil letters_bytes.simps) simp
qed simp

lemma sample_bech32_laws: "bech32_laws sample_bech32"
  unfolding bech32_laws_def
proof (intro allI impI)
  fix kind and key :: "byte list"
  have "\<forall>c \<in> set (byte_letters b). (of_char c :: nat) < 128 \<and> \<not> is_upper c" for b
    using byte_letters_nats [of b] by (auto simp: byte_letters_def is_upper_def)
  then show "\<exists>s. b32_encode sample_bech32 (hrp_str kind) key = Some s \<and> b32_decode sample_bech32 s = Some (hrp_str kind, key) \<and>
      list_all (\<lambda>c. (of_char c :: nat) < 128 \<and> \<not> is_upper c) s"
    by (cases kind) (auto simp: sample_bech32_def letters_bytes_inverse list_all_iff is_upper_def)
qed

lemma address_exact_witness:
  "(\<exists>s. address_encode sample_bech32 \<lparr>ad_kind = Verse, ad_key = replicate 32 7\<rparr> = Some s \<and>
     address_parse sample_bech32 s = Inr \<lparr>ad_kind = Verse, ad_key = replicate 32 7\<rparr>) \<and>
   \<not> (\<exists>s. address_encode sample_bech32 \<lparr>ad_kind = Side, ad_key = [7]\<rparr> = Some s \<and>
     address_parse sample_bech32 s = Inr \<lparr>ad_kind = Side, ad_key = [7]\<rparr>)"
  by (rule conjI)
    (rule iffD1 [OF conjunct1 [OF address_exact [OF sample_bech32_laws]]], simp,
     rule contrapos_nn [OF _ iffD2 [OF conjunct1 [OF address_exact [OF sample_bech32_laws]]]], simp_all)

text \<open>The Kelvin sign passes for a k: a text that holds one is not in the one canonical form and is
  accepted all the same.\<close>

lemma to_lowercase_append:
  "list_all (\<lambda>c. (of_char c :: nat) < 128 \<and> \<not> is_upper c) pre \<Longrightarrow> to_lowercase (pre @ s) = pre @ to_lowercase s"
proof (induction pre)
  case (Cons c pre)
  then have "c \<noteq> CHR 0xE2" "to_lower c = c" by (auto simp: to_lower_def)
  then have "to_lowercase (c # t) = c # to_lowercase t" for t
    by (cases t rule: to_lowercase.cases) (auto simp: to_lower_def)
  then show ?case using Cons by simp
qed simp

lemma kelvin_sign_accepted:
  assumes "bech32_laws B" "length (ad_key a) = 32" "address_encode B a = Some (pre @ CHR ''k'' # post)"
  shows "address_parse B (pre @ [CHR 0xE2, CHR 0x84, CHR 0xAA] @ post) = Inr a"
proof -
  have lower: "list_all (\<lambda>c. (of_char c :: nat) < 128 \<and> \<not> is_upper c) (pre @ CHR ''k'' # post)"
  proof -
    obtain t where "b32_encode B (hrp_str (ad_kind a)) (ad_key a) = Some t" "list_all (\<lambda>c. (of_char c :: nat) < 128 \<and> \<not> is_upper c) t"
      using assms(1,2) by (auto simp: bech32_laws_def)
    then show ?thesis using assms(3) by (simp add: address_encode_def)
  qed
  then have "to_lowercase (pre @ [CHR 0xE2, CHR 0x84, CHR 0xAA] @ post) = pre @ CHR ''k'' # post"
    by (simp add: to_lowercase_append to_lowercase_same)
  moreover have "\<not> list_ex is_upper (pre @ [CHR 0xE2, CHR 0x84, CHR 0xAA] @ post)"
    using lower by (auto simp: list_ex_iff list_all_iff is_upper_def)
  ultimately show ?thesis using assms by (simp add: address_parse_iff [OF assms(1)] del: list_ex_append)
qed

section \<open>Identifiers for logs\<close>

definition PREFIX_BYTES :: nat where "PREFIX_BYTES = 4"

definition hex_digit :: "nat \<Rightarrow> char" where
  "hex_digit n = ''0123456789abcdef'' ! n"

definition log_id :: "byte list \<Rightarrow> string" where
  "log_id bytes = concat (map (\<lambda>b. [hex_digit (unat b div 16), hex_digit (unat b mod 16)]) (take (min (length bytes) PREFIX_BYTES) bytes)) @
     (if bytes \<noteq> [] then [CHR 0xE2, CHR 0x80, CHR 0xA6] else [])"

text \<open>A log learns the first four bytes of an identifier and nothing else.\<close>

lemma log_id_prefix: "take 4 a = take 4 b \<Longrightarrow> log_id a = log_id b"
proof -
  assume t: "take 4 a = take 4 b"
  have "take (min (length x) 4) x = take 4 x" for x :: "byte list" by (simp add: min_def)
  moreover have "(a = []) = (b = [])" using t by (metis take_eq_Nil zero_neq_numeral)
  ultimately show "log_id a = log_id b" using t by (simp add: log_id_def PREFIX_BYTES_def)
qed

section \<open>Features\<close>

datatype feature_state = Active | Deprecated u64 | Frozen u64

fun is_active :: "feature_state \<Rightarrow> bool" where
  "is_active Active = True"
| "is_active _ = False"

fun is_deprecated :: "feature_state \<Rightarrow> bool" where
  "is_deprecated (Deprecated _) = True"
| "is_deprecated _ = False"

fun is_frozen :: "feature_state \<Rightarrow> bool" where
  "is_frozen (Frozen _) = True"
| "is_frozen _ = False"

fun allows_emission :: "feature_state \<Rightarrow> bool" where
  "allows_emission (Frozen _) = False"
| "allows_emission _ = True"

type_synonym feature_registry = "(string \<times> feature_state) list"

definition registry_register :: "string \<Rightarrow> feature_state \<Rightarrow> feature_registry \<Rightarrow> feature_registry" where
  "registry_register name s r = btree_insert name s r"

definition registry_from_pairs :: "(string \<times> feature_state) list \<Rightarrow> feature_registry" where
  "registry_from_pairs pairs = fold (\<lambda>(n, s) entries. btree_insert n s entries) pairs []"

definition state_of :: "feature_registry \<Rightarrow> string \<Rightarrow> feature_state option" where
  "state_of r name = map_of r name"

definition registry_names :: "feature_registry \<Rightarrow> string list" where
  "registry_names r = map fst r"

definition extended_with :: "(string \<times> feature_state) list \<Rightarrow> feature_registry \<Rightarrow> feature_registry" where
  "extended_with overrides r = fold (\<lambda>(n, s) entries. btree_insert n s entries) overrides r"

definition phase1_baseline :: feature_registry where
  "phase1_baseline = registry_from_pairs
    [(''envelope.v1'', Active), (''identity.master_key'', Active), (''identity.side_key'', Active),
     (''linkage_proof.v1'', Active), (''handshake.v1'', Active), (''handshake.capabilities'', Active),
     (''direct.message'', Active), (''direct.receipt'', Active), (''direct.typing'', Active),
     (''profile.fetch_deliver'', Active), (''side.retirement'', Active), (''device.pairing_request'', Active),
     (''device.state_bundle'', Active), (''device.revoke'', Active), (''device.state_delta'', Active),
     (''storage.get'', Active), (''storage.have'', Active), (''storage.miss'', Active),
     (''storage.offer'', Active), (''storage.want'', Active), (''storage.retract'', Active),
     (''storage.preferences'', Active), (''peer.ask_tell'', Active), (''rendezvous.v1'', Active),
     (''forward.store_deliver'', Active), (''verse.contract'', Active), (''verse.join'', Active),
     (''verse.leave'', Active), (''verse.remove'', Active), (''verse.post'', Active),
     (''verse.amend'', Active), (''verse.reconsent'', Active), (''public.handle_resolve'', Active),
     (''public.handle_attest'', Active), (''public.page_publish'', Active), (''public.page_fetch'', Active),
     (''public.page_deliver'', Active), (''public.announcement'', Active), (''public.directory_entry'', Active)]"

end
