(* ===== verification/Sas.thy ===== *)
theory Sas
  imports Keys
begin

text \<open>
  Short authentication strings for pairing, \<open>sidevers-core/src/sas.rs\<close>: six words taken from a
  list of 256 by the first bytes of a hash over the side, the nonce of the pairing and the new
  device's key. Of the assertions that the compiler checks on the list, length, no empty word and no
  word twice are theorems.
\<close>

section \<open>The word list\<close>

definition SAS_LABEL :: "byte list" where "SAS_LABEL = text_bytes ''sidevers/v1/pairing-sas''"
definition SAS_WORD_COUNT :: nat where "SAS_WORD_COUNT = 6"

text \<open>The list in its order, in parts by the first letters, so that proofs can look at one part at a time.\<close>

definition WORDS_A :: "string list" where
  "WORDS_A = [''able'', ''acid'', ''aged'', ''ahoy'', ''ajar'', ''alive'', ''amid'', ''amber'', ''ankle'', ''april'',
    ''arena'', ''arrow'', ''atlas'', ''aunt'', ''axle'']"

definition WORDS_BA :: "string list" where
  "WORDS_BA = [''badge'', ''baker'', ''balsa'', ''bank'', ''barn'', ''basil'', ''basin'', ''bath'', ''bay'', ''bead'',
    ''beam'', ''bean'', ''bear'', ''beech'', ''beef'', ''bell'', ''belt'', ''bench'', ''berry'']"

definition WORDS_BI :: "string list" where
  "WORDS_BI = [''biome'', ''birch'', ''bird'', ''bison'', ''bit'', ''blade'', ''blend'', ''block'', ''blue'', ''blunt'',
    ''blush'', ''bog'', ''bold'', ''bolt'', ''bond'', ''book'', ''boom'', ''boot'', ''born'', ''boss'',
    ''bowl'', ''brain'', ''branch'', ''brass'', ''brave'', ''bread'', ''brick'', ''brief'', ''broom'', ''brown'',
    ''brush'', ''bud'', ''buddy'', ''buoy'', ''burn'', ''bush'', ''byte'']"

definition WORDS_CA :: "string list" where
  "WORDS_CA = [''cab'', ''cabin'', ''cable'', ''cacao'', ''cactus'', ''cake'', ''calm'', ''camel'', ''camp'', ''candy'',
    ''cane'', ''canoe'', ''canon'', ''canvas'', ''cap'', ''cape'', ''car'', ''carbon'', ''card'', ''cargo'',
    ''carol'', ''carp'', ''carry'', ''cart'', ''cash'', ''cast'', ''cat'']"

definition WORDS_CE :: "string list" where
  "WORDS_CE = [''cedar'', ''cell'', ''chain'', ''chair'', ''chalk'', ''chant'', ''charm'', ''chart'', ''chase'', ''cheek'',
    ''cheer'', ''chef'', ''chess'', ''chest'', ''chief'', ''child'', ''chime'', ''chin'', ''chip'', ''choir'',
    ''chord'', ''chrome'', ''chunk'', ''cider'', ''cigar'', ''cipher'', ''city'', ''civic'']"

definition WORDS_CL :: "string list" where
  "WORDS_CL = [''clam'', ''claw'', ''clay'', ''clean'', ''clear'', ''clerk'', ''click'', ''cliff'', ''climb'', ''cloak'',
    ''clock'', ''clog'', ''close'', ''cloth'', ''cloud'', ''clove'', ''clown'', ''club'', ''clump'']"

definition WORDS_CO :: "string list" where
  "WORDS_CO = [''coal'', ''coast'', ''coat'', ''cobra'', ''cocoa'', ''code'', ''coil'', ''coin'', ''comet'', ''comic'',
    ''cone'', ''cook'', ''cool'', ''copy'', ''coral'', ''core'', ''cork'', ''corn'', ''cost'', ''couch'',
    ''court'', ''cover'', ''cow'']"

definition WORDS_CR :: "string list" where
  "WORDS_CR = [''crack'', ''craft'', ''cramp'', ''crane'', ''crash'', ''crate'', ''crawl'', ''crazy'', ''creak'', ''cream'',
    ''creek'', ''crepe'', ''crew'', ''crib'', ''cried'', ''crime'', ''crisp'', ''crop'', ''cross'', ''crow'',
    ''crown'', ''cruel'', ''crumb'', ''crush'', ''crust'', ''cry'']"

definition WORDS_CU :: "string list" where
  "WORDS_CU = [''cube'', ''cuff'', ''curl'', ''curse'', ''curve'', ''cushy'', ''cute'', ''cyan'', ''cycle'']"

definition WORDS_DA :: "string list" where
  "WORDS_DA = [''daily'', ''dairy'', ''dance'', ''dart'', ''dash'', ''data'', ''date'', ''dawn'', ''day'', ''deaf'',
    ''deal'', ''dear'', ''debt'', ''decoy'', ''deed'', ''deep'', ''deer'', ''delay'', ''delta'', ''den'',
    ''dense'', ''depot'', ''derby'', ''desk'']"

definition WORDS_DI :: "string list" where
  "WORDS_DI = [''diary'', ''dice'', ''diet'', ''dig'', ''dime'', ''diner'', ''ding'', ''dingo'', ''disco'', ''ditch'',
    ''dive'', ''dizzy'', ''dock'', ''dodge'', ''doe'', ''dog'', ''doll'', ''donkey'', ''donut'', ''door'',
    ''dose'', ''doted'', ''dough'', ''dove'', ''dozen'', ''draft'', ''drag'', ''drain'', ''drama'']"

definition WORDLIST :: "string list" where
  "WORDLIST = WORDS_A @ WORDS_BA @ WORDS_BI @ WORDS_CA @ WORDS_CE @ WORDS_CL @ WORDS_CO @ WORDS_CR @ WORDS_CU @ WORDS_DA @ WORDS_DI"

lemmas word_parts = WORDS_A_def WORDS_BA_def WORDS_BI_def WORDS_CA_def WORDS_CE_def WORDS_CL_def WORDS_CO_def WORDS_CR_def WORDS_CU_def WORDS_DA_def WORDS_DI_def

section \<open>The words of a pairing\<close>

definition pairing_sas :: "crypto \<Rightarrow> byte list \<Rightarrow> byte list \<Rightarrow> byte list \<Rightarrow> string list" where
  "pairing_sas C side_pubkey pairing_nonce new_device_eph_pub =
     (let bytes = blake3 C (SAS_LABEL @ side_pubkey @ pairing_nonce @ new_device_eph_pub)
      in map (\<lambda>i. WORDLIST ! unat (bytes ! i)) [0..<SAS_WORD_COUNT])"

text \<open>\<open>join\<close> with a space.\<close>

fun join_words :: "string list \<Rightarrow> string" where
  "join_words [] = []"
| "join_words [w] = w"
| "join_words (w # ws) = w @ CHR 0x20 # join_words ws"

definition pairing_sas_string :: "crypto \<Rightarrow> byte list \<Rightarrow> byte list \<Rightarrow> byte list \<Rightarrow> string" where
  "pairing_sas_string C side_pubkey pairing_nonce new_device_eph_pub =
     join_words (pairing_sas C side_pubkey pairing_nonce new_device_eph_pub)"

section \<open>The assertions on the list\<close>

lemma wordlist_length: "length WORDLIST = 256"
  by (simp add: WORDLIST_def word_parts)

lemma word_parts_words:
  "list_all (\<lambda>w. w \<noteq> [] \<and> CHR 0x20 \<notin> set w) WORDS_A"
  "list_all (\<lambda>w. w \<noteq> [] \<and> CHR 0x20 \<notin> set w) WORDS_BA"
  "list_all (\<lambda>w. w \<noteq> [] \<and> CHR 0x20 \<notin> set w) WORDS_BI"
  "list_all (\<lambda>w. w \<noteq> [] \<and> CHR 0x20 \<notin> set w) WORDS_CA"
  "list_all (\<lambda>w. w \<noteq> [] \<and> CHR 0x20 \<notin> set w) WORDS_CE"
  "list_all (\<lambda>w. w \<noteq> [] \<and> CHR 0x20 \<notin> set w) WORDS_CL"
  "list_all (\<lambda>w. w \<noteq> [] \<and> CHR 0x20 \<notin> set w) WORDS_CO"
  "list_all (\<lambda>w. w \<noteq> [] \<and> CHR 0x20 \<notin> set w) WORDS_CR"
  "list_all (\<lambda>w. w \<noteq> [] \<and> CHR 0x20 \<notin> set w) WORDS_CU"
  "list_all (\<lambda>w. w \<noteq> [] \<and> CHR 0x20 \<notin> set w) WORDS_DA"
  "list_all (\<lambda>w. w \<noteq> [] \<and> CHR 0x20 \<notin> set w) WORDS_DI"
  by (simp_all add: word_parts)

lemma wordlist_words:
  "w \<in> set WORDLIST \<Longrightarrow> w \<noteq> [] \<and> CHR 0x20 \<notin> set w"
  using word_parts_words unfolding WORDLIST_def by (auto simp: list_all_iff)

text \<open>A part is told from the others by the first two letters of its words.\<close>

definition word_part :: "string \<Rightarrow> nat" where
  "word_part w = (let c = hd w; d = w ! 1 in
     if c = CHR ''a'' then 0
     else if c = CHR ''b'' \<and> d \<in> {CHR ''a'', CHR ''e''} then 1
     else if c = CHR ''b'' \<and> d \<in> {CHR ''i'', CHR ''l'', CHR ''o'', CHR ''r'', CHR ''u'', CHR ''y''} then 2
     else if c = CHR ''c'' \<and> d \<in> {CHR ''a''} then 3
     else if c = CHR ''c'' \<and> d \<in> {CHR ''e'', CHR ''h'', CHR ''i''} then 4
     else if c = CHR ''c'' \<and> d \<in> {CHR ''l''} then 5
     else if c = CHR ''c'' \<and> d \<in> {CHR ''o''} then 6
     else if c = CHR ''c'' \<and> d \<in> {CHR ''r''} then 7
     else if c = CHR ''c'' \<and> d \<in> {CHR ''u'', CHR ''y''} then 8
     else if c = CHR ''d'' \<and> d \<in> {CHR ''a'', CHR ''e''} then 9
     else if c = CHR ''d'' \<and> d \<in> {CHR ''i'', CHR ''o'', CHR ''r''} then 10
     else 11)"

lemma word_parts_number:
  "list_all (\<lambda>w. word_part w = 0) WORDS_A"
  "list_all (\<lambda>w. word_part w = 1) WORDS_BA"
  "list_all (\<lambda>w. word_part w = 2) WORDS_BI"
  "list_all (\<lambda>w. word_part w = 3) WORDS_CA"
  "list_all (\<lambda>w. word_part w = 4) WORDS_CE"
  "list_all (\<lambda>w. word_part w = 5) WORDS_CL"
  "list_all (\<lambda>w. word_part w = 6) WORDS_CO"
  "list_all (\<lambda>w. word_part w = 7) WORDS_CR"
  "list_all (\<lambda>w. word_part w = 8) WORDS_CU"
  "list_all (\<lambda>w. word_part w = 9) WORDS_DA"
  "list_all (\<lambda>w. word_part w = 10) WORDS_DI"
  by (simp_all add: word_parts word_part_def)

lemma word_parts_distinct:
  "distinct WORDS_A" "distinct WORDS_BA" "distinct WORDS_BI" "distinct WORDS_CA" "distinct WORDS_CE" "distinct WORDS_CL" "distinct WORDS_CO" "distinct WORDS_CR" "distinct WORDS_CU" "distinct WORDS_DA" "distinct WORDS_DI"
  by (simp_all add: word_parts)

lemma distinct_append_by:
  "distinct xs \<and> list_all (\<lambda>w. word_part w < n) xs \<Longrightarrow> distinct ys \<Longrightarrow> list_all (\<lambda>w. word_part w = n) ys \<Longrightarrow> k = Suc n \<Longrightarrow>
   distinct (xs @ ys) \<and> list_all (\<lambda>w. word_part w < k) (xs @ ys)"
  by (auto simp: list_all_iff)

lemma wordlist_distinct: "distinct WORDLIST"
proof -
  have "distinct WORDS_A \<and> list_all (\<lambda>w. word_part w < 1) WORDS_A"
    using word_parts_distinct(1) word_parts_number(1) by (simp add: list_all_iff)
  then have "distinct (WORDS_A @ WORDS_BA) \<and> list_all (\<lambda>w. word_part w < 2) (WORDS_A @ WORDS_BA)"
    by (rule distinct_append_by [OF _ word_parts_distinct(2) word_parts_number(2)]) simp
  then have "distinct ((WORDS_A @ WORDS_BA) @ WORDS_BI) \<and> list_all (\<lambda>w. word_part w < 3) ((WORDS_A @ WORDS_BA) @ WORDS_BI)"
    by (rule distinct_append_by [OF _ word_parts_distinct(3) word_parts_number(3)]) simp
  then have "distinct (((WORDS_A @ WORDS_BA) @ WORDS_BI) @ WORDS_CA) \<and> list_all (\<lambda>w. word_part w < 4) (((WORDS_A @ WORDS_BA) @ WORDS_BI) @ WORDS_CA)"
    by (rule distinct_append_by [OF _ word_parts_distinct(4) word_parts_number(4)]) simp
  then have "distinct ((((WORDS_A @ WORDS_BA) @ WORDS_BI) @ WORDS_CA) @ WORDS_CE) \<and> list_all (\<lambda>w. word_part w < 5) ((((WORDS_A @ WORDS_BA) @ WORDS_BI) @ WORDS_CA) @ WORDS_CE)"
    by (rule distinct_append_by [OF _ word_parts_distinct(5) word_parts_number(5)]) simp
  then have "distinct (((((WORDS_A @ WORDS_BA) @ WORDS_BI) @ WORDS_CA) @ WORDS_CE) @ WORDS_CL) \<and> list_all (\<lambda>w. word_part w < 6) (((((WORDS_A @ WORDS_BA) @ WORDS_BI) @ WORDS_CA) @ WORDS_CE) @ WORDS_CL)"
    by (rule distinct_append_by [OF _ word_parts_distinct(6) word_parts_number(6)]) simp
  then have "distinct ((((((WORDS_A @ WORDS_BA) @ WORDS_BI) @ WORDS_CA) @ WORDS_CE) @ WORDS_CL) @ WORDS_CO) \<and> list_all (\<lambda>w. word_part w < 7) ((((((WORDS_A @ WORDS_BA) @ WORDS_BI) @ WORDS_CA) @ WORDS_CE) @ WORDS_CL) @ WORDS_CO)"
    by (rule distinct_append_by [OF _ word_parts_distinct(7) word_parts_number(7)]) simp
  then have "distinct (((((((WORDS_A @ WORDS_BA) @ WORDS_BI) @ WORDS_CA) @ WORDS_CE) @ WORDS_CL) @ WORDS_CO) @ WORDS_CR) \<and> list_all (\<lambda>w. word_part w < 8) (((((((WORDS_A @ WORDS_BA) @ WORDS_BI) @ WORDS_CA) @ WORDS_CE) @ WORDS_CL) @ WORDS_CO) @ WORDS_CR)"
    by (rule distinct_append_by [OF _ word_parts_distinct(8) word_parts_number(8)]) simp
  then have "distinct ((((((((WORDS_A @ WORDS_BA) @ WORDS_BI) @ WORDS_CA) @ WORDS_CE) @ WORDS_CL) @ WORDS_CO) @ WORDS_CR) @ WORDS_CU) \<and> list_all (\<lambda>w. word_part w < 9) ((((((((WORDS_A @ WORDS_BA) @ WORDS_BI) @ WORDS_CA) @ WORDS_CE) @ WORDS_CL) @ WORDS_CO) @ WORDS_CR) @ WORDS_CU)"
    by (rule distinct_append_by [OF _ word_parts_distinct(9) word_parts_number(9)]) simp
  then have "distinct (((((((((WORDS_A @ WORDS_BA) @ WORDS_BI) @ WORDS_CA) @ WORDS_CE) @ WORDS_CL) @ WORDS_CO) @ WORDS_CR) @ WORDS_CU) @ WORDS_DA) \<and> list_all (\<lambda>w. word_part w < 10) (((((((((WORDS_A @ WORDS_BA) @ WORDS_BI) @ WORDS_CA) @ WORDS_CE) @ WORDS_CL) @ WORDS_CO) @ WORDS_CR) @ WORDS_CU) @ WORDS_DA)"
    by (rule distinct_append_by [OF _ word_parts_distinct(10) word_parts_number(10)]) simp
  then have "distinct ((((((((((WORDS_A @ WORDS_BA) @ WORDS_BI) @ WORDS_CA) @ WORDS_CE) @ WORDS_CL) @ WORDS_CO) @ WORDS_CR) @ WORDS_CU) @ WORDS_DA) @ WORDS_DI) \<and> list_all (\<lambda>w. word_part w < 11) ((((((((((WORDS_A @ WORDS_BA) @ WORDS_BI) @ WORDS_CA) @ WORDS_CE) @ WORDS_CL) @ WORDS_CO) @ WORDS_CR) @ WORDS_CU) @ WORDS_DA) @ WORDS_DI)"
    by (rule distinct_append_by [OF _ word_parts_distinct(11) word_parts_number(11)]) simp
  then show ?thesis by (simp only: WORDLIST_def append_assoc)
qed

section \<open>Equal words mean equal hash bytes\<close>

lemma join_words_Cons: "join_words (w # ws) = (if ws = [] then w else w @ CHR 0x20 # join_words ws)"
  by (cases ws) simp_all

lemma join_words_inj:
  assumes "\<forall>w \<in> set ws \<union> set vs. CHR 0x20 \<notin> set w" "length ws = length vs" "join_words ws = join_words vs"
  shows "ws = vs"
  using assms(2,1,3)
proof (induction ws vs rule: list_induct2)
  case (Cons w ws v vs)
  have e: "(ws = []) = (vs = [])" using Cons.hyps by auto
  show ?case
  proof (cases "ws = []")
    case True
    then show ?thesis using Cons.prems e by (simp add: join_words_Cons)
  next
    case False
    then have "w @ CHR 0x20 # join_words ws = v @ CHR 0x20 # join_words vs" using Cons.prems(2) e by (simp add: join_words_Cons)
    then have "w = v \<and> join_words ws = join_words vs"
      using Cons.prems(1) by (auto simp: append_eq_append_conv2 Cons_eq_append_conv append_eq_Cons_conv)
    then show ?thesis using Cons.IH Cons.prems(1) by simp
  qed
qed simp

lemma pairing_sas_words: "w \<in> set (pairing_sas C s n e) \<Longrightarrow> w \<in> set WORDLIST"
proof -
  have "unat b < length WORDLIST" for b :: byte using byte_bound [of b] by (simp add: wordlist_length)
  then show "w \<in> set (pairing_sas C s n e) \<Longrightarrow> w \<in> set WORDLIST" by (auto simp: pairing_sas_def Let_def)
qed

text \<open>C21: What two devices read out to each other settles the first 48 bits of the hash over the
  pairing, no more and no less: the strings are the same exactly if the two hashes begin with
  the same six bytes. The words lose nothing, for no word stands in the list twice, and neither
  does putting them on one line, for no word holds a space.\<close>

theorem sas_equal_iff_hash_prefix:
  assumes "hash_laws C"
  shows "pairing_sas_string C side nonce eph = pairing_sas_string C side' nonce' eph' \<longleftrightarrow>
    take 6 (blake3 C (SAS_LABEL @ side @ nonce @ eph)) = take 6 (blake3 C (SAS_LABEL @ side' @ nonce' @ eph'))"
proof -
  let ?h = "blake3 C (SAS_LABEL @ side @ nonce @ eph)" and ?h' = "blake3 C (SAS_LABEL @ side' @ nonce' @ eph')"
  have len: "length ?h = 32" "length ?h' = 32" using assms by (simp_all add: hash_laws_def)
  have w: "WORDLIST ! unat a = WORDLIST ! unat b \<longleftrightarrow> a = b" for a b :: byte
    using nth_eq_iff_index_eq [OF wordlist_distinct, of "unat a" "unat b"] byte_bound [of a] byte_bound [of b]
    by (auto simp: wordlist_length intro: unsigned_word_eqI)
  have "pairing_sas_string C side nonce eph = pairing_sas_string C side' nonce' eph' \<longleftrightarrow>
      pairing_sas C side nonce eph = pairing_sas C side' nonce' eph'"
  proof
    have "\<forall>w \<in> set (pairing_sas C side nonce eph) \<union> set (pairing_sas C side' nonce' eph'). CHR 0x20 \<notin> set w"
      using pairing_sas_words wordlist_words by blast
    moreover have "length (pairing_sas C side nonce eph) = length (pairing_sas C side' nonce' eph')" by (simp add: pairing_sas_def)
    moreover assume "pairing_sas_string C side nonce eph = pairing_sas_string C side' nonce' eph'"
    ultimately show "pairing_sas C side nonce eph = pairing_sas C side' nonce' eph'"
      unfolding pairing_sas_string_def by (rule join_words_inj)
  qed (simp add: pairing_sas_string_def)
  also have "\<dots> \<longleftrightarrow> (\<forall>i < 6. ?h ! i = ?h' ! i)"
    by (simp add: pairing_sas_def SAS_WORD_COUNT_def w Let_def map_eq_conv Ball_def)
  also have "\<dots> \<longleftrightarrow> take 6 ?h = take 6 ?h'" using len by (simp add: list_eq_iff_nth_eq)
  finally show ?thesis .
qed

theorem sas_equal_iff_hash_prefix_witness:
  "pairing_sas_string sample_crypto (replicate 32 1) (replicate 16 2) (replicate 32 3) =
     pairing_sas_string sample_crypto (replicate 32 1) (replicate 16 2) (replicate 32 4) \<longleftrightarrow>
   take 6 (blake3 sample_crypto (SAS_LABEL @ replicate 32 1 @ replicate 16 2 @ replicate 32 3)) =
     take 6 (blake3 sample_crypto (SAS_LABEL @ replicate 32 1 @ replicate 16 2 @ replicate 32 4))"
  by (rule sas_equal_iff_hash_prefix [OF sample_hash_laws])

text \<open>What is hashed determines the side, the nonce and the key of the new device.\<close>

lemma sas_input_inj:
  assumes "length side = 32" "length side' = 32" "length nonce = 16" "length nonce' = 16"
  shows "SAS_LABEL @ side @ nonce @ eph = SAS_LABEL @ side' @ nonce' @ eph' \<longleftrightarrow> side = side' \<and> nonce = nonce' \<and> eph = eph'"
  using assms by auto

end
