(* ===== verification/DesktopText.thy ===== *)
theory DesktopText
  imports Identity Keystore QrCodes DirectMessages Objects SideStore Envelope
begin

text \<open>
  The parts of the desktop client, \<open>desktop/tauri/src/main.rs\<close>, that work without a running node:
  how a message is shown, seed backups and pictures on disk, and the key-only commands. Third-party
  crates are the fields of a record; file operations succeed or fail as an argument says. An error
  is a text, of which the model keeps the fixed part.
\<close>

section \<open>Texts\<close>

text \<open>
  A text is its UTF-8 bytes. The next character of a byte sequence, as \<open>String::from_utf8_lossy\<close>
  reads it: whether it is well formed, and how many bytes after the first belong to it. A sequence
  that breaks off is reported up to the byte that breaks it.
\<close>

fun utf8_step :: "byte \<Rightarrow> byte list \<Rightarrow> bool \<times> nat" where
  "utf8_step b bs =
     (let c = (case bs of x # _ \<Rightarrow> x | [] \<Rightarrow> 0);
          d = (case bs of _ # x # _ \<Rightarrow> x | _ \<Rightarrow> 0);
          e = (case bs of _ # _ # x # _ \<Rightarrow> x | _ \<Rightarrow> 0) in
      if b < 0x80 then (True, 0)
      else if 0xC2 \<le> b \<and> b \<le> 0xDF then (if cont_byte c then (True, 1) else (False, 0))
      else if 0xE0 \<le> b \<and> b \<le> 0xEF then
        (if \<not> (cont_byte c \<and> (b = 0xE0 \<longrightarrow> 0xA0 \<le> c) \<and> (b = 0xED \<longrightarrow> c \<le> 0x9F)) then (False, 0)
         else if \<not> cont_byte d then (False, 1) else (True, 2))
      else if 0xF0 \<le> b \<and> b \<le> 0xF4 then
        (if \<not> (cont_byte c \<and> (b = 0xF0 \<longrightarrow> 0x90 \<le> c) \<and> (b = 0xF4 \<longrightarrow> c \<le> 0x8F)) then (False, 0)
         else if \<not> cont_byte d then (False, 1)
         else if \<not> cont_byte e then (False, 2) else (True, 3))
      else (False, 0))"

declare utf8_step.simps [simp del]

function utf8_chunks :: "byte list \<Rightarrow> (bool \<times> byte list) list" where
  "utf8_chunks [] = []"
| "utf8_chunks (b # bs) = (let (ok, n) = utf8_step b bs in (ok, b # take n bs) # utf8_chunks (drop n bs))"
  by pat_completeness auto

termination by (relation "measure length") (auto simp: less_Suc_eq_le)

definition from_utf8_lossy :: "byte list \<Rightarrow> string" where
  "from_utf8_lossy bs = bytes_text (concat (map (\<lambda>(ok, ch). if ok then ch else [0xEF, 0xBF, 0xBD]) (utf8_chunks bs)))"

definition chars_of :: "string \<Rightarrow> byte list list" where
  "chars_of s = map snd (utf8_chunks (text_bytes s))"

text \<open>\<open>char::is_whitespace\<close>, the property White_Space of Unicode.\<close>

definition is_whitespace :: "byte list \<Rightarrow> bool" where
  "is_whitespace ch \<longleftrightarrow> (case ch of
     [a] \<Rightarrow> a = 0x20 \<or> (0x09 \<le> a \<and> a \<le> 0x0D)
   | [a, b] \<Rightarrow> a = 0xC2 \<and> (b = 0x85 \<or> b = 0xA0)
   | [a, b, c] \<Rightarrow> a = 0xE1 \<and> b = 0x9A \<and> c = 0x80 \<or>
       a = 0xE2 \<and> b = 0x80 \<and> ((0x80 \<le> c \<and> c \<le> 0x8A) \<or> c = 0xA8 \<or> c = 0xA9 \<or> c = 0xAF) \<or>
       a = 0xE2 \<and> b = 0x81 \<and> c = 0x9F \<or> a = 0xE3 \<and> b = 0x80 \<and> c = 0x80
   | _ \<Rightarrow> False)"

definition str_trim :: "string \<Rightarrow> string" where
  "str_trim s = bytes_text (concat (rev (dropWhile is_whitespace (rev (dropWhile is_whitespace (chars_of s))))))"

section \<open>Libraries\<close>

record libs =
  x_hex_encode :: "byte list \<Rightarrow> string"
  x_hex_decode :: "string \<Rightarrow> byte list option"
  x_base64_decode :: "string \<Rightarrow> byte list option"
  x_nfc :: "string \<Rightarrow> string"
  x_bech32 :: bech32
  x_socket_addr :: "string \<Rightarrow> string option"

type_synonym 'a ui_result = "string + 'a"

abbreviation ui :: "string \<Rightarrow> ('e + 'a) \<Rightarrow> 'a ui_result" where
  "ui msg m \<equiv> map_err (\<lambda>_. msg) m"

definition require :: "string \<Rightarrow> 'a option \<Rightarrow> 'a ui_result" where
  "require msg x = (case x of Some a \<Rightarrow> Inr a | None \<Rightarrow> Inl msg)"

lemma require_Inr [simp]: "require msg x = Inr a \<longleftrightarrow> x = Some a"
  by (simp add: require_def split: option.splits)

lemma require_simps [simp]: "require msg (Some a) = Inr a" "require msg None = Inl msg"
  by (simp_all add: require_def)

definition seed_from_hex :: "libs \<Rightarrow> string \<Rightarrow> byte list ui_result" where
  "seed_from_hex X s = and_then (require ''hex'' (x_hex_decode X (str_trim s))) (\<lambda>v.
     if length v \<noteq> SECRET_KEY_LEN then Inl ''expected 32-byte seed'' else Inr v)"

definition pubkey_from_hex :: "libs \<Rightarrow> string \<Rightarrow> byte list ui_result" where
  "pubkey_from_hex X s = and_then (require ''hex'' (x_hex_decode X (str_trim s))) (\<lambda>v.
     if length v \<noteq> 32 then Inl ''expected 32-byte pubkey'' else Inr v)"

text \<open>The text of an address. A key of another length would be a panic; no key has one.\<close>

definition address_text :: "libs \<Rightarrow> address_kind \<Rightarrow> byte list \<Rightarrow> string" where
  "address_text X kind key = (case address_encode (x_bech32 X) \<lparr>ad_kind = kind, ad_key = key\<rparr> of Some s \<Rightarrow> s | None \<Rightarrow> [])"

definition decode_side_address :: "libs \<Rightarrow> string \<Rightarrow> byte list ui_result" where
  "decode_side_address X encoded =
     and_then (ui ''parse side'' (address_parse (x_bech32 X) (str_trim encoded))) (\<lambda>addr.
     if ad_kind addr \<noteq> Side then Inl ''not a side address'' else Inr (ad_key addr))"

section \<open>How a message is shown\<close>

record inbox_dm =
  id_from :: string
  id_to :: string
  id_plaintext :: string
  id_received_at :: u64
  id_kind :: string
  id_media_hash_hex :: "string option"
  id_media_size :: "u64 option"
  id_media_mime :: "string option"

fun shown_kind :: "direct_kind \<Rightarrow> string" where
  "shown_kind KindText = ''text''"
| "shown_kind KindImage = ''image''"
| "shown_kind KindVoice = ''voice''"
| "shown_kind KindFile = ''file''"
| "shown_kind (KindOther _) = ''other''"

definition decode_dm_plaintext :: "byte list \<Rightarrow> string \<times> string \<times> reference option" where
  "decode_dm_plaintext bytes = (case decode_direct_message bytes of
     Inr p \<Rightarrow> (case dm_body p of
         BodyText s \<Rightarrow> (shown_kind (dm_kind p), s, None)
       | BodyReference ref_bytes \<Rightarrow> (shown_kind (dm_kind p), [],
           case decode_reference ref_bytes of Inr r \<Rightarrow> Some r | Inl _ \<Rightarrow> None))
   | Inl _ \<Rightarrow> (''text'', from_utf8_lossy bytes, None))"

definition build_inbox_dm :: "libs \<Rightarrow> string \<Rightarrow> string \<Rightarrow> byte list \<Rightarrow> u64 \<Rightarrow> inbox_dm" where
  "build_inbox_dm X from_addr to_addr plaintext_bytes received_at =
     (case decode_dm_plaintext plaintext_bytes of (kind, txt, media) \<Rightarrow>
      \<lparr>id_from = from_addr, id_to = to_addr, id_plaintext = txt, id_received_at = received_at, id_kind = kind,
       id_media_hash_hex = map_option (x_hex_encode X \<circ> rf_hash) media,
       id_media_size = map_option rf_size media, id_media_mime = map_option rf_mime media\<rparr>)"

section \<open>Backups of the seed\<close>

text \<open>\<open>Path::join\<close> on Unix, and the parts of a path.\<close>

definition path_join :: "string \<Rightarrow> string \<Rightarrow> string" where
  "path_join p q = (if q \<noteq> [] \<and> hd q = CHR ''/'' then q
     else if p = [] \<or> last p = CHR ''/'' then p @ q else p @ CHR ''/'' # q)"

definition path_parts :: "string \<Rightarrow> string list" where
  "path_parts p = filter (\<lambda>c. c \<noteq> [] \<and> c \<noteq> ''.'') (split_on CHR ''/'' p)"

definition BACKUP_SUBDIR :: string where "BACKUP_SUBDIR = ''backups''"
definition MAX_BACKUP_FILENAME_LEN :: nat where "MAX_BACKUP_FILENAME_LEN = 128"

definition WIN_RESERVED :: "string list" where
  "WIN_RESERVED = [''CON'', ''PRN'', ''AUX'', ''NUL'', ''COM1'', ''COM2'', ''COM3'', ''COM4'', ''COM5'', ''COM6'', ''COM7'',
     ''COM8'', ''COM9'', ''LPT1'', ''LPT2'', ''LPT3'', ''LPT4'', ''LPT5'', ''LPT6'', ''LPT7'', ''LPT8'', ''LPT9'']"

definition ntfs_reserved :: "char \<Rightarrow> bool" where
  "ntfs_reserved c \<longleftrightarrow> c \<in> {CHR 0x00, CHR '':'', CHR ''*'', CHR ''?'', CHR 0x22, CHR ''<'', CHR ''>'', CHR ''|''}"

text \<open>U+202A to U+202E, U+2066 to U+2069, U+200B to U+200F and U+FEFF.\<close>

definition bidi_or_zero_width :: "byte list \<Rightarrow> bool" where
  "bidi_or_zero_width ch \<longleftrightarrow> (case ch of
     [a, b, c] \<Rightarrow> a = 0xE2 \<and> b = 0x80 \<and> (0xAA \<le> c \<and> c \<le> 0xAE \<or> 0x8B \<le> c \<and> c \<le> 0x8F) \<or>
       a = 0xE2 \<and> b = 0x81 \<and> 0xA6 \<le> c \<and> c \<le> 0xA9 \<or> a = 0xEF \<and> b = 0xBB \<and> c = 0xBF
   | _ \<Rightarrow> False)"

definition eq_ignore_ascii_case :: "string \<Rightarrow> string \<Rightarrow> bool" where
  "eq_ignore_ascii_case s t \<longleftrightarrow> map to_lower s = map to_lower t"

definition safe_backup_path :: "libs \<Rightarrow> string option \<Rightarrow> string \<Rightarrow> string ui_result" where
  "safe_backup_path X canonical filename =
     (let trimmed = str_trim filename; stem = takeWhile (\<lambda>c. c \<noteq> CHR ''.'') trimmed in
      if trimmed = [] then Inl ''backup filename cannot be empty''
      else if MAX_BACKUP_FILENAME_LEN < length trimmed then Inl ''backup filename too long''
      else if CHR ''/'' \<in> set trimmed \<or> CHR 0x5C \<in> set trimmed then Inl ''backup filename must not contain path separators''
      else if hd trimmed = CHR ''.'' then Inl ''backup filename cannot start with '.' or be a parent ref''
      else if list_ex ntfs_reserved trimmed then Inl ''backup filename contains a forbidden character''
      else if last trimmed = CHR ''.'' \<or> last trimmed = CHR '' '' then Inl ''backup filename cannot end with '.' or space''
      else if list_ex bidi_or_zero_width (chars_of trimmed) then Inl ''backup filename contains a bidi/zero-width control character''
      else if list_ex (eq_ignore_ascii_case stem) WIN_RESERVED then Inl ''backup filename uses a reserved Windows device name''
      else if x_nfc X trimmed \<noteq> trimmed then Inl ''backup filename contains non-NFC-normalized Unicode''
      else and_then (require ''data_dir does not resolve to a real path'' canonical) (\<lambda>canonical_dir.
        Inr (path_join (path_join canonical_dir BACKUP_SUBDIR) (x_nfc X trimmed))))"

type_synonym files = "string \<rightharpoonup> byte list"

fun write_file :: "write_outcome \<Rightarrow> string \<Rightarrow> byte list \<Rightarrow> files \<Rightarrow> bool \<times> files" where
  "write_file Written path bytes fs = (True, fs(path \<mapsto> bytes))"
| "write_file (WriteFailed None) path bytes fs = (False, fs)"
| "write_file (WriteFailed (Some left)) path bytes fs = (False, fs(path \<mapsto> left))"

text \<open>The steps that may fail, in order: creating the directory, its permissions, the write, the
  permissions of the file.\<close>

definition guarded_write :: "(nat \<Rightarrow> bool) \<Rightarrow> write_outcome \<Rightarrow> string \<Rightarrow> byte list \<Rightarrow> files \<Rightarrow> unit ui_result \<times> files" where
  "guarded_write io w path bytes fs = (case write_file w path bytes fs of
     (False, fs) \<Rightarrow> (Inl ''writing file'', fs)
   | (True, fs) \<Rightarrow> (if io 2 then Inr () else Inl ''file permissions'', fs))"

definition write_seed_backup :: "libs \<Rightarrow> crypto \<Rightarrow> (nat \<Rightarrow> bool) \<Rightarrow> write_outcome \<Rightarrow> string option \<Rightarrow>
    byte list option \<Rightarrow> byte list option \<Rightarrow> string \<Rightarrow> string \<Rightarrow> side_key option \<Rightarrow> files \<Rightarrow> string ui_result \<times> files" where
  "write_seed_backup X C io w canonical rnd_salt rnd_nonce filename passphrase node fs =
     (if passphrase = [] then (Inl ''a passphrase is required to back up the seed'', fs)
      else (case node of
        None \<Rightarrow> (Inl ''node not started'', fs)
      | Some k \<Rightarrow> (case safe_backup_path X canonical filename of
          Inl e \<Rightarrow> (Inl e, fs)
        | Inr path \<Rightarrow>
            if \<not> io 0 then (Inl ''creating backup dir'', fs)
            else if \<not> io 1 then (Inl ''directory permissions'', fs)
            else (case seal_seed C rnd_salt rnd_nonce (seed k) passphrase of
              Inl _ \<Rightarrow> (Inl ''sealing seed'', fs)
            | Inr sealed \<Rightarrow> (case guarded_write io w path sealed fs of (r, fs) \<Rightarrow> (and_then r (\<lambda>_. Inr path), fs))))))"

section \<open>Pictures of sides\<close>

definition AVATAR_SUBDIR :: string where "AVATAR_SUBDIR = ''avatars''"
definition AVATAR_MAX_BYTES :: nat where "AVATAR_MAX_BYTES = 256 * 1024"
definition JPEG_MAGIC :: "byte list" where "JPEG_MAGIC = [0xFF, 0xD8, 0xFF]"

definition hex_byte :: "byte \<Rightarrow> string" where
  "hex_byte b = [hex_digit (unat b div 16), hex_digit (unat b mod 16)]"

definition avatar_path_for :: "libs \<Rightarrow> string \<Rightarrow> string \<Rightarrow> string ui_result" where
  "avatar_path_for X data_dir side_address = and_then (decode_side_address X side_address) (\<lambda>pk.
     Inr (path_join (path_join data_dir AVATAR_SUBDIR) (concat (map hex_byte pk) @ ''.jpg'')))"

definition set_side_avatar :: "libs \<Rightarrow> (nat \<Rightarrow> bool) \<Rightarrow> write_outcome \<Rightarrow> string \<Rightarrow> string \<Rightarrow> string \<Rightarrow> files \<Rightarrow>
    unit ui_result \<times> files" where
  "set_side_avatar X io w data_dir side_address image_b64 fs =
     (case x_base64_decode X image_b64 of
        None \<Rightarrow> (Inl ''avatar: bad base64'', fs)
      | Some bytes \<Rightarrow>
          if bytes = [] then (Inl ''avatar: empty image'', fs)
          else if AVATAR_MAX_BYTES < length bytes then (Inl ''avatar: image too large'', fs)
          else if length bytes < 3 \<or> take 3 bytes \<noteq> JPEG_MAGIC then (Inl ''avatar: only JPEG accepted'', fs)
          else (case avatar_path_for X data_dir side_address of
            Inl e \<Rightarrow> (Inl e, fs)
          | Inr path \<Rightarrow>
              if \<not> io 0 then (Inl ''creating avatars dir'', fs)
              else if \<not> io 1 then (Inl ''directory permissions'', fs)
              else guarded_write io w path bytes fs))"

definition get_side_avatar :: "libs \<Rightarrow> bool \<Rightarrow> string \<Rightarrow> string \<Rightarrow> files \<Rightarrow> string option ui_result" where
  "get_side_avatar X stat_ok data_dir side_address fs = and_then (avatar_path_for X data_dir side_address) (\<lambda>path.
     if \<not> stat_ok then Inl ''stat avatar'' else Inr (if fs path \<noteq> None then Some path else None))"

definition clear_side_avatar :: "libs \<Rightarrow> bool \<Rightarrow> string \<Rightarrow> string \<Rightarrow> files \<Rightarrow> unit ui_result \<times> files" where
  "clear_side_avatar X rm data_dir side_address fs = (case avatar_path_for X data_dir side_address of
     Inl e \<Rightarrow> (Inl e, fs)
   | Inr path \<Rightarrow> if fs path = None then (Inr (), fs)
       else if rm then (Inr (), fs(path := None)) else (Inl ''removing avatar'', fs))"

section \<open>Commands on keys\<close>

definition generate_master :: "libs \<Rightarrow> byte list option \<Rightarrow> string ui_result" where
  "generate_master X rnd = and_then (ui ''csprng'' (fill_random rnd)) (\<lambda>sd. Inr (x_hex_encode X sd))"

definition derive_side_cmd :: "libs \<Rightarrow> crypto \<Rightarrow> string \<Rightarrow> string \<Rightarrow> string ui_result" where
  "derive_side_cmd X C master_hex lbl = and_then (seed_from_hex X master_hex) (\<lambda>sd.
     Inr (x_hex_encode X (seed (derive_side C sd lbl))))"

definition pubkey_from_seed :: "libs \<Rightarrow> crypto \<Rightarrow> string \<Rightarrow> string ui_result" where
  "pubkey_from_seed X C seed_hex = and_then (seed_from_hex X seed_hex) (\<lambda>sd.
     Inr (x_hex_encode X (public_bytes C \<lparr>seed = sd, label = ''(desktop)''\<rparr>)))"

definition encode_address_cmd :: "libs \<Rightarrow> string \<Rightarrow> string \<Rightarrow> string ui_result" where
  "encode_address_cmd X pubkey_hex kind = and_then (pubkey_from_hex X pubkey_hex) (\<lambda>pubkey.
     if kind = ''side'' then Inr (address_text X Side pubkey)
     else if kind = ''verse'' then Inr (address_text X Verse pubkey)
     else Inl ''unknown address kind'')"

definition seal_dm :: "libs \<Rightarrow> crypto \<Rightarrow> u64 option \<Rightarrow> byte list option \<Rightarrow> string \<Rightarrow> string \<Rightarrow> string \<Rightarrow> string ui_result" where
  "seal_dm X C clock rnd sender_seed_hex recipient_pubkey_hex txt =
     and_then (seed_from_hex X sender_seed_hex) (\<lambda>sender_seed.
     let sender = \<lparr>seed = sender_seed, label = ''(desktop-dm-send)''\<rparr> in
     and_then (pubkey_from_hex X recipient_pubkey_hex) (\<lambda>recipient.
     let inner = encode_direct_message \<lparr>dm_kind = KindText, dm_body = BodyText txt, dm_reply_to = None, dm_thread = None\<rparr> in
     and_then (ui ''nonce'' (fill_random rnd)) (\<lambda>nonce.
     and_then (ui ''clock'' (now_unix_seconds clock)) (\<lambda>ts.
     and_then (ui ''seal'' (seal C inner sender recipient nonce [])) (\<lambda>ciphertext.
     Inr (x_hex_encode X (to_wire_bytes (sign_with C DIRECT_MESSAGE sender (Some recipient) ciphertext ts nonce))))))))"

definition open_dm :: "libs \<Rightarrow> crypto \<Rightarrow> string \<Rightarrow> string \<Rightarrow> string ui_result" where
  "open_dm X C recipient_seed_hex wire_hex =
     and_then (seed_from_hex X recipient_seed_hex) (\<lambda>sd.
     let side = \<lparr>seed = sd, label = ''(desktop-dm-recv)''\<rparr> in
     and_then (require ''hex'' (x_hex_decode X (str_trim wire_hex))) (\<lambda>wire.
     and_then (ui ''envelope'' (from_wire_bytes C wire)) (\<lambda>env.
     if env_type env \<noteq> DIRECT_MESSAGE then Inl ''envelope is not a DirectMessage''
     else if env_to env \<noteq> Some (public_bytes C side) then Inl ''envelope is not addressed to this side''
     else and_then (ui ''open'' (open_payload C (env_payload env) side (env_from env) (env_nonce env) [])) (\<lambda>plain.
       and_then (ui ''message'' (decode_direct_message plain)) (\<lambda>dm.
       case dm_body dm of BodyText s \<Rightarrow> Inr s
       | BodyReference _ \<Rightarrow> Inl ''media DMs not yet supported in the desktop UI'')))))"

section \<open>Texts are kept\<close>

lemma utf8_chunks_concat: "concat (map snd (utf8_chunks bs)) = bs"
  by (induction bs rule: utf8_chunks.induct) (simp_all split: prod.split)

lemma four_or_more:
  obtains "xs = []" | c where "xs = [c]" | c d where "xs = [c, d]" | c d e r where "xs = c # d # e # r"
  by (metis list.exhaust)

lemma no_cont_0: "\<not> cont_byte 0"
  by (simp add: cont_byte_def)

lemma utf8_valid_step: "utf8_valid (b # bs) \<longleftrightarrow> fst (utf8_step b bs) \<and> utf8_valid (drop (snd (utf8_step b bs)) bs)"
proof -
  consider "b < 0x80" | "\<not> b < 0x80" "0xC2 \<le> b \<and> b \<le> 0xDF" | "\<not> b < 0x80" "\<not> (0xC2 \<le> b \<and> b \<le> 0xDF)" "0xE0 \<le> b \<and> b \<le> 0xEF"
    | "\<not> b < 0x80" "\<not> (0xC2 \<le> b \<and> b \<le> 0xDF)" "\<not> (0xE0 \<le> b \<and> b \<le> 0xEF)" by blast
  then show ?thesis
  proof cases
    case 1
    then show ?thesis by (simp add: utf8_step.simps)
  next
    case 2
    then show ?thesis by (cases bs) (simp_all only: utf8_valid.simps utf8_step.simps Let_def list.case if_False if_True simp_thms split: if_split, simp_all add: no_cont_0)
  next
    case 3
    then show ?thesis by (cases bs rule: four_or_more) (simp_all only: utf8_valid.simps utf8_step.simps Let_def list.case if_False if_True simp_thms split: if_split, simp_all add: no_cont_0, blast+)
  next
    case 4
    then show ?thesis by (cases bs rule: four_or_more) (simp_all only: utf8_valid.simps utf8_step.simps Let_def list.case if_False if_True split: if_split, simp_all add: no_cont_0, blast?)
  qed
qed

lemma utf8_valid_chunks: "utf8_valid bs \<longleftrightarrow> list_all fst (utf8_chunks bs)"
proof (induction bs rule: utf8_chunks.induct)
  case (2 b bs)
  obtain ok n where "utf8_step b bs = (ok, n)" by force
  then show ?case using 2 unfolding utf8_valid_step by simp
qed simp

text \<open>Text in UTF-8 is shown as it is.\<close>

lemma from_utf8_lossy_valid: "utf8_valid bs \<Longrightarrow> from_utf8_lossy bs = bytes_text bs"
proof -
  assume "utf8_valid bs"
  then have "map (\<lambda>(ok, ch). if ok then ch else [0xEF, 0xBF, 0xBD]) (utf8_chunks bs) = map snd (utf8_chunks bs)"
    by (auto simp: utf8_valid_chunks list_all_iff)
  then show ?thesis by (simp only: from_utf8_lossy_def utf8_chunks_concat)
qed

lemma chars_of_ascii: "ascii s \<Longrightarrow> chars_of s = map (\<lambda>c. [byte_of_char c]) s"
  by (induction s) (simp_all add: chars_of_def ascii_def utf8_step.simps)

lemma concat_single: "concat (map (\<lambda>x. [f x]) xs) = map f xs"
  by (induction xs) simp_all

lemma dropWhile_none: "list_all (\<lambda>x. \<not> P x) xs \<Longrightarrow> dropWhile P xs = xs"
  by (cases xs) simp_all

lemma str_trim_ascii:
  assumes "ascii s" "list_all (\<lambda>c. \<not> is_whitespace [byte_of_char c]) s"
  shows "str_trim s = s"
proof -
  have "list_all (\<lambda>x. \<not> is_whitespace x) (chars_of s)" using assms by (simp add: chars_of_ascii list_all_iff)
  then have "str_trim s = bytes_text (concat (chars_of s))"
    by (simp add: str_trim_def dropWhile_none)
  also have "\<dots> = bytes_text (text_bytes s)" using assms(1) by (simp only: chars_of_ascii concat_single)
  finally show ?thesis by (simp only: bytes_text_bytes)
qed

definition plain :: "char \<Rightarrow> bool" where
  "plain c \<longleftrightarrow> byte_of_char c < 0x80 \<and> \<not> is_whitespace [byte_of_char c]"

lemma str_trim_plain: "list_all plain s \<Longrightarrow> str_trim s = s"
  by (rule str_trim_ascii) (auto simp: plain_def ascii_def list_all_iff)

lemma base32_plain: "list_all plain (base32_encode bs)"
proof -
  obtain syms where "base32_encode_loop bs 0 0 = map ((!) BASE32_ALPHABET) syms" "\<forall>i \<in> set syms. i < 32"
    using encode_loop_bits [of 0 bs 0] by auto
  moreover have "list_all plain BASE32_ALPHABET" "length BASE32_ALPHABET = 32" by code_simp+
  ultimately show ?thesis by (auto simp: base32_encode_def list_all_iff)
qed

text \<open>A code is scanned as it was shown.\<close>

lemma str_trim_code: "list_all plain scheme \<Longrightarrow> str_trim (scheme @ base32_encode bs) = scheme @ base32_encode bs"
  by (rule str_trim_plain) (simp add: base32_plain)

section \<open>Where backups go\<close>

lemma split_on_nonempty: "split_on c s \<noteq> []"
  by (induction s) (auto split: list.split)

lemma split_on_sep: "split_on c (p @ c # q) = split_on c p @ split_on c q"
  by (induction p) (auto split: list.splits simp: split_on_nonempty)

lemma path_parts_join:
  assumes "CHR ''/'' \<notin> set q" "q \<noteq> []" "q \<noteq> ''.''"
  shows "path_parts (path_join p q) = path_parts p @ [q]"
proof -
  have "hd q \<in> set q" using assms(2) by (rule hd_in_set)
  then have q: "split_on CHR ''/'' q = [q]" "hd q \<noteq> CHR ''/''"
    using split_on_plain [OF assms(1)] assms(1) by auto
  show ?thesis
  proof (cases "p \<noteq> [] \<and> last p = CHR ''/''")
    case True
    then obtain p' where "p = p' @ [CHR ''/'']" by (metis append_butlast_last_id)
    then show ?thesis using q assms by (simp add: path_parts_def path_join_def split_on_sep)
  qed (use q assms in \<open>auto simp: path_parts_def path_join_def split_on_sep\<close>)
qed

lemma safe_backup_path_parts:
  assumes "safe_backup_path X canonical filename = Inr path"
  shows "\<exists>dir. canonical = Some dir \<and> path_parts path = path_parts dir @ [BACKUP_SUBDIR, str_trim filename] \<and> hd (str_trim filename) \<noteq> CHR ''.''"
proof -
  define t where "t = str_trim filename"
  obtain dir where d: "canonical = Some dir" "path = path_join (path_join dir BACKUP_SUBDIR) t"
      "t \<noteq> []" "CHR ''/'' \<notin> set t" "hd t \<noteq> CHR ''.''"
    using assms by (auto simp: safe_backup_path_def Let_def and_then_eq_Inr t_def split: if_splits)
  have "path_parts (path_join (path_join dir BACKUP_SUBDIR) t) = path_parts (path_join dir BACKUP_SUBDIR) @ [t]"
    using d(3-5) by (intro path_parts_join) auto
  moreover have "path_parts (path_join dir BACKUP_SUBDIR) = path_parts dir @ [BACKUP_SUBDIR]"
    by (rule path_parts_join) (simp_all add: BACKUP_SUBDIR_def)
  ultimately show ?thesis using d by (simp add: t_def)
qed

lemma guarded_write_changes:
  assumes "guarded_write io w path bytes fs = (r, fs')"
  shows "(\<forall>p. p \<noteq> path \<longrightarrow> fs' p = fs p) \<and> (r = Inr () \<longrightarrow> fs' path = Some bytes)"
  using assms by (cases "(w, path, bytes, fs)" rule: write_file.cases) (auto simp: guarded_write_def split: if_splits)

text \<open>C18: whatever name the user gives and however the file operations end, a backup changes at most the
  file of that name, without the spaces around it, directly under the backups of the data
  directory; and when it succeeds, this file opens under the passphrase to the seed of the side.\<close>
theorem backup_restores_seed:
  assumes "aead_laws C" "length (seed k) = 32" "length salt = 16" "length nonce = 12"
    and "write_seed_backup X C io w canonical (Some salt) (Some nonce) filename passphrase (Some k) fs = (r, fs')"
  shows "(\<forall>p. fs' p \<noteq> fs p \<longrightarrow> (\<exists>dir. canonical = Some dir \<and>
      path_parts p = path_parts dir @ [''backups'', str_trim filename] \<and> str_trim filename \<notin> {''.'', ''..''})) \<and>
    (\<forall>path. r = Inr path \<longrightarrow> (\<exists>sealed. fs' path = Some sealed \<and> open_seed C sealed passphrase = Inr (seed k)))"
proof (cases "\<exists>path sealed r'. safe_backup_path X canonical filename = Inr path \<and>
    seal_seed C (Some salt) (Some nonce) (seed k) passphrase = Inr sealed \<and>
    guarded_write io w path sealed fs = (r', fs') \<and> r = and_then r' (\<lambda>_. Inr path)")
  case True
  then obtain path sealed r' where p: "safe_backup_path X canonical filename = Inr path"
      "seal_seed C (Some salt) (Some nonce) (seed k) passphrase = Inr sealed"
      "guarded_write io w path sealed fs = (r', fs')" "r = and_then r' (\<lambda>_. Inr path)" by blast
  have "open_seed C sealed passphrase = Inr (seed k)"
    using p(2) assms(2-4) unfolding seal_seed_def open_seed_iff [OF assms(1)] by blast
  then show ?thesis
    using safe_backup_path_parts [OF p(1)] guarded_write_changes [OF p(3)] p(4)
    by (auto simp: and_then_eq_Inr BACKUP_SUBDIR_def)
next
  case False
  then have "fs' = fs \<and> (\<exists>e. r = Inl e)"
    using assms(5) by (cases "safe_backup_path X canonical filename"; cases "seal_seed C (Some salt) (Some nonce) (seed k) passphrase")
      (auto simp: write_seed_backup_def split: if_splits prod.splits, metis+)
  then show ?thesis by auto
qed

text \<open>A sample of the libraries.\<close>

definition sample_libs :: libs where
  "sample_libs = \<lparr>x_hex_encode = \<lambda>bs. concat (map byte_letters bs), x_hex_decode = \<lambda>s. Some (letters_bytes s),
     x_base64_decode = \<lambda>s. Some (text_bytes s), x_nfc = \<lambda>s. s, x_bech32 = sample_bech32, x_socket_addr = Some\<rparr>"

theorem backup_restores_seed_witness:
  "\<exists>sealed. write_seed_backup sample_libs sample_crypto (\<lambda>_. True) Written (Some ''/home/u'') (Some (replicate 16 1))
      (Some (replicate 12 2)) '' s.bin'' ''pw'' (Some \<lparr>seed = replicate 32 5, label = ''a''\<rparr>) Map.empty =
        (Inr ''/home/u/backups/s.bin'', [''/home/u/backups/s.bin'' \<mapsto> sealed]) \<and>
      open_seed sample_crypto sealed ''pw'' = Inr (replicate 32 5)"
proof -
  obtain sealed where sealed: "seal_seed sample_crypto (Some (replicate 16 1)) (Some (replicate 12 2)) (replicate 32 5) ''pw'' = Inr sealed"
    by (simp add: seal_seed_def seal_seed_with_def fill_random_def derive_kek_def sample_crypto_def default_argon2_def)
  have "safe_backup_path sample_libs (Some ''/home/u'') '' s.bin'' = Inr ''/home/u/backups/s.bin''"
    by code_simp
  then have w: "write_seed_backup sample_libs sample_crypto (\<lambda>_. True) Written (Some ''/home/u'') (Some (replicate 16 1))
      (Some (replicate 12 2)) '' s.bin'' ''pw'' (Some \<lparr>seed = replicate 32 5, label = ''a''\<rparr>) Map.empty =
        (Inr ''/home/u/backups/s.bin'', [''/home/u/backups/s.bin'' \<mapsto> sealed])"
    using sealed by (simp add: write_seed_backup_def guarded_write_def)
  show ?thesis using backup_restores_seed [OF sample_aead_laws _ _ _ w] w by auto
qed

end
