(* ===== verification/DesktopNode.thy ===== *)
theory DesktopNode
  imports DesktopText InboxStore Connections DirectService StorageService VerseServer
begin

text \<open>
  The desktop client around a running node, \<open>desktop/tauri/src/main.rs\<close>: starting and stopping,
  the inbox, profiles and contacts, pairing, media. One data directory is modelled, with its
  database, inbox table, object store and files. The clock, the outcome of network calls and of
  database and file operations are arguments; what a command sends is part of its result. The
  functions of \<open>Node\<close> the client calls (\<open>start\<close>, \<open>add_side\<close>, \<open>accept_pairing\<close>) are modelled here as
  far as they concern the hosted sides.
\<close>

section \<open>State\<close>

text \<open>A node: its sides and their endpoints, the states of the sides, the verses registered with the
  services of the first side, and the number of background tasks that hold the node.\<close>

record desk_node =
  nd_dialer :: dialer
  nd_states :: "(byte list \<times> side_state) list"
  nd_verses :: verse_node
  nd_tasks :: nat

record desktop =
  dk_node :: "desk_node option"
  dk_stray :: "desk_node list"
  dk_sessions :: "(string \<times> session) list"
  dk_inbox_open :: bool
  dk_inbox :: inbox_table
  dk_db :: side_store
  dk_db_exists :: bool
  dk_objects :: object_store
  dk_files :: files

record node_info =
  ni_side_address :: string
  ni_side_address_hex :: string
  ni_listen_addr :: string

definition SETTING_ONBOARDING_COMPLETED :: string where "SETTING_ONBOARDING_COMPLETED = ''onboarding_completed''"
definition SETTING_LAST_ACTIVE_SIDE :: string where "SETTING_LAST_ACTIVE_SIDE = ''last_active_side''"

section \<open>Settings\<close>

definition is_onboarded :: "(nat \<Rightarrow> bool) \<Rightarrow> desktop \<Rightarrow> bool ui_result" where
  "is_onboarded io d =
     (if \<not> dk_db_exists d then Inr False
      else if \<not> io 0 then Inl ''opening side store''
      else if \<not> io 1 then Inl ''read setting''
      else Inr (get_setting SETTING_ONBOARDING_COMPLETED (dk_db d) = Some ''true''))"

definition set_setting_cmd :: "(nat \<Rightarrow> bool) \<Rightarrow> string \<Rightarrow> string \<Rightarrow> desktop \<Rightarrow> unit ui_result \<times> desktop" where
  "set_setting_cmd io key v d =
     (if \<not> io 0 then (Inl ''data_dir'', d)
      else if \<not> io 1 then (Inl ''opening side store'', d)
      else let d = d\<lparr>dk_db_exists := True\<rparr> in
        if \<not> io 2 then (Inl ''write setting'', d) else (Inr (), d\<lparr>dk_db := set_setting key v (dk_db d)\<rparr>))"

definition complete_onboarding :: "(nat \<Rightarrow> bool) \<Rightarrow> desktop \<Rightarrow> unit ui_result \<times> desktop" where
  "complete_onboarding io d = set_setting_cmd io SETTING_ONBOARDING_COMPLETED ''true'' d"

definition get_setting_cmd :: "(nat \<Rightarrow> bool) \<Rightarrow> string \<Rightarrow> desktop \<Rightarrow> string option ui_result" where
  "get_setting_cmd io key d =
     (if \<not> dk_db_exists d then Inr None
      else if \<not> io 0 then Inl ''opening side store''
      else if \<not> io 1 then Inl ''read setting''
      else Inr (get_setting key (dk_db d)))"

section \<open>Nodes\<close>

definition no_verses :: "side_key \<Rightarrow> verse_node" where
  "no_verses k = \<lparr>vn_side = k, vn_heap = Map.empty, vn_hosted = [], vn_posts_received = 0\<rparr>"

text \<open>\<open>io\<close>: the stores open, the row of the side is written, the journal opens.\<close>

definition node_start :: "crypto \<Rightarrow> side_key \<Rightarrow> string net_result \<Rightarrow> u64 \<Rightarrow> (nat \<Rightarrow> bool) \<Rightarrow> side_store \<Rightarrow>
    desk_node net_result \<times> side_store" where
  "node_start C k listen now io db = (case listen of
     Inl e \<Rightarrow> (Inl e, db)
   | Inr addr \<Rightarrow>
       if \<not> io 0 then (Inl (NetSqlite ''open''), db)
       else (case load_or_create C k (Some (label k)) now (io 1) db of
         Inl e \<Rightarrow> (Inl e, db)
       | Inr s \<Rightarrow>
           if \<not> io 2 then (Inl (NetSqlite ''journal''), sd_store s)
           else (Inr \<lparr>nd_dialer = \<lparr>dl_side = sd_address s, dl_extras = [], dl_listen_addr = addr, dl_pool = [], dl_peers = peer_table_new DEFAULT_MAX_PEERS\<rparr>,
                      nd_states = [(sd_address s, s)], nd_verses = no_verses k, nd_tasks = 0\<rparr>, sd_store s)))"

definition node_add_side :: "crypto \<Rightarrow> side_key \<Rightarrow> string net_result \<Rightarrow> u64 \<Rightarrow> bool \<Rightarrow> desk_node \<Rightarrow> side_store \<Rightarrow>
    (side_state \<times> string) net_result \<times> desk_node \<times> side_store" where
  "node_add_side C k listen now ok n db = (case listen of
     Inl e \<Rightarrow> (Inl e, n, db)
   | Inr addr \<Rightarrow> (case load_or_create C k (Some (label k)) now ok db of
         Inl e \<Rightarrow> (Inl e, n, db)
       | Inr s \<Rightarrow> (Inr (s, addr),
           n\<lparr>nd_dialer := (nd_dialer n)\<lparr>dl_extras := dl_extras (nd_dialer n) @ [(sd_address s, addr)]\<rparr>,
             nd_states := nd_states n @ [(sd_address s, s)]\<rparr>, sd_store s)))"

text \<open>The verses served at the endpoint of a hosted side. \<open>add_side\<close> gives a further side a table of
  its own, and \<open>host_verse\<close> registers with the first side only.\<close>

definition served_verses :: "byte list \<Rightarrow> desk_node \<Rightarrow> verse_node option" where
  "served_verses address n =
     (if dl_side (nd_dialer n) = address then Some (nd_verses n)
      else if address \<in> fst ` set (dl_extras (nd_dialer n))
      then map_option (\<lambda>s. no_verses (sd_key s)) (map_of (nd_states n) address) else None)"

definition node_host_verse :: "crypto \<Rightarrow> handle \<Rightarrow> verse_host \<Rightarrow> desk_node \<Rightarrow> desk_node" where
  "node_host_verse C a h n = n\<lparr>nd_verses := host_verse C a h (nd_verses n)\<rparr>"

section \<open>Starting and stopping\<close>

definition clean_label :: "string \<Rightarrow> string \<Rightarrow> string" where
  "clean_label fallback lbl = (if str_trim lbl = [] then fallback else str_trim lbl)"

text \<open>A fresh side of a fresh master key.\<close>

definition fresh_side :: "crypto \<Rightarrow> byte list option \<Rightarrow> string \<Rightarrow> side_key ui_result" where
  "fresh_side C rnd lbl = and_then (ui ''csprng'' (fill_random rnd)) (\<lambda>master. Inr (derive_side C master lbl))"

text \<open>Opening the inbox and starting the two tasks that drain the queues of the node.\<close>

definition open_inbox :: "bool \<Rightarrow> desktop \<Rightarrow> unit ui_result \<times> desktop" where
  "open_inbox ok d =
     (if \<not> ok then (Inl ''inbox open'', d)
      else (Inr (), d\<lparr>dk_inbox_open := True, dk_node := map_option (\<lambda>n. n\<lparr>nd_tasks := nd_tasks n + 2\<rparr>) (dk_node d)\<rparr>))"

definition info_of :: "libs \<Rightarrow> byte list \<Rightarrow> desk_node \<Rightarrow> node_info" where
  "info_of X address n = \<lparr>ni_side_address = address_text X Side address, ni_side_address_hex = x_hex_encode X address,
     ni_listen_addr = dl_listen_addr (nd_dialer n)\<rparr>"

definition start_node :: "libs \<Rightarrow> crypto \<Rightarrow> byte list option \<Rightarrow> string net_result \<Rightarrow> u64 \<Rightarrow> (nat \<Rightarrow> bool) \<Rightarrow> (nat \<Rightarrow> bool) \<Rightarrow>
    string \<Rightarrow> desktop \<Rightarrow> node_info ui_result \<times> desktop" where
  "start_node X C rnd listen now io nio side_label d =
     (if dk_node d \<noteq> None then (Inl ''node already running - stop it first'', d)
      else if \<not> io 0 then (Inl ''data_dir'', d)
      else (case fresh_side C rnd (clean_label ''work'' side_label) of
        Inl e \<Rightarrow> (Inl e, d)
      | Inr k \<Rightarrow> (case node_start C k listen now nio (dk_db d) of (r, db) \<Rightarrow>
          let d = d\<lparr>dk_db := db, dk_db_exists := dk_db_exists d \<or> (\<not> isl listen \<and> nio 0)\<rparr> in
          (case r of
            Inl _ \<Rightarrow> (Inl ''Node::start'', d)
          | Inr n \<Rightarrow> (case open_inbox (io 1) (d\<lparr>dk_node := Some n\<rparr>) of (r, d) \<Rightarrow>
              (and_then r (\<lambda>_. Inr (info_of X (public_bytes C k) n)), d))))))"

text \<open>The side that \<open>auto_start_node\<close> starts first.\<close>

definition choose_active :: "libs \<Rightarrow> string option \<Rightarrow> stored_side list \<Rightarrow> stored_side option" where
  "choose_active X last_active sides =
     (case Option.bind last_active (\<lambda>s. case decode_side_address X s of
         Inl _ \<Rightarrow> None | Inr pk \<Rightarrow> find (\<lambda>row. ss_address row = pk) sides) of
        Some row \<Rightarrow> Some row
      | None \<Rightarrow> find (\<lambda>row. \<not> ss_is_self_retired row) sides)"

definition stored_key :: "stored_side \<Rightarrow> side_key" where
  "stored_key row = \<lparr>seed = ss_seed row, label = (case ss_label row of Some l \<Rightarrow> l | None \<Rightarrow> ''(restored)'')\<rparr>"

text \<open>The \<open>i\<close>-th row gets the outcome \<open>listens i\<close> and \<open>oks i\<close>; a failure is skipped.\<close>

fun rehost :: "crypto \<Rightarrow> (nat \<Rightarrow> string net_result) \<Rightarrow> u64 \<Rightarrow> (nat \<Rightarrow> bool) \<Rightarrow> byte list \<Rightarrow> nat \<Rightarrow> stored_side list \<Rightarrow>
    desk_node \<times> side_store \<Rightarrow> desk_node \<times> side_store" where
  "rehost C listens now oks active i [] s = s"
| "rehost C listens now oks active i (row # rows) s =
     rehost C listens now oks active (Suc i) rows
       (if ss_address row = active \<or> ss_is_self_retired row then s
        else snd (node_add_side C (stored_key row) (listens i) now (oks i) (fst s) (snd s)))"

definition auto_start_node :: "libs \<Rightarrow> crypto \<Rightarrow> string net_result \<Rightarrow> (nat \<Rightarrow> string net_result) \<Rightarrow> u64 \<Rightarrow> (nat \<Rightarrow> bool) \<Rightarrow>
    (nat \<Rightarrow> bool) \<Rightarrow> (nat \<Rightarrow> bool) \<Rightarrow> desktop \<Rightarrow> node_info ui_result \<times> desktop" where
  "auto_start_node X C listen listens now io nio oks d =
     (if dk_node d \<noteq> None then (Inl ''node already running - stop it first'', d)
      else if \<not> io 0 then (Inl ''opening side store'', d)
      else let d = d\<lparr>dk_db_exists := True\<rparr>; sides = list_sides (dk_db d) in
        if \<not> io 1 then (Inl ''list sides'', d)
        else if sides = [] then (Inl ''no persisted sides - run the onboarding wizard first'', d)
        else if \<not> io 2 then (Inl ''read last_active_side'', d)
        else (case choose_active X (get_setting SETTING_LAST_ACTIVE_SIDE (dk_db d)) sides of
          None \<Rightarrow> (Inl ''every persisted side is retired'', d)
        | Some active \<Rightarrow> (case node_start C (stored_key active) listen now nio (dk_db d) of
            (Inl _, db) \<Rightarrow> (Inl ''Node::start'', d\<lparr>dk_db := db\<rparr>)
          | (Inr n, db) \<Rightarrow> (case rehost C listens now oks (ss_address active) 0 sides (n, db) of (n, db) \<Rightarrow>
              (case open_inbox (io 3) (d\<lparr>dk_db := db, dk_node := Some n\<rparr>) of
                (Inl e, d) \<Rightarrow> (Inl e, d)
              | (Inr _, d) \<Rightarrow>
                  (Inr (info_of X (ss_address active) n),
                   if io 4 then d\<lparr>dk_db := set_setting SETTING_LAST_ACTIVE_SIDE (address_text X Side (ss_address active)) (dk_db d)\<rparr>
                   else d))))))"

text \<open>A node that a task still holds is not shut down: it goes on in the background.\<close>

definition stop_node :: "desktop \<Rightarrow> desktop" where
  "stop_node d = (let d = d\<lparr>dk_sessions := [], dk_inbox_open := False\<rparr> in
     case dk_node d of
       None \<Rightarrow> d
     | Some n \<Rightarrow> d\<lparr>dk_node := None, dk_stray := (if nd_tasks n = 0 then dk_stray d else n # dk_stray d)\<rparr>)"

section \<open>What arrives\<close>

definition drain_dm :: "libs \<Rightarrow> u64 option \<Rightarrow> bool \<Rightarrow> envelope \<Rightarrow> byte list \<Rightarrow> desktop \<Rightarrow> inbox_dm \<times> desktop" where
  "drain_dm X clock sql env plaintext d = (let now = now_or_log_zero clock in
     (build_inbox_dm X (address_text X Side (env_from env))
        (case env_to env of Some a \<Rightarrow> address_text X Side a | None \<Rightarrow> []) plaintext now,
      case env_to env of
        None \<Rightarrow> d
      | Some recipient \<Rightarrow> d\<lparr>dk_inbox := inbox_insert sql
          \<lparr>ib_to = recipient, ib_from = env_from env, ib_nonce = env_nonce env, ib_wire_envelope = to_wire_bytes env,
           ib_plaintext = plaintext, ib_received_at = now\<rparr> (dk_inbox d)\<rparr>))"

record verse_post_event =
  ve_verse :: string
  ve_from :: string
  ve_plaintext :: string
  ve_received_at :: u64

definition drain_post :: "libs \<Rightarrow> u64 option \<Rightarrow> envelope \<Rightarrow> byte list \<Rightarrow> verse_post_event" where
  "drain_post X clock env plaintext =
     \<lparr>ve_verse = address_text X Verse (case env_to env of Some a \<Rightarrow> a | None \<Rightarrow> replicate 32 0),
      ve_from = address_text X Side (env_from env), ve_plaintext = from_utf8_lossy plaintext,
      ve_received_at = now_or_log_zero clock\<rparr>"

definition load_inbox_history :: "libs \<Rightarrow> bool \<Rightarrow> string \<Rightarrow> desktop \<Rightarrow> inbox_dm list ui_result" where
  "load_inbox_history X sql side_address d =
     (if \<not> dk_inbox_open d then Inl ''node not started''
      else and_then (decode_side_address X side_address) (\<lambda>pk.
        and_then (ui ''inbox list'' (inbox_list_for sql pk (dk_inbox d))) (\<lambda>entries.
        Inr (map (\<lambda>e. build_inbox_dm X (address_text X Side (ib_from e)) (address_text X Side (ib_to e))
               (ib_plaintext e) (ib_received_at e)) entries))))"

section \<open>Sides, profiles and contacts\<close>

definition running :: "desktop \<Rightarrow> desk_node ui_result" where
  "running d = require ''node not started'' (dk_node d)"

definition connect_peer :: "libs \<Rightarrow> u64 \<Rightarrow> nat net_result \<Rightarrow> (nat \<Rightarrow> session net_result) \<Rightarrow> string \<Rightarrow> string \<Rightarrow> desktop \<Rightarrow>
    (string \<times> string) ui_result \<times> desktop" where
  "connect_peer X now connect handshake from_side peer_addr d = (case dk_node d of
     None \<Rightarrow> (Inl ''node not started'', d)
   | Some n \<Rightarrow>
     (case and_then (require ''address'' (x_socket_addr X (str_trim peer_addr))) (\<lambda>addr.
           and_then (decode_side_address X from_side) (\<lambda>pk. Inr (addr, pk))) of
        Inl e \<Rightarrow> (Inl e, d)
      | Inr (addr, pk) \<Rightarrow> (case dial_from now pk addr IntentDirect connect handshake (nd_dialer n) of (r, dl) \<Rightarrow>
          let d = d\<lparr>dk_node := Some (n\<lparr>nd_dialer := dl\<rparr>)\<rparr> in
          (case r of
             Inl _ \<Rightarrow> (Inl ''dial'', d)
           | Inr s \<Rightarrow> (Inr (from_side, address_text X Side (ses_peer_side s)),
               d\<lparr>dk_sessions := AList.update from_side s (dk_sessions d)\<rparr>)))))"

definition add_side_cmd :: "libs \<Rightarrow> crypto \<Rightarrow> byte list option \<Rightarrow> string net_result \<Rightarrow> u64 \<Rightarrow> bool \<Rightarrow> string \<Rightarrow> desktop \<Rightarrow>
    (string \<times> string) ui_result \<times> desktop" where
  "add_side_cmd X C rnd listen now ok lbl d = (case dk_node d of
     None \<Rightarrow> (Inl ''node not started'', d)
   | Some n \<Rightarrow> (case fresh_side C rnd (clean_label ''extra'' lbl) of
       Inl e \<Rightarrow> (Inl e, d)
     | Inr k \<Rightarrow> (case node_add_side C k listen now ok n (dk_db d) of (r, n, db) \<Rightarrow>
         (and_then (ui ''add_side'' r) (\<lambda>(s, addr). Inr (address_text X Side (sd_address s), addr)),
          d\<lparr>dk_node := Some n, dk_db := db\<rparr>))))"

record hosted_side_view =
  hv_side_address :: string
  hv_listen_addr :: string
  hv_lifecycle :: string
  hv_is_retired :: bool

definition list_sides_cmd :: "libs \<Rightarrow> desktop \<Rightarrow> hosted_side_view list ui_result" where
  "list_sides_cmd X d = and_then (running d) (\<lambda>n. Inr (map (\<lambda>(a, s).
     \<lparr>hv_side_address = address_text X Side a,
      hv_listen_addr = (case side_listen_addr a (nd_dialer n) of Some l \<Rightarrow> l | None \<Rightarrow> ''(unknown)''),
      hv_lifecycle = lifecycle_label (sd_lifecycle s), hv_is_retired = (sd_lifecycle s = Retired)\<rparr>) (nd_states n)))"

definition hosted_state :: "libs \<Rightarrow> string \<Rightarrow> desktop \<Rightarrow> side_state ui_result" where
  "hosted_state X side_address d = and_then (running d) (\<lambda>n.
     and_then (decode_side_address X side_address) (\<lambda>pk.
     require ''side not hosted on this node'' (map_of (nd_states n) pk)))"

text \<open>A command that changes a hosted side. All sides share the database.\<close>

definition on_side :: "libs \<Rightarrow> string \<Rightarrow> (side_state \<Rightarrow> 'a ui_result \<times> side_state) \<Rightarrow> desktop \<Rightarrow> 'a ui_result \<times> desktop" where
  "on_side X side_address f d = (case hosted_state X side_address d of
     Inl e \<Rightarrow> (Inl e, d)
   | Inr s \<Rightarrow> (case f (s\<lparr>sd_store := dk_db d\<rparr>) of (r, s) \<Rightarrow>
       (r, d\<lparr>dk_db := sd_store s,
             dk_node := map_option (\<lambda>n. n\<lparr>nd_states := AList.update (sd_address s) s (nd_states n)\<rparr>) (dk_node d)\<rparr>)))"

record profile_view =
  pv_name :: "string option"
  pv_bio :: "string option"
  pv_capabilities :: "string list"
  pv_updated_at :: u64

definition get_profile :: "libs \<Rightarrow> string \<Rightarrow> desktop \<Rightarrow> profile_view option ui_result" where
  "get_profile X side_address d = and_then (hosted_state X side_address d) (\<lambda>s.
     Inr (map_option (\<lambda>p. \<lparr>pv_name = pf_name p, pv_bio = pf_bio p, pv_capabilities = pf_capabilities p,
       pv_updated_at = pf_updated_at p\<rparr>) (sd_profile s)))"

definition set_profile_cmd :: "libs \<Rightarrow> crypto \<Rightarrow> u64 option \<Rightarrow> bool \<Rightarrow> string \<Rightarrow> string option \<Rightarrow> string option \<Rightarrow> string list \<Rightarrow>
    desktop \<Rightarrow> unit ui_result \<times> desktop" where
  "set_profile_cmd X C clock ok side_address name bio capabilities d = on_side X side_address (\<lambda>s.
     (Inr (), set_profile ok (profile_sign C (sd_key s) name None bio None None (fold set_insert capabilities [])
        (now_or_log_zero clock)) s)) d"

record relationship_view =
  rv_address :: string
  rv_nickname :: "string option"
  rv_capabilities :: "string list"
  rv_notes :: "string option"
  rv_pinned :: bool
  rv_added_at :: u64
  rv_peer_listen_addr :: "string option"

definition list_relationships_cmd :: "libs \<Rightarrow> string \<Rightarrow> desktop \<Rightarrow> relationship_view list ui_result" where
  "list_relationships_cmd X side_address d = and_then (hosted_state X side_address d) (\<lambda>s.
     Inr (map (\<lambda>r. \<lparr>rv_address = address_text X Side (sr_address r), rv_nickname = sr_nickname r,
       rv_capabilities = sr_capabilities r, rv_notes = sr_notes r, rv_pinned = sr_pinned r, rv_added_at = sr_added_at r,
       rv_peer_listen_addr = sr_peer_listen_addr r\<rparr>) (rel_list (sd_relationships s))))"

definition new_contact :: "byte list \<Rightarrow> string option \<Rightarrow> string list \<Rightarrow> u64 \<Rightarrow> string option \<Rightarrow> side_relationship" where
  "new_contact peer nickname capabilities now peer_listen_addr = \<lparr>sr_address = peer, sr_nickname = nickname, sr_introduced_by = None,
     sr_capabilities = fold set_insert capabilities [], sr_notes = None, sr_pinned = False, sr_added_at = now,
     sr_peer_listen_addr = peer_listen_addr\<rparr>"

definition add_relationship_cmd :: "libs \<Rightarrow> u64 option \<Rightarrow> bool \<Rightarrow> string \<Rightarrow> string \<Rightarrow> string option \<Rightarrow> string list \<Rightarrow> string option \<Rightarrow>
    desktop \<Rightarrow> unit ui_result \<times> desktop" where
  "add_relationship_cmd X clock ok side_address peer_address nickname capabilities peer_listen_addr d = on_side X side_address (\<lambda>s.
     case decode_side_address X peer_address of
       Inl e \<Rightarrow> (Inl e, s)
     | Inr peer \<Rightarrow> (Inr (), add_relationship ok
         (new_contact peer nickname capabilities (now_or_log_zero clock) peer_listen_addr) s)) d"

definition update_relationship_endpoint :: "libs \<Rightarrow> bool \<Rightarrow> string \<Rightarrow> string \<Rightarrow> string \<Rightarrow> desktop \<Rightarrow> unit ui_result \<times> desktop" where
  "update_relationship_endpoint X ok side_address peer_address peer_listen_addr d = on_side X side_address (\<lambda>s.
     let addr = str_trim peer_listen_addr in
     case decode_side_address X peer_address of
       Inl e \<Rightarrow> (Inl e, s)
     | Inr peer \<Rightarrow>
         if addr = [] then (Inl ''peer_listen_addr cannot be empty'', s)
         else if x_socket_addr X addr = None then (Inl ''address'', s)
         else (case update_relationship ok peer (\<lambda>r. r\<lparr>sr_peer_listen_addr := Some addr\<rparr>) s of
             (None, s) \<Rightarrow> (Inl ''no such relationship for this side'', s)
           | (Some _, s) \<Rightarrow> (Inr (), s))) d"

definition remove_relationship_cmd :: "libs \<Rightarrow> bool \<Rightarrow> string \<Rightarrow> string \<Rightarrow> desktop \<Rightarrow> unit ui_result \<times> desktop" where
  "remove_relationship_cmd X ok side_address peer_address d = on_side X side_address (\<lambda>s.
     case decode_side_address X peer_address of
       Inl e \<Rightarrow> (Inl e, s)
     | Inr peer \<Rightarrow> (Inr (), remove_relationship ok peer s)) d"

text \<open>The operations of a node on one of its sides, as the direct service models them.\<close>

definition on_direct :: "(direct_node \<Rightarrow> ('a \<times> direct_node) net_result) \<Rightarrow> side_state \<Rightarrow> 'a ui_result \<times> side_state" where
  "on_direct f s = (case f \<lparr>dn_side = sd_key s, dn_state = s, dn_gate = gate_new, dn_dm_received = 0, dn_linkage_received = 0\<rparr> of
     Inl _ \<Rightarrow> (Inl ''node'', s) | Inr (a, n) \<Rightarrow> (Inr a, dn_state n))"

definition retire_side_cmd :: "libs \<Rightarrow> crypto \<Rightarrow> u64 option \<Rightarrow> bool \<Rightarrow> string \<Rightarrow> string option \<Rightarrow> desktop \<Rightarrow>
    (string \<times> u64) ui_result \<times> desktop" where
  "retire_side_cmd X C clock ok side_address reason d = (case on_side X side_address (on_direct (retire_side C clock ok reason)) d of
     (r, d) \<Rightarrow> (and_then r (\<lambda>rec. Inr (address_text X Side (rt_side rec), rt_retired_at rec)), d))"

section \<open>Codes\<close>

definition generate_pairing_code :: "libs \<Rightarrow> crypto \<Rightarrow> u64 option \<Rightarrow> byte list option \<Rightarrow> string \<Rightarrow> desktop \<Rightarrow> string ui_result \<times> desktop" where
  "generate_pairing_code X C clock rnd side_address d = (case running d of
     Inl e \<Rightarrow> (Inl e, d)
   | Inr n \<Rightarrow> (case on_side X side_address (\<lambda>s. case side_listen_addr (sd_address s) (nd_dialer n) of
           None \<Rightarrow> (Inl ''node'', s)
         | Some listen \<Rightarrow> on_direct (generate_pairing_qr C listen clock rnd) s) d of
       (r, d) \<Rightarrow> (and_then r (\<lambda>qr. Inr (encode_pairing_qr qr)), d)))"

definition generate_contact_code :: "libs \<Rightarrow> string \<Rightarrow> desktop \<Rightarrow> string ui_result" where
  "generate_contact_code X side_address d = and_then (running d) (\<lambda>n.
     and_then (hosted_state X side_address d) (\<lambda>s.
     and_then (require ''side has no listen address'' (side_listen_addr (sd_address s) (nd_dialer n))) (\<lambda>dial_addr.
     Inr (encode_contact_card \<lparr>cc_side = sd_address s, cc_dial_addr = dial_addr,
       cc_display_name = Option.bind (sd_profile s) pf_name, cc_side_label = sd_label s\<rparr>))))"

definition accept_contact_qr :: "libs \<Rightarrow> u64 option \<Rightarrow> bool \<Rightarrow> string \<Rightarrow> string \<Rightarrow> desktop \<Rightarrow> contact_card ui_result \<times> desktop" where
  "accept_contact_qr X clock ok side_address qr_uri d = (case dk_node d of
     None \<Rightarrow> (Inl ''node not started'', d)
   | Some _ \<Rightarrow> (case parse_contact_card (str_trim qr_uri) of
       Inl _ \<Rightarrow> (Inl ''parse contact QR'', d)
     | Inr scanned \<Rightarrow> on_side X side_address (\<lambda>s.
         if sd_address s = cc_side scanned then (Inl ''can't add yourself as a contact'', s)
         else (Inr scanned, add_relationship ok (new_contact (cc_side scanned) (cc_display_name scanned) [''direct-message'']
           (now_or_log_zero clock) (Some (cc_dial_addr scanned))) s)) d))"

text \<open>\<open>accept_pairing\<close>: a fresh device key dials the address of the code; the answer to its request is
  an argument. The side is installed before its state is replayed into it. The result has the
  request, and what is pushed to the other devices.\<close>

definition accept_pairing :: "libs \<Rightarrow> crypto \<Rightarrow> byte list option \<Rightarrow> session net_result \<Rightarrow> u64 option \<Rightarrow> byte list option \<Rightarrow>
    envelope net_result \<Rightarrow> string net_result \<Rightarrow> bool \<Rightarrow> pairing_qr \<Rightarrow> desk_node \<Rightarrow> side_store \<Rightarrow>
    (side_state \<times> string \<times> (envelope \<times> byte list) \<times> (byte list \<times> string \<times> byte list) list) net_result \<times> desk_node \<times> side_store" where
  "accept_pairing X C rnd_master dialled clock rnd resp listen ok qr n db =
     (case and_then (core (fill_random rnd_master)) (\<lambda>master. let device = derive_side C master ''pairing'' in
           and_then (case x_socket_addr X (qp_dial_addr qr) of None \<Rightarrow> Inl (NetInvariant ''accept_pairing: bad dial address'') | Some _ \<Rightarrow> Inr ()) (\<lambda>_.
           and_then dialled (\<lambda>ses.
           and_then (pairing_query C ses device qr clock rnd) (\<lambda>sent.
           and_then resp (\<lambda>resp.
           and_then (open_pairing_bundle C device qr resp) (\<lambda>(k, inner). Inr (device, k, inner, sent))))))) of
        Inl e \<Rightarrow> (Inl e, n, db)
      | Inr (device, k, inner, sent) \<Rightarrow>
        (case node_add_side C k listen (now_or_log_zero clock) ok n db of
          (Inl e, n, db) \<Rightarrow> (Inl e, n, db)
        | (Inr (s, addr), n, db) \<Rightarrow>
          (case replay_bundle C (public_bytes C device) qr (now_or_log_zero clock) inner s of
            Inl e \<Rightarrow> (Inl e, n, db)
          | Inr s \<Rightarrow> (Inr (s, addr, sent, push_delta_to_co_holders C clock [DeltaCoHolderAdded (public_bytes C device) addr]
                \<lparr>dn_side = k, dn_state = s, dn_gate = gate_new, dn_dm_received = 0, dn_linkage_received = 0\<rparr>),
              n\<lparr>nd_states := AList.update (sd_address s) s (nd_states n)\<rparr>, sd_store s))))"

definition accept_pairing_qr :: "libs \<Rightarrow> crypto \<Rightarrow> byte list option \<Rightarrow> session net_result \<Rightarrow> u64 option \<Rightarrow> byte list option \<Rightarrow>
    envelope net_result \<Rightarrow> string net_result \<Rightarrow> bool \<Rightarrow> string \<Rightarrow> desktop \<Rightarrow> (string \<times> string) ui_result \<times> desktop" where
  "accept_pairing_qr X C rnd_master dialled clock rnd resp listen ok qr_uri d = (case dk_node d of
     None \<Rightarrow> (Inl ''node not started'', d)
   | Some n \<Rightarrow> (case parse_pairing_qr (str_trim qr_uri) of
       Inl _ \<Rightarrow> (Inl ''parse QR'', d)
     | Inr qr \<Rightarrow> (case accept_pairing X C rnd_master dialled clock rnd resp listen ok qr n (dk_db d) of (r, n, db) \<Rightarrow>
         (and_then (ui ''accept_pairing'' r) (\<lambda>(s, addr, _). Inr (address_text X Side (sd_address s), addr)),
          d\<lparr>dk_node := Some n, dk_db := db\<rparr>))))"

end
