(* ===== verification/DesktopMedia.thy ===== *)
theory DesktopMedia
  imports DesktopNode StorageSafety
begin

text \<open>
  Messages and media of the desktop client, \<open>desktop/tauri/src/main.rs\<close>: the text command, the
  checks on images and voice notes, sending them as a reference, and fetching the bytes into the
  media cache. What is sent is part of the result.
\<close>

section \<open>Sending\<close>

definition session_of :: "string \<Rightarrow> desktop \<Rightarrow> session ui_result" where
  "session_of from_side d = require ''no peer connected from side'' (map_of (dk_sessions d) from_side)"

definition send_dm_live :: "libs \<Rightarrow> crypto \<Rightarrow> u64 option \<Rightarrow> byte list option \<Rightarrow> string \<Rightarrow> string \<Rightarrow> desktop \<Rightarrow>
    (envelope \<times> byte list) ui_result" where
  "send_dm_live X C clock rnd from_side txt d = and_then (hosted_state X from_side d) (\<lambda>s.
     and_then (session_of from_side d) (\<lambda>ses. ui ''send_dm'' (send_dm C ses (sd_key s) (text_bytes txt) clock rnd)))"

definition MEDIA_CACHE_SUBDIR :: string where "MEDIA_CACHE_SUBDIR = ''media-cache''"
definition MEDIA_MAX_BYTES :: nat where "MEDIA_MAX_BYTES = 10 * 1024 * 1024"
definition PNG_MAGIC :: "byte list" where "PNG_MAGIC = [0x89, 0x50, 0x4E, 0x47, 0x0D, 0x0A, 0x1A, 0x0A]"
definition WEBM_MAGIC :: "byte list" where "WEBM_MAGIC = [0x1A, 0x45, 0xDF, 0xA3]"
definition OGG_MAGIC :: "byte list" where "OGG_MAGIC = [0x4F, 0x67, 0x67, 0x53]"

definition validate_image_bytes :: "byte list \<Rightarrow> string ui_result" where
  "validate_image_bytes bytes =
     (if bytes = [] then Inl ''image: empty''
      else if MEDIA_MAX_BYTES < length bytes then Inl ''image: too large''
      else if 3 \<le> length bytes \<and> take 3 bytes = JPEG_MAGIC then Inr ''image/jpeg''
      else if 8 \<le> length bytes \<and> take 8 bytes = PNG_MAGIC then Inr ''image/png''
      else Inl ''image: only JPEG or PNG accepted'')"

definition validate_voice_bytes :: "byte list \<Rightarrow> string ui_result" where
  "validate_voice_bytes bytes =
     (if bytes = [] then Inl ''voice: empty''
      else if MEDIA_MAX_BYTES < length bytes then Inl ''voice: too large''
      else if 4 \<le> length bytes \<and> take 4 bytes = WEBM_MAGIC then Inr ''audio/webm''
      else if 4 \<le> length bytes \<and> take 4 bytes = OGG_MAGIC then Inr ''audio/ogg''
      else Inl ''voice: only WebM/Ogg containers accepted'')"

definition check_media :: "string \<Rightarrow> byte list \<Rightarrow> (string \<times> direct_kind) ui_result" where
  "check_media kind bytes =
     (if kind = ''image'' then and_then (validate_image_bytes bytes) (\<lambda>mime. Inr (mime, KindImage))
      else if kind = ''voice'' then and_then (validate_voice_bytes bytes) (\<lambda>mime. Inr (mime, KindVoice))
      else Inl ''unknown media kind'')"

text \<open>The payload of a message that carries a reference.\<close>

definition media_payload :: "direct_kind \<Rightarrow> reference \<Rightarrow> byte list" where
  "media_payload kind ref = encode_direct_message
     \<lparr>dm_kind = kind, dm_body = BodyReference (encode_reference ref), dm_reply_to = None, dm_thread = None\<rparr>"

text \<open>The object is stored before the session is looked up, and stays when the sending fails.\<close>

definition send_dm_media :: "libs \<Rightarrow> crypto \<Rightarrow> u64 \<Rightarrow> u64 option \<Rightarrow> byte list option \<Rightarrow> bool \<Rightarrow> write_outcome \<Rightarrow> bool \<Rightarrow>
    string \<Rightarrow> string \<Rightarrow> string \<Rightarrow> desktop \<Rightarrow> ((string \<times> u64 \<times> string) \<times> envelope \<times> byte list) ui_result \<times> desktop" where
  "send_dm_media X C now clock rnd open_ok w sql from_side kind media_b64 d =
     (case and_then (require ''media: bad base64'' (x_base64_decode X media_b64)) (\<lambda>bytes.
           and_then (check_media kind bytes) (\<lambda>(mime, direct_kind).
           and_then (hosted_state X from_side d) (\<lambda>s.
           if \<not> open_ok then Inl ''object store'' else Inr (bytes, mime, direct_kind, s)))) of
        Inl e \<Rightarrow> (Inl e, d)
      | Inr (bytes, mime, direct_kind, s) \<Rightarrow>
          (case put_object C now w sql bytes (dk_objects d) of
             (Inl _, store) \<Rightarrow> (Inl ''object put'', d\<lparr>dk_objects := store\<rparr>)
           | (Inr hash, store) \<Rightarrow> let d = d\<lparr>dk_objects := store\<rparr>; sz = word_of_nat (length bytes) in
               (and_then (session_of from_side d) (\<lambda>ses.
                and_then (ui ''send_dm'' (send_dm C ses (sd_key s) (media_payload direct_kind (reference_new hash sz mime)) clock rnd))
                  (\<lambda>sent. Inr ((x_hex_encode X hash, sz, mime), sent))), d)))"

section \<open>Fetching\<close>

definition media_path :: "libs \<Rightarrow> string \<Rightarrow> byte list \<Rightarrow> string" where
  "media_path X data_dir hash = path_join (path_join data_dir MEDIA_CACHE_SUBDIR) (x_hex_encode X hash @ ''.bin'')"

definition cache_media :: "libs \<Rightarrow> string \<Rightarrow> (nat \<Rightarrow> bool) \<Rightarrow> write_outcome \<Rightarrow> byte list \<Rightarrow> byte list \<Rightarrow> desktop \<Rightarrow>
    string ui_result \<times> desktop" where
  "cache_media X data_dir io w hash bytes d =
     (case guarded_write (\<lambda>_. io 4) w (media_path X data_dir hash) bytes (dk_files d) of (r, fs) \<Rightarrow>
      (and_then r (\<lambda>_. Inr (media_path X data_dir hash)), d\<lparr>dk_files := fs\<rparr>))"

text \<open>The request over the network: its dial, what is sent, and the answer as an argument.\<close>

definition fetch_from_peer :: "libs \<Rightarrow> crypto \<Rightarrow> u64 \<Rightarrow> u64 option \<Rightarrow> byte list option \<Rightarrow> nat net_result \<Rightarrow> (nat \<Rightarrow> session net_result) \<Rightarrow>
    envelope net_result \<Rightarrow> byte list \<Rightarrow> string option \<Rightarrow> string option \<Rightarrow> desktop \<Rightarrow> byte list ui_result \<times> desktop" where
  "fetch_from_peer X C now clock rnd connect handshake resp hash peer_listen_addr from_side d = (case dk_node d of
     None \<Rightarrow> (Inl ''node not started'', d)
   | Some n \<Rightarrow>
     (case and_then (require ''media not local; peer_listen_addr required'' peer_listen_addr) (\<lambda>a.
           and_then (require ''bad dial_addr'' (x_socket_addr X a)) (\<lambda>addr.
           and_then (require ''media fetch needs a from_side to dial under'' from_side) (\<lambda>side_str.
           and_then (hosted_state X side_str d) (\<lambda>s. Inr (addr, s))))) of
        Inl e \<Rightarrow> (Inl e, d)
      | Inr (addr, s) \<Rightarrow>
          (case dial_from now (sd_address s) addr IntentStorage connect handshake (nd_dialer n) of (r, dl) \<Rightarrow>
            (and_then (ui ''dial storage'' r) (\<lambda>ses.
             and_then (ui ''fetch object'' (and_then (object_query C ses (sd_key s) hash clock rnd) (\<lambda>_.
               and_then resp (fetch_object C hash)))) (\<lambda>found. require ''peer reports object missing'' found)),
             d\<lparr>dk_node := Some (n\<lparr>nd_dialer := dl\<rparr>)\<rparr>))))"

definition fetch_media :: "libs \<Rightarrow> crypto \<Rightarrow> u64 \<Rightarrow> u64 option \<Rightarrow> byte list option \<Rightarrow> (nat \<Rightarrow> bool) \<Rightarrow> bool \<Rightarrow> write_outcome \<Rightarrow>
    nat net_result \<Rightarrow> (nat \<Rightarrow> session net_result) \<Rightarrow> envelope net_result \<Rightarrow> string \<Rightarrow> string \<Rightarrow> string option \<Rightarrow> string option \<Rightarrow>
    desktop \<Rightarrow> string ui_result \<times> desktop" where
  "fetch_media X C now clock rnd io sql w connect handshake resp data_dir hash_hex peer_listen_addr from_side d =
     (case x_hex_decode X (str_trim hash_hex) of
        None \<Rightarrow> (Inl ''bad hash hex'', d)
      | Some hash \<Rightarrow>
          if length hash \<noteq> 32 then (Inl ''hash must be 32 bytes'', d)
          else if \<not> io 0 then (Inl ''media cache dir'', d)
          else if \<not> io 1 then (Inl ''directory permissions'', d)
          else if \<not> io 2 then (Inl ''stat'', d)
          else if dk_files d (media_path X data_dir hash) \<noteq> None then (Inr (media_path X data_dir hash), d)
          else if \<not> io 3 then (Inl ''object store'', d)
          else (case get_object C now sql hash (dk_objects d) of
              (Inl _, store) \<Rightarrow> (Inl ''object get'', d\<lparr>dk_objects := store\<rparr>)
            | (Inr (Some bytes), store) \<Rightarrow> cache_media X data_dir io w hash bytes (d\<lparr>dk_objects := store\<rparr>)
            | (Inr None, store) \<Rightarrow>
                (case fetch_from_peer X C now clock rnd connect handshake resp hash peer_listen_addr from_side d of
                   (Inl e, d) \<Rightarrow> (Inl e, d)
                 | (Inr bytes, d) \<Rightarrow> cache_media X data_dir io w hash bytes d)))"

section \<open>A media message shows what was sent\<close>

lemma plain_reference_item:
  assumes "length h = 32" "wf_text mime"
  shows "wf_body (BodyReference (encode_reference (reference_new h sz mime)))"
proof -
  let ?item = "ItemMap [(ItemText ''deps'', ItemArray []), (ItemText ''hash'', ItemBytes h), (ItemText ''size'', ItemUint sz),
    (ItemText ''type'', ItemText mime), (ItemText ''hints'', ItemArray [])]"
  have e: "encode_reference (reference_new h sz mime) = item_bytes ?item"
    by (simp add: reference_new_def encode_map_def cbor_array_def)
  have depth: "MAX_CBOR_SKIP_DEPTH = Suc (Suc 30)" by (simp add: MAX_CBOR_SKIP_DEPTH_def)
  have "item_ok (Suc (Suc d)) ?item" for d
    using assms by (simp add: wf_bytes_def literal_key)
  then have "item_ok MAX_CBOR_SKIP_DEPTH ?item" unfolding depth .
  then have "is_item (encode_reference (reference_new h sz mime))" unfolding e is_item_iff by blast
  moreover have "write_map_header [] (Suc (Suc (Suc (Suc (Suc 0))))) = [0xA5]" by code_simp
  then have "drop_bit 5 (hd (encode_reference (reference_new h sz mime))) = 5"
    by (simp add: e)
  ultimately show ?thesis by simp
qed

lemma plain_reference_decodes:
  assumes "length h = 32" "wf_text mime"
  shows "decode_reference (encode_reference (reference_new h sz mime)) = Inr (reference_new h sz mime)"
proof -
  have "wf_reference (Suc d) (reference_new h sz mime)" for d
    using assms by (simp add: reference_new_def wf_fixed_def wf_array_def)
  then have "wf_reference 65 (reference_new h sz mime)" by (metis numeral_eq_Suc)
  then show ?thesis unfolding reference_msg.decode_iff_prefix by blast
qed

lemma media_shown:
  assumes "length h = 32" "wf_text mime" "kind = KindImage \<or> kind = KindVoice"
  shows "decode_dm_plaintext (media_payload kind (reference_new h sz mime)) = (shown_kind kind, [], Some (reference_new h sz mime))"
proof -
  let ?m = "\<lparr>dm_kind = kind, dm_body = BodyReference (encode_reference (reference_new h sz mime)), dm_reply_to = None, dm_thread = None\<rparr>"
  have "wf_direct_message ?m"
    using assms plain_reference_item [OF assms(1,2)] by (auto simp: wf_direct_message_def literal_key direct_kind_parse_def)
  then have "decode_direct_message (encode_direct_message ?m) = Inr ?m" by (simp add: direct_message_msg.decode_iff)
  then show ?thesis
    using plain_reference_decodes [OF assms(1,2)] by (simp add: decode_dm_plaintext_def media_payload_def)
qed

lemma check_media_Inr:
  assumes "check_media kind bytes = Inr (mime, k)"
  shows "wf_text mime \<and> (k = KindImage \<or> k = KindVoice) \<and> shown_kind k = kind \<and> bytes \<noteq> [] \<and> length bytes \<le> MEDIA_MAX_BYTES"
  using assms by (auto simp: check_media_def validate_image_bytes_def validate_voice_bytes_def and_then_eq_Inr literal_key split: if_splits)

lemma sealed_opens:
  assumes "laws C" "wf_side a" "wf_side b" "seal C m a (public_bytes C b) n aad = Inr ct"
  shows "open_payload C ct b (public_bytes C a) n aad = Inr m"
proof -
  have "aead_encrypt C (derive_aead_key C b (public_bytes C a) n) (aead_nonce_from_envelope_nonce n) aad m = Some ct"
    using assms derive_aead_key_sym [of C a b n]
    by (auto simp: seal_def laws_def public_key_from_bytes_def and_then_eq_Inr split: option.splits if_splits)
  then have "aead_decrypt C (derive_aead_key C b (public_bytes C a) n) (aead_nonce_from_envelope_nonce n) aad ct = Some m"
    using assms(1) by (simp add: laws_def aead_laws_def)
  then show ?thesis
    using signed_by_side(2) [of C a] assms(1,2) by (simp add: open_payload_def public_key_from_bytes_def laws_def)
qed


lemma media_payload_length:
  assumes "kind = KindImage \<or> kind = KindVoice"
  shows "length (media_payload kind (reference_new h sz mime)) \<le> 500 + length h + length mime"
proof -
  note t = item_lengths(3)
  have "length (cbor_text ''deps'') \<le> 13" "length (cbor_text ''hash'') \<le> 13" "length (cbor_text ''size'') \<le> 13" "length (cbor_text ''type'') \<le> 13"
    "length (cbor_text ''hints'') \<le> 14" "length (cbor_text ''body'') \<le> 13" "length (cbor_text ''kind'') \<le> 13" "length (cbor_text ''thread'') \<le> 15"
    "length (cbor_text ''reply_to'') \<le> 17" "length (cbor_text ''image'') \<le> 14" "length (cbor_text ''voice'') \<le> 14"
    using t [of "''deps''"] t [of "''hash''"] t [of "''size''"] t [of "''type''"] t [of "''hints''"] t [of "''body''"] t [of "''kind''"]
      t [of "''thread''"] t [of "''reply_to''"] t [of "''image''"] t [of "''voice''"] by simp_all
  moreover have "length (write_array_header [] 0) = 1" "length (write_map_header [] (Suc (Suc (Suc (Suc (Suc 0)))))) = 1"
      "length (write_map_header [] (Suc (Suc (Suc (Suc 0))))) = 1" "length (cbor_bytes_or_null None) = 1" by code_simp+
  moreover note item_lengths(1) [of sz] item_lengths(2) [of h] item_lengths(3) [of mime]
  ultimately show ?thesis
    using assms by (auto simp: media_payload_def encode_direct_message_def direct_message_entries_def encode_map_def reference_new_def cbor_body_def cbor_array_def cbor_key_text)
qed

lemma send_dm_ok:
  assumes "laws C" "wf_side a" "wf_side b" "length nonce = 16" "length m \<le> 65120"
    and "ses_peer_side ses = public_bytes C b" "ses_intent ses = IntentDirect"
  shows "\<exists>env frame. send_dm C ses a m (Some ts) (Some nonce) = Inr (env, frame)"
proof -
  obtain ct where ct: "seal C m a (public_bytes C b) nonce [] = Inr ct" "length ct = length m + 16"
    using seal_open [of C a b nonce m "[]"] assms(1-5) by (auto simp: laws_def)
  let ?env = "sign_with C DIRECT_MESSAGE a (Some (public_bytes C b)) ct ts nonce"
  have "wf_envelope C ?env"
    using assms ct(2) signed_by_side(1) [of C b] by (intro sign_with_wf) (simp_all add: laws_def wf_bytes_def wf_fixed_def)
  from send_envelope_ok [OF this] ct assms show ?thesis
    by (auto simp: send_dm_def fill_random_def now_unix_seconds_def open_and_send_def accepts_def category_def DIRECT_MESSAGE_def Let_def)
qed

section \<open>A sample\<close>

definition empty_store :: side_store where
  "empty_store = \<lparr>st_settings = [], st_sides = [], st_profiles = [], st_retired = [], st_relationships = [], st_co_holders = [],
     st_revoked = [], st_addrs = [], st_memberships = []\<rparr>"

definition empty_desktop :: desktop where
  "empty_desktop = \<lparr>dk_node = None, dk_stray = [], dk_sessions = [], dk_inbox_open = False, dk_inbox = [], dk_db = empty_store,
     dk_db_exists = False, dk_objects = object_store_new, dk_files = Map.empty\<rparr>"

definition desk_key :: side_key where "desk_key = \<lparr>seed = replicate 32 2, label = ''home''\<rparr>"
definition peer_key :: side_key where "peer_key = \<lparr>seed = replicate 32 1, label = ''peer''\<rparr>"

definition desk_state :: side_state where
  "desk_state = \<lparr>sd_address = replicate 32 2, sd_label = Some ''home'', sd_created_at = 100, sd_key = desk_key, sd_profile = None,
     sd_retired_seen = {}, sd_relationships = [], sd_lifecycle = Created, sd_last_send_at = None, sd_self_retired = False,
     sd_co_holders = [], sd_revoked = {}, sd_pending = [], sd_addrs = [], sd_store = empty_store\<rparr>"

definition desk_address :: string where "desk_address = address_text sample_libs Side (replicate 32 2)"

definition desk_session :: session where
  "desk_session = \<lparr>ses_key = [], ses_peer_side = replicate 32 1, ses_intent = IntentDirect, ses_peer_capabilities = []\<rparr>"

definition sample_desktop :: desktop where
  "sample_desktop = empty_desktop\<lparr>dk_node := Some \<lparr>nd_dialer = \<lparr>dl_side = replicate 32 2, dl_extras = [], dl_listen_addr = ''127.0.0.1:7'',
       dl_pool = [], dl_peers = peer_table_new 256\<rparr>, nd_states = [(replicate 32 2, desk_state)], nd_verses = no_verses desk_key, nd_tasks = 2\<rparr>,
     dk_sessions := [(desk_address, desk_session)]\<rparr>"

lemma decode_sample_address:
  assumes "length key = 32"
  shows "decode_side_address sample_libs (address_text sample_libs Side key) = Inr key"
proof -
  have "list_all (\<lambda>n. plain (char_of ((97::nat) + n))) [0..<16]" by code_simp
  then have p: "plain (char_of ((97::nat) + n))" if "n < 16" for n using that by (simp add: list_all_iff)
  have "list_all plain (byte_letters b)" for b
    using p [of "unat b div 16"] p [of "unat b mod 16"] byte_letters_nats [of b] by (simp add: byte_letters_def)
  moreover have "list_all plain ''sv1''" by code_simp
  ultimately have "list_all plain (address_text sample_libs Side key)"
    by (auto simp: address_text_def address_encode_def sample_libs_def sample_bech32_def list_all_iff)
  moreover have "\<exists>s. address_encode sample_bech32 \<lparr>ad_kind = Side, ad_key = key\<rparr> = Some s \<and>
      address_parse sample_bech32 s = Inr \<lparr>ad_kind = Side, ad_key = key\<rparr>"
    using address_of_key [OF sample_bech32_laws, of "\<lparr>ad_kind = Side, ad_key = key\<rparr>"] assms by simp
  ultimately show ?thesis
    by (auto simp: decode_side_address_def str_trim_plain address_text_def sample_libs_def)
qed

lemma decode_desk_address: "decode_side_address sample_libs desk_address = Inr (replicate 32 2)"
  unfolding desk_address_def by (rule decode_sample_address) simp

lemma sample_desktop_side:
  "hosted_state sample_libs desk_address sample_desktop = Inr desk_state" "session_of desk_address sample_desktop = Inr desk_session"
  by (simp_all add: hosted_state_def running_def require_def decode_desk_address sample_desktop_def session_of_def)

lemma desk_session_simps: "ses_peer_side desk_session = replicate 32 1" "ses_intent desk_session = IntentDirect"
  by (simp_all add: desk_session_def)

lemma desk_keys: "wf_side desk_key" "wf_side peer_key" "public_bytes sample_crypto peer_key = replicate 32 1"
  by (simp_all add: wf_side_def desk_key_def peer_key_def sample_public)

definition sample_jpeg :: "byte list" where "sample_jpeg = [0xFF, 0xD8, 0xFF, 1]"


section \<open>What is fetched\<close>

text \<open>A file that was not in the cache before has, once fetched, the hash that was asked for, whether it
  comes from the store or from a peer.\<close>

lemma fetched_media_has_hash:
  assumes "fetch_media X C now clock rnd io sql w connect handshake resp data_dir hash_hex addr from_side d = (Inr path, d')"
    and "dk_files d path = None"
  shows "\<exists>hash bytes. x_hex_decode X (str_trim hash_hex) = Some hash \<and> path = media_path X data_dir hash \<and>
    dk_files d' path = Some bytes \<and> blake3 C bytes = hash"
proof -
  obtain hash where h: "x_hex_decode X (str_trim hash_hex) = Some hash"
    using assms(1) by (auto simp: fetch_media_def split: option.splits)
  have cached: "\<exists>bytes. path = media_path X data_dir hash \<and> dk_files d' path = Some bytes \<and> blake3 C bytes = hash"
    if "cache_media X data_dir io w hash bytes d0 = (Inr path, d')" "blake3 C bytes = hash" for bytes d0
    using that guarded_write_changes [of "\<lambda>_. io 4" w "media_path X data_dir hash" bytes "dk_files d0"]
    by (auto simp: cache_media_def and_then_eq_Inr split: prod.splits)
  have peer: "blake3 C bytes = hash" if "fetch_from_peer X C now clock rnd connect handshake resp hash addr from_side d = (Inr bytes, d0)" for bytes d0
    using that by (auto simp: fetch_from_peer_def and_then_eq_Inr fetch_object_def split: option.splits sum.splits prod.splits if_splits)
  have "\<exists>bytes d0. cache_media X data_dir io w hash bytes d0 = (Inr path, d') \<and> blake3 C bytes = hash"
    using assms h peer
    by (auto simp: fetch_media_def get_object_iff split: option.splits sum.splits prod.splits if_splits)
  then show ?thesis using h cached by blast
qed

text \<open>A write that breaks off leaves a file in the cache, which is then taken for the object.\<close>

lemma broken_cache_file_is_served:
  assumes "x_hex_decode X (str_trim hash_hex) = Some hash" "length hash = 32" "io 0 \<and> io 1 \<and> io 2"
    and "dk_files d (media_path X data_dir hash) = Some left"
  shows "fetch_media X C now clock rnd io sql w connect handshake resp data_dir hash_hex addr from_side d =
    (Inr (media_path X data_dir hash), d)"
  using assms by (simp add: fetch_media_def)

end
