(* ===== verification/DesktopGroups.thy ===== *)
theory DesktopGroups
  imports DesktopMedia VerseSafety
begin

text \<open>
  Groups in the desktop client, \<open>desktop/tauri/src/main.rs\<close>: creating a verse with a side of its
  own, joining by an invite, posting, leaving, listing. The answers of the verse's host are
  arguments; what is sent is computed by the functions of the member's side (\<open>VerseServer\<close>).
\<close>

section \<open>Fetching the contract\<close>

definition contract_query :: "crypto \<Rightarrow> session \<Rightarrow> side_key \<Rightarrow> u64 option \<Rightarrow> byte list option \<Rightarrow> (envelope \<times> byte list) net_result" where
  "contract_query C ses side clock rnd = send_signed C ses side CONTRACT_FETCH (encode_contract_fetch \<lparr>cf_version = None\<rparr>) clock rnd"

definition fetch_contract :: "crypto \<Rightarrow> envelope \<Rightarrow> contract_object net_result" where
  "fetch_contract C resp =
     (if env_type resp \<noteq> CONTRACT_DELIVER then Inl (NetInvariant ''expected ContractDeliver'')
      else core (decode_contract_deliver C (env_payload resp)))"

section \<open>Memberships\<close>

record group_view =
  gv_verse_address :: string
  gv_member_side_address :: string
  gv_role :: string
  gv_name :: "string option"
  gv_photo_hash_hex :: "string option"
  gv_dial_addr :: "string option"
  gv_joined_at :: u64

definition list_groups :: "libs \<Rightarrow> (nat \<Rightarrow> bool) \<Rightarrow> desktop \<Rightarrow> group_view list ui_result" where
  "list_groups X io d =
     (if \<not> dk_db_exists d then Inr []
      else if \<not> io 0 then Inl ''opening side store''
      else if \<not> io 1 then Inl ''list memberships''
      else Inr (map (\<lambda>((side, verse), m). \<lparr>gv_verse_address = address_text X Verse verse, gv_member_side_address = address_text X Side side,
        gv_role = verse_membership_record.vm_role m, gv_name = verse_membership_record.vm_name m, gv_photo_hash_hex = map_option (x_hex_encode X) (verse_membership_record.vm_photo_hash m),
        gv_dial_addr = verse_membership_record.vm_dial_addr m, gv_joined_at = verse_membership_record.vm_joined_at m\<rparr>) (list_all_verse_memberships (dk_db d))))"

text \<open>The row of the group that a side is in, with the address of the verse.\<close>

definition membership_of :: "libs \<Rightarrow> (nat \<Rightarrow> bool) \<Rightarrow> string \<Rightarrow> side_store \<Rightarrow> (byte list \<times> byte list \<times> verse_membership_record) ui_result" where
  "membership_of X io member_side_address db =
     (if \<not> io 0 then Inl ''opening side store''
      else and_then (decode_side_address X member_side_address) (\<lambda>member.
        if \<not> io 1 then Inl ''list memberships''
        else and_then (require ''no group membership for that side'' (find (\<lambda>((side, verse), m). side = member) (list_all_verse_memberships db)))
          (\<lambda>((side, verse), m). Inr (member, verse, m))))"

text \<open>What the client functions of the verse protocol work with.\<close>

definition membership_handle :: "byte list \<Rightarrow> verse_membership_record \<Rightarrow> verse_membership" where
  "membership_handle verse m = \<lparr>vm_verse = verse, verse_membership.vm_contract_hash = verse_membership_record.vm_contract_hash m,
     verse_membership.vm_membership_token = verse_membership_record.vm_membership_token m, verse_membership.vm_content_key = verse_membership_record.vm_content_key m\<rparr>"

section \<open>Creating and joining\<close>

definition group_contract :: "crypto \<Rightarrow> side_key \<Rightarrow> string \<Rightarrow> byte list \<Rightarrow> u64 \<Rightarrow> contract_object" where
  "group_contract C verse_key title moderator now = contract_sign C verse_key
     \<lparr>co_verse = [], co_version = 1, co_title = title, co_description = [], co_required = [], co_optional = [], co_forbidden = [],
      co_scoped = [], co_policies = [], co_moderators = [moderator], co_issued_at = now, co_signature = []\<rparr>"

definition group_invite_of :: "byte list \<Rightarrow> verse_membership_record \<Rightarrow> group_invite" where
  "group_invite_of verse m = \<lparr>gi_verse = verse, gi_contract_hash = verse_membership_record.vm_contract_hash m,
     gi_dial_addr = unwrap_or_empty (verse_membership_record.vm_dial_addr m), gi_name = verse_membership_record.vm_name m, gi_photo_hash = verse_membership_record.vm_photo_hash m\<rparr>"

text \<open>The draws are those of the two master keys and of the content key. The verse is registered, and
  its moderator added, before the row is written.\<close>

definition create_group :: "libs \<Rightarrow> crypto \<Rightarrow> (nat \<Rightarrow> byte list option) \<Rightarrow> string net_result \<Rightarrow> u64 option \<Rightarrow> bool \<Rightarrow> (nat \<Rightarrow> bool) \<Rightarrow>
    handle \<Rightarrow> string \<Rightarrow> desktop \<Rightarrow> (byte list \<times> byte list \<times> string \<times> string) ui_result \<times> desktop" where
  "create_group X C rnd listen clock ok io a name d = (let trimmed = str_trim name in
     if trimmed = [] then (Inl ''group name cannot be empty'', d)
     else if 256 < length trimmed then (Inl ''group name too long'', d)
     else (case and_then (running d) (\<lambda>n.
           and_then (fresh_side C (rnd 0) (''verse-'' @ trimmed)) (\<lambda>verse_key.
           and_then (fresh_side C (rnd 1) (''group-'' @ trimmed)) (\<lambda>member_key. Inr (n, verse_key, member_key)))) of
        Inl e \<Rightarrow> (Inl e, d)
      | Inr (n, verse_key, member_key) \<Rightarrow>
         (let now = now_or_log_zero clock; verse = public_bytes C verse_key; member = public_bytes C member_key in
          case node_add_side C member_key listen now ok n (dk_db d) of
            (Inl _, n, db) \<Rightarrow> (Inl ''add_side'', d\<lparr>dk_node := Some n, dk_db := db\<rparr>)
          | (Inr (_, addr), n, db) \<Rightarrow>
             (let contract = group_contract C verse_key trimmed member now in
              case content_key_generate (rnd 2) of
                Inl _ \<Rightarrow> (Inl ''content key'', d\<lparr>dk_node := Some n, dk_db := db\<rparr>)
              | Inr content_key \<Rightarrow>
                 (case add_local_member C member now (verse_host_new verse_key contract content_key) of ((token, key), h) \<Rightarrow>
                  let d = d\<lparr>dk_node := Some (node_host_verse C a h n), dk_db := db\<rparr>;
                      row = \<lparr>verse_membership_record.vm_contract_hash = contract_hash C contract, vm_membership_token = token, vm_content_key = key,
                        vm_joined_at = now, vm_role = ''moderator'', vm_name = Some trimmed, vm_photo_hash = None, vm_dial_addr = Some addr,
                        vm_verse_seed = Some (seed verse_key), vm_contract_wire = Some (contract_to_wire contract)\<rparr> in
                  if \<not> io 0 then (Inl ''opening side store'', d)
                  else if \<not> io 1 then (Inl ''persist membership'', d)
                  else (Inr (verse, member, addr, encode_group_invite (group_invite_of verse row)),
                        d\<lparr>dk_db := upsert_verse_membership member verse row db\<rparr>))))))"

text \<open>Joining: a fresh side for the group, the dial, and the two answers of the host.\<close>

definition agree_and_join :: "crypto \<Rightarrow> side_key \<Rightarrow> group_invite \<Rightarrow> u64 option \<Rightarrow> (nat \<Rightarrow> byte list option) \<Rightarrow> envelope net_result \<Rightarrow>
    envelope net_result \<Rightarrow> session \<Rightarrow> verse_membership ui_result" where
  "agree_and_join C k invite clock rnd delivered answered ses =
     and_then (ui ''fetch contract'' (and_then (contract_query C ses k clock (rnd 0)) (\<lambda>_.
       and_then delivered (fetch_contract C)))) (\<lambda>contract.
     if co_verse contract \<noteq> gi_verse invite then Inl ''fetched contract is for a different verse than invited''
     else if contract_hash C contract \<noteq> gi_contract_hash invite
     then Inl ''contract hash mismatch - invite is stale or tampered''
     else and_then (ui ''join'' (request_join C k (ses_peer_side ses) contract [] clock (rnd 1))) (\<lambda>_.
       and_then (ui ''join'' answered) (\<lambda>resp. ui ''join'' (finish_join C k contract resp))))"

definition member_row :: "group_invite \<Rightarrow> u64 \<Rightarrow> verse_membership \<Rightarrow> verse_membership_record" where
  "member_row invite now m = \<lparr>verse_membership_record.vm_contract_hash = verse_membership.vm_contract_hash m,
     vm_membership_token = verse_membership.vm_membership_token m, vm_content_key = verse_membership.vm_content_key m,
     vm_joined_at = now, vm_role = ''member'', vm_name = gi_name invite, vm_photo_hash = gi_photo_hash invite,
     vm_dial_addr = Some (gi_dial_addr invite), vm_verse_seed = None, vm_contract_wire = None\<rparr>"

definition join_group_by_invite :: "libs \<Rightarrow> crypto \<Rightarrow> byte list option \<Rightarrow> string net_result \<Rightarrow> u64 option \<Rightarrow> (nat \<Rightarrow> byte list option) \<Rightarrow>
    nat net_result \<Rightarrow> (nat \<Rightarrow> session net_result) \<Rightarrow> envelope net_result \<Rightarrow> envelope net_result \<Rightarrow> bool \<Rightarrow> (nat \<Rightarrow> bool) \<Rightarrow>
    string \<Rightarrow> desktop \<Rightarrow> (byte list \<times> byte list \<times> string \<times> string option) ui_result \<times> desktop" where
  "join_group_by_invite X C rnd_master listen clock rnd connect handshake delivered answered ok io qr_uri d =
     (case and_then (ui ''parse group invite'' (parse_group_invite (str_trim qr_uri))) (\<lambda>invite.
           and_then (running d) (\<lambda>n.
           and_then (fresh_side C rnd_master (case gi_name invite of Some g \<Rightarrow> ''group-'' @ g | None \<Rightarrow> ''group-side'')) (\<lambda>k.
           Inr (invite, n, k)))) of
        Inl e \<Rightarrow> (Inl e, d)
      | Inr (invite, n, k) \<Rightarrow>
         (let now = now_or_log_zero clock; member = public_bytes C k in
          case node_add_side C k listen now ok n (dk_db d) of
            (Inl _, n, db) \<Rightarrow> (Inl ''add_side'', d\<lparr>dk_node := Some n, dk_db := db\<rparr>)
          | (Inr (_, addr), n, db) \<Rightarrow>
             (case x_socket_addr X (gi_dial_addr invite) of
                None \<Rightarrow> (Inl ''bad dial_addr'', d\<lparr>dk_node := Some n, dk_db := db\<rparr>)
              | Some target \<Rightarrow>
                 (case dial_from now member target IntentVerse connect handshake (nd_dialer n) of (dialled, dl) \<Rightarrow>
                   let d = d\<lparr>dk_node := Some (n\<lparr>nd_dialer := dl\<rparr>), dk_db := db\<rparr> in
                   (case and_then (ui ''dial verse'' dialled) (agree_and_join C k invite clock rnd delivered answered) of
                      Inl e \<Rightarrow> (Inl e, d)
                    | Inr m \<Rightarrow>
                        if \<not> io 0 then (Inl ''opening side store'', d)
                        else if \<not> io 1 then (Inl ''persist membership'', d)
                        else (Inr (gi_verse invite, member, addr, gi_name invite),
                          d\<lparr>dk_db := upsert_verse_membership member (gi_verse invite) (member_row invite now m) db\<rparr>))))))"

section \<open>Posting, leaving, listing\<close>

definition post_to_group :: "libs \<Rightarrow> crypto \<Rightarrow> u64 option \<Rightarrow> byte list option \<Rightarrow> byte list option \<Rightarrow> nat net_result \<Rightarrow> (nat \<Rightarrow> session net_result) \<Rightarrow>
    (nat \<Rightarrow> bool) \<Rightarrow> string \<Rightarrow> string \<Rightarrow> desktop \<Rightarrow> envelope ui_result \<times> desktop" where
  "post_to_group X C clock rnd_key rnd_env connect handshake io member_side_address txt d = (case dk_node d of
     None \<Rightarrow> (Inl ''node not started'', d)
   | Some n \<Rightarrow>
     (case and_then (membership_of X io member_side_address (dk_db d)) (\<lambda>(member, verse, m).
           and_then (require ''side not hosted on this node'' (map_of (nd_states n) member)) (\<lambda>s.
           and_then (require ''no dial address recorded for this group'' (verse_membership_record.vm_dial_addr m)) (\<lambda>dial_addr.
           and_then (require ''bad dial_addr'' (x_socket_addr X dial_addr)) (\<lambda>target. Inr (member, verse, m, s, target))))) of
        Inl e \<Rightarrow> (Inl e, d)
      | Inr (member, verse, m, s, target) \<Rightarrow>
         (case dial_from (now_or_log_zero clock) member target IntentVerse connect handshake (nd_dialer n) of (r, dl) \<Rightarrow>
           (and_then (ui ''dial verse'' r) (\<lambda>_.
              ui ''post'' (post_to_verse C (sd_key s) (membership_handle verse m) (text_bytes txt) clock rnd_key rnd_env)),
            d\<lparr>dk_node := Some (n\<lparr>nd_dialer := dl\<rparr>)\<rparr>))))"

text \<open>What a leaving member sends, if it can be sent; the row is deleted in any case.\<close>

definition leave_group :: "libs \<Rightarrow> crypto \<Rightarrow> u64 option \<Rightarrow> byte list option \<Rightarrow> nat net_result \<Rightarrow> (nat \<Rightarrow> session net_result) \<Rightarrow>
    (nat \<Rightarrow> bool) \<Rightarrow> string \<Rightarrow> desktop \<Rightarrow> byte list ui_result \<times> envelope option \<times> desktop" where
  "leave_group X C clock rnd connect handshake io member_side_address d = (case dk_node d of
     None \<Rightarrow> (Inl ''node not started'', None, d)
   | Some n \<Rightarrow> (case membership_of X io member_side_address (dk_db d) of
       Inl e \<Rightarrow> (Inl e, None, d)
     | Inr (member, verse, m) \<Rightarrow>
        (let target = (if verse_membership_record.vm_role m = ''member'' \<and> map_of (nd_states n) member \<noteq> None
               then Option.bind (verse_membership_record.vm_dial_addr m) (x_socket_addr X) else None);
             (sent, n) = (case target of
                 None \<Rightarrow> (None, n)
               | Some t \<Rightarrow> (case dial_from (now_or_log_zero clock) member t IntentVerse connect handshake (nd_dialer n) of (r, dl) \<Rightarrow>
                   (case r of
                      Inl _ \<Rightarrow> None
                    | Inr _ \<Rightarrow> (case leave_verse C (sd_key (the (map_of (nd_states n) member))) (membership_handle verse m) Retain None clock rnd of
                        Inl _ \<Rightarrow> None | Inr env \<Rightarrow> Some env), n\<lparr>nd_dialer := dl\<rparr>)));
             d = d\<lparr>dk_node := Some n\<rparr> in
         if \<not> io 2 then (Inl ''delete membership'', sent, d)
         else (Inr verse, sent, d\<lparr>dk_db := delete_verse_membership member verse (dk_db d)\<rparr>))))"

definition list_group_members :: "libs \<Rightarrow> string \<Rightarrow> desktop \<Rightarrow> byte list set ui_result" where
  "list_group_members X verse_address d = and_then (running d) (\<lambda>n.
     and_then (ui ''parse verse'' (address_parse (x_bech32 X) (str_trim verse_address))) (\<lambda>addr.
     if ad_kind addr \<noteq> address_kind.Verse then Inl ''not a verse address''
     else and_then (require ''this verse isn't hosted on this node (member view)''
         (Option.bind (map_of (vn_hosted (nd_verses n)) (ad_key addr)) (vn_heap (nd_verses n)))) (\<lambda>h. Inr (vh_members h))))"

definition generate_group_invite :: "libs \<Rightarrow> (nat \<Rightarrow> bool) \<Rightarrow> string \<Rightarrow> desktop \<Rightarrow> string ui_result" where
  "generate_group_invite X io member_side_address d = and_then (membership_of X io member_side_address (dk_db d)) (\<lambda>(member, verse, m).
     if verse_membership_record.vm_role m \<noteq> ''moderator'' then Inl ''only the group's moderator can generate invites''
     else Inr (encode_group_invite (group_invite_of verse m)))"

section \<open>What a member is told and keeps\<close>

lemma load_or_create_memberships:
  "load_or_create C k lbl now ok st = Inr s \<Longrightarrow> sd_address s = public_bytes C k \<and> sd_key s = k \<and> st_memberships (sd_store s) = st_memberships st"
  by (auto simp: load_or_create_def Let_def and_then_eq_Inr upsert_side_def split: option.splits if_splits)

lemma node_add_side_Inr:
  assumes "node_add_side C k listen now ok n db = (Inr (s, addr), n', db')"
  shows "listen = Inr addr \<and> sd_address s = public_bytes C k \<and> sd_key s = k \<and> st_memberships db' = st_memberships db \<and>
    nd_verses n' = nd_verses n \<and> nd_states n' = nd_states n @ [(public_bytes C k, s)] \<and>
    nd_dialer n' = (nd_dialer n)\<lparr>dl_extras := dl_extras (nd_dialer n) @ [(public_bytes C k, addr)]\<rparr>"
  using assms load_or_create_memberships [of C k "Some (label k)" now ok db]
  by (auto simp: node_add_side_def split: sum.splits)

lemma node_add_side_memberships:
  "node_add_side C k listen now ok n db = (r, n', db') \<Longrightarrow> st_memberships db' = st_memberships db"
  using load_or_create_memberships [of C k "Some (label k)" now ok db]
  by (auto simp: node_add_side_def split: sum.splits)

lemma agree_and_join_sound:
  assumes "agree_and_join C k invite clock rnd delivered answered ses = Inr m"
  shows "\<exists>contract token. wf_contract C contract \<and> co_verse contract = gi_verse invite \<and> contract_hash C contract = gi_contract_hash invite \<and>
    verse_membership.vm_contract_hash m = gi_contract_hash invite \<and>
    token_from_wire C (verse_membership.vm_membership_token m) = Inr token \<and> mt_verse token = gi_verse invite \<and>
    mt_contract_hash token = gi_contract_hash invite"
  using assms
  by (auto simp: agree_and_join_def fetch_contract_def finish_join_def and_then_eq_Inr decode_contract_deliver_iff split: if_splits)

text \<open>C15: joining by an invite makes the user a member of nothing else: a membership is stored only under a
  token that the invited verse signed for the invited contract, after this contract, signed by
  the verse, was delivered; any failure leaves the stored memberships as they were.\<close>
theorem join_is_what_was_invited:
  assumes "join_group_by_invite X C rnd_master listen clock rnd connect handshake delivered answered ok io uri d = (r, d')"
  shows "(\<forall>verse member addr name. r = Inr (verse, member, addr, name) \<longrightarrow>
      (\<exists>invite contract token row. parse_group_invite (str_trim uri) = Inr invite \<and> verse = gi_verse invite \<and>
        wf_contract C contract \<and> co_verse contract = verse \<and> contract_hash C contract = gi_contract_hash invite \<and>
        get_verse_membership member verse (dk_db d') = Some row \<and> verse_membership_record.vm_contract_hash row = gi_contract_hash invite \<and>
        token_from_wire C (verse_membership_record.vm_membership_token row) = Inr token \<and> mt_verse token = verse \<and>
        mt_contract_hash token = gi_contract_hash invite)) \<and>
    (\<forall>e. r = Inl e \<longrightarrow> st_memberships (dk_db d') = st_memberships (dk_db d))"
proof (cases r)
  case (Inl e)
  then show ?thesis
    using assms by (auto simp: join_group_by_invite_def Let_def dest: node_add_side_memberships split: sum.splits prod.splits option.splits if_splits)
next
  case (Inr x)
  then obtain invite k addr db now m ses where j: "parse_group_invite (str_trim uri) = Inr invite"
      "agree_and_join C k invite clock rnd delivered answered ses = Inr m"
      "x = (gi_verse invite, public_bytes C k, addr, gi_name invite)"
      "dk_db d' = upsert_verse_membership (public_bytes C k) (gi_verse invite) (member_row invite now m) db"
    using assms by (auto simp: join_group_by_invite_def Let_def and_then_eq_Inr split: sum.splits prod.splits option.splits if_splits)
  define row where "row = the (get_verse_membership (public_bytes C k) (gi_verse invite) (dk_db d'))"
  have "get_verse_membership (public_bytes C k) (gi_verse invite) (dk_db d') = Some row \<and>
      verse_membership_record.vm_contract_hash row = verse_membership.vm_contract_hash m \<and>
      verse_membership_record.vm_membership_token row = verse_membership.vm_membership_token m"
    by (auto simp: row_def j(4) get_verse_membership_def upsert_verse_membership_def map_of_upsert member_row_def split: option.split)
  then show ?thesis using agree_and_join_sound [OF j(2)] j(1,3) Inr by auto
qed

text \<open>A join in full: the sample host of the verse theories answers.\<close>

definition group_host :: verse_host where
  "group_host = verse_host_new sample_verse_key (group_contract sample_crypto sample_verse_key ''t'' (replicate 32 3) 0) (replicate 32 7)"

definition sample_invite :: group_invite where
  "sample_invite = \<lparr>gi_verse = replicate 32 1, gi_contract_hash = contract_hash sample_crypto (vh_contract group_host), gi_dial_addr = ''h:1'',
     gi_name = None, gi_photo_hash = None\<rparr>"

definition group_key :: side_key where "group_key = derive_side sample_crypto [9] ''group-side''"

definition verse_sess :: session where
  "verse_sess = \<lparr>ses_key = [], ses_peer_side = replicate 32 1, ses_intent = IntentVerse, ses_peer_capabilities = []\<rparr>"

lemma sample_invite_fields: "gi_verse sample_invite = replicate 32 1" "gi_dial_addr sample_invite = ''h:1''" "gi_name sample_invite = None"
    "gi_contract_hash sample_invite = contract_hash sample_crypto (vh_contract group_host)"
  by (simp_all add: sample_invite_def)

lemma sample_invite_scans: "parse_group_invite (str_trim (encode_group_invite sample_invite)) = Inr sample_invite"
proof -
  have "length (contract_hash sample_crypto (vh_contract group_host)) = 32"
    using sample_hash_laws by (simp add: contract_hash_def hash_laws_def)
  then have "wf_group_invite sample_invite"
    by (simp add: sample_invite_def wf_group_invite_def wf_lp_def GROUP_DIAL_ADDR_MAX_def ascii_utf8_valid ascii_def byte_of_char_def)
  moreover have "str_trim (encode_group_invite sample_invite) = encode_group_invite sample_invite"
    unfolding encode_group_invite_def by (rule str_trim_code) (simp add: GROUP_QR_SCHEME_PREFIX_def, code_simp)
  ultimately show ?thesis by (simp add: group_round)
qed

definition delivered_contract :: envelope where
  "delivered_contract = sign_with sample_crypto CONTRACT_DELIVER sample_verse_key None (encode_contract_deliver (vh_contract group_host)) 5 (replicate 16 1)"

lemma group_host_wf: "wf_host sample_crypto group_host" "wf_contract sample_crypto (vh_contract group_host)"
    "co_verse (vh_contract group_host) = replicate 32 1"
proof -
  show "wf_contract sample_crypto (vh_contract group_host)"
    unfolding group_host_def verse_host_new_def group_contract_def verse_host.simps
    by (rule contract_sign_wf [OF sample_signature_laws sample_wf_keys(1)]) (simp_all add: literal_key wf_array_def wf_fixed_def)
  show "wf_host sample_crypto group_host"
    using sample_wf_keys(1) by (simp add: wf_host_def group_host_def verse_host_new_def group_contract_def contract_sign_def Let_def)
  show "co_verse (vh_contract group_host) = replicate 32 1"
    by (simp add: group_host_def verse_host_new_def group_contract_def contract_sign_def Let_def sample_public sample_verse_key_def)
qed

lemma delivered_contract_fetched: "fetch_contract sample_crypto delivered_contract = Inr (vh_contract group_host)"
  using group_host_wf(2) by (simp add: fetch_contract_def delivered_contract_def decode_contract_deliver_iff)

lemma group_key_wf: "wf_side group_key"
  using sample_hash_laws by (simp add: wf_side_def group_key_def derive_side_def hash_laws_def)

lemma group_join_answer:
  obtains resp m where "finish_join sample_crypto group_key (vh_contract group_host) resp = Inr m"
proof -
  let ?n = "\<lparr>vn_side = sample_verse_key, vn_heap = [0 \<mapsto> group_host], vn_hosted = [(replicate 32 1, 0)], vn_posts_received = 0\<rparr>"
  let ?s = "\<lparr>sess_peer = [], sess_connection = 4, sess_hosts = [(replicate 32 1, 0)],
     sess_index = [(contract_hash sample_crypto (vh_contract group_host), replicate 32 1)], sess_default = 0\<rparr>"
  obtain env where e: "request_join sample_crypto group_key (replicate 32 1) (vh_contract group_host) [] (Some 8) (Some (replicate 16 3)) = Inr env"
    by (simp add: request_join_def sign_response_def sign_fresh_def now_unix_seconds_def fill_random_def)
  have "wf_string_map []" by (simp add: wf_string_map_def wf_text_map_def wf_btree_def)
  moreover have "admissible sample_crypto group_host (join_sign sample_crypto group_key (contract_hash sample_crypto (vh_contract group_host)) [])"
    by (simp add: admissible_def join_sign_def Let_def group_host_def verse_host_new_def group_contract_def contract_sign_def)
  moreover have "vn_heap ?n 0 = Some group_host" "route_by_hash ?s (contract_hash sample_crypto (vh_contract group_host)) = 0"
    by (simp_all add: route_by_hash_def)
  ultimately obtain resp m where "finish_join sample_crypto group_key (vh_contract group_host) resp = Inr m"
    using join_round_trip [OF sample_laws_all group_key_wf _ group_host_wf(1) _ _ _ _ _ _ e, of ?n 0 ?s "\<lambda>_. Some (replicate 16 4)" "replicate 16 4" "replicate 16 4" 9]
    by fastforce
  then show ?thesis using that by blast
qed

lemma contract_query_ok: "\<exists>sent. contract_query sample_crypto verse_sess group_key (Some 5) (Some (replicate 16 1)) = Inr sent"
proof -
  have l: "length (encode_contract_fetch \<lparr>cf_version = None\<rparr>) \<le> 65136"
    by (simp add: encode_contract_fetch_def contract_fetch_entries_def encode_map_def write_map_header_def write_head_def cbor_text_def cbor_uint_or_null_def
        cbor_null_def write_text_def)
  let ?env = "sign_with sample_crypto CONTRACT_FETCH group_key (Some (replicate 32 1)) (encode_contract_fetch \<lparr>cf_version = None\<rparr>) 5 (replicate 16 1)"
  have "wf_envelope sample_crypto ?env"
    using l by (intro sign_with_wf [OF sample_signature_laws group_key_wf]) (simp_all add: wf_fixed_def wf_bytes_def)
  from send_envelope_ok [OF this] l show ?thesis
    by (auto simp: contract_query_def send_signed_def sign_response_ok verse_sess_def open_and_send_def accepts_def category_def CONTRACT_FETCH_def)
qed

text \<open>The steps of a join that goes through, each by its own outcome.\<close>
lemma join_answered:
  assumes "parse_group_invite (str_trim uri) = Inr invite" "gi_name invite = None" "dk_node d = Some n"
    and "fresh_side C rm ''group-side'' = Inr k"
    and "node_add_side C k listen (now_or_log_zero clock) True n (dk_db d) = (Inr (s, addr), n', db)"
    and "x_socket_addr X (gi_dial_addr invite) = Some target"
    and "dial_from (now_or_log_zero clock) (public_bytes C k) target IntentVerse connect handshake (nd_dialer n') = (Inr ses, dl)"
    and "agree_and_join C k invite clock rnd delivered answered ses = Inr m"
  shows "\<exists>d'. join_group_by_invite X C rm listen clock rnd connect handshake delivered answered True (\<lambda>_. True) uri d =
    (Inr (gi_verse invite, public_bytes C k, addr, None), d')"
  using assms by (simp add: join_group_by_invite_def running_def require_def Let_def)

lemma group_side_added:
  "\<exists>s n' db dl. node_add_side sample_crypto group_key (Inr addr) 5 True (the (dk_node sample_desktop)) empty_store = (Inr (s, addr), n', db) \<and>
     dial_from 5 (public_bytes sample_crypto group_key) peer IntentVerse (Inr conn) (\<lambda>_. Inr verse_sess) (nd_dialer n') = (Inr verse_sess, dl)"
proof -
  have "load_side (public_bytes sample_crypto group_key) empty_store = None" by (simp add: load_side_def empty_store_def)
  then obtain s where s: "load_or_create sample_crypto group_key (Some (label group_key)) 5 True empty_store = Inr s"
      "sd_address s = public_bytes sample_crypto group_key"
    by (auto simp: load_or_create_def Let_def)
  have "public_bytes sample_crypto group_key \<noteq> replicate 32 2"
    by (simp add: sample_public group_key_def derive_side_def) (simp add: sample_crypto_def pad32_def numeral_eq_Suc)
  then show ?thesis using s by (simp add: node_add_side_def dial_from_def sample_desktop_def)
qed

theorem join_is_what_was_invited_witness:
  "\<exists>resp d' row. join_group_by_invite sample_libs sample_crypto (Some [9]) (Inr ''127.0.0.1:8'') (Some 5) (\<lambda>_. Some (replicate 16 1))
       (Inr 0) (\<lambda>_. Inr verse_sess) (Inr delivered_contract) (Inr resp) True (\<lambda>_. True) (encode_group_invite sample_invite) sample_desktop =
         (Inr (replicate 32 1, public_bytes sample_crypto group_key, ''127.0.0.1:8'', None), d') \<and>
     get_verse_membership (public_bytes sample_crypto group_key) (replicate 32 1) (dk_db d') = Some row \<and>
     verse_membership_record.vm_contract_hash row = contract_hash sample_crypto (vh_contract group_host)"
proof -
  obtain resp m where m: "finish_join sample_crypto group_key (vh_contract group_host) resp = Inr m" by (rule group_join_answer)
  obtain sent where "contract_query sample_crypto verse_sess group_key (Some 5) (Some (replicate 16 1)) = Inr sent"
    using contract_query_ok by blast
  moreover obtain env where "request_join sample_crypto group_key (replicate 32 1) (vh_contract group_host) [] (Some 5) (Some (replicate 16 1)) = Inr env"
    by (simp add: request_join_def sign_response_def sign_fresh_def now_unix_seconds_def fill_random_def)
  ultimately have agree: "agree_and_join sample_crypto group_key sample_invite (Some 5) (\<lambda>_. Some (replicate 16 1)) (Inr delivered_contract) (Inr resp) verse_sess = Inr m"
    using m by (simp add: agree_and_join_def delivered_contract_fetched sample_invite_def group_host_wf verse_sess_def)
  have k: "fresh_side sample_crypto (Some [9]) ''group-side'' = Inr group_key" by (simp add: fresh_side_def fill_random_def group_key_def)
  obtain s n' db dl where added:
      "node_add_side sample_crypto group_key (Inr ''127.0.0.1:8'') 5 True (the (dk_node sample_desktop)) empty_store = (Inr (s, ''127.0.0.1:8''), n', db)"
      "dial_from 5 (public_bytes sample_crypto group_key) ''h:1'' IntentVerse (Inr 0) (\<lambda>_. Inr verse_sess) (nd_dialer n') = (Inr verse_sess, dl)"
    using group_side_added by blast
  have d: "dk_node sample_desktop = Some (the (dk_node sample_desktop))" "dk_db sample_desktop = empty_store"
    by (simp_all add: sample_desktop_def empty_desktop_def)
  obtain d' where e: "join_group_by_invite sample_libs sample_crypto (Some [9]) (Inr ''127.0.0.1:8'') (Some 5) (\<lambda>_. Some (replicate 16 1))
       (Inr 0) (\<lambda>_. Inr verse_sess) (Inr delivered_contract) (Inr resp) True (\<lambda>_. True) (encode_group_invite sample_invite) sample_desktop =
         (Inr (replicate 32 1, public_bytes sample_crypto group_key, ''127.0.0.1:8'', None), d')"
    using join_answered [OF sample_invite_scans _ d(1) k _ _ _ agree, of "Inr ''127.0.0.1:8''" s "''127.0.0.1:8''" n' db sample_libs "''h:1''" "Inr 0" "\<lambda>_. Inr verse_sess" dl]
      added d(2) by (auto simp only: sample_invite_fields sample_libs_def now_or_log_zero_def option.case libs.simps simp_thms)
  obtain invite row where r: "parse_group_invite (str_trim (encode_group_invite sample_invite)) = Inr invite"
      "get_verse_membership (public_bytes sample_crypto group_key) (replicate 32 1) (dk_db d') = Some row"
      "verse_membership_record.vm_contract_hash row = gi_contract_hash invite"
    using join_is_what_was_invited [OF e, THEN conjunct1, rule_format, OF refl] by blast
  have i: "invite = sample_invite" using r(1) by (simp only: sample_invite_scans sum.inject)
  show ?thesis by (intro exI conjI, rule e, rule r(2)) (use r(3) in \<open>simp only: i sample_invite_fields(4)\<close>)
qed

text \<open>The invite of a new group leads nowhere: it names the endpoint of the moderator's side in the
  group, while the verse is registered with the first side of the node. Whoever dials the
  address finds no verse there, and the session ends.\<close>
lemma invite_of_new_group_leads_nowhere:
  assumes "create_group X C rnd listen clock ok io a name d = (Inr (verse, member, addr, uri), d')"
    and "dk_node d = Some n" "member \<notin> set (node_sides (nd_dialer n))" "member \<notin> fst ` set (nd_states n)"
  shows "\<exists>n' v invite. dk_node d' = Some n' \<and> uri = encode_group_invite invite \<and> gi_verse invite = verse \<and>
    Some (gi_dial_addr invite) = side_listen_addr member (nd_dialer n') \<and>
    map_of (vn_hosted (nd_verses n')) verse = Some a \<and> served_verses member n' = Some v \<and>
    open_session C peer conn sent v = None"
proof -
  obtain verse_key member_key s n1 db content_key token key h row where g:
      "node_add_side C member_key listen (now_or_log_zero clock) ok n (dk_db d) = (Inr (s, addr), n1, db)"
      "member = public_bytes C member_key" "verse = public_bytes C verse_key"
      "add_local_member C member (now_or_log_zero clock) (verse_host_new verse_key (group_contract C verse_key (str_trim name) member (now_or_log_zero clock)) content_key) =
         ((token, key), h)"
      "dk_node d' = Some (node_host_verse C a h n1)"
      "uri = encode_group_invite (group_invite_of verse row)" "verse_membership_record.vm_dial_addr row = Some addr"
    using assms(1,2)
    by (auto simp: create_group_def Let_def running_def and_then_eq_Inr split: sum.splits prod.splits if_splits)
  have h: "vh_verse_key h = verse_key" using g(4) by (auto simp: add_local_member_def add_member_def verse_host_new_def Let_def)
  note n1 = node_add_side_Inr [OF g(1)]
  let ?n = "node_host_verse C a h n1"
  have fresh: "member \<noteq> dl_side (nd_dialer n)" "dl_side (nd_dialer n) \<noteq> member" "map_of (dl_extras (nd_dialer n)) member = None" "map_of (nd_states n) member = None"
    using assms(3,4) by (auto simp: map_of_eq_None_iff node_sides_def)
  have "side_listen_addr member (nd_dialer ?n) = Some addr"
    using fresh n1 g(2) by (simp add: node_host_verse_def side_listen_addr_def map_add_def)
  moreover have "served_verses member ?n = Some (no_verses member_key)"
    using fresh n1 g(2) by (simp add: node_host_verse_def served_verses_def map_add_def)
  moreover have "map_of (vn_hosted (nd_verses ?n)) verse = Some a"
    using h g(3) by (simp add: node_host_verse_def host_verse_def update_conv')
  moreover have "open_session C peer conn sent (no_verses member_key) = None"
    by (simp add: open_session_def no_verses_def)
  ultimately show ?thesis
    using g(5-7) by (auto simp: group_invite_of_def unwrap_or_empty_def)
qed

end
