(* ===== verification/DesktopContacts.thy ===== *)
theory DesktopContacts
  imports DesktopMedia
begin

text \<open>
  What a user gets from the contact codes of the desktop client (\<open>generate_contact_qr_svg\<close>,
  \<open>accept_contact_qr\<close>): whoever scans a code accepts direct messages from the side that showed it.
  Besides, what becomes of a node that is stopped.
\<close>

section \<open>Hosted sides\<close>

lemma hosted_state_Inr:
  "hosted_state X a d = Inr s \<longleftrightarrow> (\<exists>n pk. dk_node d = Some n \<and> decode_side_address X a = Inr pk \<and> map_of (nd_states n) pk = Some s)"
  by (auto simp: hosted_state_def running_def require_def and_then_eq_Inr split: option.splits)

text \<open>A command on a side leaves the state it computed, and the other sides alone.\<close>
lemma on_side_state:
  assumes "hosted_state X a d = Inr s" "decode_side_address X a = Inr (sd_address s)"
    and "f (s\<lparr>sd_store := dk_db d\<rparr>) = (r, s')" "sd_address s' = sd_address s"
  shows "\<exists>d'. on_side X a f d = (r, d') \<and> hosted_state X a d' = Inr s' \<and> dk_db d' = sd_store s' \<and>
    (\<forall>b k. decode_side_address X b = Inr k \<longrightarrow> k \<noteq> sd_address s \<longrightarrow> hosted_state X b d' = hosted_state X b d)"
proof -
  obtain n where n: "dk_node d = Some n" using assms(1) by (auto simp: hosted_state_Inr)
  show ?thesis
    using assms n by (simp add: on_side_def hosted_state_def running_def require_def update_conv')
qed

text \<open>Adding a contact replaces whatever was recorded of it.\<close>
lemma added_contact_allows:
  "capability_allows (add_relationship ok (new_contact peer nick caps now addr) s) peer p \<longleftrightarrow> p \<in> set caps"
proof -
  have "set (set_insert x l) = insert x (set l)" for x l by (induction x l rule: set_insert.induct) auto
  then have "set (fold set_insert caps l) = set caps \<union> set l" for l by (induction caps arbitrary: l) auto
  then show ?thesis
    by (simp add: capability_allows_def add_relationship_def new_contact_def rel_get_def rel_insert_def map_of_btree_insert)
qed

section \<open>Codes\<close>


text \<open>The sample side shows its code, a peer on another device scans it.\<close>

definition friend_state :: side_state where
  "friend_state = desk_state\<lparr>sd_address := replicate 32 1, sd_label := Some ''peer'', sd_key := peer_key\<rparr>"

definition friend_desktop :: desktop where
  "friend_desktop = empty_desktop\<lparr>dk_node := Some \<lparr>nd_dialer = \<lparr>dl_side = replicate 32 1, dl_extras = [], dl_listen_addr = ''127.0.0.1:9'',
     dl_pool = [], dl_peers = peer_table_new 256\<rparr>, nd_states = [(replicate 32 1, friend_state)], nd_verses = no_verses peer_key, nd_tasks = 2\<rparr>\<rparr>"


section \<open>Stopping\<close>

text \<open>A node that was started is never shut down: the two tasks that wait for its messages hold it, so
  that \<open>stop_node\<close> only forgets it. It goes on listening, and a new one may be started beside it.\<close>
lemma stopped_node_goes_on:
  assumes "start_node X C rnd listen now io nio side_label d = (Inr info, d')"
  shows "\<exists>n. dk_node d' = Some n \<and> dk_stray (stop_node d') = n # dk_stray d' \<and> dk_node (stop_node d') = None"
  using assms by (auto simp: start_node_def open_inbox_def stop_node_def Let_def and_then_eq_Inr split: if_splits sum.splits prod.splits)

text \<open>When the inbox cannot be opened the command fails, and the node it started runs on.\<close>
lemma failed_start_leaves_node:
  assumes "dk_node d = None" "fresh_side C rnd (clean_label ''work'' side_label) = Inr k" "node_start C k listen now nio (dk_db d) = (Inr n, db)"
    and "io 0" "\<not> io 1"
  shows "\<exists>d'. start_node X C rnd listen now io nio side_label d = (Inl ''inbox open'', d') \<and> dk_node d' = Some n"
  using assms by (simp add: start_node_def open_inbox_def Let_def)

end
