(* ===== verification/Spec2Isabelle.thy ===== *)
theory Spec2Isabelle
  imports VerseSafety Keystore Handshake Peers GossipState Provenance SideRestart DirectSafety PublicMessages DirectMessages StorageSafety GossipSafety ReplayJournal InboxStore Connections Identity Sas DesktopGroups DesktopContacts
begin

text \<open>
  A verification development for the Sidevers protocol (\<open>crates/\<close>, \<open>desktop/tauri/\<close>): a peer-to-peer node whose
  users act as \<^emph>\<open>sides\<close> (Ed25519 keys) that exchange signed envelopes and form
  \<^emph>\<open>verses\<close>, groups under a signed contract with a shared content key.

  \<^bold>\<open>The program's parts.\<close> \<open>sidevers-core\<close> holds the data formats: a deterministic CBOR codec,
  the signed envelope, keys and payload encryption, the sealed seed on disk, addresses, linkage
  proofs, contracts, tokens and the message payloads, and the replay cache.
  \<open>sidevers-storage\<close> is a content-addressed object store. \<open>sidevers-net\<close> is the node: a
  handshake opens a session with an intent; every inbound envelope is parsed and its signature
  verified, then it passes the reputation gate and the freshness and replay gate, then the
  service of the intent (verse, direct, storage or gossip) handles it. The state of a side is
  kept in memory and written through to SQLite. \<open>desktop/tauri\<close> drives a node for a user.

  \<^bold>\<open>Theories\<close>, in the order of the calls. Formats and their codecs:

  \<^item> \<open>Prelude\<close>: \<open>Result\<close> as a sum over the error type of \<open>error.rs\<close>, machine words with
    saturating operations, big-endian bytes, UTF-8 validity, association lists.
  \<^item> \<open>Cbor\<close> (\<open>cbor.rs\<close>): \<open>write_head\<close> and \<open>read_head\<close> with every shortest-form refusal,
    the writers and readers, the map encoder. The readers take and return \<open>cbor_reader\<close>, the
    bytes with a position.
  \<^item> \<open>Codec\<close>: the interfaces the message codecs rest on, as locales: \<open>wire_codec\<close> states that
    a reader accepts exactly what a writer writes (two-sided, so it gives round trip and
    canonicity at once); \<open>message\<close>, \<open>strict_message\<close> and \<open>lax_message\<close> do so for whole messages that
    refuse or ignore trailing bytes. Each is interpreted on the model's own codecs, in the
    theory of the component that has them.
  \<^item> \<open>StringMap\<close>, \<open>Items\<close>: the \<open>BTreeMap\<close> of strings used for field values, optional and repeated
    items. \<open>Skip\<close>: the skipping of unknown items, with the locale \<open>skipper\<close> for the several
    copies of it in the sources.
  \<^item> \<open>Keys\<close> (\<open>keys.rs\<close>, \<open>payload.rs\<close>): the cryptographic primitives are the fields of the record
    \<open>crypto\<close>, an argument of everything that uses them; \<open>signature_laws\<close>, \<open>aead_laws\<close>, \<open>dh_laws\<close>
    and \<open>hash_laws\<close> state what the code relies on, and \<open>sample_crypto\<close> satisfies them.
  \<^item> \<open>Envelope\<close> (\<open>envelope.rs\<close>), \<open>Linkage\<close> (\<open>linkage.rs\<close>), \<open>Keystore\<close> (\<open>keystore.rs\<close>),
    \<open>VerseContract\<close> (\<open>verse.rs\<close> of the core crate), \<open>VerseMessages\<close> (\<open>messages/verse.rs\<close>): the signed
    formats, each with its signer, its encoder and its decoder. \<open>HandshakeMessages\<close>,
    \<open>DirectMessages\<close>, \<open>SideRecords\<close> (profiles, retirements, storage preferences),
    \<open>PeerMessages\<close> (peers, forwarding, rendezvous), \<open>PublicMessages\<close>, \<open>DeviceMessages\<close> and
    \<open>StorageMessages\<close> do the same for the other files of \<open>messages/\<close> and \<open>storage_protocol.rs\<close>;
    \<open>QrCodes\<close> has the base32 codes of \<open>messages/device.rs\<close>.
  \<^item> \<open>Identity\<close> (\<open>address.rs\<close>, \<open>features.rs\<close>, \<open>log_id.rs\<close>) and \<open>Sas\<close> (\<open>sas.rs\<close>): addresses over
    a bech32 parameter, the feature registry, and the words compared when devices pair.

  Admission and connections:

  \<^item> \<open>Replay\<close> (\<open>replay.rs\<close>), \<open>ReplayJournal\<close> (\<open>replay_journal.rs\<close>), \<open>Reputation\<close> (\<open>reputation.rs\<close>)
    and, on top, \<open>Gate\<close> (\<open>check_reputation_gate\<close> and \<open>check_freshness_and_replay_metered\<close> of
    \<open>node.rs\<close>, counters of \<open>metrics.rs\<close>).
  \<^item> \<open>Framing\<close> (\<open>framing.rs\<close>, \<open>session.rs\<close>), \<open>Handshake\<close> (\<open>handshake.rs\<close>): frames, sessions with
    their category filter, both roles of the handshake. \<open>Connections\<close>: the limit on handshakes
    (\<open>handshake_limit.rs\<close>), the pool (\<open>connection_pool.rs\<close>), \<open>hole_punch.rs\<close> and the dial
    functions of \<open>node.rs\<close>.

  Services, each a function from the state and an envelope to the new state, what is sent
  and what reaches the application:

  \<^item> \<open>VerseHost\<close> (\<open>verse.rs\<close> of the net crate, \<open>verse_post_store.rs\<close>): one hosted verse and its post
    log. \<open>VerseServer\<close> (\<open>serve_verse\<close> and the verse functions of \<open>node.rs\<close>): handlers, sessions,
    tasks, owner operations and the member's side. \<open>VerseSystem\<close>: the service as a step
    relation and what each handler changes. \<open>VerseSafety\<close>: the safety and liveness properties.
  \<^item> \<open>Tables\<close>, \<open>Contacts\<close> (\<open>relationships.rs\<close>, with the locales \<open>keyed_table\<close> and \<open>table_mirror\<close>),
    \<open>SideStore\<close> (\<open>side_store.rs\<close>), \<open>SideState\<close> (\<open>side.rs\<close>): a side in memory and in its database,
    every mutation with its write-through. \<open>SideSafety\<close>: what deltas can do. \<open>SideRestart\<close>: what
    a restart restores.
  \<^item> \<open>DirectService\<close> (\<open>serve_direct\<close>, pairing, revocation, retirement) and \<open>DirectSafety\<close>.
  \<^item> \<open>References\<close>, \<open>Objects\<close>, \<open>Chunks\<close> (\<open>sidevers-storage\<close>): rows and files of the store, eviction,
    manifests. \<open>Provenance\<close> (\<open>provenance.rs\<close>), \<open>StorageService\<close> (\<open>serve_storage\<close> and its client
    functions) and \<open>StorageSafety\<close>.
  \<^item> \<open>Mailbox\<close> (\<open>forward.rs\<close>), \<open>Peers\<close> (\<open>peers.rs\<close>), \<open>GossipState\<close> (\<open>gossip.rs\<close>),
    \<open>GossipService\<close> (\<open>serve_gossip\<close>, the delivery of held envelopes, fan-out) and \<open>GossipSafety\<close>.
  \<^item> \<open>InboxStore\<close> (\<open>inbox_store.rs\<close>): the table of received messages.

  The desktop client (\<open>desktop/tauri/src/main.rs\<close>), whose commands are functions on the record
  \<open>desktop\<close>:

  \<^item> \<open>DesktopText\<close>: texts, what a message shows, backups of the seed, avatars, the commands on keys.
    The record \<open>libs\<close> holds the third-party crates for hex, base64, bech32, Unicode normal forms and
    socket addresses. \<open>DesktopNode\<close>: starting and stopping, the queues of the node, profiles,
    contacts, pairing. \<open>DesktopMedia\<close>: images and voice notes. \<open>DesktopGroups\<close>: groups.
    \<open>DesktopContacts\<close>: what a scanned contact may do, and what stopping leaves.

  \<^bold>\<open>How state and effects are modelled.\<close> A Rust struct is a record, an enum a datatype, \<open>Result\<close> a
  sum with the error on the left. Integers keep their width as words, and additions wrap
  or saturate as written; a \<open>usize\<close> that counts elements is a \<open>nat\<close>. The clock, the outcomes of
  \<open>getrandom\<close>, of network calls, of SQL statements and of file operations are arguments: \<open>None\<close>,
  an error or \<open>False\<close> is a failing call. A SQLite table is an association list under its primary
  key, a file system a map from paths to bytes. Hosts live in a heap of handles, because
  sessions share them (\<open>Arc<Mutex>\<close>). A handler returns the new node, what it sends, and the
  tasks it spawns; tasks run later, as steps of their own, in any order. The step relation
  takes every envelope that parses and verifies, whether or not the gate would admit it,
  so its invariants do not depend on the gate.

  \<^bold>\<open>What the lemmas show.\<close> For each format: the decoder accepts exactly the canonical encodings of
  well-formed values with valid signatures, and what the signers produce is accepted. For
  the replay cache: bounded size, no refresh on a hit, detection within the time to live,
  the journal mirrors the cache and carries it over restarts. For reputation and the handshake
  limit: rate bounds over any run. For the gate: what was admitted is not admitted again
  while its entry lives. For verses: who can join, leave and post; key rotation and its
  delivery; joining and posting end to end; invariants of every reachable state. For the
  handshake: both ends agree on key, peer and intent, and refuse with a reason. For sides: who
  becomes a co-holder, pairing end to end, who may write, deltas in any order, restarts. For
  storage and gossip: what is stored can be fetched, chunks come together again, eviction and
  unpinning, held envelopes are delivered once and in order, broadcasts are handed on once. For
  the client: backups open again and stay in their directory, a media message names a
  stored object, joining by an invite gives a membership of the invited verse alone. Other
  lemmas show deviations from the intended behaviour on concrete states: the replay gap,
  re-consent at the default host only, readmission by an old request, deltas sent to revoked
  devices, objects too large to be fetched, invites that lead nowhere.

  \<^bold>\<open>Bounds and termination.\<close> No definition uses fuel to cut a loop short. Recursion is structural
  except for \<open>trim\<close>, whose measure is the number of entries, and \<open>chunks\<close> and \<open>utf8_chunks\<close>, whose
  measure is the rest of the list. Depth limits (\<open>MAX_CBOR_SKIP_DEPTH\<close>, the nesting of
  references) and the number of hole-punch attempts are those of the code. Lengths below
  \<open>2 ^ 64\<close> in well-formedness predicates are those a CBOR head can carry.

  \<^bold>\<open>Not modelled.\<close> QUIC, TLS, certificates and file permissions, which are glue around
  third-party crates; the SQL engine and the opening of databases; telemetry, the counters the
  gate does not bump and the metrics endpoint, the periodic timers, which call modelled
  sweeps; the FFI, the command line, the node binary and the conformance harness, which call
  the modelled functions; of the client the updater, the entry point, the choice of the data
  directory and the drawing of codes.
\<close>

section \<open>The wire and the gate\<close>

text \<open>
  What a session does with the bytes of one envelope: parse, verify, pass the two gates. An
  envelope that does not parse or verify ends the session without touching the state.
\<close>

definition receive :: "crypto \<Rightarrow> u64 option \<Rightarrow> byte list \<Rightarrow> gate \<Rightarrow> envelope option \<times> gate" where
  "receive C clock bs g = (case from_wire_bytes C bs of
     Inl _ \<Rightarrow> (None, g)
   | Inr e \<Rightarrow> (let (ok, g) = admit clock e g in (if ok then Some e else None, g)))"

lemma receive_admits:
  assumes "receive C clock bs g = (Some e, g')"
  shows "from_wire_bytes C bs = Inr e \<and> admit clock e g = (True, g')"
  using assms by (auto simp: receive_def split: sum.splits if_splits prod.splits)

lemma receive_same_bytes:
  assumes "from_wire_bytes C bs = Inr e" "\<not> fst (admit clock e g)"
  shows "fst (receive C clock bs g) = None"
  using assms by (simp add: receive_def split_beta)

section \<open>Properties\<close>

text \<open>C5: the bytes of an envelope that was received are not received a second time while the replay
  entry lives, whatever other envelopes come in between, as long as they are fewer than
  the cache has room for.\<close>
theorem bytes_received_once:
  assumes "gate_inv g" "receive C (Some t0) bs g = (Some e, g1)" "admit_all ops g1 = (oks, g2)"
    and "\<forall>op \<in> set ops. \<forall>now. fst op = Some now \<longrightarrow> unat now - unat t0 < unat (ttl (g_replay g1))"
    and "unat t1 - unat t0 < unat (ttl (g_replay g1))"
    and "recent t0 (g_replay g1) + length ops < max_entries (g_replay g1)"
  shows "fst (receive C (Some t1) bs g2) = None"
proof -
  have r: "from_wire_bytes C bs = Inr e" "admit (Some t0) e g = (True, g1)"
    using receive_admits [OF assms(2)] by simp_all
  have "\<not> fst (admit (Some t1) e g2)"
    using assms(4-6) by (intro admitted_then_refused [OF assms(1) r(2) assms(3)]) (simp_all add: alive_iff)
  then show ?thesis by (rule receive_same_bytes [OF r(1)])
qed

definition sample_wire :: envelope where
  "sample_wire = sign_with sample_crypto 0x20 \<lparr>seed = replicate 32 1, label = ''a''\<rparr> None [1, 2] 500 (replicate 16 7)"

lemma sample_wire_parses: "from_wire_bytes sample_crypto (to_wire_bytes sample_wire) = Inr sample_wire"
proof -
  have "wf_envelope sample_crypto sample_wire"
    unfolding sample_wire_def
    by (rule sign_with_wf [OF sample_signature_laws]) (simp_all add: wf_side_def wf_bytes_def wf_fixed_def)
  then show ?thesis by (simp add: from_wire_bytes_iff)
qed

lemma sample_wire_fields: "env_from sample_wire = replicate 32 1" "env_timestamp sample_wire = 500"
    "env_nonce sample_wire = replicate 16 7"
  by (simp_all add: sample_wire_def sample_public)

lemma sample_wire_admitted:
  "\<exists>g'. admit (Some 120) sample_wire gate_new = (True, g') \<and> ttl (g_replay g') = 600 \<and>
     max_entries (g_replay g') = 16384 \<and> recent 120 (g_replay g') = 1"
  by (simp add: sample_wire_fields probe_simps recent_def)

theorem bytes_received_once_witness:
  "fst (receive sample_crypto (Some 130) (to_wire_bytes sample_wire)
     (snd (receive sample_crypto (Some 120) (to_wire_bytes sample_wire) gate_new))) = None"
proof -
  obtain g' where g': "admit (Some 120) sample_wire gate_new = (True, g')" "ttl (g_replay g') = 600"
      "max_entries (g_replay g') = 16384" "recent 120 (g_replay g') = 1"
    using sample_wire_admitted by blast
  have r: "receive sample_crypto (Some 120) (to_wire_bytes sample_wire) gate_new = (Some sample_wire, g')"
    by (simp add: receive_def sample_wire_parses g')
  have "admit_all [] g' = ([], g')" by simp
  from bytes_received_once [OF gate_inv_new r this, of 130] show ?thesis by (simp add: r g')
qed

end
